(* ===== verification/Go_Prelude.thy ===== *)
theory Go_Prelude
  imports Main "HOL-Library.Word" "HOL-Library.Sublist"
begin

text \<open>
  The vocabulary shared by every component: Go strings (byte strings, so a \<open>char list\<close> whose
  elements are the 256 bytes), the functions of the packages \<open>strings\<close>, \<open>strconv\<close> and \<open>net\<close>
  that the sources call, results that may be errors, and a small theory of state machines
  (\<open>run\<close>, with the locale that lifts a one-step invariant to runs).
\<close>

named_theorems go_simps \<open>equations of the Go string functions used by the components\<close>
named_theorems inv_intros \<open>preservation of component invariants\<close>

section \<open>Results\<close>

text \<open>A Go pair \<open>(value, error)\<close> whose error is consulted first: \<open>Inl\<close> carries the error text.\<close>

type_synonym 'a result = "string + 'a"

fun is_ok :: "'e + 'a \<Rightarrow> bool" where
  "is_ok (Inl _) = False"
| "is_ok (Inr _) = True"

lemma is_ok_iff: "is_ok r \<longleftrightarrow> (\<exists>x. r = Inr x)"
  by (cases r) auto

section \<open>Bytes and characters\<close>

definition is_ascii :: "char \<Rightarrow> bool" where
  "is_ascii c \<longleftrightarrow> (of_char c :: int) < 128"

definition is_lower :: "char \<Rightarrow> bool" where
  "is_lower c \<longleftrightarrow> (of_char CHR ''a'' :: int) \<le> of_char c \<and> (of_char c :: int) \<le> of_char CHR ''z''"

definition is_upper :: "char \<Rightarrow> bool" where
  "is_upper c \<longleftrightarrow> (of_char CHR ''A'' :: int) \<le> of_char c \<and> (of_char c :: int) \<le> of_char CHR ''Z''"

definition is_digit :: "char \<Rightarrow> bool" where
  "is_digit c \<longleftrightarrow> (of_char CHR ''0'' :: int) \<le> of_char c \<and> (of_char c :: int) \<le> of_char CHR ''9''"

definition lower_char :: "char \<Rightarrow> char" where
  "lower_char c = (if is_upper c then char_of ((of_char c :: int) + 32) else c)"

lemmas char_class_defs = is_ascii_def is_lower_def is_upper_def is_digit_def

section \<open>Package strings\<close>

text \<open>
  \<open>strings.ToLower\<close> maps the ASCII capitals of an ASCII string; a string with a byte from 128 on
  goes through the Unicode tables, which are the parameter \<open>ul\<close>.
\<close>

definition to_lower :: "(string \<Rightarrow> string) \<Rightarrow> string \<Rightarrow> string" where
  "to_lower ul s = (if list_all is_ascii s then map lower_char s else ul s)"

text \<open>\<open>strings.Split\<close> and \<open>strings.SplitN\<close> for a separator of one byte.\<close>

fun split_on :: "char \<Rightarrow> string \<Rightarrow> string list" where
  "split_on c [] = [[]]"
| "split_on c (x # xs) =
     (if x = c then [] # split_on c xs
      else (x # hd (split_on c xs)) # tl (split_on c xs))"

fun cut :: "char \<Rightarrow> string \<Rightarrow> (string \<times> string) option" where
  "cut c [] = None"
| "cut c (x # xs) =
     (if x = c then Some ([], xs)
      else map_option (\<lambda>(a, b). (x # a, b)) (cut c xs))"

fun split_n :: "nat \<Rightarrow> char \<Rightarrow> string \<Rightarrow> string list" where
  "split_n 0 c s = []"
| "split_n (Suc 0) c s = [s]"
| "split_n (Suc (Suc n)) c s =
     (case cut c s of None \<Rightarrow> [s] | Some (a, b) \<Rightarrow> a # split_n (Suc n) c b)"

fun join :: "string \<Rightarrow> string list \<Rightarrow> string" where
  "join sep [] = []"
| "join sep [x] = x"
| "join sep (x # y # ys) = x @ sep @ join sep (y # ys)"

definition has_prefix :: "string \<Rightarrow> string \<Rightarrow> bool" where
  "has_prefix s p \<longleftrightarrow> take (length p) s = p"

definition has_suffix :: "string \<Rightarrow> string \<Rightarrow> bool" where
  "has_suffix s p \<longleftrightarrow> length p \<le> length s \<and> drop (length s - length p) s = p"

definition trim_suffix :: "string \<Rightarrow> string \<Rightarrow> string" where
  "trim_suffix s p = (if has_suffix s p then take (length s - length p) s else s)"

text \<open>
  \<open>strings.TrimSpace\<close> removes the code points of \<open>unicode.IsSpace\<close> at both ends. In UTF-8 they are
  the byte sequences below; a string ends with such a code point exactly if it ends with its bytes.
\<close>

definition utf8_spaces :: "int list list" where
  "utf8_spaces =
     [[9], [10], [11], [12], [13], [32], [194, 133], [194, 160], [225, 154, 128],
      [226, 128, 128], [226, 128, 129], [226, 128, 130], [226, 128, 131], [226, 128, 132],
      [226, 128, 133], [226, 128, 134], [226, 128, 135], [226, 128, 136], [226, 128, 137],
      [226, 128, 138], [226, 128, 168], [226, 128, 169], [226, 128, 175], [226, 129, 159],
      [227, 128, 128]]"

definition space_seqs :: "string list" where
  "space_seqs = map (map char_of) utf8_spaces"

fun leading_seq :: "string list \<Rightarrow> string \<Rightarrow> string option" where
  "leading_seq [] s = None"
| "leading_seq (p # ps) s = (if has_prefix s p then Some p else leading_seq ps s)"

function trim_left_seqs :: "string list \<Rightarrow> string \<Rightarrow> string" where
  "trim_left_seqs ps s =
     (case leading_seq ps s of
        None \<Rightarrow> s
      | Some p \<Rightarrow> if p = [] \<or> s = [] then s else trim_left_seqs ps (drop (length p) s))"
  by pat_completeness auto
termination
  by (relation "measure (\<lambda>(ps, s). length s)") auto

declare trim_left_seqs.simps [simp del]

definition trim_space :: "string \<Rightarrow> string" where
  "trim_space s =
     rev (trim_left_seqs (map rev space_seqs) (rev (trim_left_seqs space_seqs s)))"

text \<open>\<open>strings.TrimLeft\<close> and \<open>strings.Trim\<close> with a set of ASCII characters.\<close>

definition trim_left_set :: "char list \<Rightarrow> string \<Rightarrow> string" where
  "trim_left_set cs s = dropWhile (\<lambda>c. c \<in> set cs) s"

definition trim_set :: "char list \<Rightarrow> string \<Rightarrow> string" where
  "trim_set cs s = rev (dropWhile (\<lambda>c. c \<in> set cs) (rev (dropWhile (\<lambda>c. c \<in> set cs) s)))"

section \<open>Package strconv\<close>

definition digit_char :: "int \<Rightarrow> char" where
  "digit_char d = char_of (48 + d)"

definition digit_val :: "char \<Rightarrow> int" where
  "digit_val c = of_char c - 48"

text \<open>Verb \<open>%d\<close>.\<close>

function show_digits :: "int \<Rightarrow> string" where
  "show_digits n = (if n < 10 then [digit_char n] else show_digits (n div 10) @ [digit_char (n mod 10)])"
  by pat_completeness auto
termination
  by (relation "measure nat") auto

declare show_digits.simps [simp del]

definition show_int :: "int \<Rightarrow> string" where
  "show_int i = (if i < 0 then CHR ''-'' # show_digits (- i) else show_digits i)"

text \<open>Verb \<open>%x\<close>: lower-case hexadecimal, without padding for a number, two digits a byte for bytes.\<close>

definition hex_char :: "int \<Rightarrow> char" where
  "hex_char d = (if d < 10 then char_of (48 + d) else char_of (87 + d))"

function show_hex :: "int \<Rightarrow> string" where
  "show_hex n = (if n < 16 then [hex_char n] else show_hex (n div 16) @ [hex_char (n mod 16)])"
  by pat_completeness auto
termination
  by (relation "measure nat") auto

declare show_hex.simps [simp del]

definition hex_byte :: "8 word \<Rightarrow> string" where
  "hex_byte b = [hex_char (uint b div 16), hex_char (uint b mod 16)]"

definition hex_bytes :: "8 word list \<Rightarrow> string" where
  "hex_bytes bs = concat (map hex_byte bs)"

fun digits_val :: "int \<Rightarrow> string \<Rightarrow> int option" where
  "digits_val acc [] = Some acc"
| "digits_val acc (c # cs) =
     (if is_digit c then digits_val (10 * acc + digit_val c) cs else None)"

definition parse_digits :: "string \<Rightarrow> int option" where
  "parse_digits s = (if s = [] then None else digits_val 0 s)"

text \<open>\<open>strconv.Atoi\<close> on a 64-bit platform: \<open>None\<close> for a syntax or a range error.\<close>

definition atoi :: "string \<Rightarrow> int option" where
  "atoi s =
     (case s of
        [] \<Rightarrow> None
      | c # cs \<Rightarrow>
          if c = CHR ''-''
          then (case parse_digits cs of
                  None \<Rightarrow> None
                | Some n \<Rightarrow> if n \<le> 2 ^ 63 then Some (- n) else None)
          else (case parse_digits (if c = CHR ''+'' then cs else s) of
                  None \<Rightarrow> None
                | Some n \<Rightarrow> if n < 2 ^ 63 then Some n else None))"

text \<open>\<open>strconv.ParseUint(s, 10, 16)\<close>.\<close>

definition parse_uint16 :: "string \<Rightarrow> int option" where
  "parse_uint16 s =
     (case parse_digits s of None \<Rightarrow> None | Some n \<Rightarrow> if n < 2 ^ 16 then Some n else None)"

section \<open>Package base64\<close>

text \<open>\<open>base64.StdEncoding.EncodeToString\<close>.\<close>

definition base64_alphabet :: string where
  "base64_alphabet = ''ABCDEFGHIJKLMNOPQRSTUVWXYZabcdefghijklmnopqrstuvwxyz0123456789+/''"

definition base64_char :: "nat \<Rightarrow> char" where
  "base64_char n = base64_alphabet ! (n mod 64)"

fun base64 :: "string \<Rightarrow> string" where
  "base64 [] = []"
| "base64 [a] =
     (let x = of_char a * 16 in [base64_char (x div 64), base64_char x, CHR ''='', CHR ''=''])"
| "base64 [a, b] =
     (let x = (of_char a * 256 + of_char b) * 4 in
      [base64_char (x div 4096), base64_char (x div 64), base64_char x, CHR ''=''])"
| "base64 (a # b # c # s) =
     (let x = (of_char a * 256 + of_char b) * 256 + of_char c in
      base64_char (x div 262144) # base64_char (x div 4096) # base64_char (x div 64) # base64_char x
        # base64 s)"

section \<open>Package net\<close>

definition last_cut :: "char \<Rightarrow> string \<Rightarrow> (string \<times> string) option" where
  "last_cut c s = map_option (\<lambda>(a, b). (rev b, rev a)) (cut c (rev s))"

definition addr_error :: "string \<Rightarrow> string \<Rightarrow> string" where
  "addr_error a e = (if a = [] then e else ''address '' @ a @ '': '' @ e)"

text \<open>\<open>net.SplitHostPort\<close>: host and port of \<open>host:port\<close> or \<open>[host]:port\<close>.\<close>

definition split_host_port :: "string \<Rightarrow> (string \<times> string) result" where
  "split_host_port s =
     (case last_cut CHR '':'' s of
        None \<Rightarrow> Inl (addr_error s ''missing port in address'')
      | Some (h, p) \<Rightarrow>
          if hd s = CHR ''['' then
            (case cut CHR '']'' s of
               None \<Rightarrow> Inl (addr_error s (''missing '' @ [CHR 0x27] @ '']'' @ [CHR 0x27] @ '' in address''))
             | Some (a, rest) \<Rightarrow>
                 if rest = [] then Inl (addr_error s ''missing port in address'')
                 else if Suc (length a) \<noteq> length h then
                   (if hd rest = CHR '':'' then Inl (addr_error s ''too many colons in address'')
                    else Inl (addr_error s ''missing port in address''))
                 else if CHR ''['' \<in> set (tl s) then
                   Inl (addr_error s (''unexpected '' @ [CHR 0x27] @ ''['' @ [CHR 0x27] @ '' in address''))
                 else if CHR '']'' \<in> set rest then
                   Inl (addr_error s (''unexpected '' @ [CHR 0x27] @ '']'' @ [CHR 0x27] @ '' in address''))
                 else Inr (tl a, p))
          else if CHR '':'' \<in> set h then Inl (addr_error s ''too many colons in address'')
          else if CHR ''['' \<in> set s then
            Inl (addr_error s (''unexpected '' @ [CHR 0x27] @ ''['' @ [CHR 0x27] @ '' in address''))
          else if CHR '']'' \<in> set s then
            Inl (addr_error s (''unexpected '' @ [CHR 0x27] @ '']'' @ [CHR 0x27] @ '' in address''))
          else Inr (h, p))"

section \<open>Facts about the Go functions\<close>

lemma split_on_nonempty [simp]: "split_on c s \<noteq> []"
  by (induction s) auto

lemma split_on_notin [go_simps]: "c \<notin> set s \<Longrightarrow> split_on c s = [s]"
  by (induction s) auto

lemma split_on_append [go_simps]: "c \<notin> set s \<Longrightarrow> split_on c (s @ c # t) = s # split_on c t"
  by (induction s) auto

lemma split_on_sep: "split_on c (a @ c # b) = split_on c a @ split_on c b"
  by (induction a) auto

lemma last_split_on [go_simps]: "c \<notin> set b \<Longrightarrow> last (split_on c (a @ c # b)) = b"
  by (simp add: split_on_sep split_on_notin)

lemma split_on_parts: "p \<in> set (split_on c s) \<Longrightarrow> c \<notin> set p"
proof (induction s arbitrary: p)
  case (Cons x s)
  then show ?case
    by (cases "split_on c s") (auto split: if_splits)
qed simp

lemma join_split_on: "join [c] (split_on c s) = s"
proof (induction s)
  case (Cons x s)
  then show ?case
    using split_on_nonempty [of c s] by (cases "split_on c s"; cases "tl (split_on c s)") auto
qed simp

lemma split_on_join [go_simps]:
  "xs \<noteq> [] \<Longrightarrow> \<forall>x \<in> set xs. c \<notin> set x \<Longrightarrow> split_on c (join [c] xs) = xs"
proof (induction xs)
  case (Cons x xs)
  then show ?case
    by (cases xs) (auto simp: split_on_notin split_on_append)
qed simp

lemma set_join: "x \<in> set (join sep xs) \<Longrightarrow> x \<in> set sep \<or> (\<exists>y \<in> set xs. x \<in> set y)"
proof (induction xs)
  case (Cons y xs)
  then show ?case
    by (cases xs) auto
qed simp

lemma split_on_chars: "x \<in> set s \<Longrightarrow> x = c \<or> (\<exists>p \<in> set (split_on c s). x \<in> set p)"
  using set_join [of x "[c]" "split_on c s"] by (simp add: join_split_on)

lemma cut_None: "cut c s = None \<longleftrightarrow> c \<notin> set s"
  by (induction s) (auto split: if_splits)

lemma cut_append [go_simps]: "c \<notin> set a \<Longrightarrow> cut c (a @ c # b) = Some (a, b)"
  by (induction a) auto

lemma cut_SomeD: "cut c s = Some (a, b) \<Longrightarrow> s = a @ c # b \<and> c \<notin> set a"
  by (induction s arbitrary: a) (auto split: if_splits)

lemma last_cut_None: "last_cut c s = None \<longleftrightarrow> c \<notin> set s"
  by (simp add: last_cut_def cut_None)

lemma last_cut_append [go_simps]: "c \<notin> set b \<Longrightarrow> last_cut c (a @ c # b) = Some (a, b)"
  by (simp add: last_cut_def cut_append)

lemma has_prefix_iff: "has_prefix s p \<longleftrightarrow> (\<exists>q. s = p @ q)"
  unfolding has_prefix_def
proof
  assume "take (length p) s = p"
  then have "s = p @ drop (length p) s"
    by (metis append_take_drop_id)
  then show "\<exists>q. s = p @ q" ..
qed auto

lemma has_suffix_iff: "has_suffix s p \<longleftrightarrow> (\<exists>q. s = q @ p)"
proof
  assume "has_suffix s p"
  then show "\<exists>q. s = q @ p"
    by (metis append_take_drop_id has_suffix_def)
qed (auto simp: has_suffix_def)

lemma trim_suffix_append [go_simps]: "trim_suffix (q @ p) p = q"
  by (simp add: trim_suffix_def has_suffix_def)

lemma trim_suffix_id [go_simps]: "\<not> has_suffix s p \<Longrightarrow> trim_suffix s p = s"
  by (simp add: trim_suffix_def)

text \<open>The text before and after a separator that the second text does not contain is unique.\<close>

lemma append_sep_eq:
  assumes "c \<notin> set b" "c \<notin> set b'"
  shows "a @ c # b = a' @ c # b' \<longleftrightarrow> a = a' \<and> b = (b' :: string)"
proof
  assume "a @ c # b = a' @ c # b'"
  then have "Some (a, b) = Some (a', b')"
    using last_cut_append [OF assms(1), of a] last_cut_append [OF assms(2), of a'] by (simp only:)
  then show "a = a' \<and> b = b'" by simp
qed simp

lemma has_suffix_sep:
  assumes "c \<notin> set b" "c \<notin> set b'"
  shows "has_suffix (a @ c # b) (c # b') \<longleftrightarrow> b = b'"
  unfolding has_suffix_iff append_sep_eq [OF assms] by simp

subsection \<open>Decimal numbers\<close>

lemma of_char_digit: "0 \<le> d \<Longrightarrow> d < 10 \<Longrightarrow> (of_char (digit_char d) :: int) = 48 + d"
  by (simp add: digit_char_def)

text \<open>The digits, for evaluation.\<close>

lemma of_char_hex: "0 \<le> d \<Longrightarrow> d < 16 \<Longrightarrow>
    (of_char (hex_char d) :: int) = (if d < 10 then 48 + d else 87 + d)"
  by (simp add: hex_char_def)

lemma digit_char_values [simp]:
  "digit_char 0 = CHR ''0''" "digit_char 1 = CHR ''1''" "digit_char 2 = CHR ''2''"
  "digit_char 3 = CHR ''3''" "digit_char 4 = CHR ''4''" "digit_char 5 = CHR ''5''"
  "digit_char 6 = CHR ''6''" "digit_char 7 = CHR ''7''" "digit_char 8 = CHR ''8''"
  "digit_char 9 = CHR ''9''"
  by (simp_all add: digit_char_def char_of_def)

lemma digit_char_is_digit [simp]: "0 \<le> d \<Longrightarrow> d < 10 \<Longrightarrow> is_digit (digit_char d)"
  by (simp add: is_digit_def of_char_digit)

lemma digit_val_char [simp]: "0 \<le> d \<Longrightarrow> d < 10 \<Longrightarrow> digit_val (digit_char d) = d"
  by (simp add: digit_val_def of_char_digit)

lemma digits_val_append:
  "digits_val acc (xs @ ys) = (case digits_val acc xs of None \<Rightarrow> None | Some n \<Rightarrow> digits_val n ys)"
  by (induction xs arbitrary: acc) auto

lemma show_digits_digits: "0 \<le> n \<Longrightarrow> show_digits n \<noteq> [] \<and> list_all is_digit (show_digits n)"
proof (induction n rule: show_digits.induct)
  case (1 n)
  then show ?case
    by (cases "n < 10") (auto simp: show_digits.simps [of n])
qed

lemma digits_val_show: "0 \<le> n \<Longrightarrow> digits_val 0 (show_digits n) = Some n"
proof (induction n rule: show_digits.induct)
  case (1 n)
  show ?case
  proof (cases "n < 10")
    case True
    then show ?thesis using "1.prems" by (subst show_digits.simps) simp
  next
    case False
    then show ?thesis
      using "1.IH" "1.prems" by (subst show_digits.simps) (simp add: digits_val_append)
  qed
qed

lemma parse_digits_show [go_simps]: "0 \<le> n \<Longrightarrow> parse_digits (show_digits n) = Some n"
  using show_digits_digits [of n] by (simp add: parse_digits_def digits_val_show)

lemma show_int_nonneg: "0 \<le> n \<Longrightarrow> show_int n = show_digits n"
  by (simp add: show_int_def)

lemma show_int_digits: "0 \<le> n \<Longrightarrow> c \<in> set (show_int n) \<Longrightarrow> is_digit c"
  using show_digits_digits [of n] by (auto simp: show_int_def list_all_iff)

lemma show_int_nonempty [simp]: "0 \<le> n \<Longrightarrow> show_int n \<noteq> []"
  using show_digits_digits [of n] by (simp add: show_int_def)

lemma show_int_inj:
  assumes "0 \<le> m" "0 \<le> n"
  shows "show_int m = show_int n \<longleftrightarrow> m = n"
proof
  assume "show_int m = show_int n"
  then have "digits_val 0 (show_digits m) = digits_val 0 (show_digits n)"
    using assms by (simp only: show_int_nonneg)
  then show "m = n"
    using assms by (simp only: digits_val_show option.inject)
qed (simp only:)

lemma not_digit_simps [simp]:
  "\<not> is_digit CHR ''-''" "\<not> is_digit CHR ''+''" "\<not> is_digit CHR '':''" "\<not> is_digit CHR '',''"
  "\<not> is_digit CHR ''.''" "\<not> is_digit CHR ''[''" "\<not> is_digit CHR '']''" "\<not> is_digit CHR ''/''"
  by (simp_all add: is_digit_def)

text \<open>\<open>Atoi\<close> reads back what \<open>%d\<close> prints.\<close>

lemma atoi_show_int [go_simps]:
  assumes "0 \<le> n" "n < 2 ^ 63"
  shows "atoi (show_int n) = Some n"
proof -
  obtain c cs where s: "show_digits n = c # cs" "is_digit c"
    using show_digits_digits [OF assms(1)] by (cases "show_digits n") auto
  then have "c \<noteq> CHR ''-''" "c \<noteq> CHR ''+''"
    by auto
  then show ?thesis
    using parse_digits_show [OF assms(1)] assms s by (simp add: show_int_def atoi_def)
qed

subsection \<open>Trimming\<close>

lemma leading_seq_None: "\<forall>p \<in> set ps. p \<noteq> [] \<and> (s = [] \<or> hd p \<noteq> hd s) \<Longrightarrow> leading_seq ps s = None"
proof (induction ps)
  case (Cons p ps)
  then have "\<not> has_prefix s p"
    by (cases p; cases s) (auto simp: has_prefix_def)
  with Cons show ?case by simp
qed simp

lemma trim_left_id: "\<forall>p \<in> set ps. p \<noteq> [] \<and> (s = [] \<or> hd p \<noteq> hd s) \<Longrightarrow> trim_left_seqs ps s = s"
  by (subst trim_left_seqs.simps) (simp add: leading_seq_None)

text \<open>Characters that neither start nor end the encoding of a space.\<close>

definition solid :: "char \<Rightarrow> bool" where
  "solid c \<longleftrightarrow> list_all (\<lambda>p. hd p \<noteq> c \<and> last p \<noteq> c) space_seqs"

lemma space_seqs_nonempty: "p \<in> set space_seqs \<Longrightarrow> p \<noteq> []"
  by (auto simp: space_seqs_def utf8_spaces_def)

lemma trim_space_id [go_simps]: "s \<noteq> [] \<Longrightarrow> solid (hd s) \<Longrightarrow> solid (last s) \<Longrightarrow> trim_space s = s"
proof -
  assume s: "s \<noteq> []" "solid (hd s)" "solid (last s)"
  have "trim_left_seqs space_seqs s = s"
    using s space_seqs_nonempty by (intro trim_left_id) (auto simp: solid_def list_all_iff)
  moreover have "trim_left_seqs (map rev space_seqs) (rev s) = rev s"
    using s space_seqs_nonempty by (intro trim_left_id) (auto simp: solid_def list_all_iff hd_rev)
  ultimately show ?thesis
    by (simp add: trim_space_def)
qed

lemma trim_space_Nil [simp]: "trim_space [] = []"
  using space_seqs_nonempty by (simp add: trim_space_def trim_left_id)

lemma solid_ascii: "32 < (of_char c :: int) \<Longrightarrow> (of_char c :: int) < 128 \<Longrightarrow> solid c"
  by (auto simp: solid_def space_seqs_def utf8_spaces_def simp flip: of_char_eq_iff)

section \<open>Machines\<close>

text \<open>
  A component driven by a sequence of events is a step function; \<open>run\<close> feeds it a list of events
  and \<open>run_outs\<close> also collects what the steps return. A component with choice is a step relation,
  whose reachable states are \<open>reach\<close>.
\<close>

fun run :: "('s \<Rightarrow> 'e \<Rightarrow> 's) \<Rightarrow> 's \<Rightarrow> 'e list \<Rightarrow> 's" where
  "run f s [] = s"
| "run f s (e # es) = run f (f s e) es"

fun run_outs :: "('s \<Rightarrow> 'e \<Rightarrow> 'o \<times> 's) \<Rightarrow> 's \<Rightarrow> 'e list \<Rightarrow> 'o list \<times> 's" where
  "run_outs f s [] = ([], s)"
| "run_outs f s (e # es) =
     (let (o1, s1) = f s e; (os, s2) = run_outs f s1 es in (o1 # os, s2))"

lemma run_append [simp]: "run f s (xs @ ys) = run f (run f s xs) ys"
  by (induction xs arbitrary: s) auto

inductive reach :: "('s \<Rightarrow> 's \<Rightarrow> bool) \<Rightarrow> 's \<Rightarrow> 's \<Rightarrow> bool" for stp s0 where
  reach_refl [simp, intro]: "reach stp s0 s0"
| reach_step: "reach stp s0 s \<Longrightarrow> stp s t \<Longrightarrow> reach stp s0 t"

lemma reach_trans: "reach stp a b \<Longrightarrow> reach stp b c \<Longrightarrow> reach stp a c"
  by (rotate_tac, induction rule: reach.induct) (auto intro: reach_step)

text \<open>The interface of a deterministic component: every operation keeps its invariant.\<close>

locale machine_invariant =
  fixes step :: "'s \<Rightarrow> 'e \<Rightarrow> 's"
    and inv :: "'s \<Rightarrow> bool"
  assumes inv_step: "inv s \<Longrightarrow> inv (step s e)"
begin

lemma run_inv: "inv s \<Longrightarrow> inv (run step s es)"
  by (induction es arbitrary: s) (auto intro: inv_step)

lemma run_prefix_inv: "inv s \<Longrightarrow> inv (run step s (take n es))"
  by (rule run_inv)

end

text \<open>The interface of a component with choice: the invariant holds at the start and is kept.\<close>

locale relation_invariant =
  fixes stp :: "'s \<Rightarrow> 's \<Rightarrow> bool"
    and init :: "'s"
    and inv :: "'s \<Rightarrow> bool"
  assumes inv_init: "inv init"
    and inv_stp: "inv s \<Longrightarrow> stp s t \<Longrightarrow> inv t"
begin

lemma reach_inv: "reach stp init s \<Longrightarrow> inv s"
  by (induction rule: reach.induct) (auto intro: inv_init inv_stp)

lemma reach_stp_inv: "reach stp init s \<Longrightarrow> stp s t \<Longrightarrow> inv t"
  by (auto intro: reach_inv inv_stp)

end

end
