(* ===== verification/Ring.thy ===== *)
theory Ring
  imports Go_Prelude
begin

text \<open>
  The bounded ring of \<open>src/ngrok/util/ring.go\<close>: a list whose head is the newest item and an
  \<open>int\<close> capacity. \<open>Add\<close> and \<open>Slice\<close> hold the mutex for the whole call, so each is one step.
\<close>

record 'a ring =
  ring_items :: "'a list"
  ring_capacity :: int

definition NewRing :: "int \<Rightarrow> 'a ring" where
  "NewRing cap = \<lparr>ring_items = [], ring_capacity = cap\<rparr>"

definition ring_Add :: "'a \<Rightarrow> 'a ring \<Rightarrow> 'a option \<times> 'a ring" where
  "ring_Add x r =
     (let its = x # ring_items r in
      if int (length its) > ring_capacity r
      then (Some (last its), r\<lparr>ring_items := butlast its\<rparr>)
      else (None, r\<lparr>ring_items := its\<rparr>))"

definition ring_Slice :: "'a ring \<Rightarrow> 'a list" where
  "ring_Slice r = ring_items r"

text \<open>A sequence of additions: what each returned (the item it pushed out, if any) and the ring left.\<close>

definition ring_step :: "'a ring \<Rightarrow> 'a \<Rightarrow> 'a option \<times> 'a ring" where
  "ring_step r x = ring_Add x r"

definition ring_evicted :: "'a ring \<Rightarrow> 'a list \<Rightarrow> 'a list" where
  "ring_evicted r xs = List.map_filter id (fst (run_outs ring_step r xs))"

definition ring_after :: "'a ring \<Rightarrow> 'a list \<Rightarrow> 'a ring" where
  "ring_after r xs = snd (run_outs ring_step r xs)"

definition ring_ok :: "'a ring \<Rightarrow> bool" where
  "ring_ok r \<longleftrightarrow> 0 \<le> ring_capacity r \<and> int (length (ring_items r)) \<le> ring_capacity r"

lemma ring_evicted_simps [simp]:
  "ring_evicted r [] = []"
  "ring_evicted r (x # xs) =
     (case fst (ring_Add x r) of None \<Rightarrow> [] | Some y \<Rightarrow> [y]) @ ring_evicted (snd (ring_Add x r)) xs"
  by (auto simp: ring_evicted_def ring_step_def List.map_filter_def Let_def split: prod.splits option.splits)

lemma ring_after_simps [simp]:
  "ring_after r [] = r"
  "ring_after r (x # xs) = ring_after (snd (ring_Add x r)) xs"
  by (auto simp: ring_after_def ring_step_def Let_def split: prod.splits)

lemma ring_Add_ok [inv_intros]: "ring_ok r \<Longrightarrow> ring_ok (snd (ring_Add x r))"
  by (auto simp: ring_ok_def ring_Add_def Let_def)

text \<open>One addition conserves the contents: the pushed-out item is the oldest.\<close>

lemma ring_Add_conserves:
  "(case fst (ring_Add x r) of None \<Rightarrow> [] | Some y \<Rightarrow> [y]) @ rev (ring_items (snd (ring_Add x r)))
     = rev (ring_items r) @ [x]"
proof (cases "int (length (x # ring_items r)) > ring_capacity r")
  case True
  have "last (x # ring_items r) # rev (butlast (x # ring_items r)) = rev (x # ring_items r)"
    by (metis append_butlast_last_id list.distinct(1) rev.simps(2) rev_rev_ident rev_append
        append_Cons append_Nil rev_singleton_conv)
  then show ?thesis
    using True by (simp add: ring_Add_def Let_def)
next
  case False
  then show ?thesis
    by (simp add: ring_Add_def Let_def)
qed

lemma ring_run_conserves:
  "ring_evicted r xs @ rev (ring_items (ring_after r xs)) = rev (ring_items r) @ xs"
proof (induction xs arbitrary: r)
  case (Cons x xs)
  show ?case
    using Cons.IH [of "snd (ring_Add x r)"] ring_Add_conserves [of x r] by simp
qed simp

lemma ring_Add_capacity [simp]: "ring_capacity (snd (ring_Add x r)) = ring_capacity r"
  by (simp add: ring_Add_def Let_def)

lemma ring_after_length:
  "ring_ok r \<Longrightarrow> length (ring_items (ring_after r xs)) =
     min (nat (ring_capacity r)) (length (ring_items r) + length xs)"
proof (induction xs arbitrary: r)
  case (Cons x xs)
  have "length (ring_items (snd (ring_Add x r))) =
      min (nat (ring_capacity r)) (Suc (length (ring_items r)))"
    using Cons.prems by (auto simp: ring_Add_def ring_ok_def Let_def)
  then show ?case
    using Cons.IH [OF ring_Add_ok [OF Cons.prems, of x]] by (simp add: min_def)
qed (auto simp: ring_ok_def)

text \<open>
  The ring drops nothing but the oldest items, in order: after any sequence of additions to a
  new ring of capacity \<open>c\<close>, the items pushed out are the additions up to the last \<open>c\<close>, oldest
  first, and \<open>Slice\<close> lists the last \<open>c\<close> additions, newest first.
\<close>

theorem ring_keeps_newest:
  assumes "0 \<le> c"
  shows "ring_evicted (NewRing c) xs = take (length xs - nat c) xs \<and>
    ring_Slice (ring_after (NewRing c) xs) = rev (drop (length xs - nat c) xs)"
proof -
  let ?r = "ring_after (NewRing c) xs"
  have all: "ring_evicted (NewRing c) xs @ rev (ring_items ?r) = xs"
    using ring_run_conserves [of "NewRing c" xs] by (simp add: NewRing_def)
  have "length (ring_items ?r) = min (nat c) (length xs)"
    using ring_after_length [of "NewRing c" xs] assms by (simp add: NewRing_def ring_ok_def)
  then have "length (ring_evicted (NewRing c) xs) = length xs - nat c"
    using arg_cong [OF all, of length] by simp
  then have "ring_evicted (NewRing c) xs = take (length xs - nat c) xs"
    and "rev (ring_items ?r) = drop (length xs - nat c) xs"
    using all by (metis append_eq_conv_conj)+
  then show ?thesis
    by (simp add: ring_Slice_def rev_swap)
qed

lemma ring_keeps_newest_witness:
  "ring_evicted (NewRing 2) [1, 2, 3 :: nat] = [1] \<and> ring_Slice (ring_after (NewRing 2) [1, 2, 3 :: nat]) = [3, 2]"
  using ring_keeps_newest [of 2 "[1, 2, 3 :: nat]"] by simp

end
