(* ===== verification/Shutdown.thy ===== *)
theory Shutdown
  imports Go_Prelude
begin

text \<open>
  The controlled shutdowns of \<open>src/ngrok/util/shutdown.go\<close>: a flag and two channels that are only
  ever closed. Closing a closed channel panics, which is the value \<open>None\<close>; waiting on a channel
  returns exactly when it is closed.
\<close>

record shutdown =
  sd_inProgress :: bool
  sd_begin_closed :: bool
  sd_complete_closed :: bool

definition NewShutdown :: shutdown where
  "NewShutdown = \<lparr>sd_inProgress = False, sd_begin_closed = False, sd_complete_closed = False\<rparr>"

definition sd_Begin :: "shutdown \<Rightarrow> shutdown option" where
  "sd_Begin s =
     (if sd_inProgress s then Some s
      else (let s1 = s\<lparr>sd_inProgress := True\<rparr> in
            if sd_begin_closed s1 then None else Some (s1\<lparr>sd_begin_closed := True\<rparr>)))"

definition sd_WaitBegin :: "shutdown \<Rightarrow> bool" where
  "sd_WaitBegin s = sd_begin_closed s"

definition sd_Complete :: "shutdown \<Rightarrow> shutdown option" where
  "sd_Complete s =
     (if sd_complete_closed s then None else Some (s\<lparr>sd_complete_closed := True\<rparr>))"

definition sd_WaitComplete :: "shutdown \<Rightarrow> bool" where
  "sd_WaitComplete s = sd_complete_closed s"

text \<open>Calls of one shutdown by any number of goroutines: the mutex makes them a sequence.\<close>

datatype sd_op = OpBegin | OpComplete

fun sd_exec :: "sd_op \<Rightarrow> shutdown \<Rightarrow> shutdown option" where
  "sd_exec OpBegin s = sd_Begin s"
| "sd_exec OpComplete s = sd_Complete s"

fun sd_run :: "shutdown \<Rightarrow> sd_op list \<Rightarrow> shutdown option" where
  "sd_run s [] = Some s"
| "sd_run s (x # xs) = (case sd_exec x s of None \<Rightarrow> None | Some t \<Rightarrow> sd_run t xs)"

definition sd_ok :: "shutdown \<Rightarrow> bool" where
  "sd_ok s \<longleftrightarrow> sd_begin_closed s = sd_inProgress s"

lemma sd_ok_new [simp]: "sd_ok NewShutdown"
  by (simp add: sd_ok_def NewShutdown_def)

lemma sd_Begin_total:
  "sd_ok s \<Longrightarrow> sd_Begin s = Some (s\<lparr>sd_inProgress := True, sd_begin_closed := True\<rparr>)"
  by (cases s) (auto simp: sd_Begin_def sd_ok_def Let_def)

lemma sd_exec_ok [inv_intros]: "sd_ok s \<Longrightarrow> sd_exec x s = Some t \<Longrightarrow> sd_ok t"
  by (cases x) (auto simp: sd_Begin_total sd_Complete_def sd_ok_def split: if_splits)

lemma sd_run_spec:
  "sd_ok s \<Longrightarrow> sd_run s xs =
     (if (if sd_complete_closed s then 1 else 2) \<le> count_list xs OpComplete then None
      else Some (s\<lparr>sd_inProgress := sd_inProgress s \<or> OpBegin \<in> set xs,
                   sd_begin_closed := sd_begin_closed s \<or> OpBegin \<in> set xs,
                   sd_complete_closed := sd_complete_closed s \<or> OpComplete \<in> set xs\<rparr>))"
proof (induction xs arbitrary: s)
  case (Cons x xs)
  have empty: "count_list xs OpComplete = 0 \<longleftrightarrow> OpComplete \<notin> set xs"
    by (simp add: count_list_0_iff)
  show ?case
  proof (cases x)
    case OpBegin
    have "sd_ok (s\<lparr>sd_inProgress := True, sd_begin_closed := True\<rparr>)"
      by (simp add: sd_ok_def)
    then show ?thesis
      using OpBegin Cons.IH [of "s\<lparr>sd_inProgress := True, sd_begin_closed := True\<rparr>"] Cons.prems
      by (simp add: sd_Begin_total)
  next
    case OpComplete
    then show ?thesis
      using Cons.IH [of "s\<lparr>sd_complete_closed := True\<rparr>"] Cons.prems empty
      by (auto simp: sd_Complete_def sd_ok_def)
  qed
qed simp

text \<open>
  However the calls interleave, \<open>Begin\<close> never panics and is idempotent; a shutdown panics
  exactly when \<open>Complete\<close> is called a second time, and otherwise the waiters of \<open>WaitBegin\<close> (of
  \<open>WaitComplete\<close>) are released exactly when \<open>Begin\<close> (\<open>Complete\<close>) has been called.
\<close>

theorem shutdown_calls:
  "(sd_run NewShutdown ops = None \<longleftrightarrow> 2 \<le> count_list ops OpComplete) \<and>
   (case sd_run NewShutdown ops of
      None \<Rightarrow> True
    | Some s \<Rightarrow> sd_WaitBegin s = (OpBegin \<in> set ops) \<and> sd_WaitComplete s = (OpComplete \<in> set ops))"
  using sd_run_spec [OF sd_ok_new, of ops]
  by (simp add: sd_WaitBegin_def sd_WaitComplete_def NewShutdown_def)

end
