(* ===== verification/Broadcast.thy ===== *)
theory Broadcast
  imports Go_Prelude
begin

text \<open>
  The broadcast of \<open>src/ngrok/util/broadcast.go\<close>: a goroutine that owns a list of listener
  channels, each buffering at most \<open>broadcastListenerBuffer\<close> items, and serves one request of its
  three unbuffered channels at a time. Channels are numbered; \<open>bc_buf\<close> is what each holds.
\<close>

definition broadcastListenerBuffer :: nat where
  "broadcastListenerBuffer = 16"

record 'a bcast =
  bc_listeners :: "nat list"
  bc_buf :: "nat \<Rightarrow> 'a list"
  bc_next :: nat

definition NewBroadcast :: "'a bcast" where
  "NewBroadcast = \<lparr>bc_listeners = [], bc_buf = (\<lambda>_. []), bc_next = 0\<rparr>"

text \<open>\<open>Reg\<close> makes a fresh channel and hands it to the goroutine, which appends it.\<close>

definition bc_Reg :: "'a bcast \<Rightarrow> nat \<times> 'a bcast" where
  "bc_Reg b =
     (let l = bc_next b in
      (l, b\<lparr>bc_listeners := bc_listeners b @ [l], bc_buf := (bc_buf b)(l := []), bc_next := Suc l\<rparr>))"

definition bc_UnReg :: "nat \<Rightarrow> 'a bcast \<Rightarrow> 'a bcast" where
  "bc_UnReg l b = b\<lparr>bc_listeners := filter (\<lambda>l'. l \<noteq> l') (bc_listeners b)\<rparr>"

text \<open>A non-blocking send: a full buffer drops the item.\<close>

definition offer :: "'a \<Rightarrow> 'a list \<Rightarrow> 'a list" where
  "offer x q = (if length q < broadcastListenerBuffer then q @ [x] else q)"

fun bc_deliver :: "'a \<Rightarrow> nat list \<Rightarrow> (nat \<Rightarrow> 'a list) \<Rightarrow> (nat \<Rightarrow> 'a list)" where
  "bc_deliver x [] bufs = bufs"
| "bc_deliver x (l # ls) bufs = bc_deliver x ls (bufs(l := offer x (bufs l)))"

definition bc_In :: "'a \<Rightarrow> 'a bcast \<Rightarrow> 'a bcast" where
  "bc_In x b = b\<lparr>bc_buf := bc_deliver x (bc_listeners b) (bc_buf b)\<rparr>"

text \<open>The owner of a listener takes the oldest item of its buffer, when there is one.\<close>

definition bc_recv :: "nat \<Rightarrow> 'a bcast \<Rightarrow> 'a option \<times> 'a bcast" where
  "bc_recv l b =
     (case bc_buf b l of
        [] \<Rightarrow> (None, b)
      | x # q \<Rightarrow> (Some x, b\<lparr>bc_buf := (bc_buf b)(l := q)\<rparr>))"

datatype 'a bc_event = Reg | UnReg nat | In 'a | Recv nat

fun bc_step :: "'a bcast \<Rightarrow> 'a bc_event \<Rightarrow> 'a bcast" where
  "bc_step b Reg = snd (bc_Reg b)"
| "bc_step b (UnReg l) = bc_UnReg l b"
| "bc_step b (In x) = bc_In x b"
| "bc_step b (Recv l) = snd (bc_recv l b)"

text \<open>What listener \<open>l\<close> takes out during a run, and what is broadcast while it is registered.\<close>

fun taken :: "nat \<Rightarrow> 'a bcast \<Rightarrow> 'a bc_event list \<Rightarrow> 'a list" where
  "taken l b [] = []"
| "taken l b (e # es) =
     (case e of Recv l' \<Rightarrow> (if l' = l then (case fst (bc_recv l b) of None \<Rightarrow> [] | Some x \<Rightarrow> [x]) else [])
      | _ \<Rightarrow> []) @ taken l (bc_step b e) es"

fun heard :: "nat \<Rightarrow> 'a bcast \<Rightarrow> 'a bc_event list \<Rightarrow> 'a list" where
  "heard l b [] = []"
| "heard l b (e # es) =
     (case e of In x \<Rightarrow> (if l \<in> set (bc_listeners b) then [x] else []) | _ \<Rightarrow> []) @
     heard l (bc_step b e) es"

text \<open>No broadcast of the run to \<open>l\<close> meets a full buffer.\<close>

fun keeps_up :: "nat \<Rightarrow> 'a bcast \<Rightarrow> 'a bc_event list \<Rightarrow> bool" where
  "keeps_up l b [] = True"
| "keeps_up l b (e # es) =
     ((case e of In x \<Rightarrow> l \<in> set (bc_listeners b) \<longrightarrow> length (bc_buf b l) < broadcastListenerBuffer
       | _ \<Rightarrow> True) \<and>
      keeps_up l (bc_step b e) es)"

definition bc_ok :: "'a bcast \<Rightarrow> bool" where
  "bc_ok b \<longleftrightarrow> distinct (bc_listeners b) \<and> (\<forall>l \<in> set (bc_listeners b). l < bc_next b) \<and>
     (\<forall>l. length (bc_buf b l) \<le> broadcastListenerBuffer)"

lemma bc_deliver_notin [simp]: "l \<notin> set ls \<Longrightarrow> bc_deliver x ls bufs l = bufs l"
  by (induction ls arbitrary: bufs) auto

lemma bc_deliver_in: "distinct ls \<Longrightarrow> l \<in> set ls \<Longrightarrow> bc_deliver x ls bufs l = offer x (bufs l)"
  by (induction ls arbitrary: bufs) auto

lemma bc_deliver_at:
  "distinct ls \<Longrightarrow> bc_deliver x ls bufs l = (if l \<in> set ls then offer x (bufs l) else bufs l)"
  by (simp add: bc_deliver_in)

lemma offer_length: "length q \<le> broadcastListenerBuffer \<Longrightarrow> length (offer x q) \<le> broadcastListenerBuffer"
  by (simp add: offer_def)

lemma bc_step_ok [inv_intros]: "bc_ok b \<Longrightarrow> bc_ok (bc_step b e)"
proof (cases e)
  case (In x)
  then show "bc_ok b \<Longrightarrow> ?thesis"
    by (auto simp: bc_ok_def bc_In_def bc_deliver_at offer_length)
qed (auto simp: bc_ok_def bc_Reg_def bc_UnReg_def bc_recv_def Let_def less_SucI
    split: list.splits intro: Suc_leD elim: le_trans dest: spec, metis Suc_leD length_Cons)

interpretation bcast_machine: machine_invariant bc_step bc_ok
  by unfold_locales (rule bc_step_ok)

lemma bc_ok_new: "bc_ok NewBroadcast"
  by (simp add: bc_ok_def NewBroadcast_def)

lemma bc_next_mono: "bc_next b \<le> bc_next (bc_step b e)"
  by (cases e) (auto simp: bc_Reg_def bc_UnReg_def bc_In_def bc_recv_def Let_def split: list.splits)

text \<open>One event moves items of an allocated listener forward: buffer and new item to receiver and buffer.\<close>

lemma bc_step_flow:
  assumes "bc_ok b" "l < bc_next b"
  shows "subseq (taken l b [e] @ bc_buf (bc_step b e) l) (bc_buf b l @ heard l b [e])"
    and "keeps_up l b [e] \<Longrightarrow> taken l b [e] @ bc_buf (bc_step b e) l = bc_buf b l @ heard l b [e]"
  using assms
  by (cases e; auto simp: bc_ok_def bc_Reg_def bc_UnReg_def bc_In_def bc_recv_def bc_deliver_at offer_def
      Let_def split: list.splits)+

lemma taken_Cons: "taken l b (e # es) = taken l b [e] @ taken l (bc_step b e) es"
  and heard_Cons: "heard l b (e # es) = heard l b [e] @ heard l (bc_step b e) es"
  and keeps_up_Cons: "keeps_up l b (e # es) \<longleftrightarrow> keeps_up l b [e] \<and> keeps_up l (bc_step b e) es"
  by simp_all

lemma bc_run_flow:
  assumes "bc_ok b" "l < bc_next b"
  shows "subseq (taken l b es @ bc_buf (run bc_step b es) l) (bc_buf b l @ heard l b es) \<and>
    (keeps_up l b es \<longrightarrow> taken l b es @ bc_buf (run bc_step b es) l = bc_buf b l @ heard l b es)"
  using assms
proof (induction es arbitrary: b)
  case (Cons e es)
  let ?b = "bc_step b e"
  have IH: "subseq (taken l ?b es @ bc_buf (run bc_step ?b es) l) (bc_buf ?b l @ heard l ?b es)"
    "keeps_up l ?b es \<Longrightarrow> taken l ?b es @ bc_buf (run bc_step ?b es) l = bc_buf ?b l @ heard l ?b es"
    using Cons.IH [of ?b] Cons.prems bc_step_ok bc_next_mono [of b e] by (auto simp del: bc_step.simps)
  note flow = bc_step_flow [OF Cons.prems, of e]
  have "subseq (taken l b [e] @ taken l ?b es @ bc_buf (run bc_step ?b es) l)
      (taken l b [e] @ bc_buf ?b l @ heard l ?b es)"
    using IH(1) by (rule subseq_append' [THEN iffD2])
  also have "subseq \<dots> (bc_buf b l @ heard l b [e] @ heard l ?b es)"
    using list_emb_append_mono [OF flow(1) subseq_order.order_refl, of "heard l ?b es"]
    by (simp only: append_assoc)
  finally have sub: "subseq (taken l b (e # es) @ bc_buf (run bc_step b (e # es)) l)
      (bc_buf b l @ heard l b (e # es))"
    unfolding taken_Cons [of l b e es] heard_Cons [of l b e es] by (simp only: append_assoc run.simps)
  have "taken l b (e # es) @ bc_buf (run bc_step b (e # es)) l = bc_buf b l @ heard l b (e # es)"
    if "keeps_up l b (e # es)"
    using that IH(2) flow(2)
    unfolding taken_Cons [of l b e es] heard_Cons [of l b e es] keeps_up_Cons [of l b e es]
    by (metis append_assoc run.simps(2))
  with sub show ?case by blast
qed simp

text \<open>
  A listener registered at any point of any run of a broadcast receives, in order and without
  repetition, a subsequence of what is broadcast while it is registered; it misses an item only
  when its buffer of sixteen is full at that moment, so a listener that keeps up receives
  everything. No buffer ever holds more than sixteen items.
\<close>

theorem broadcast_listener:
  assumes "bc_Reg (run bc_step NewBroadcast before) = (l, b)"
  shows "subseq (taken l b es @ bc_buf (run bc_step b es) l) (heard l b es) \<and>
    (keeps_up l b es \<longrightarrow> taken l b es @ bc_buf (run bc_step b es) l = heard l b es) \<and>
    length (bc_buf (run bc_step b es) l) \<le> 16"
proof -
  let ?b0 = "run bc_step NewBroadcast before"
  have b: "b = bc_step ?b0 Reg" and l: "l = bc_next ?b0"
    using assms by (auto simp: bc_Reg_def Let_def)
  have ok: "bc_ok b" and "bc_ok (run bc_step b es)"
    unfolding b by (intro bcast_machine.run_inv bc_step_ok bc_ok_new)+
  then have "length (bc_buf (run bc_step b es) l) \<le> 16"
    by (auto simp: bc_ok_def broadcastListenerBuffer_def)
  moreover have "l < bc_next b" "bc_buf b l = []"
    using b l by (simp_all add: bc_Reg_def Let_def)
  ultimately show ?thesis
    using bc_run_flow [OF ok, of l es] by simp
qed

lemma broadcast_listener_witness:
  "let b = snd (bc_Reg (run bc_step NewBroadcast [Reg, In (7 :: nat)])) in
     keeps_up 1 b [In 8, Recv 1, In 9] \<and>
     taken 1 b [In 8, Recv 1, In 9] @ bc_buf (run bc_step b [In 8, Recv 1, In 9]) 1 = [8, 9]"
proof -
  let ?b = "snd (bc_Reg (run bc_step NewBroadcast [Reg, In (7 :: nat)]))"
  have "keeps_up 1 ?b [In 8, Recv 1, In 9]" "heard 1 ?b [In 8, Recv 1, In 9] = [8, 9]"
    by (simp_all add: bc_Reg_def bc_In_def bc_recv_def NewBroadcast_def offer_def
        broadcastListenerBuffer_def)
  then show ?thesis
    using broadcast_listener [of "[Reg, In 7]" 1 ?b "[In 8, Recv 1, In 9]"]
    by (simp add: bc_Reg_def NewBroadcast_def Let_def bc_In_def)
qed

end
