(* ===== verification/Lru_Cache.thy ===== *)
theory Lru_Cache
  imports Go_Prelude
begin

text \<open>
  The least-recently-used cache of \<open>src/ngrok/cache/lru.go\<close>. The doubly-linked list is a list of
  element handles, most recently used first; \<open>l_elem\<close> is the memory behind the handles (the
  \<open>*entry\<close> each element points to) and \<open>l_table\<close> the hash table from keys to handles. Sizes are
  64-bit words: \<open>uint64(sizeDiff)\<close> of a negative \<open>int\<close> is the same bits, so the arithmetic wraps as
  it does in the code. \<open>sz\<close> is the \<open>Size\<close> method of the values, \<open>now\<close> the clock. An operation that
  would dereference \<open>nil\<close> is \<open>None\<close>. The second half refines the operations to a list of
  key-value-size triples in order of recency.
\<close>

section \<open>The operations\<close>

record 'v entry =
  e_key :: string
  e_value :: 'v
  e_size :: "64 word"
  e_time :: int

record 'v lru =
  l_list :: "nat list"
  l_elem :: "nat \<Rightarrow> 'v entry"
  l_table :: "string \<rightharpoonup> nat"
  l_size :: "64 word"
  l_capacity :: "64 word"
  l_next :: nat

definition NewLRUCache :: "64 word \<Rightarrow> 'v lru" where
  "NewLRUCache cap =
     \<lparr>l_list = [], l_elem = (\<lambda>_. undefined), l_table = Map.empty, l_size = 0, l_capacity = cap,
      l_next = 0\<rparr>"

text \<open>The loop ends because every turn drops an element; an empty list would be a nil \<open>Back()\<close>.\<close>

function lru_checkCapacity :: "'v lru \<Rightarrow> 'v lru option" where
  "lru_checkCapacity c =
     (if l_capacity c < l_size c then
        (if l_list c = [] then None
         else let delElem = last (l_list c); delValue = l_elem c delElem in
              lru_checkCapacity
                (c\<lparr>l_list := butlast (l_list c),
                   l_table := (l_table c)(e_key delValue := None),
                   l_size := l_size c - e_size delValue\<rparr>))
      else Some c)"
  by pat_completeness auto
termination
  by (relation "measure (\<lambda>c. length (l_list c))") auto

declare lru_checkCapacity.simps [simp del]

definition lru_moveToFront :: "int \<Rightarrow> nat \<Rightarrow> 'v lru \<Rightarrow> 'v lru" where
  "lru_moveToFront now h c =
     c\<lparr>l_list := (if h \<in> set (l_list c) then h # remove1 h (l_list c) else l_list c),
       l_elem := (l_elem c)(h := (l_elem c h)\<lparr>e_time := now\<rparr>)\<rparr>"

definition lru_updateInplace :: "('v \<Rightarrow> 64 word) \<Rightarrow> int \<Rightarrow> nat \<Rightarrow> 'v \<Rightarrow> 'v lru \<Rightarrow> 'v lru option" where
  "lru_updateInplace sz now h value c =
     (let valueSize = sz value;
          sizeDiff = valueSize - e_size (l_elem c h);
          c1 = c\<lparr>l_elem := (l_elem c)(h := (l_elem c h)\<lparr>e_value := value, e_size := valueSize\<rparr>),
                 l_size := l_size c + sizeDiff\<rparr>
      in lru_checkCapacity (lru_moveToFront now h c1))"

definition lru_addNew :: "('v \<Rightarrow> 64 word) \<Rightarrow> int \<Rightarrow> string \<Rightarrow> 'v \<Rightarrow> 'v lru \<Rightarrow> 'v lru option" where
  "lru_addNew sz now key value c =
     (let newEntry = \<lparr>e_key = key, e_value = value, e_size = sz value, e_time = now\<rparr>;
          element = l_next c
      in lru_checkCapacity
           (c\<lparr>l_list := element # l_list c,
              l_elem := (l_elem c)(element := newEntry),
              l_table := (l_table c)(key \<mapsto> element),
              l_size := l_size c + e_size newEntry,
              l_next := Suc element\<rparr>))"

definition lru_Get :: "int \<Rightarrow> string \<Rightarrow> 'v lru \<Rightarrow> 'v option \<times> 'v lru" where
  "lru_Get now key c =
     (case l_table c key of
        None \<Rightarrow> (None, c)
      | Some element \<Rightarrow>
          let c1 = lru_moveToFront now element c in (Some (e_value (l_elem c1 element)), c1))"

definition lru_Set :: "('v \<Rightarrow> 64 word) \<Rightarrow> int \<Rightarrow> string \<Rightarrow> 'v \<Rightarrow> 'v lru \<Rightarrow> 'v lru option" where
  "lru_Set sz now key value c =
     (case l_table c key of
        Some element \<Rightarrow> lru_updateInplace sz now element value c
      | None \<Rightarrow> lru_addNew sz now key value c)"

definition lru_SetIfAbsent :: "('v \<Rightarrow> 64 word) \<Rightarrow> int \<Rightarrow> string \<Rightarrow> 'v \<Rightarrow> 'v lru \<Rightarrow> 'v lru option" where
  "lru_SetIfAbsent sz now key value c =
     (case l_table c key of
        Some element \<Rightarrow> Some (lru_moveToFront now element c)
      | None \<Rightarrow> lru_addNew sz now key value c)"

definition lru_Delete :: "string \<Rightarrow> 'v lru \<Rightarrow> bool \<times> 'v lru" where
  "lru_Delete key c =
     (case l_table c key of
        None \<Rightarrow> (False, c)
      | Some element \<Rightarrow>
          (True, c\<lparr>l_list := remove1 element (l_list c),
                   l_table := (l_table c)(key := None),
                   l_size := l_size c - e_size (l_elem c element)\<rparr>))"

definition lru_Clear :: "'v lru \<Rightarrow> 'v lru" where
  "lru_Clear c = c\<lparr>l_list := [], l_table := Map.empty, l_size := 0\<rparr>"

definition lru_SetCapacity :: "64 word \<Rightarrow> 'v lru \<Rightarrow> 'v lru option" where
  "lru_SetCapacity cap c = lru_checkCapacity (c\<lparr>l_capacity := cap\<rparr>)"

definition lru_Stats :: "'v lru \<Rightarrow> nat \<times> 64 word \<times> 64 word \<times> int option" where
  "lru_Stats c =
     (length (l_list c), l_size c, l_capacity c,
      if l_list c = [] then None else Some (e_time (l_elem c (last (l_list c)))))"

definition lru_Keys :: "'v lru \<Rightarrow> string list" where
  "lru_Keys c = map (\<lambda>h. e_key (l_elem c h)) (l_list c)"

definition lru_Items :: "'v lru \<Rightarrow> (string \<times> 'v) list" where
  "lru_Items c = map (\<lambda>h. (e_key (l_elem c h), e_value (l_elem c h))) (l_list c)"

fun lru_LoadItems :: "('v \<Rightarrow> 64 word) \<Rightarrow> int \<Rightarrow> (string \<times> 'v) list \<Rightarrow> 'v lru \<Rightarrow> 'v lru option" where
  "lru_LoadItems sz now [] c = Some c"
| "lru_LoadItems sz now ((k, v) # items) c =
     (case (case l_table c k of
              Some element \<Rightarrow> lru_updateInplace sz now element v c
            | None \<Rightarrow> lru_addNew sz now k v c) of
        None \<Rightarrow> None
      | Some c1 \<Rightarrow> lru_LoadItems sz now items c1)"

section \<open>The specification: triples in order of recency\<close>

type_synonym 'v recency = "(string \<times> 'v \<times> 64 word) list"

definition total :: "'v recency \<Rightarrow> 64 word" where
  "total l = sum_list (map (\<lambda>(k, v, n). n) l)"

function trim :: "64 word \<Rightarrow> 'v recency \<Rightarrow> 'v recency" where
  "trim cap l = (if l \<noteq> [] \<and> cap < total l then trim cap (butlast l) else l)"
  by pat_completeness auto
termination
  by (relation "measure (\<lambda>(cap, l). length l)") auto

declare trim.simps [simp del]

definition without :: "string \<Rightarrow> 'v recency \<Rightarrow> 'v recency" where
  "without k l = filter (\<lambda>x. fst x \<noteq> k) l"

definition spec_get :: "string \<Rightarrow> 'v recency \<Rightarrow> 'v option \<times> 'v recency" where
  "spec_get k l =
     (case map_of l k of None \<Rightarrow> (None, l) | Some (v, n) \<Rightarrow> (Some v, (k, v, n) # without k l))"

definition spec_set :: "64 word \<Rightarrow> string \<Rightarrow> 'v \<Rightarrow> 64 word \<Rightarrow> 'v recency \<Rightarrow> 'v recency" where
  "spec_set cap k v n l = trim cap ((k, v, n) # without k l)"

definition lru_abs :: "'v lru \<Rightarrow> 'v recency" where
  "lru_abs c = map (\<lambda>h. (e_key (l_elem c h), e_value (l_elem c h), e_size (l_elem c h))) (l_list c)"

definition lru_ok :: "'v lru \<Rightarrow> bool" where
  "lru_ok c \<longleftrightarrow> distinct (l_list c) \<and> (\<forall>h \<in> set (l_list c). h < l_next c) \<and>
     distinct (map fst (lru_abs c)) \<and>
     (\<forall>k h. l_table c k = Some h \<longleftrightarrow> h \<in> set (l_list c) \<and> e_key (l_elem c h) = k) \<and>
     l_size c = total (lru_abs c)"

section \<open>The operations keep the invariant and refine the specification\<close>

lemma total_simps [simp]:
  "total [] = 0" "total ((k, v, n) # l) = n + total l" "total (l @ l') = total l + total l'"
  by (simp_all add: total_def)

lemma without_simps [simp]:
  "without k [] = []" "without k (x # l) = (if fst x = k then without k l else x # without k l)"
  by (simp_all add: without_def)

lemma fst_without: "map fst (without k l) = filter (\<lambda>k'. k' \<noteq> k) (map fst l)"
  by (induction l) auto

lemma without_notin: "k \<notin> fst ` set l \<Longrightarrow> without k l = l"
  by (induction l) auto

lemma total_without: "distinct (map fst l) \<Longrightarrow> map_of l k = Some (v, n) \<Longrightarrow> total (without k l) = total l - n"
  by (induction l) (auto simp: without_notin image_iff split: if_splits)

lemma map_remove1_key:
  "distinct (map (fst \<circ> f) hs) \<Longrightarrow> h \<in> set hs \<Longrightarrow>
   map f (remove1 h hs) = without (fst (f h)) (map f hs)"
  by (induction hs) (auto simp: without_notin image_iff)

text \<open>The triple of a handle, and the invariant unfolded into the facts the proofs use.\<close>

definition triple :: "'v lru \<Rightarrow> nat \<Rightarrow> string \<times> 'v \<times> 64 word" where
  "triple c h = (e_key (l_elem c h), e_value (l_elem c h), e_size (l_elem c h))"

lemma lru_abs_triple: "lru_abs c = map (triple c) (l_list c)"
  by (simp add: lru_abs_def triple_def)

lemma fst_triple [simp]: "fst (triple c h) = e_key (l_elem c h)"
  by (simp add: triple_def)

lemma lru_okD:
  assumes "lru_ok c"
  shows "distinct (l_list c)" "\<forall>h \<in> set (l_list c). h < l_next c"
    "distinct (map (\<lambda>h. e_key (l_elem c h)) (l_list c))"
    "l_table c k = Some h \<longleftrightarrow> h \<in> set (l_list c) \<and> e_key (l_elem c h) = k"
    "l_size c = total (lru_abs c)" "distinct (map fst (lru_abs c))"
  using assms by (auto simp: lru_ok_def lru_abs_def comp_def)

lemma lru_okI:
  assumes "distinct (l_list c)" "\<And>h. h \<in> set (l_list c) \<Longrightarrow> h < l_next c"
    "distinct (map (\<lambda>h. e_key (l_elem c h)) (l_list c))"
    "\<And>k h. l_table c k = Some h \<longleftrightarrow> h \<in> set (l_list c) \<and> e_key (l_elem c h) = k"
    "l_size c = total (lru_abs c)"
  shows "lru_ok c"
  using assms by (auto simp: lru_ok_def lru_abs_def comp_def)

lemma same_key: "lru_ok c \<Longrightarrow> h \<in> set (l_list c) \<Longrightarrow> h' \<in> set (l_list c) \<Longrightarrow>
    e_key (l_elem c h) = e_key (l_elem c h') \<Longrightarrow> h = h'"
  using lru_okD(3) [of c] by (auto simp: distinct_map inj_on_def)

lemma table_None:
  assumes "lru_ok c"
  shows "l_table c k = None \<longleftrightarrow> map_of (lru_abs c) k = None"
proof -
  have "l_table c k = None \<longleftrightarrow> (\<forall>h. l_table c k \<noteq> Some h)"
    by simp
  also have "\<dots> \<longleftrightarrow> k \<notin> fst ` set (lru_abs c)"
    unfolding lru_okD(4) [OF assms] by (auto simp: lru_abs_triple image_image)
  finally show ?thesis
    by (simp add: map_of_eq_None_iff)
qed

lemma table_Some:
  "lru_ok c \<Longrightarrow> l_table c k = Some h \<Longrightarrow>
   map_of (lru_abs c) k = Some (e_value (l_elem c h), e_size (l_elem c h))"
  using lru_okD(4) [of c k h] lru_okD(3) [of c]
  by (auto simp: lru_abs_def comp_def intro!: map_of_is_SomeI image_eqI)

lemma abs_remove1:
  "lru_ok c \<Longrightarrow> h \<in> set (l_list c) \<Longrightarrow>
   map (triple c) (remove1 h (l_list c)) = without (e_key (l_elem c h)) (lru_abs c)"
  using map_remove1_key [of "triple c" "l_list c" h] lru_okD(3) [of c]
  by (simp add: lru_abs_triple comp_def)

lemma butlast_remove1_last:
  "distinct xs \<Longrightarrow> xs \<noteq> [] \<Longrightarrow> butlast xs = remove1 (last xs) xs"
  by (induction xs) auto

text \<open>The evicting loop.\<close>

lemma evict_step:
  assumes ok: "lru_ok c" and ne: "l_list c \<noteq> []"
  defines "h \<equiv> last (l_list c)"
  defines "c' \<equiv> c\<lparr>l_list := butlast (l_list c), l_table := (l_table c)(e_key (l_elem c h) := None),
                 l_size := l_size c - e_size (l_elem c h)\<rparr>"
  shows "lru_ok c'" and "lru_abs c' = butlast (lru_abs c)"
proof -
  have split: "l_list c = butlast (l_list c) @ [h]"
    using ne by (simp add: h_def)
  have tr: "triple c' = triple c"
    by (simp add: fun_eq_iff triple_def c'_def)
  have "lru_abs c = map (triple c) (butlast (l_list c) @ [h])"
    using split by (simp add: lru_abs_triple)
  then have abs: "lru_abs c = lru_abs c' @ [triple c h]"
    unfolding lru_abs_triple [of c'] tr by (simp add: c'_def)
  then show "lru_abs c' = butlast (lru_abs c)"
    by simp
  have hin: "h \<in> set (l_list c)" "h \<notin> set (butlast (l_list c))"
    using ne lru_okD(1) [OF ok] by (simp_all add: h_def butlast_remove1_last)
  have ins: "set (l_list c) = insert h (set (butlast (l_list c)))"
    using arg_cong [OF split, of set] by simp
  have mem: "x \<in> set (butlast (l_list c)) \<longleftrightarrow> x \<in> set (l_list c) \<and> x \<noteq> h" for x
    using ins hin(2) by blast
  have uniq: "x = h" if "x \<in> set (l_list c)" "e_key (l_elem c x) = e_key (l_elem c h)" for x
    using same_key [OF ok that(1) hin(1) that(2)] .
  show "lru_ok c'"
  proof (rule lru_okI)
    show "distinct (l_list c')"
      using lru_okD(1) [OF ok] by (simp add: c'_def distinct_butlast)
    show "distinct (map (\<lambda>h. e_key (l_elem c' h)) (l_list c'))"
      using lru_okD(3) [OF ok] by (simp add: c'_def map_butlast distinct_butlast)
    show "l_table c' k = Some x \<longleftrightarrow> x \<in> set (l_list c') \<and> e_key (l_elem c' x) = k" for k x
      using lru_okD(4) [OF ok, of k x] mem [of x] by (auto simp: c'_def dest: uniq)
    have "l_size c = total (lru_abs c') + e_size (l_elem c h)"
      using lru_okD(5) [OF ok] abs by (simp add: triple_def)
    moreover have "l_size c' = l_size c - e_size (l_elem c h)"
      by (simp add: c'_def)
    ultimately show "l_size c' = total (lru_abs c')"
      by simp
    show "x < l_next c'" if "x \<in> set (l_list c')" for x
      using that lru_okD(2) [OF ok] mem [of x] by (simp add: c'_def)
  qed
qed

lemma checkCapacity_refines:
  "lru_ok c \<Longrightarrow> \<exists>c'. lru_checkCapacity c = Some c' \<and> lru_ok c' \<and>
     lru_abs c' = trim (l_capacity c) (lru_abs c) \<and> l_capacity c' = l_capacity c"
proof (induction c rule: lru_checkCapacity.induct)
  case (1 c)
  have empty: "lru_abs c = [] \<longleftrightarrow> l_list c = []"
    by (simp add: lru_abs_def)
  show ?case
  proof (cases "l_capacity c < l_size c")
    case False
    then show ?thesis
      using "1.prems" lru_okD(5) [OF "1.prems"]
      by (simp add: lru_checkCapacity.simps [of c] trim.simps [of "l_capacity c" "lru_abs c"])
  next
    case True
    then have ne: "l_list c \<noteq> []"
      using lru_okD(5) [OF "1.prems"] empty by auto
    note ev = evict_step [OF "1.prems" ne]
    show ?thesis
      using "1.IH" [OF True ne refl refl ev(1)] True ne ev(2) lru_okD(5) [OF "1.prems"] empty
      by (auto simp: lru_checkCapacity.simps [of c] trim.simps [of "l_capacity c" "lru_abs c"] Let_def)
  qed
qed

text \<open>Moving an element to the front, possibly with a new value and size.\<close>

lemma front_refines:
  assumes ok: "lru_ok c" and h: "h \<in> set (l_list c)" and key: "e_key e = e_key (l_elem c h)"
    and c': "l_list c' = h # remove1 h (l_list c)" "l_elem c' = (l_elem c)(h := e)"
      "l_table c' = l_table c" "l_next c' = l_next c"
      "l_size c' = l_size c - e_size (l_elem c h) + e_size e"
  shows "lru_ok c' \<and> lru_abs c' = (e_key e, e_value e, e_size e) # without (e_key e) (lru_abs c)"
proof -
  have "map (triple c') (remove1 h (l_list c)) = map (triple c) (remove1 h (l_list c))"
    using lru_okD(1) [OF ok] by (auto simp: triple_def c' intro!: map_cong)
  then have abs: "lru_abs c' = (e_key e, e_value e, e_size e) # without (e_key e) (lru_abs c)"
    using abs_remove1 [OF ok h] key by (simp add: lru_abs_triple [of c'] c') (simp add: triple_def c' key)
  have "map_of (lru_abs c) (e_key e) = Some (e_value (l_elem c h), e_size (l_elem c h))"
    using table_Some [OF ok] lru_okD(4) [OF ok] h key by auto
  then have "total (without (e_key e) (lru_abs c)) = l_size c - e_size (l_elem c h)"
    using total_without [OF lru_okD(6) [OF ok]] lru_okD(5) [OF ok] by simp
  then have size: "l_size c' = total (lru_abs c')"
    by (simp add: abs c')
  have keys: "(\<lambda>x. e_key (l_elem c' x)) = (\<lambda>x. e_key (l_elem c x))"
    by (auto simp: c' key)
  have "lru_ok c'"
  proof (rule lru_okI)
    show "distinct (map (\<lambda>x. e_key (l_elem c' x)) (l_list c'))"
      using lru_okD(1,3) [OF ok] h key by (auto simp: keys distinct_map c' inj_on_def)
    show "l_table c' k = Some x \<longleftrightarrow> x \<in> set (l_list c') \<and> e_key (l_elem c' x) = k" for k x
      using lru_okD(1,4) [OF ok] h fun_cong [OF keys, of x] by (auto simp: c')
  qed (use lru_okD(1,2) [OF ok] h size in \<open>auto simp: c'\<close>)
  with abs show ?thesis by blast
qed

lemma moveToFront_refines:
  assumes "lru_ok c" "l_table c k = Some h"
  shows "lru_ok (lru_moveToFront now h c) \<and>
    lru_abs (lru_moveToFront now h c) = (k, e_value (l_elem c h), e_size (l_elem c h)) # without k (lru_abs c)"
proof -
  have h: "h \<in> set (l_list c)" "e_key (l_elem c h) = k"
    using assms lru_okD(4) by auto
  show ?thesis
    using front_refines [OF assms(1) h(1), of "(l_elem c h)\<lparr>e_time := now\<rparr>" "lru_moveToFront now h c"] h
    by (simp add: lru_moveToFront_def)
qed

lemma updateInplace_refines:
  assumes "lru_ok c" "l_table c k = Some h"
  shows "\<exists>c'. lru_updateInplace sz now h v c = Some c' \<and> lru_ok c' \<and>
    lru_abs c' = spec_set (l_capacity c) k v (sz v) (lru_abs c) \<and> l_capacity c' = l_capacity c"
proof -
  have h: "h \<in> set (l_list c)" "e_key (l_elem c h) = k"
    using assms lru_okD(4) by auto
  let ?e = "(l_elem c h)\<lparr>e_value := v, e_size := sz v, e_time := now\<rparr>"
  let ?c = "lru_moveToFront now h
    (c\<lparr>l_elem := (l_elem c)(h := (l_elem c h)\<lparr>e_value := v, e_size := sz v\<rparr>),
       l_size := l_size c + (sz v - e_size (l_elem c h))\<rparr>)"
  have "lru_ok ?c \<and> lru_abs ?c = (k, v, sz v) # without k (lru_abs c)"
    using front_refines [OF assms(1) h(1), of ?e ?c] h by (simp add: lru_moveToFront_def)
  moreover have "l_capacity ?c = l_capacity c"
    by (simp add: lru_moveToFront_def)
  ultimately show ?thesis
    using checkCapacity_refines [of ?c] by (simp add: lru_updateInplace_def Let_def spec_set_def)
qed

lemma addNew_refines:
  assumes ok: "lru_ok c" and new: "l_table c k = None"
  shows "\<exists>c'. lru_addNew sz now k v c = Some c' \<and> lru_ok c' \<and>
    lru_abs c' = spec_set (l_capacity c) k v (sz v) (lru_abs c) \<and> l_capacity c' = l_capacity c"
proof -
  let ?e = "\<lparr>e_key = k, e_value = v, e_size = sz v, e_time = now\<rparr>"
  let ?c = "c\<lparr>l_list := l_next c # l_list c, l_elem := (l_elem c)(l_next c := ?e),
      l_table := (l_table c)(k \<mapsto> l_next c), l_size := l_size c + sz v, l_next := Suc (l_next c)\<rparr>"
  have fresh: "l_next c \<notin> set (l_list c)"
    using lru_okD(2) [OF ok] by auto
  have nokey: "h \<in> set (l_list c) \<Longrightarrow> e_key (l_elem c h) \<noteq> k" for h
    using lru_okD(4) [OF ok, of k h] new by auto
  have "map (triple ?c) (l_list c) = map (triple c) (l_list c)"
    using fresh by (auto simp: triple_def)
  then have abs: "lru_abs ?c = (k, v, sz v) # lru_abs c"
    by (simp add: lru_abs_triple [of ?c] lru_abs_triple [of c]) (simp add: triple_def)
  have "k \<notin> fst ` set (lru_abs c)"
    using nokey by (auto simp: lru_abs_triple image_image)
  then have abs': "lru_abs ?c = (k, v, sz v) # without k (lru_abs c)"
    by (simp add: abs without_notin)
  have "lru_ok ?c"
  proof (rule lru_okI)
    have "map (\<lambda>x. e_key (l_elem ?c x)) (l_list ?c) = k # map (\<lambda>x. e_key (l_elem c x)) (l_list c)"
      using fresh by auto
    then show "distinct (map (\<lambda>x. e_key (l_elem ?c x)) (l_list ?c))"
      using lru_okD(3) [OF ok] nokey by (simp only: distinct.simps) auto
    show "l_table ?c k' = Some x \<longleftrightarrow> x \<in> set (l_list ?c) \<and> e_key (l_elem ?c x) = k'" for k' x
      using lru_okD(4) [OF ok, of k' x] fresh nokey by auto
    show "l_size ?c = total (lru_abs ?c)"
      unfolding abs using lru_okD(5) [OF ok] by (simp add: add.commute)
  qed (use lru_okD(1,2) [OF ok] fresh in auto)
  then show ?thesis
    using checkCapacity_refines [of ?c] abs' by (simp add: lru_addNew_def Let_def spec_set_def)
qed

lemma Set_refines:
  "lru_ok c \<Longrightarrow> \<exists>c'. lru_Set sz now k v c = Some c' \<and> lru_ok c' \<and>
     lru_abs c' = spec_set (l_capacity c) k v (sz v) (lru_abs c) \<and> l_capacity c' = l_capacity c"
  by (cases "l_table c k") (simp_all add: lru_Set_def addNew_refines updateInplace_refines)

lemma Get_refines:
  assumes "lru_ok c"
  shows "lru_ok (snd (lru_Get now k c)) \<and>
    (fst (lru_Get now k c), lru_abs (snd (lru_Get now k c))) = spec_get k (lru_abs c) \<and>
    l_capacity (snd (lru_Get now k c)) = l_capacity c"
proof (cases "l_table c k")
  case None
  then show ?thesis
    using assms table_None [OF assms, of k] by (simp add: lru_Get_def spec_get_def)
next
  case (Some h)
  have "e_value (l_elem (lru_moveToFront now h c) h) = e_value (l_elem c h)"
    by (simp add: lru_moveToFront_def)
  then show ?thesis
    using moveToFront_refines [OF assms Some, of now] table_Some [OF assms Some] Some
    by (simp add: lru_Get_def spec_get_def Let_def) (simp add: lru_moveToFront_def)
qed

lemma Delete_refines:
  assumes ok: "lru_ok c"
  shows "lru_ok (snd (lru_Delete k c)) \<and> fst (lru_Delete k c) = (map_of (lru_abs c) k \<noteq> None) \<and>
    lru_abs (snd (lru_Delete k c)) = without k (lru_abs c) \<and>
    l_capacity (snd (lru_Delete k c)) = l_capacity c"
proof (cases "l_table c k")
  case None
  then have "k \<notin> fst ` set (lru_abs c)"
    using table_None [OF ok, of k] by (simp add: map_of_eq_None_iff)
  then show ?thesis
    using None ok by (simp add: lru_Delete_def without_notin map_of_eq_None_iff)
next
  case (Some h)
  have h: "h \<in> set (l_list c)" "e_key (l_elem c h) = k"
    using Some lru_okD(4) [OF ok] by auto
  let ?c = "c\<lparr>l_list := remove1 h (l_list c), l_table := (l_table c)(k := None),
      l_size := l_size c - e_size (l_elem c h)\<rparr>"
  have "triple ?c = triple c"
    by (simp add: fun_eq_iff triple_def)
  then have abs: "lru_abs ?c = without k (lru_abs c)"
    using abs_remove1 [OF ok h(1)] h(2) by (simp add: lru_abs_triple [of ?c])
  have uniq: "x = h" if "x \<in> set (l_list c)" "e_key (l_elem c x) = k" for x
    using same_key [OF ok that(1) h(1)] that(2) h(2) by simp
  have "lru_ok ?c"
  proof (rule lru_okI)
    show "distinct (map (\<lambda>x. e_key (l_elem ?c x)) (l_list ?c))"
      using lru_okD(1,3) [OF ok] by (auto simp: distinct_map inj_on_def)
    have "x \<in> set (remove1 h (l_list c)) \<longleftrightarrow> x \<in> set (l_list c) \<and> x \<noteq> h" for x
      using lru_okD(1) [OF ok] by simp
    then show "l_table ?c k' = Some x \<longleftrightarrow> x \<in> set (l_list ?c) \<and> e_key (l_elem ?c x) = k'" for k' x
      using lru_okD(4) [OF ok, of k' x] h uniq [of x] by auto
    show "l_size ?c = total (lru_abs ?c)"
      unfolding abs using total_without [OF lru_okD(6) [OF ok] table_Some [OF ok Some]] lru_okD(5) [OF ok]
      by simp
    show "x < l_next ?c" if "x \<in> set (l_list ?c)" for x
      using that lru_okD(2) [OF ok] set_remove1_subset [of h "l_list c"] by auto
  qed (use lru_okD(1) [OF ok] in simp)
  then show ?thesis
    using Some abs table_Some [OF ok Some] by (simp add: lru_Delete_def)
qed

section \<open>Sequences of calls\<close>

datatype 'v lru_op =
  Get string | Set string 'v | SetIfAbsent string 'v | Delete string | Clear | SetCapacity "64 word"

datatype 'v lru_out = Found "'v option" | Deleted bool | Done

text \<open>One call at time \<open>t\<close>; each public method locks the mutex for its whole body.\<close>

fun lru_do :: "('v \<Rightarrow> 64 word) \<Rightarrow> int \<Rightarrow> 'v lru_op \<Rightarrow> 'v lru \<Rightarrow> ('v lru_out \<times> 'v lru) option" where
  "lru_do sz t (Get k) c = Some (Found (fst (lru_Get t k c)), snd (lru_Get t k c))"
| "lru_do sz t (Set k v) c = map_option (Pair Done) (lru_Set sz t k v c)"
| "lru_do sz t (SetIfAbsent k v) c = map_option (Pair Done) (lru_SetIfAbsent sz t k v c)"
| "lru_do sz t (Delete k) c = Some (Deleted (fst (lru_Delete k c)), snd (lru_Delete k c))"
| "lru_do sz t Clear c = Some (Done, lru_Clear c)"
| "lru_do sz t (SetCapacity cap) c = map_option (Pair Done) (lru_SetCapacity cap c)"

fun lru_exec :: "('v \<Rightarrow> 64 word) \<Rightarrow> 'v lru \<Rightarrow> (int \<times> 'v lru_op) list \<Rightarrow> ('v lru_out list \<times> 'v lru) option"
where
  "lru_exec sz c [] = Some ([], c)"
| "lru_exec sz c ((t, x) # xs) =
     (case lru_do sz t x c of
        None \<Rightarrow> None
      | Some (out, c1) \<Rightarrow>
          (case lru_exec sz c1 xs of None \<Rightarrow> None | Some (outs, c2) \<Rightarrow> Some (out # outs, c2)))"

text \<open>The same calls on the specification: a capacity and a recency list.\<close>

fun spec_do :: "('v \<Rightarrow> 64 word) \<Rightarrow> 'v lru_op \<Rightarrow> 64 word \<times> 'v recency \<Rightarrow> 'v lru_out \<times> 64 word \<times> 'v recency"
where
  "spec_do sz (Get k) (cap, l) = (Found (fst (spec_get k l)), cap, snd (spec_get k l))"
| "spec_do sz (Set k v) (cap, l) = (Done, cap, spec_set cap k v (sz v) l)"
| "spec_do sz (SetIfAbsent k v) (cap, l) =
     (Done, cap, case map_of l k of
        None \<Rightarrow> spec_set cap k v (sz v) l | Some (w, n) \<Rightarrow> (k, w, n) # without k l)"
| "spec_do sz (Delete k) (cap, l) = (Deleted (map_of l k \<noteq> None), cap, without k l)"
| "spec_do sz Clear (cap, l) = (Done, cap, [])"
| "spec_do sz (SetCapacity cap') (cap, l) = (Done, cap', trim cap' l)"

definition lru_state :: "'v lru \<Rightarrow> 64 word \<times> 'v recency" where
  "lru_state c = (l_capacity c, lru_abs c)"

lemma lru_ok_new: "lru_ok (NewLRUCache cap)"
  by (simp add: lru_ok_def lru_abs_def NewLRUCache_def)

lemma lru_state_new [simp]: "lru_state (NewLRUCache cap) = (cap, [])"
  by (simp add: lru_state_def lru_abs_def NewLRUCache_def)

lemma moveToFront_capacity [simp]: "l_capacity (lru_moveToFront t h c) = l_capacity c"
  by (simp add: lru_moveToFront_def)

lemma SetIfAbsent_refines:
  assumes "lru_ok c"
  shows "\<exists>c'. lru_SetIfAbsent sz t k v c = Some c' \<and> lru_ok c' \<and>
     (Done, lru_state c') = spec_do sz (SetIfAbsent k v) (lru_state c)"
proof (cases "l_table c k")
  case None
  then show ?thesis
    using addNew_refines [OF assms None, of sz t v] table_None [OF assms, of k]
    by (auto simp: lru_SetIfAbsent_def lru_state_def)
next
  case (Some h)
  then show ?thesis
    using moveToFront_refines [OF assms Some, of t] table_Some [OF assms Some]
    by (simp add: lru_SetIfAbsent_def lru_state_def)
qed

lemma lru_do_refines:
  assumes "lru_ok c"
  shows "\<exists>out c'. lru_do sz t x c = Some (out, c') \<and> lru_ok c' \<and>
     (out, lru_state c') = spec_do sz x (lru_state c)"
proof (cases x)
  case (Get k)
  then show ?thesis
    using Get_refines [OF assms, of t k] by (cases "spec_get k (lru_abs c)") (simp add: lru_state_def)
next
  case (Set k v)
  then show ?thesis
    using Set_refines [OF assms, of sz t k v] by (auto simp: lru_state_def)
next
  case (SetIfAbsent k v)
  then show ?thesis
    using SetIfAbsent_refines [OF assms, of sz t k v] by auto
next
  case (Delete k)
  then show ?thesis
    using Delete_refines [OF assms, of k] by (simp add: lru_state_def)
next
  case Clear
  have "lru_ok (lru_Clear c)"
    by (simp add: lru_ok_def lru_abs_def lru_Clear_def)
  then show ?thesis
    using Clear by (simp add: lru_state_def) (simp add: lru_abs_def lru_Clear_def)
next
  case (SetCapacity cap)
  have "lru_ok (c\<lparr>l_capacity := cap\<rparr>)" and "lru_abs (c\<lparr>l_capacity := cap\<rparr>) = lru_abs c"
    using assms by (simp_all add: lru_ok_def lru_abs_def)
  then show ?thesis
    using SetCapacity checkCapacity_refines [of "c\<lparr>l_capacity := cap\<rparr>"]
    by (auto simp: lru_state_def lru_SetCapacity_def)
qed

lemma lru_exec_refines:
  "lru_ok c \<Longrightarrow> \<exists>c'. lru_exec sz c ops =
       Some (fst (run_outs (\<lambda>s (t, x). spec_do sz x s) (lru_state c) ops), c') \<and> lru_ok c' \<and>
     lru_state c' = snd (run_outs (\<lambda>s (t, x). spec_do sz x s) (lru_state c) ops)"
proof (induction ops arbitrary: c)
  case (Cons tx ops)
  obtain t x where tx: "tx = (t, x)" by force
  obtain out c1 where 1: "lru_do sz t x c = Some (out, c1)" "lru_ok c1"
    "spec_do sz x (lru_state c) = (out, lru_state c1)"
    using lru_do_refines [OF Cons.prems, of sz t x] by metis
  show ?case
    using Cons.IH [OF 1(2)] 1 by (auto simp: tx Let_def split: prod.splits)
qed simp

text \<open>
  C13: No sequence of cache calls panics (the eviction loop never finds an empty list), and the
  cache answers every call as the specification does: a list of entries, most recently used
  first, that \<open>Get\<close>, \<open>Set\<close> and \<open>SetIfAbsent\<close> move to the front and that is trimmed from the back
  while its total size exceeds the capacity.
\<close>

theorem lru_refines_recency:
  "\<exists>c. lru_exec sz (NewLRUCache cap) ops =
       Some (fst (run_outs (\<lambda>s (t, x). spec_do sz x s) (cap, []) ops), c) \<and>
     (l_capacity c, lru_abs c) = snd (run_outs (\<lambda>s (t, x). spec_do sz x s) (cap, []) ops) \<and>
     lru_Keys c = map fst (lru_abs c) \<and> l_size c = total (lru_abs c) \<and> distinct (lru_Keys c)"
proof -
  obtain c where c: "lru_exec sz (NewLRUCache cap) ops =
       Some (fst (run_outs (\<lambda>s (t, x). spec_do sz x s) (cap, []) ops), c)" "lru_ok c"
    "lru_state c = snd (run_outs (\<lambda>s (t, x). spec_do sz x s) (cap, []) ops)"
    using lru_exec_refines [OF lru_ok_new, of sz cap ops] by auto
  have "lru_Keys c = map fst (lru_abs c)"
    by (simp add: lru_Keys_def lru_abs_def)
  then show ?thesis
    using c lru_okD(5,6) [OF c(2)] by (auto simp: lru_state_def)
qed

section \<open>Trimming\<close>

lemma trim_step: "l \<noteq> [] \<Longrightarrow> cap < total l \<Longrightarrow> trim cap l = trim cap (butlast l)"
  by (subst trim.simps) simp

lemma trim_stop: "total l \<le> cap \<Longrightarrow> trim cap l = l"
  by (subst trim.simps) (auto dest: leD)

lemma trim_prefix: "\<exists>n \<le> length l. trim cap l = take n l \<and> total (take n l) \<le> cap \<and>
    (\<forall>m. n < m \<longrightarrow> m \<le> length l \<longrightarrow> cap < total (take m l))"
proof (induction l rule: rev_induct)
  case Nil
  then show ?case by (simp add: trim.simps)
next
  case (snoc x l)
  show ?case
  proof (cases "cap < total (l @ [x])")
    case False
    then show ?thesis
      by (intro exI [of _ "length (l @ [x])"]) (simp add: trim_stop not_less)
  next
    case True
    then obtain n where "n \<le> length l" "trim cap (l @ [x]) = take n l" "total (take n l) \<le> cap"
      "\<forall>m. n < m \<longrightarrow> m \<le> length l \<longrightarrow> cap < total (take m l)"
      using snoc.IH by (auto simp: trim_step)
    then show ?thesis
      using True by (intro exI [of _ n]) (auto simp: le_Suc_eq)
  qed
qed

lemma trim_Cons: "n \<le> cap \<Longrightarrow> \<exists>l'. trim cap ((k, v, n) # l) = (k, v, n) # l'"
proof -
  assume n: "n \<le> cap"
  obtain m where m: "m \<le> Suc (length l)" "trim cap ((k, v, n) # l) = take m ((k, v, n) # l)"
    "\<And>m'. m < m' \<Longrightarrow> m' \<le> Suc (length l) \<Longrightarrow> cap < total (take m' ((k, v, n) # l))"
    using trim_prefix [of "(k, v, n) # l" cap] by auto
  have "m \<noteq> 0"
    using m(3) [of 1] n by (auto simp: not_less [symmetric])
  then show ?thesis
    using m(2) by (cases m) auto
qed

lemma map_of_take_le: "map_of (take n l) k = Some x \<Longrightarrow> map_of l k = Some x"
  by (metis append_take_drop_id map_add_Some_iff map_of_append map_add_find_right map_of_SomeD)

section \<open>The bytes held\<close>

text \<open>
  The size field counts modulo \<open>2 ^ 64\<close>; \<open>bytes\<close> counts exactly. With values below half the range
  and capacities up to half of it (every \<open>int\<close> is), no addition wraps.
\<close>

definition bytes :: "'v recency \<Rightarrow> nat" where
  "bytes l = sum_list (map (\<lambda>(k, v, n). unat n) l)"

lemma bytes_simps [simp]: "bytes [] = 0" "bytes ((k, v, n) # l) = unat n + bytes l"
  by (simp_all add: bytes_def)

lemma bytes_without: "bytes (without k l) \<le> bytes l"
  by (induction l) auto

lemma bytes_take: "bytes (take n l) \<le> bytes l"
  by (induction l arbitrary: n) (auto simp: take_Cons split: nat.splits)

lemma total_exact: "bytes l < 2 ^ 64 \<Longrightarrow> unat (total l) = bytes l"
proof (induction l)
  case (Cons x l)
  then show ?case
    by (cases x) (simp add: unat_word_ariths)
qed simp

lemma trim_bytes: "bytes l < 2 ^ 64 \<Longrightarrow> bytes (trim cap l) \<le> unat cap"
proof -
  assume b: "bytes l < 2 ^ 64"
  obtain n where "trim cap l = take n l" "total (take n l) \<le> cap"
    using trim_prefix [of l cap] by auto
  then show ?thesis
    using b bytes_take [of n l] total_exact [of "take n l"] by (simp add: word_le_nat_alt)
qed

lemma spec_set_bytes:
  assumes "bytes l \<le> 2 ^ 63" "unat n < 2 ^ 63"
  shows "bytes (spec_set cap k v n l) \<le> unat cap"
  unfolding spec_set_def using assms bytes_without [of k l] by (intro trim_bytes) auto

lemma bytes_front: "distinct (map fst l) \<Longrightarrow> map_of l k = Some (v, n) \<Longrightarrow> unat n + bytes (without k l) = bytes l"
  by (induction l) (auto simp: without_notin image_iff split: if_splits)

definition small_op :: "('v \<Rightarrow> 64 word) \<Rightarrow> 'v lru_op \<Rightarrow> bool" where
  "small_op sz x =
     (case x of Set k v \<Rightarrow> unat (sz v) < 2 ^ 63 | SetIfAbsent k v \<Rightarrow> unat (sz v) < 2 ^ 63
      | SetCapacity cap \<Rightarrow> unat cap \<le> 2 ^ 63 | _ \<Rightarrow> True)"

lemma spec_do_bytes:
  assumes "small_op sz x" "distinct (map fst l)" "bytes l \<le> unat cap" "unat cap \<le> 2 ^ 63"
    "spec_do sz x (cap, l) = (out, cap', l')"
  shows "bytes l' \<le> unat cap' \<and> unat cap' \<le> 2 ^ 63"
proof (cases x)
  case (Get k)
  then show ?thesis
    using assms bytes_front [of l k] by (auto simp: spec_get_def split: option.splits)
next
  case (SetIfAbsent k v)
  then show ?thesis
    using assms bytes_front [of l k] spec_set_bytes [of l "sz v" cap k v]
    by (auto simp: small_op_def split: option.splits)
next
  case (Delete k)
  then show ?thesis
    using assms bytes_without [of k l] by auto
qed (use assms spec_set_bytes [of l] trim_bytes [of l] in \<open>auto simp: small_op_def\<close>)

lemma lru_exec_bytes:
  "lru_ok c \<Longrightarrow> list_all (\<lambda>(t, x). small_op sz x) ops \<Longrightarrow> bytes (lru_abs c) \<le> unat (l_capacity c) \<Longrightarrow>
   unat (l_capacity c) \<le> 2 ^ 63 \<Longrightarrow> lru_exec sz c ops = Some (outs, c') \<Longrightarrow>
   bytes (lru_abs c') \<le> unat (l_capacity c') \<and> unat (l_size c') = bytes (lru_abs c')"
proof (induction ops arbitrary: c outs)
  case Nil
  then show ?case
    using total_exact [of "lru_abs c"] lru_okD(5) [of c] by simp
next
  case (Cons tx ops)
  obtain t x where tx: "tx = (t, x)" by force
  obtain out c1 where 1: "lru_do sz t x c = Some (out, c1)" "lru_ok c1"
    "spec_do sz x (l_capacity c, lru_abs c) = (out, l_capacity c1, lru_abs c1)"
    using lru_do_refines [OF Cons.prems(1), of sz t x] by (auto simp: lru_state_def)
  have "bytes (lru_abs c1) \<le> unat (l_capacity c1) \<and> unat (l_capacity c1) \<le> 2 ^ 63"
    using Cons.prems by (intro spec_do_bytes [OF _ _ _ _ 1(3)]) (auto simp: tx lru_okD(6))
  moreover obtain outs1 where "lru_exec sz c1 ops = Some (outs1, c')"
    using Cons.prems(5) 1(1) by (auto simp: tx split: option.splits)
  ultimately show ?case
    using Cons.IH [OF 1(2)] Cons.prems(2) by auto
qed

text \<open>
  With capacities of at most \<open>2 ^ 63\<close> bytes and values whose \<open>Size\<close> is not negative as an
  \<open>int\<close>, the cache never holds more bytes than its capacity after any sequence of calls, and its
  size field is the exact sum of the sizes held: the 64-bit arithmetic does not wrap.
\<close>

theorem lru_holds_capacity:
  assumes "unat cap \<le> 2 ^ 63" "list_all (\<lambda>(t, x). small_op sz x) ops"
    and "lru_exec sz (NewLRUCache cap) ops = Some (outs, c)"
  shows "bytes (lru_abs c) \<le> unat (l_capacity c) \<and> unat (l_size c) = bytes (lru_abs c)"
  using lru_exec_bytes [OF lru_ok_new assms(2) _ _ assms(3)] assms(1)
  by (simp add: lru_abs_def NewLRUCache_def)

lemma lru_holds_capacity_witness:
  "\<exists>outs c. lru_exec id (NewLRUCache 10) [(0, Set ''a'' 7), (1, Set ''b'' (6 :: 64 word))] = Some (outs, c) \<and>
     bytes (lru_abs c) \<le> unat (l_capacity c) \<and> unat (l_size c) = bytes (lru_abs c)"
proof -
  let ?ops = "[(0, Set ''a'' 7), (1, Set ''b'' (6 :: 64 word))] :: (int \<times> 64 word lru_op) list"
  obtain outs c where c: "lru_exec id (NewLRUCache 10) ?ops = Some (outs, c)"
    using lru_exec_refines [OF lru_ok_new, of id 10 ?ops] by blast
  have "unat (10 :: 64 word) \<le> 2 ^ 63" "list_all (\<lambda>(t, x). small_op id x) ?ops"
    by (simp_all add: small_op_def)
  from lru_holds_capacity [OF this c] c show ?thesis by blast
qed

section \<open>The cache as its client sees it\<close>

text \<open>
  What a client of a bounded cache may rely on: a value that fits is found again right after it
  is stored, looking up does not change what is found, and storing one key invents nothing
  under another.
\<close>

locale bounded_cache =
  fixes getc :: "int \<Rightarrow> string \<Rightarrow> 'c \<Rightarrow> 'v option \<times> 'c"
    and setc :: "int \<Rightarrow> string \<Rightarrow> 'v \<Rightarrow> 'c \<Rightarrow> 'c option"
    and ok :: "'c \<Rightarrow> bool"
    and fits :: "'v \<Rightarrow> 'c \<Rightarrow> bool"
  assumes set_total: "ok c \<Longrightarrow> \<exists>c'. setc t k v c = Some c' \<and> ok c'"
    and get_ok: "ok c \<Longrightarrow> ok (snd (getc t k c))"
    and set_get: "ok c \<Longrightarrow> fits v c \<Longrightarrow> setc t k v c = Some c' \<Longrightarrow> fst (getc t' k c') = Some v"
    and set_fits: "ok c \<Longrightarrow> setc t k v c = Some c' \<Longrightarrow> fits w c' = fits w c"
    and get_fits: "fits w (snd (getc t k c)) = fits w c"
    and get_get: "ok c \<Longrightarrow> fst (getc t' k' (snd (getc t k c))) = fst (getc t' k' c)"
    and set_other: "ok c \<Longrightarrow> setc t k v c = Some c' \<Longrightarrow> k' \<noteq> k \<Longrightarrow>
      fst (getc t' k' c') = Some w \<Longrightarrow> fst (getc t' k' c) = Some w"
begin

lemma set_ok: "ok c \<Longrightarrow> setc t k v c = Some c' \<Longrightarrow> ok c'"
  using set_total [of c t k v] by auto

text \<open>Two keys stored one after the other, as the registry stores a URL under two keys.\<close>

lemma set_set_get:
  assumes "ok c" "fits v c" "setc t k1 v c = Some c1" "setc t k2 v c1 = Some c2"
  shows "fst (getc t' k2 c2) = Some v" and "fst (getc t' k1 c2) \<in> {None, Some v}" and "ok c2"
proof -
  have 1: "ok c1" "fits v c1" "fst (getc t' k1 c1) = Some v"
    using assms set_ok set_fits set_get by auto
  show "ok c2" and "fst (getc t' k2 c2) = Some v"
    using 1 assms(4) set_ok set_get by auto
  show "fst (getc t' k1 c2) \<in> {None, Some v}"
  proof (cases "k1 = k2 \<or> fst (getc t' k1 c2) = None")
    case True
    then show ?thesis using \<open>fst (getc t' k2 c2) = Some v\<close> by auto
  next
    case False
    then show ?thesis using set_other [OF 1(1) assms(4)] 1(3) by fastforce
  qed
qed

end

lemma Get_lookup: "lru_ok c \<Longrightarrow> fst (lru_Get t k c) = map_option fst (map_of (lru_abs c) k)"
  using Get_refines [of c t k] by (auto simp: spec_get_def split: option.splits prod.splits)

lemma map_of_without: "map_of (without k l) k' = (if k' = k then None else map_of l k')"
  by (induction l) auto

lemma spec_get_lookup: "map_of (snd (spec_get k l)) k' = map_of l k'"
  by (auto simp: spec_get_def map_of_without split: option.splits)

lemma spec_set_head: "n \<le> cap \<Longrightarrow> map_of (spec_set cap k v n l) k = Some (v, n)"
  using trim_Cons [of n cap k v "without k l"] by (auto simp: spec_set_def)

lemma spec_set_other: "k' \<noteq> k \<Longrightarrow> map_of (spec_set cap k v n l) k' = Some x \<Longrightarrow> map_of l k' = Some x"
proof -
  assume "k' \<noteq> k" "map_of (spec_set cap k v n l) k' = Some x"
  moreover obtain m where "trim cap ((k, v, n) # without k l) = take m ((k, v, n) # without k l)"
    using trim_prefix [of "(k, v, n) # without k l" cap] by auto
  ultimately have "map_of ((k, v, n) # without k l) k' = Some x"
    by (metis map_of_take_le spec_set_def)
  then show ?thesis
    using \<open>k' \<noteq> k\<close> by (simp add: map_of_without)
qed

interpretation lru_cache: bounded_cache lru_Get "lru_Set sz" lru_ok "\<lambda>v c. sz v \<le> l_capacity c"
  for sz :: "'v \<Rightarrow> 64 word"
proof unfold_locales
  fix c :: "'v lru" and t t' k k' and v w :: 'v and c'
  assume ok: "lru_ok c"
  show "\<exists>c'. lru_Set sz t k v c = Some c' \<and> lru_ok c'" and "lru_ok (snd (lru_Get t k c))"
    using Set_refines [OF ok] Get_refines [OF ok] by blast+
  show "fst (lru_Get t' k' (snd (lru_Get t k c))) = fst (lru_Get t' k' c)"
    using Get_refines [OF ok, of t k] Get_lookup spec_get_lookup [of k "lru_abs c" k'] ok
    by (metis snd_conv)
  assume set: "lru_Set sz t k v c = Some c'"
  have c': "lru_ok c'" "lru_abs c' = spec_set (l_capacity c) k v (sz v) (lru_abs c)"
      "l_capacity c' = l_capacity c"
    using Set_refines [OF ok, of sz t k v] set by auto
  then show "(sz w \<le> l_capacity c') = (sz w \<le> l_capacity c)"
    by simp
  show "fst (lru_Get t' k c') = Some v" if "sz v \<le> l_capacity c"
    using that by (simp add: Get_lookup c' spec_set_head)
  show "fst (lru_Get t' k' c) = Some w" if "k' \<noteq> k" "fst (lru_Get t' k' c') = Some w"
    using that spec_set_other [OF that(1)] by (fastforce simp: Get_lookup c' ok)
qed (use Get_refines in \<open>auto simp: lru_Get_def Let_def split: option.splits\<close>)

text \<open>
  On any cache that a sequence of calls can produce, storing a value no larger than the
  capacity succeeds and the next lookup of that key returns it, whenever it happens; and no other
  key answers with a value it did not have before.
\<close>

theorem lru_get_after_set:
  assumes "lru_exec sz (NewLRUCache cap) ops = Some (outs, c)" and "sz v \<le> l_capacity c"
  shows "\<exists>c'. lru_Set sz t k v c = Some c' \<and> fst (lru_Get t' k c') = Some v \<and>
    (\<forall>k' w. k' \<noteq> k \<longrightarrow> fst (lru_Get t' k' c') = Some w \<longrightarrow> fst (lru_Get t' k' c) = Some w)"
proof -
  have "lru_ok c"
    using lru_exec_refines [OF lru_ok_new, of sz cap ops] assms(1) by auto
  then show ?thesis
    using lru_cache.set_total [of c sz t k v] lru_cache.set_get [of c sz v t k]
      lru_cache.set_other [of c sz t k v] assms(2) by blast
qed

lemma lru_get_after_set_witness:
  "\<exists>outs c c'. lru_exec id (NewLRUCache 10) [(0, Set ''a'' (7 :: 64 word))] = Some (outs, c) \<and>
     lru_Set id 1 ''b'' 6 c = Some c' \<and> fst (lru_Get 2 ''b'' c') = Some 6"
proof -
  let ?ops = "[(0, Set ''a'' (7 :: 64 word))] :: (int \<times> 64 word lru_op) list"
  obtain outs c where c: "lru_exec id (NewLRUCache 10) ?ops = Some (outs, c)"
    "lru_state c = snd (run_outs (\<lambda>s (t, x). spec_do id x s) (10, []) ?ops)"
    using lru_exec_refines [OF lru_ok_new, of id 10 ?ops] by auto
  then have "id (6 :: 64 word) \<le> l_capacity c"
    by (simp add: lru_state_def Let_def)
  then show ?thesis
    using lru_get_after_set [OF c(1), of 6 1 "''b''" 2] c(1) by blast
qed

end
