(* ===== verification/Hosts.thy ===== *)
theory Hosts
  imports Go_Prelude
begin

text \<open>
  Host names and base domains of the server: the validation of \<open>src/ngrok/server/tunnel.go\<close>
  (\<open>validHostname\<close>, \<open>hostnameAllowed\<close>, \<open>publicVhosts\<close>) and the command-line domains of
  \<open>src/ngrok/server/main.go\<close> (\<open>parseDomainTLSConfigs\<close>, \<open>configuredDomains\<close>). The parameter \<open>ul\<close>
  is what \<open>strings.ToLower\<close> does to a string that is not ASCII; \<open>raw\<close> is the variable \<open>VHOST\<close>.
\<close>

section \<open>Host names\<close>

definition label_char :: "char \<Rightarrow> bool" where
  "label_char ch \<longleftrightarrow> is_lower ch \<or> is_digit ch \<or> ch = CHR ''-''"

definition validHostnameLabel :: "string \<Rightarrow> bool" where
  "validHostnameLabel label =
     (if length label = 0 \<or> length label > 63 then False
      else if hd label = CHR ''-'' \<or> last label = CHR ''-'' then False
      else list_all label_char label)"

definition validHostname :: "string \<Rightarrow> bool" where
  "validHostname hostname =
     (if length hostname = 0 \<or> length hostname > 253 then False
      else list_all validHostnameLabel (split_on CHR ''.'' hostname))"

definition stripHostPort :: "string \<Rightarrow> string" where
  "stripHostPort host = (case split_host_port host of Inr (h, _) \<Rightarrow> h | Inl _ \<Rightarrow> host)"

fun hostnameAllowed :: "string \<Rightarrow> string list \<Rightarrow> bool" where
  "hostnameAllowed hostname [] = False"
| "hostnameAllowed hostname (v # vhosts) =
     (let vhost = stripHostPort v in
      if hostname = vhost \<or> has_suffix hostname (CHR ''.'' # vhost) then True
      else hostnameAllowed hostname vhosts)"

section \<open>The virtual hosts the server serves\<close>

definition defaultPortMap :: "string \<rightharpoonup> int" where
  "defaultPortMap = [''http'' \<mapsto> 80, ''https'' \<mapsto> 443, ''smtp'' \<mapsto> 25]"

text \<open>The body of the loop of \<open>publicVhosts\<close>; \<open>seen\<close> lists the keys of the map of that name.\<close>

definition vhost_item :: "(string \<Rightarrow> string) \<Rightarrow> string \<Rightarrow> string \<Rightarrow> string" where
  "vhost_item ul defaultPortSuffix item =
     (let vhost = to_lower ul (trim_space item) in trim_suffix vhost defaultPortSuffix)"

fun dedup :: "string list \<Rightarrow> string list \<Rightarrow> string list" where
  "dedup seen [] = []"
| "dedup seen (v # vs) =
     (if v = [] \<or> v \<in> set seen then dedup seen vs else v # dedup (v # seen) vs)"

definition publicVhosts ::
  "(string \<Rightarrow> string) \<Rightarrow> string \<Rightarrow> string list \<Rightarrow> string \<Rightarrow> int \<Rightarrow> string list"
where
  "publicVhosts ul VHOST domains protocol servingPort =
     (let raw = (if VHOST = []
                 then join '','' (map (\<lambda>domain. domain @ '':'' @ show_int servingPort) domains)
                 else VHOST);
          defaultPort = (case defaultPortMap protocol of None \<Rightarrow> 0 | Some p \<Rightarrow> p);
          defaultPortSuffix = '':'' @ show_int defaultPort
      in dedup [] (map (vhost_item ul defaultPortSuffix) (split_on CHR '','' raw)))"

section \<open>Domains of the command line\<close>

record DomainTLSConfig =
  dt_Domain :: string
  dt_CrtPath :: string
  dt_KeyPath :: string

datatype domain_cert_error = BadDomainCert string | BadDomainCertDomain string

fun parseDomainTLSConfigs ::
  "(string \<Rightarrow> string) \<Rightarrow> string list \<Rightarrow> domain_cert_error + DomainTLSConfig list"
where
  "parseDomainTLSConfigs ul [] = Inr []"
| "parseDomainTLSConfigs ul (value # values) =
     (let parts = split_n 3 CHR '':'' value in
      if length parts \<noteq> 3 then Inl (BadDomainCert value)
      else let domain = to_lower ul (trim_space (parts ! 0)) in
      if \<not> validHostname domain then Inl (BadDomainCertDomain domain)
      else (case parseDomainTLSConfigs ul values of
              Inl e \<Rightarrow> Inl e
            | Inr configs \<Rightarrow>
                Inr (\<lparr>dt_Domain = domain, dt_CrtPath = parts ! 1, dt_KeyPath = parts ! 2\<rparr> # configs)))"

definition configuredDomains ::
  "(string \<Rightarrow> string) \<Rightarrow> string \<Rightarrow> DomainTLSConfig list \<Rightarrow> string list"
where
  "configuredDomains ul defaultDomain domainCerts =
     dedup []
       (map (\<lambda>domain. to_lower ul (trim_space domain)) (defaultDomain # map dt_Domain domainCerts))"

section \<open>Valid host names are in normal form\<close>

lemma label_char_facts:
  assumes "label_char c"
  shows "solid c" "is_ascii c" "lower_char c = c" "c \<noteq> CHR '':''" "c \<noteq> CHR ''.''" "c \<noteq> CHR '',''"
proof -
  have "45 \<le> (of_char c :: int) \<and> (of_char c :: int) \<le> 122"
    using assms by (auto simp: label_char_def is_lower_def is_digit_def)
  then show "solid c" "is_ascii c"
    by (auto intro: solid_ascii simp: is_ascii_def)
  show "lower_char c = c" "c \<noteq> CHR '':''" "c \<noteq> CHR ''.''" "c \<noteq> CHR '',''"
    using assms by (auto simp: label_char_def lower_char_def char_class_defs)
qed

definition host_char :: "char \<Rightarrow> bool" where
  "host_char c \<longleftrightarrow> label_char c \<or> c = CHR ''.''"

lemma dot_facts: "solid CHR ''.''" "is_ascii CHR ''.''" "lower_char CHR ''.'' = CHR ''.''"
  by (auto intro: solid_ascii simp: lower_char_def char_class_defs)

lemma host_char_facts:
  assumes "host_char c"
  shows "solid c" "is_ascii c" "lower_char c = c" "c \<noteq> CHR '':''" "c \<noteq> CHR '',''"
  using assms label_char_facts [of c] dot_facts by (auto simp: host_char_def)

lemma validHostname_chars: "validHostname h \<Longrightarrow> c \<in> set h \<Longrightarrow> host_char c"
  using split_on_chars [of c h "CHR ''.''"]
  by (auto simp: validHostname_def validHostnameLabel_def host_char_def list_all_iff split: if_splits)

lemma validHostname_nonempty: "validHostname h \<Longrightarrow> h \<noteq> []"
  by (auto simp: validHostname_def)

lemma to_lower_id: "\<forall>c \<in> set s. is_ascii c \<and> lower_char c = c \<Longrightarrow> to_lower ul s = s"
  by (auto simp: to_lower_def list_all_iff intro: map_idI)

lemma stripHostPort_plain: "CHR '':'' \<notin> set h \<Longrightarrow> stripHostPort h = h"
  by (simp add: stripHostPort_def split_host_port_def last_cut_None [THEN iffD2])

lemma valid_hostname_chars_normal:
  assumes "validHostname h"
  shows "to_lower ul h = h" "trim_space h = h"
proof -
  have ne: "h \<noteq> []" and ch: "\<forall>c \<in> set h. host_char c"
    using assms validHostname_nonempty validHostname_chars by auto
  show "to_lower ul h = h"
    using ch by (intro to_lower_id) (simp add: host_char_facts)
  show "trim_space h = h"
    using ch ne by (intro trim_space_id) (simp_all add: host_char_facts)
qed

text \<open>
  An accepted host name is in the normal form every later comparison assumes: it is not empty
  and at most 253 bytes of lower-case letters, digits, hyphens and dots, every label has 1 to 63
  of them, and lower-casing it, trimming it or stripping a port from it changes nothing.
\<close>

theorem valid_hostname_normal:
  assumes "validHostname h"
  shows "to_lower ul h = h \<and> trim_space h = h \<and> stripHostPort h = h \<and>
    0 < length h \<and> length h \<le> 253 \<and> list_all host_char h \<and>
    list_all (\<lambda>l. 0 < length l \<and> length l \<le> 63 \<and> list_all label_char l) (split_on CHR ''.'' h)"
proof -
  have ch: "\<forall>c \<in> set h. host_char c"
    using assms validHostname_chars by auto
  then have "stripHostPort h = h"
    using host_char_facts(4) by (intro stripHostPort_plain) blast
  then show ?thesis
    using assms ch valid_hostname_chars_normal [OF assms]
    by (auto simp: validHostname_def validHostnameLabel_def list_all_iff split: if_splits)
qed

lemma valid_hostname_normal_witness:
  "validHostname ''a-1.ex.org'' \<and> trim_space ''a-1.ex.org'' = ''a-1.ex.org''"
proof -
  have v: "validHostname ''a-1.ex.org''"
    by (simp add: validHostname_def validHostnameLabel_def label_char_def is_lower_def is_digit_def)
  show ?thesis
    using valid_hostname_normal [OF v] v by blast
qed

lemma validHostname_no_dot_end: "validHostname h \<Longrightarrow> trim_suffix h ''.'' = h"
proof (rule trim_suffix_id, rule notI)
  assume h: "validHostname h" "has_suffix h ''.''"
  then obtain q where "h = q @ [CHR ''.'']"
    by (auto simp: has_suffix_iff)
  then have "[] \<in> set (split_on CHR ''.'' h)"
    using split_on_sep [of "CHR ''.''" q "[]"] by simp
  then show False
    using h(1) by (auto simp: validHostname_def list_all_iff validHostnameLabel_def split: if_splits)
qed

lemma validHostname_no_star: "validHostname h \<Longrightarrow> h \<noteq> ''*.'' @ d"
  using validHostname_chars [of h "CHR ''*''"]
  by (auto simp: host_char_def label_char_def is_lower_def is_digit_def)

section \<open>Allowed host names\<close>

lemma hostnameAllowed_suffix:
  "hostnameAllowed h vhosts \<Longrightarrow>
     \<exists>v \<in> set vhosts. h = stripHostPort v \<or> (\<exists>p. h = p @ ''.'' @ stripHostPort v)"
  by (induction vhosts) (auto simp: has_suffix_iff Let_def split: if_splits)

text \<open>
  A host name is allowed exactly when it is one of the served domains, ports aside, or a name
  below one of them: the match is on whole labels, so \<open>evil-example.com\<close> is not under
  \<open>example.com\<close>.
\<close>

theorem hostnameAllowed_iff:
  "hostnameAllowed h vhosts \<longleftrightarrow>
     (\<exists>v \<in> set vhosts. h = stripHostPort v \<or> (\<exists>p. h = p @ ''.'' @ stripHostPort v))"
  by (induction vhosts) (auto simp: has_suffix_iff Let_def)

section \<open>The served virtual hosts\<close>

lemma dedup_set: "x \<in> set (dedup seen vs) \<longleftrightarrow> x \<in> set vs \<and> x \<noteq> [] \<and> x \<notin> set seen"
  by (induction seen vs arbitrary: x rule: dedup.induct) (auto split: if_splits)

lemma dedup_distinct: "distinct (dedup seen vs)"
  by (induction seen vs rule: dedup.induct) (auto simp: dedup_set)

lemma dedup_id: "distinct vs \<Longrightarrow> \<forall>v \<in> set vs. v \<noteq> [] \<and> v \<notin> set seen \<Longrightarrow> dedup seen vs = vs"
  by (induction seen vs rule: dedup.induct) auto

lemma digit_facts:
  assumes "is_digit c"
  shows "solid c" "is_ascii c" "lower_char c = c" "c \<noteq> CHR '':''" "c \<noteq> CHR '',''"
  using label_char_facts [of c] assms by (auto simp: label_char_def)

definition host_port :: "int \<Rightarrow> string \<Rightarrow> string" where
  "host_port port d = d @ '':'' @ show_int port"

lemma host_port_item:
  assumes "validHostname d" "0 \<le> port" "0 \<le> dflt"
  shows "vhost_item ul ('':'' @ show_int dflt) (host_port port d) =
    (if port = dflt then d else host_port port d)"
proof -
  have dch: "\<forall>c \<in> set d. host_char c" and pch: "\<forall>c \<in> set (show_int port). is_digit c"
    "\<forall>c \<in> set (show_int dflt). is_digit c"
    using assms validHostname_chars show_int_digits by auto
  have ne: "d \<noteq> []" "show_int port \<noteq> []"
    using assms validHostname_nonempty by auto
  have colon: "is_ascii CHR '':''" "lower_char CHR '':'' = CHR '':''"
    by (auto simp: lower_char_def char_class_defs)
  have "trim_space (host_port port d) = host_port port d"
    using dch pch(1) ne by (intro trim_space_id) (auto simp: host_port_def host_char_facts digit_facts)
  moreover have "to_lower ul (host_port port d) = host_port port d"
    using dch pch(1) colon by (intro to_lower_id) (auto simp: host_port_def host_char_facts digit_facts)
  moreover have "has_suffix (host_port port d) ('':'' @ show_int dflt) \<longleftrightarrow> port = dflt"
    using has_suffix_sep [of "CHR '':''" "show_int port" "show_int dflt" d] pch assms
      show_int_inj [of port dflt] digit_facts(4) by (auto simp: host_port_def)
  ultimately show ?thesis
    using trim_suffix_append [of d "'':'' @ show_int port"]
    by (auto simp: vhost_item_def Let_def trim_suffix_id) (simp add: host_port_def)
qed

lemma publicVhosts_no_VHOST:
  assumes "domains \<noteq> []" "list_all validHostname domains" "distinct domains" "0 \<le> port"
    and "defaultPortMap protocol = Some dflt"
  shows "publicVhosts ul [] domains protocol port =
    (if port = dflt then domains else map (host_port port) domains)"
proof -
  have dflt: "0 \<le> dflt"
    using assms(5) by (auto simp: defaultPortMap_def split: if_splits)
  have nocomma: "\<forall>x \<in> set (map (host_port port) domains). CHR '','' \<notin> set x"
    using assms(2) validHostname_chars host_char_facts(5) show_int_digits [OF assms(4)] digit_facts(5)
    by (fastforce simp: host_port_def list_all_iff)
  have items: "map (vhost_item ul ('':'' @ show_int dflt)) (map (host_port port) domains) =
      (if port = dflt then domains else map (host_port port) domains)"
    using assms(2) host_port_item [OF _ assms(4) dflt, of _ ul]
    by (auto simp: list_all_iff intro: map_idI)
  have "distinct (if port = dflt then domains else map (host_port port) domains)"
    using assms(3) by (auto simp: distinct_map inj_on_def host_port_def)
  moreover have "\<forall>v \<in> set (if port = dflt then domains else map (host_port port) domains). v \<noteq> []"
    using assms(2) validHostname_nonempty by (auto simp: list_all_iff host_port_def)
  ultimately show ?thesis
    using split_on_join [OF _ nocomma] assms(1,5) items dedup_id
    by (simp add: publicVhosts_def Let_def host_port_def [abs_def] cong: if_cong)
qed

text \<open>
  Without \<open>VHOST\<close>, the virtual hosts of a protocol are the configured domains in their order,
  with the port of the listener appended exactly when it is not the default port of the protocol.
\<close>

theorem publicVhosts_configured:
  assumes "domains \<noteq> []" "list_all validHostname domains" "distinct domains" "0 \<le> port"
    and "defaultPortMap protocol = Some dflt"
  shows "publicVhosts ul [] domains protocol port =
    (if port = dflt then domains else map (host_port port) domains)"
  using publicVhosts_no_VHOST [OF assms] .

lemma publicVhosts_configured_witness:
  "publicVhosts id [] [''ex.org''] ''http'' 8080 = [''ex.org:8080'']"
proof -
  have "list_all validHostname [''ex.org'']"
    by (simp add: validHostname_def validHostnameLabel_def label_char_def is_lower_def is_digit_def)
  moreover have "defaultPortMap ''http'' = Some 80"
    by (simp add: defaultPortMap_def)
  ultimately show ?thesis
    using publicVhosts_configured [of "[''ex.org'']" 8080 "''http''" 80 id]
    by (simp add: host_port_def show_int_def show_digits.simps)
qed

section \<open>The command line\<close>

text \<open>One accepted \<open>-domainCert\<close> value: its first two colons separate the three fields.\<close>

definition cert_value_ok :: "(string \<Rightarrow> string) \<Rightarrow> string \<Rightarrow> DomainTLSConfig \<Rightarrow> bool" where
  "cert_value_ok ul value cfg \<longleftrightarrow>
     (case cut CHR '':'' value of
        None \<Rightarrow> False
      | Some (d, rest) \<Rightarrow>
          cut CHR '':'' rest = Some (dt_CrtPath cfg, dt_KeyPath cfg) \<and>
          dt_Domain cfg = to_lower ul (trim_space d) \<and> validHostname (dt_Domain cfg))"

lemma split_3: "length (split_n 3 c s) = 3 \<Longrightarrow> \<exists>a b. cut c s = Some (a, b) \<and>
    (\<exists>d e. cut c b = Some (d, e) \<and> split_n 3 c s = [a, d, e])"
  by (auto simp: numeral_3_eq_3 split: option.splits)

lemma parsed_values:
  "parseDomainTLSConfigs ul vals = Inr configs \<Longrightarrow> list_all2 (cert_value_ok ul) vals configs"
proof (induction vals arbitrary: configs)
  case (Cons v vs)
  then obtain cfgs where "length (split_n 3 CHR '':'' v) = 3"
    "parseDomainTLSConfigs ul vs = Inr cfgs"
    "validHostname (to_lower ul (trim_space (split_n 3 CHR '':'' v ! 0)))"
    "configs = \<lparr>dt_Domain = to_lower ul (trim_space (split_n 3 CHR '':'' v ! 0)),
        dt_CrtPath = split_n 3 CHR '':'' v ! 1, dt_KeyPath = split_n 3 CHR '':'' v ! 2\<rparr> # cfgs"
    by (auto simp: Let_def split: if_splits sum.splits)
  then show ?case
    using split_3 [of "CHR '':''" v] Cons.IH by (auto simp: cert_value_ok_def)
qed simp

lemma parsed_domains_valid:
  assumes "parseDomainTLSConfigs ul vals = Inr configs"
  shows "\<forall>cfg \<in> set configs. validHostname (dt_Domain cfg)"
  using parsed_values [OF assms]
  by (induction rule: list_all2_induct) (auto simp: cert_value_ok_def split: option.splits)

text \<open>
  The \<open>-domainCert\<close> flags are accepted only if every one of them is \<open>domain:crt:key\<close> with a
  valid domain; then there is one configuration a flag, in order, and the server's domains are
  its own and theirs without repetition, each of them a valid host name if its own is.
\<close>

theorem domain_certs_parsed:
  assumes "parseDomainTLSConfigs ul vals = Inr configs"
  shows "list_all2 (cert_value_ok ul) vals configs \<and>
    distinct (configuredDomains ul d configs) \<and>
    (validHostname d \<longrightarrow> list_all validHostname (configuredDomains ul d configs) \<and>
       set (configuredDomains ul d configs) = insert d (set (map dt_Domain configs)))"
proof -
  have each: "list_all2 (cert_value_ok ul) vals configs"
    by (rule parsed_values [OF assms])
  have valid: "\<forall>cfg \<in> set configs. validHostname (dt_Domain cfg)"
    by (rule parsed_domains_valid [OF assms])
  have norm: "to_lower ul (trim_space h) = h" if "validHostname h" for h
    using valid_hostname_chars_normal [OF that] by simp
  have "map (\<lambda>h. to_lower ul (trim_space h)) (d # map dt_Domain configs) = d # map dt_Domain configs"
    if "validHostname d"
    using valid that by (auto simp: norm)
  then have "set (configuredDomains ul d configs) = insert d (set (map dt_Domain configs))"
    if "validHostname d"
    using that valid validHostname_nonempty by (auto simp: configuredDomains_def dedup_set)
  moreover have "distinct (configuredDomains ul d configs)"
    unfolding configuredDomains_def by (rule dedup_distinct)
  ultimately show ?thesis
    using each valid by (auto simp: list_all_iff)
qed

lemma domain_certs_parsed_witness:
  "list_all validHostname (configuredDomains id ''b.io'' [\<lparr>dt_Domain = ''a.io'', dt_CrtPath = ''c'', dt_KeyPath = ''k''\<rparr>])"
proof -
  have v: "validHostname ''a.io''" "validHostname ''b.io''"
    by (simp_all add: validHostname_def validHostnameLabel_def label_char_def is_lower_def is_digit_def)
  have "split_n 3 CHR '':'' ''a.io:c:k'' = [''a.io'', ''c'', ''k'']"
    by (simp add: numeral_3_eq_3)
  then have "parseDomainTLSConfigs id [''a.io:c:k''] =
      Inr [\<lparr>dt_Domain = ''a.io'', dt_CrtPath = ''c'', dt_KeyPath = ''k''\<rparr>]"
    using v valid_hostname_chars_normal(1) [OF v(1), of id] valid_hostname_chars_normal(2) [OF v(1)] by simp
  from domain_certs_parsed [OF this, of "''b.io''"] v show ?thesis by blast
qed

end
