(* ===== verification/Messages.thy ===== *)
theory Messages
  imports Go_Prelude
begin

text \<open>
  The messages of \<open>src/ngrok/msg/msg.go\<close>: one record per Go struct and the datatype of the values
  an interface of type \<open>Message\<close> can hold; and the framing of \<open>src/ngrok/msg/conn.go\<close>.
\<close>

section \<open>The structs\<close>

record Auth =
  au_Version :: string
  au_MmVersion :: string
  au_User :: string
  au_Password :: string
  au_OS :: string
  au_Arch :: string
  au_ClientId :: string

record AuthResp =
  ar_Version :: string
  ar_MmVersion :: string
  ar_ClientId :: string
  ar_Error :: string

record ReqTunnel =
  rt_ReqId :: string
  rt_Protocol :: string
  rt_Hostname :: string
  rt_Subdomain :: string
  rt_HttpAuth :: string
  rt_RemotePort :: "16 word"

record NewTunnel =
  nt_ReqId :: string
  nt_Url :: string
  nt_Protocol :: string
  nt_Error :: string

record RegProxy =
  rp_ClientId :: string

record StartProxy =
  sp_Url :: string
  sp_ClientAddr :: string

datatype msg =
  MAuth Auth
| MAuthResp AuthResp
| MReqTunnel ReqTunnel
| MNewTunnel NewTunnel
| MRegProxy RegProxy
| MReqProxy
| MStartProxy StartProxy
| MPing
| MPong

text \<open>The name of a message's type, the key of \<open>TypeMap\<close>.\<close>

fun type_name :: "msg \<Rightarrow> string" where
  "type_name (MAuth _) = ''Auth''"
| "type_name (MAuthResp _) = ''AuthResp''"
| "type_name (MReqTunnel _) = ''ReqTunnel''"
| "type_name (MNewTunnel _) = ''NewTunnel''"
| "type_name (MRegProxy _) = ''RegProxy''"
| "type_name MReqProxy = ''ReqProxy''"
| "type_name (MStartProxy _) = ''StartProxy''"
| "type_name MPing = ''Ping''"
| "type_name MPong = ''Pong''"

text \<open>\<open>reflect.New(t)\<close> of each entry of \<open>TypeMap\<close>: a message with every field zero.\<close>

definition TypeMap :: "string \<rightharpoonup> msg" where
  "TypeMap =
     [''Auth'' \<mapsto> MAuth \<lparr>au_Version = [], au_MmVersion = [], au_User = [], au_Password = [], au_OS = [],
                       au_Arch = [], au_ClientId = []\<rparr>,
      ''AuthResp'' \<mapsto> MAuthResp \<lparr>ar_Version = [], ar_MmVersion = [], ar_ClientId = [], ar_Error = []\<rparr>,
      ''ReqTunnel'' \<mapsto> MReqTunnel \<lparr>rt_ReqId = [], rt_Protocol = [], rt_Hostname = [], rt_Subdomain = [],
                                 rt_HttpAuth = [], rt_RemotePort = 0\<rparr>,
      ''NewTunnel'' \<mapsto> MNewTunnel \<lparr>nt_ReqId = [], nt_Url = [], nt_Protocol = [], nt_Error = []\<rparr>,
      ''RegProxy'' \<mapsto> MRegProxy \<lparr>rp_ClientId = []\<rparr>,
      ''ReqProxy'' \<mapsto> MReqProxy,
      ''StartProxy'' \<mapsto> MStartProxy \<lparr>sp_Url = [], sp_ClientAddr = []\<rparr>,
      ''Ping'' \<mapsto> MPing,
      ''Pong'' \<mapsto> MPong]"

end
