(* ===== verification/Registry.thy ===== *)
theory Registry
  imports Lru_Cache Shutdown
begin

text \<open>
  The registries of \<open>src/ngrok/server/registry.go\<close>. A \<open>*Tunnel\<close> or \<open>*Control\<close> is a number. The
  tunnel registry is the map from URLs to tunnels and the affinity cache of the URLs that were
  assigned to a client before; the control registry is the map from client ids to controls, with
  the fields of the controls that its \<open>Add\<close> writes (\<open>Control.Replaced\<close> of
  \<open>src/ngrok/server/control.go\<close>). The gob file of the affinity cache is read and written by the
  standard library and is not modelled.
\<close>

section \<open>The tunnel registry\<close>

record tunnel_registry =
  tr_tunnels :: "string \<rightharpoonup> nat"
  tr_affinity :: "string lru"

definition cacheUrl_Size :: "string \<Rightarrow> 64 word" where
  "cacheUrl_Size url = word_of_nat (length url)"

definition NewTunnelRegistry :: "64 word \<Rightarrow> tunnel_registry" where
  "NewTunnelRegistry cacheSize = \<lparr>tr_tunnels = Map.empty, tr_affinity = NewLRUCache cacheSize\<rparr>"

text \<open>What the registry reads of a tunnel: its number, protocol, client address and client id.\<close>

record tunnel_key =
  tk_tunnel :: nat
  tk_Protocol :: string
  tk_ip :: string
  tk_id :: string

definition tr_Register :: "string \<Rightarrow> nat \<Rightarrow> tunnel_registry \<Rightarrow> tunnel_registry result" where
  "tr_Register url t r =
     (if tr_tunnels r url \<noteq> None then Inl (''The tunnel '' @ url @ '' is already registered.'')
      else Inr (r\<lparr>tr_tunnels := (tr_tunnels r)(url \<mapsto> t)\<rparr>))"

definition tr_cacheKeys :: "tunnel_key \<Rightarrow> string \<times> string" where
  "tr_cacheKeys t =
     (''client-ip-'' @ tk_Protocol t @ '':'' @ tk_ip t, ''client-id-'' @ tk_Protocol t @ '':'' @ tk_id t)"

definition tr_GetCachedRegistration :: "int \<Rightarrow> tunnel_key \<Rightarrow> tunnel_registry \<Rightarrow> string \<times> tunnel_registry"
where
  "tr_GetCachedRegistration now t r =
     (let (ipCacheKey, idCacheKey) = tr_cacheKeys t;
          (v, a1) = lru_Get now idCacheKey (tr_affinity r)
      in case v of
           Some url \<Rightarrow> (url, r\<lparr>tr_affinity := a1\<rparr>)
         | None \<Rightarrow>
             (let (w, a2) = lru_Get now ipCacheKey a1
              in case w of
                   Some url \<Rightarrow> (url, r\<lparr>tr_affinity := a2\<rparr>)
                 | None \<Rightarrow> ([], r\<lparr>tr_affinity := a2\<rparr>)))"

text \<open>The outer option is a panic of the cache.\<close>

definition tr_RegisterAndCache ::
  "int \<Rightarrow> string \<Rightarrow> tunnel_key \<Rightarrow> tunnel_registry \<Rightarrow> tunnel_registry result option"
where
  "tr_RegisterAndCache now url t r =
     (case tr_Register url (tk_tunnel t) r of
        Inl err \<Rightarrow> Some (Inl err)
      | Inr r1 \<Rightarrow>
          let (ipCacheKey, idCacheKey) = tr_cacheKeys t in
          (case lru_Set cacheUrl_Size now ipCacheKey url (tr_affinity r1) of
             None \<Rightarrow> None
           | Some a1 \<Rightarrow>
               (case lru_Set cacheUrl_Size now idCacheKey url a1 of
                  None \<Rightarrow> None
                | Some a2 \<Rightarrow> Some (Inr (r1\<lparr>tr_affinity := a2\<rparr>)))))"

definition maxAttempts :: nat where
  "maxAttempts = 5"

text \<open>
  The loop of \<open>RegisterRepeat\<close>: \<open>left\<close> attempts remain, \<open>k\<close> URLs have been generated, \<open>urlFn k\<close> is
  the next one. A failed last attempt still generates a URL, as the code does.
\<close>

fun tr_repeat ::
  "int \<Rightarrow> (nat \<Rightarrow> string) \<Rightarrow> tunnel_key \<Rightarrow> nat \<Rightarrow> nat \<Rightarrow> string \<Rightarrow> tunnel_registry \<Rightarrow>
   (string result \<times> nat \<times> tunnel_registry) option"
where
  "tr_repeat now urlFn t 0 k url r =
     Some (Inl (''Failed to assign a URL after '' @ show_int (int maxAttempts) @ '' attempts!''), k, r)"
| "tr_repeat now urlFn t (Suc left) k url r =
     (case tr_RegisterAndCache now url t r of
        None \<Rightarrow> None
      | Some (Inl err) \<Rightarrow> tr_repeat now urlFn t left (Suc k) (urlFn k) r
      | Some (Inr r1) \<Rightarrow> Some (Inr url, k, r1))"

definition tr_RegisterRepeat ::
  "int \<Rightarrow> (nat \<Rightarrow> string) \<Rightarrow> tunnel_key \<Rightarrow> tunnel_registry \<Rightarrow>
   (string result \<times> nat \<times> tunnel_registry) option"
where
  "tr_RegisterRepeat now urlFn t r =
     (let (cached, r1) = tr_GetCachedRegistration now t r in
      if cached = [] then tr_repeat now urlFn t maxAttempts 1 (urlFn 0) r1
      else tr_repeat now urlFn t maxAttempts 0 cached r1)"

definition tr_Del :: "string \<Rightarrow> tunnel_registry \<Rightarrow> tunnel_registry" where
  "tr_Del url r = r\<lparr>tr_tunnels := (tr_tunnels r)(url := None)\<rparr>"

definition tr_Get :: "string \<Rightarrow> tunnel_registry \<Rightarrow> nat option" where
  "tr_Get url r = tr_tunnels r url"

section \<open>The control registry\<close>

record control_registry =
  cr_controls :: "string \<rightharpoonup> nat"
  cr_id :: "nat \<Rightarrow> string"
  cr_shutdown :: "nat \<Rightarrow> shutdown"

definition NewControlRegistry :: control_registry where
  "NewControlRegistry =
     \<lparr>cr_controls = Map.empty, cr_id = (\<lambda>_. []), cr_shutdown = (\<lambda>_. NewShutdown)\<rparr>"

definition cr_Get :: "string \<Rightarrow> control_registry \<Rightarrow> nat option" where
  "cr_Get clientId r = cr_controls r clientId"

text \<open>\<open>oldCtl.Replaced(ctl)\<close>: the old control loses its id and begins to shut down.\<close>

definition ctl_Replaced :: "nat \<Rightarrow> control_registry \<Rightarrow> control_registry option" where
  "ctl_Replaced old r =
     (case sd_Begin (cr_shutdown r old) of
        None \<Rightarrow> None
      | Some s \<Rightarrow> Some (r\<lparr>cr_id := (cr_id r)(old := []), cr_shutdown := (cr_shutdown r)(old := s)\<rparr>))"

definition cr_Add :: "string \<Rightarrow> nat \<Rightarrow> control_registry \<Rightarrow> (nat option \<times> control_registry) option" where
  "cr_Add clientId ctl r =
     (let oldCtl = cr_controls r clientId in
      case (case oldCtl of None \<Rightarrow> Some r | Some old \<Rightarrow> ctl_Replaced old r) of
        None \<Rightarrow> None
      | Some r1 \<Rightarrow> Some (oldCtl, r1\<lparr>cr_controls := (cr_controls r1)(clientId \<mapsto> ctl)\<rparr>))"

definition cr_Del :: "string \<Rightarrow> control_registry \<Rightarrow> string option \<times> control_registry" where
  "cr_Del clientId r =
     (if cr_controls r clientId = None then (Some (''No control found for client id: '' @ clientId), r)
      else (None, r\<lparr>cr_controls := (cr_controls r)(clientId := None)\<rparr>))"

section \<open>Assigning URLs\<close>

definition tr_ok :: "tunnel_registry \<Rightarrow> bool" where
  "tr_ok r \<longleftrightarrow> lru_ok (tr_affinity r)"

text \<open>The URL the affinity cache holds under a key, without touching it.\<close>

definition affinity_of :: "string \<Rightarrow> tunnel_registry \<Rightarrow> string option" where
  "affinity_of key r = map_option fst (map_of (lru_abs (tr_affinity r)) key)"

lemma lru_Get_affinity: "tr_ok r \<Longrightarrow> fst (lru_Get now k (tr_affinity r)) = affinity_of k r"
  by (simp add: tr_ok_def affinity_of_def Get_lookup)

definition cached_url :: "tunnel_key \<Rightarrow> tunnel_registry \<Rightarrow> string" where
  "cached_url t r =
     (case affinity_of (snd (tr_cacheKeys t)) r of
        Some url \<Rightarrow> url
      | None \<Rightarrow> (case affinity_of (fst (tr_cacheKeys t)) r of Some url \<Rightarrow> url | None \<Rightarrow> []))"

lemma GetCachedRegistration_spec:
  assumes "tr_ok r"
  shows "fst (tr_GetCachedRegistration now t r) = cached_url t r"
    and "tr_ok (snd (tr_GetCachedRegistration now t r))"
    and "tr_tunnels (snd (tr_GetCachedRegistration now t r)) = tr_tunnels r"
proof -
  obtain ip id where keys: "tr_cacheKeys t = (ip, id)" by force
  obtain v a1 where 1: "lru_Get now id (tr_affinity r) = (v, a1)" by force
  obtain w a2 where 2: "lru_Get now ip a1 = (w, a2)" by force
  have ok: "lru_ok (tr_affinity r)"
    using assms by (simp add: tr_ok_def)
  have "v = affinity_of id r"
    using lru_Get_affinity [OF assms, of now id] 1 by simp
  moreover have "w = affinity_of ip r"
    using lru_Get_affinity [OF assms, of now ip] lru_cache.get_get [OF ok, of now ip now id] 1 2 by simp
  moreover have "lru_ok a1" "lru_ok a2"
    using lru_cache.get_ok [OF ok, of now id] lru_cache.get_ok [of a1 now ip] 1 2 by auto
  ultimately show "fst (tr_GetCachedRegistration now t r) = cached_url t r"
    and "tr_ok (snd (tr_GetCachedRegistration now t r))"
    and "tr_tunnels (snd (tr_GetCachedRegistration now t r)) = tr_tunnels r"
    using 1 2 keys
    by (auto simp: tr_GetCachedRegistration_def cached_url_def tr_ok_def Let_def split: option.splits)
qed

lemma RegisterAndCache_taken:
  "tr_tunnels r url \<noteq> None \<Longrightarrow>
   tr_RegisterAndCache now url t r = Some (Inl (''The tunnel '' @ url @ '' is already registered.''))"
  by (simp add: tr_RegisterAndCache_def tr_Register_def)

lemma RegisterAndCache_free:
  assumes "tr_ok r" "tr_tunnels r url = None"
  shows "\<exists>r'. tr_RegisterAndCache now url t r = Some (Inr r') \<and> tr_ok r' \<and>
    tr_tunnels r' = (tr_tunnels r)(url \<mapsto> tk_tunnel t) \<and>
    (cacheUrl_Size url \<le> l_capacity (tr_affinity r) \<longrightarrow> cached_url t r' = url) \<and>
    l_capacity (tr_affinity r') = l_capacity (tr_affinity r)"
proof -
  obtain ip id where keys: "tr_cacheKeys t = (ip, id)" by force
  have ok: "lru_ok (tr_affinity r)"
    using assms by (simp add: tr_ok_def)
  obtain a1 where 1: "lru_Set cacheUrl_Size now ip url (tr_affinity r) = Some a1" "lru_ok a1"
      "l_capacity a1 = l_capacity (tr_affinity r)"
    using Set_refines [OF ok] by blast
  obtain a2 where 2: "lru_Set cacheUrl_Size now id url a1 = Some a2" "lru_ok a2"
      "l_capacity a2 = l_capacity a1"
    using Set_refines [OF 1(2)] by blast
  let ?r = "r\<lparr>tr_tunnels := (tr_tunnels r)(url \<mapsto> tk_tunnel t), tr_affinity := a2\<rparr>"
  have "affinity_of id ?r = Some url" if "cacheUrl_Size url \<le> l_capacity (tr_affinity r)"
    using lru_cache.set_set_get(1) [OF ok that 1(1) 2(1), of now] lru_Get_affinity [of ?r now id] 2(2)
    by (simp add: tr_ok_def)
  then show ?thesis
    using assms 1 2 keys
    by (auto simp: tr_RegisterAndCache_def tr_Register_def tr_ok_def cached_url_def)
qed

text \<open>The URLs the loop tries, in order.\<close>

fun candidates :: "(nat \<Rightarrow> string) \<Rightarrow> nat \<Rightarrow> nat \<Rightarrow> string \<Rightarrow> string list" where
  "candidates urlFn 0 k url = []"
| "candidates urlFn (Suc left) k url = url # candidates urlFn left (Suc k) (urlFn k)"

definition repeat_candidates :: "(nat \<Rightarrow> string) \<Rightarrow> tunnel_key \<Rightarrow> tunnel_registry \<Rightarrow> string list" where
  "repeat_candidates urlFn t r =
     (if cached_url t r = [] then candidates urlFn maxAttempts 1 (urlFn 0)
      else candidates urlFn maxAttempts 0 (cached_url t r))"

definition tr_free :: "tunnel_registry \<Rightarrow> string \<Rightarrow> bool" where
  "tr_free r url \<longleftrightarrow> tr_tunnels r url = None"

lemma tr_repeat_spec:
  "tr_ok r \<Longrightarrow> \<exists>res k' r'. tr_repeat now urlFn t left k url r = Some (res, k', r') \<and> tr_ok r' \<and>
     (case find (tr_free r) (candidates urlFn left k url) of
        None \<Rightarrow> \<not> is_ok res \<and> r' = r
      | Some u \<Rightarrow> res = Inr u \<and> tr_tunnels r' = (tr_tunnels r)(u \<mapsto> tk_tunnel t) \<and>
          (cacheUrl_Size u \<le> l_capacity (tr_affinity r) \<longrightarrow> cached_url t r' = u))"
proof (induction left arbitrary: k url)
  case (Suc left)
  show ?case
  proof (cases "tr_tunnels r url")
    case None
    then show ?thesis
      using RegisterAndCache_free [OF Suc.prems None, of now t] by (auto simp: tr_free_def)
  next
    case (Some x)
    then show ?thesis
      using RegisterAndCache_taken [of r url now t] Suc.IH [OF Suc.prems, of "Suc k" "urlFn k"]
      by (simp add: tr_free_def)
  qed
qed simp

lemma GetCached_capacity [simp]:
  "l_capacity (tr_affinity (snd (tr_GetCachedRegistration now t r))) = l_capacity (tr_affinity r)"
  by (auto simp: tr_GetCachedRegistration_def lru_Get_def Let_def lru_moveToFront_def
      split: option.splits prod.splits)

lemma RegisterRepeat_spec:
  assumes "tr_ok r"
  shows "\<exists>res k r'. tr_RegisterRepeat now urlFn t r = Some (res, k, r') \<and> tr_ok r' \<and>
    (case find (tr_free r) (repeat_candidates urlFn t r) of
       None \<Rightarrow> \<not> is_ok res \<and> tr_tunnels r' = tr_tunnels r
     | Some u \<Rightarrow> res = Inr u \<and> tr_tunnels r' = (tr_tunnels r)(u \<mapsto> tk_tunnel t) \<and>
         (cacheUrl_Size u \<le> l_capacity (tr_affinity r) \<longrightarrow> cached_url t r' = u))"
proof -
  let ?r1 = "snd (tr_GetCachedRegistration now t r)"
  note get = GetCachedRegistration_spec [OF assms, of now t]
  have free: "tr_free ?r1 = tr_free r"
    by (simp add: fun_eq_iff tr_free_def get)
  define k0 where "k0 = (if cached_url t r = [] then 1 else 0 :: nat)"
  define u0 where "u0 = (if cached_url t r = [] then urlFn 0 else cached_url t r)"
  have eq: "tr_RegisterRepeat now urlFn t r = tr_repeat now urlFn t maxAttempts k0 u0 ?r1"
    using get(1) by (simp add: tr_RegisterRepeat_def k0_def u0_def case_prod_beta Let_def)
  have cand: "repeat_candidates urlFn t r = candidates urlFn maxAttempts k0 u0"
    by (simp add: repeat_candidates_def k0_def u0_def)
  show ?thesis
    unfolding eq cand
    using tr_repeat_spec [OF get(2), of now urlFn t maxAttempts k0 u0] get(2,3)
    unfolding free GetCached_capacity by (fastforce split: option.splits)
qed

section \<open>Registry calls in sequence\<close>

datatype tr_op =
  OpRegister string nat
| OpRegisterAndCache int string tunnel_key
| OpRegisterRepeat int "nat \<Rightarrow> string" tunnel_key
| OpGetCached int tunnel_key
| OpDel string

text \<open>A refused call leaves the registry as it was; so would a panic, which never happens.\<close>

fun tr_step :: "tunnel_registry \<Rightarrow> tr_op \<Rightarrow> tunnel_registry" where
  "tr_step r (OpRegister url t) = (case tr_Register url t r of Inl _ \<Rightarrow> r | Inr r' \<Rightarrow> r')"
| "tr_step r (OpRegisterAndCache now url t) =
     (case tr_RegisterAndCache now url t r of Some (Inr r') \<Rightarrow> r' | _ \<Rightarrow> r)"
| "tr_step r (OpRegisterRepeat now urlFn t) =
     (case tr_RegisterRepeat now urlFn t r of Some (_, _, r') \<Rightarrow> r' | None \<Rightarrow> r)"
| "tr_step r (OpGetCached now t) = snd (tr_GetCachedRegistration now t r)"
| "tr_step r (OpDel url) = tr_Del url r"

lemma tr_step_ok [inv_intros]: "tr_ok r \<Longrightarrow> tr_ok (tr_step r x)"
proof (induction r x rule: tr_step.induct)
  case (2 r now url t)
  then show ?case
    using RegisterAndCache_free [of r url now t] RegisterAndCache_taken [of r url now t]
    by (cases "tr_tunnels r url") auto
next
  case (3 r now urlFn t)
  then show ?case
    using RegisterRepeat_spec [of r now urlFn t] by auto
qed (auto simp: tr_ok_def tr_Register_def tr_Del_def GetCachedRegistration_spec(2) [unfolded tr_ok_def])

lemma tr_step_keeps:
  assumes "tr_ok r" "tr_tunnels r url = Some t" "x \<noteq> OpDel url"
  shows "tr_tunnels (tr_step r x) url = Some t"
proof (cases x)
  case (OpRegisterAndCache now u k)
  then show ?thesis
    using RegisterAndCache_free [OF assms(1), of u now k] RegisterAndCache_taken [of r u now k] assms
    by (cases "tr_tunnels r u") auto
next
  case (OpRegisterRepeat now urlFn k)
  have "find (tr_free r) us \<noteq> Some url" for us
    using assms(2) by (auto simp: find_Some_iff tr_free_def)
  then show ?thesis
    using OpRegisterRepeat RegisterRepeat_spec [OF assms(1), of now urlFn k] assms(2)
    by (auto split: option.splits)
qed (use assms in \<open>auto simp: tr_Register_def tr_Del_def GetCachedRegistration_spec(3)\<close>)

interpretation registry_machine: machine_invariant tr_step tr_ok
  by unfold_locales (rule tr_step_ok)

lemma tr_run_keeps:
  "tr_ok r \<Longrightarrow> tr_tunnels r url = Some t \<Longrightarrow> OpDel url \<notin> set ops \<Longrightarrow>
   tr_tunnels (run tr_step r ops) url = Some t"
proof (induction ops arbitrary: r)
  case (Cons x xs)
  then have "x \<noteq> OpDel url" "OpDel url \<notin> set xs"
    by auto
  then show ?case
    using Cons tr_step_ok tr_step_keeps by simp
qed simp

lemma tr_ok_new: "tr_ok (NewTunnelRegistry cap)"
  by (simp add: tr_ok_def NewTunnelRegistry_def lru_ok_new)

text \<open>
  C3: On any registry a sequence of calls can produce, a random registration takes the first free
  URL among five candidates, the client's cached URL (if any) before generated ones: it registers
  exactly that URL for the tunnel and remembers it for the client, or, when all five are taken,
  fails and leaves the map as it is. It never panics.
\<close>

theorem register_repeat:
  assumes "r = run tr_step (NewTunnelRegistry cap) ops"
  shows "\<exists>res k r'. tr_RegisterRepeat now urlFn t r = Some (res, k, r') \<and>
    length (repeat_candidates urlFn t r) = 5 \<and>
    (case find (tr_free r) (repeat_candidates urlFn t r) of
       None \<Rightarrow> \<not> is_ok res \<and> tr_tunnels r' = tr_tunnels r
     | Some u \<Rightarrow> res = Inr u \<and> tr_tunnels r' = (tr_tunnels r)(u \<mapsto> tk_tunnel t) \<and>
         (cacheUrl_Size u \<le> l_capacity (tr_affinity r) \<longrightarrow>
           fst (tr_GetCachedRegistration now' t r') = u))"
proof -
  have ok: "tr_ok r"
    unfolding assms by (rule registry_machine.run_inv) (rule tr_ok_new)
  have "length (candidates urlFn n k url) = n" for n k url
    by (induction n arbitrary: k url) auto
  then have len: "length (repeat_candidates urlFn t r) = 5"
    by (simp add: repeat_candidates_def maxAttempts_def)
  obtain res k r' where r': "tr_RegisterRepeat now urlFn t r = Some (res, k, r')" "tr_ok r'"
    "case find (tr_free r) (repeat_candidates urlFn t r) of
       None \<Rightarrow> \<not> is_ok res \<and> tr_tunnels r' = tr_tunnels r
     | Some u \<Rightarrow> res = Inr u \<and> tr_tunnels r' = (tr_tunnels r)(u \<mapsto> tk_tunnel t) \<and>
         (cacheUrl_Size u \<le> l_capacity (tr_affinity r) \<longrightarrow> cached_url t r' = u)"
    using RegisterRepeat_spec [OF ok, of now urlFn t] by blast
  have "fst (tr_GetCachedRegistration now' t r') = cached_url t r'"
    by (rule GetCachedRegistration_spec(1) [OF r'(2)])
  with r' len show ?thesis
    by (intro exI [of _ res] exI [of _ k] exI [of _ r']) (simp split: option.splits)
qed

lemma register_repeat_witness:
  "\<exists>res k r'. tr_RegisterRepeat 0 (\<lambda>n. if n = 0 then ''u'' else ''v'')
      \<lparr>tk_tunnel = 1, tk_Protocol = ''http'', tk_ip = ''1.2.3.4'', tk_id = ''c''\<rparr>
      (run tr_step (NewTunnelRegistry 64) [OpRegister ''u'' 0]) = Some (res, k, r') \<and> res = Inr ''v''"
proof -
  let ?t = "\<lparr>tk_tunnel = 1, tk_Protocol = ''http'', tk_ip = ''1.2.3.4'', tk_id = ''c''\<rparr>"
  let ?f = "\<lambda>n :: nat. if n = 0 then ''u'' else ''v''"
  let ?r = "run tr_step (NewTunnelRegistry 64) [OpRegister ''u'' 0]"
  have "cached_url ?t ?r = []"
    by (simp add: cached_url_def affinity_of_def tr_Register_def NewTunnelRegistry_def NewLRUCache_def
        lru_abs_def)
  then have "find (tr_free ?r) (repeat_candidates ?f ?t ?r) = Some ''v''"
    by (simp add: repeat_candidates_def maxAttempts_def eval_nat_numeral tr_free_def tr_Register_def
        NewTunnelRegistry_def)
  then show ?thesis
    using register_repeat [OF refl, of 0 ?f ?t 64 "[OpRegister ''u'' 0]" 0] by auto
qed

text \<open>
  A registered URL keeps its tunnel through any sequence of registry calls that does not delete
  that URL: no registration, random or not, ever takes a URL over.
\<close>

theorem registration_exclusive:
  assumes "tr_tunnels (run tr_step (NewTunnelRegistry cap) before) url = Some t"
    and "OpDel url \<notin> set ops"
  shows "tr_Get url (run tr_step (NewTunnelRegistry cap) (before @ ops)) = Some t"
  using tr_run_keeps [OF registry_machine.run_inv [OF tr_ok_new] assms]
  by (simp add: tr_Get_def)

lemma registration_exclusive_witness:
  "tr_Get ''u'' (run tr_step (NewTunnelRegistry 64) ([OpRegister ''u'' 0] @ [OpRegister ''u'' 1, OpDel ''v''])) = Some 0"
  by (rule registration_exclusive) (simp_all add: tr_Register_def NewTunnelRegistry_def)

end
