(* ===== verification/Sessions.thy ===== *)
theory Sessions
  imports Registry
begin

text \<open>
  Which control answers for a client id: the life of the controls of
  \<open>src/ngrok/server/control.go\<close> as the control registry sees it. A control is registered by
  \<open>NewControl\<close>, which may replace an older one; its \<open>stopper\<close> waits for the shutdown to begin and
  then removes the id from the registry, in two steps: the argument \<open>c.id\<close> of
  \<open>controlRegistry.Del(c.id)\<close> is read before \<open>Del\<close> takes the lock.
\<close>

datatype stopper_pc = Idle | ReadId string | Removed

record sessions =
  ss_reg :: control_registry
  ss_next :: nat
  ss_stopper :: "nat \<Rightarrow> stopper_pc"

definition init_sessions :: sessions where
  "init_sessions = \<lparr>ss_reg = NewControlRegistry, ss_next = 0, ss_stopper = (\<lambda>_. Idle)\<rparr>"

text \<open>\<open>NewControl\<close> up to \<open>controlRegistry.Add(c.id, c)\<close>: the id is the client's, or fresh if empty.\<close>

definition ss_connect :: "string \<Rightarrow> string \<Rightarrow> sessions \<Rightarrow> (nat option \<times> sessions) option" where
  "ss_connect clientId fresh s =
     (let h = ss_next s;
          cid = (if clientId = [] then fresh else clientId);
          reg = (ss_reg s)\<lparr>cr_id := (cr_id (ss_reg s))(h := cid),
                           cr_shutdown := (cr_shutdown (ss_reg s))(h := NewShutdown)\<rparr>
      in case cr_Add cid h reg of
           None \<Rightarrow> None
         | Some (old, reg1) \<Rightarrow>
             Some (old, s\<lparr>ss_reg := reg1, ss_next := Suc h, ss_stopper := (ss_stopper s)(h := Idle)\<rparr>))"

text \<open>Any goroutine of a control that ends calls \<open>shutdown.Begin\<close>.\<close>

definition ss_begin :: "nat \<Rightarrow> sessions \<Rightarrow> sessions option" where
  "ss_begin h s =
     (case sd_Begin (cr_shutdown (ss_reg s) h) of
        None \<Rightarrow> None
      | Some sd \<Rightarrow>
          Some (s\<lparr>ss_reg := (ss_reg s)\<lparr>cr_shutdown := (cr_shutdown (ss_reg s))(h := sd)\<rparr>\<rparr>))"

definition ss_read :: "nat \<Rightarrow> sessions \<Rightarrow> sessions" where
  "ss_read h s = s\<lparr>ss_stopper := (ss_stopper s)(h := ReadId (cr_id (ss_reg s) h))\<rparr>"

definition ss_del :: "nat \<Rightarrow> string \<Rightarrow> sessions \<Rightarrow> sessions" where
  "ss_del h cid s =
     s\<lparr>ss_reg := snd (cr_Del cid (ss_reg s)), ss_stopper := (ss_stopper s)(h := Removed)\<rparr>"

text \<open>The steps as the goroutines take them.\<close>

inductive ss_step :: "sessions \<Rightarrow> sessions \<Rightarrow> bool" where
  connect: "fresh \<noteq> [] \<Longrightarrow> ss_connect clientId fresh s = Some (old, t) \<Longrightarrow> ss_step s t"
| begin_shutdown: "h < ss_next s \<Longrightarrow> ss_begin h s = Some t \<Longrightarrow> ss_step s t"
| read_id: "h < ss_next s \<Longrightarrow> sd_WaitBegin (cr_shutdown (ss_reg s) h) \<Longrightarrow> ss_stopper s h = Idle \<Longrightarrow>
     ss_step s (ss_read h s)"
| del: "ss_stopper s h = ReadId cid \<Longrightarrow> ss_step s (ss_del h cid s)"

text \<open>The same steps when nothing comes between reading the id and deleting it.\<close>

inductive ss_atomic :: "sessions \<Rightarrow> sessions \<Rightarrow> bool" where
  a_connect: "fresh \<noteq> [] \<Longrightarrow> ss_connect clientId fresh s = Some (old, t) \<Longrightarrow> ss_atomic s t"
| a_begin: "h < ss_next s \<Longrightarrow> ss_begin h s = Some t \<Longrightarrow> ss_atomic s t"
| a_stop: "h < ss_next s \<Longrightarrow> sd_WaitBegin (cr_shutdown (ss_reg s) h) \<Longrightarrow> ss_stopper s h = Idle \<Longrightarrow>
     ss_atomic s (ss_del h (cr_id (ss_reg s) h) (ss_read h s))"

inductive_cases ss_atomicE: "ss_atomic s t"
inductive_cases ss_stepE: "ss_step s t"

definition ss_ok :: "sessions \<Rightarrow> bool" where
  "ss_ok s \<longleftrightarrow>
     (\<forall>cid h. cr_controls (ss_reg s) cid = Some h \<longrightarrow>
        h < ss_next s \<and> cr_id (ss_reg s) h = cid \<and> cid \<noteq> [] \<and> ss_stopper s h = Idle) \<and>
     (\<forall>h < ss_next s. cr_id (ss_reg s) h \<noteq> [] \<longrightarrow> ss_stopper s h = Idle \<longrightarrow>
        cr_controls (ss_reg s) (cr_id (ss_reg s) h) = Some h) \<and>
     (\<forall>h. sd_ok (cr_shutdown (ss_reg s) h))"

lemma ss_ok_init: "ss_ok init_sessions"
  by (simp add: ss_ok_def init_sessions_def NewControlRegistry_def)

lemma ss_okD:
  assumes "ss_ok s"
  shows "cr_controls (ss_reg s) cid = Some h \<Longrightarrow>
      h < ss_next s \<and> cr_id (ss_reg s) h = cid \<and> cid \<noteq> [] \<and> ss_stopper s h = Idle"
    and "h < ss_next s \<Longrightarrow> cr_id (ss_reg s) h \<noteq> [] \<Longrightarrow> ss_stopper s h = Idle \<Longrightarrow>
      cr_controls (ss_reg s) (cr_id (ss_reg s) h) = Some h"
    and "sd_ok (cr_shutdown (ss_reg s) h)"
  using assms by (auto simp: ss_ok_def)

text \<open>What holds whatever comes between the two halves of a stopper's \<open>Del\<close>.\<close>

definition ss_weak :: "sessions \<Rightarrow> bool" where
  "ss_weak s \<longleftrightarrow>
     (\<forall>cid h. cr_controls (ss_reg s) cid = Some h \<longrightarrow> h < ss_next s) \<and> (\<forall>h. sd_ok (cr_shutdown (ss_reg s) h))"

lemma ss_ok_weak: "ss_ok s \<Longrightarrow> ss_weak s"
  by (auto simp: ss_ok_def ss_weak_def)

lemma ss_weakD:
  assumes "ss_weak s"
  shows "cr_controls (ss_reg s) cid = Some h \<Longrightarrow> h < ss_next s" and "sd_ok (cr_shutdown (ss_reg s) h)"
  using assms by (auto simp: ss_weak_def)

text \<open>Connecting registers the new control and strips the old one of its id.\<close>

lemma ss_connect_spec:
  fixes clientId fresh :: string
  assumes "ss_weak s" "fresh \<noteq> []"
  defines "cid \<equiv> (if clientId = [] then fresh else clientId)"
  shows "\<exists>t. ss_connect clientId fresh s = Some (cr_controls (ss_reg s) cid, t) \<and>
    ss_next t = Suc (ss_next s) \<and>
    cr_controls (ss_reg t) = (cr_controls (ss_reg s))(cid \<mapsto> ss_next s) \<and>
    ss_stopper t = (ss_stopper s)(ss_next s := Idle) \<and>
    (case cr_controls (ss_reg s) cid of
       None \<Rightarrow> cr_id (ss_reg t) = (cr_id (ss_reg s))(ss_next s := cid)
     | Some old \<Rightarrow> cr_id (ss_reg t) = (cr_id (ss_reg s))(ss_next s := cid, old := []) \<and>
         sd_WaitBegin (cr_shutdown (ss_reg t) old)) \<and>
    (\<forall>h. sd_ok (cr_shutdown (ss_reg t) h))"
proof (cases "cr_controls (ss_reg s) cid")
  case None
  then show ?thesis
    using ss_weakD(2) [OF assms(1)]
    by (simp add: ss_connect_def cr_Add_def Let_def flip: cid_def)
next
  case (Some old)
  have "old \<noteq> ss_next s"
    using ss_weakD(1) [OF assms(1) Some] by simp
  moreover have "sd_Begin (cr_shutdown (ss_reg s) old) =
      Some ((cr_shutdown (ss_reg s) old)\<lparr>sd_inProgress := True, sd_begin_closed := True\<rparr>)"
    by (rule sd_Begin_total) (rule ss_weakD(2) [OF assms(1)])
  ultimately show ?thesis
    using Some ss_weakD(2) [OF assms(1)]
    by (auto simp: ss_connect_def cr_Add_def ctl_Replaced_def Let_def sd_WaitBegin_def sd_ok_def
        NewShutdown_def simp flip: cid_def)
qed

lemma ss_begin_spec:
  assumes "ss_weak s" "ss_begin h s = Some t"
  shows "t = s\<lparr>ss_reg := (ss_reg s)\<lparr>cr_shutdown := (cr_shutdown (ss_reg s))
      (h := (cr_shutdown (ss_reg s) h)\<lparr>sd_inProgress := True, sd_begin_closed := True\<rparr>)\<rparr>\<rparr>"
  using assms(2) ss_weakD(2) [OF assms(1), of h] by (simp add: ss_begin_def sd_Begin_total)

lemma ss_weak_step: "ss_weak s \<Longrightarrow> ss_step s t \<Longrightarrow> ss_weak t"
proof (erule ss_stepE)
  fix fresh clientId old
  assume w: "ss_weak s" and f: "fresh \<noteq> []" "ss_connect clientId fresh s = Some (old, t)"
  show "ss_weak t"
    using ss_connect_spec [OF w f(1), of clientId] f(2)
    by (auto simp: ss_weak_def less_Suc_eq dest: ss_weakD(1) [OF w] split: if_splits)
next
  fix h assume w: "ss_weak s" and b: "ss_begin h s = Some t"
  then show "ss_weak t"
    unfolding ss_begin_spec [OF w b] by (auto simp: ss_weak_def sd_ok_def)
qed (auto simp: ss_weak_def ss_read_def ss_del_def cr_Del_def split: if_splits)

interpretation sessions_any: relation_invariant ss_step init_sessions ss_weak
  by unfold_locales (auto intro: ss_ok_weak [OF ss_ok_init] ss_weak_step)

lemma ss_atomic_connect_ok:
  assumes "ss_ok s" "fresh \<noteq> []" "ss_connect clientId fresh s = Some (old, t)"
  shows "ss_ok t"
proof -
  define cid where "cid = (if clientId = [] then fresh else clientId)"
  have cid: "cid \<noteq> []"
    using assms(2) by (simp add: cid_def)
  have t: "ss_next t = Suc (ss_next s)" "ss_stopper t = (ss_stopper s)(ss_next s := Idle)"
    "cr_controls (ss_reg t) = (cr_controls (ss_reg s))(cid \<mapsto> ss_next s)"
    "\<And>h. sd_ok (cr_shutdown (ss_reg t) h)"
    and ids: "case cr_controls (ss_reg s) cid of
       None \<Rightarrow> cr_id (ss_reg t) = (cr_id (ss_reg s))(ss_next s := cid)
     | Some old \<Rightarrow> cr_id (ss_reg t) = (cr_id (ss_reg s))(ss_next s := cid, old := [])"
    using ss_connect_spec [OF ss_ok_weak [OF assms(1)] assms(2), of clientId] assms(3)
    by (auto simp: cid_def split: option.splits)
  note ok = ss_okD(1,2) [OF assms(1)]
  show ?thesis
  proof (cases "cr_controls (ss_reg s) cid")
    case None
    then have id: "cr_id (ss_reg t) = (cr_id (ss_reg s))(ss_next s := cid)"
      using ids by simp
    show ?thesis
      unfolding ss_ok_def using t None cid by (auto simp: id less_Suc_eq dest: ok)
  next
    case (Some old)
    then have id: "cr_id (ss_reg t) = (cr_id (ss_reg s))(ss_next s := cid, old := [])"
      using ids by simp
    have same: "h = old" if "h < ss_next s" "cr_id (ss_reg s) h = cid" "ss_stopper s h = Idle" for h
      using ok(2) [OF that(1)] that Some cid by auto
    show ?thesis
      unfolding ss_ok_def using t cid ok(1) [OF Some]
      by (auto simp: id less_Suc_eq dest: ok same)
  qed
qed

lemma ss_atomic_ok: "ss_ok s \<Longrightarrow> ss_atomic s t \<Longrightarrow> ss_ok t"
proof (erule ss_atomicE)
  fix fresh clientId old
  assume "ss_ok s" "fresh \<noteq> []" "ss_connect clientId fresh s = Some (old, t)"
  then show "ss_ok t" by (rule ss_atomic_connect_ok)
next
  fix h assume ok: "ss_ok s" and "ss_begin h s = Some t"
  define sd where
    "sd = (cr_shutdown (ss_reg s) h)\<lparr>sd_inProgress := True, sd_begin_closed := True\<rparr>"
  have "sd_ok sd"
    by (simp add: sd_def sd_ok_def)
  moreover have t: "t = s\<lparr>ss_reg := (ss_reg s)\<lparr>cr_shutdown := (cr_shutdown (ss_reg s))(h := sd)\<rparr>\<rparr>"
    using \<open>ss_begin h s = Some t\<close> ss_okD(3) [OF ok, of h]
    by (simp add: ss_begin_def sd_Begin_total sd_def)
  ultimately show "ss_ok t"
    using ss_okD(3) [OF ok] unfolding ss_ok_def t by (auto dest: ss_okD(1,2) [OF ok])
next
  fix h
  assume ok: "ss_ok s" and h: "h < ss_next s" "ss_stopper s h = Idle"
    and t: "t = ss_del h (cr_id (ss_reg s) h) (ss_read h s)"
  have same: False if "k \<noteq> h" "k < ss_next s" "cr_id (ss_reg s) k = cr_id (ss_reg s) h"
      "cr_id (ss_reg s) h \<noteq> []" "ss_stopper s k = Idle" for k
    using ss_okD(2) [OF ok that(2)] ss_okD(2) [OF ok h(1)] that h(2) by simp
  show "ss_ok t"
    unfolding ss_ok_def t ss_del_def ss_read_def cr_Del_def
    using h by (auto simp: ss_okD(3) [OF ok] dest: ss_okD(1,2) [OF ok]) (rule same)
qed

interpretation sessions_atomic: relation_invariant ss_atomic init_sessions ss_ok
  by unfold_locales (auto intro: ss_ok_init ss_atomic_ok)

text \<open>As long as nothing comes between a stopper reading its control's id and deleting it, every
  session is found: a control that has an id (it was not replaced) and whose stopper has not run
  is what the registry returns for its id, and what the registry returns is such a control, so
  a proxy or tunnel request never reaches a control that was replaced or shut down.\<close>

theorem session_found:
  assumes "reach ss_atomic init_sessions s" "cid \<noteq> []"
  shows "cr_Get cid (ss_reg s) = Some h \<longleftrightarrow>
    h < ss_next s \<and> cr_id (ss_reg s) h = cid \<and> ss_stopper s h = Idle"
  using ss_okD(1,2) [OF sessions_atomic.reach_inv [OF assms(1)]] assms(2)
  by (auto simp: cr_Get_def)

text \<open>A client connects, its connection breaks, and it comes back with the same id.\<close>

definition connected :: sessions where
  "connected = snd (the (ss_connect [] ''x'' init_sessions))"

lemma ss_connect_init: "ss_connect [] ''x'' init_sessions = Some (None, connected)"
  by (simp add: connected_def ss_connect_def init_sessions_def NewControlRegistry_def cr_Add_def
      Let_def)

lemma connected_facts:
  "ss_next connected = 1" "cr_id (ss_reg connected) 0 = ''x''"
  "ss_stopper connected = (\<lambda>_. Idle)" "cr_controls (ss_reg connected) = [''x'' \<mapsto> 0]"
  "cr_shutdown (ss_reg connected) 0 = NewShutdown"
  by (simp_all add: connected_def ss_connect_def init_sessions_def NewControlRegistry_def cr_Add_def
      Let_def fun_eq_iff)

lemma session_found_witness:
  "reach ss_atomic init_sessions connected \<and> cr_Get ''x'' (ss_reg connected) = Some 0"
proof -
  have r: "reach ss_atomic init_sessions connected"
    by (rule reach_step [OF reach_refl], rule a_connect [of "''x''" "[]"])
      (simp_all add: ss_connect_init)
  then show ?thesis
    using session_found [OF r, of "''x''" 0] by (simp add: connected_facts)
qed

text \<open>The order of the two halves of the stopper's \<open>controlRegistry.Del(c.id)\<close> matters. From
  the state in which a client is connected, this run of the steps as written is possible: its
  connection breaks, its stopper reads the id, the client comes back with the same id and
  replaces it, the old stopper deletes what it read. It ends in a state where a control is alive,
  was not replaced and has not begun to shut down, and yet the registry has no control for its
  id: proxy connections of that client are refused.\<close>

theorem session_lost_race:
  "\<exists>s. reach ss_step init_sessions s \<and>
     1 < ss_next s \<and> cr_id (ss_reg s) 1 = ''x'' \<and> ss_stopper s 1 = Idle \<and>
     \<not> sd_WaitBegin (cr_shutdown (ss_reg s) 1) \<and> cr_Get ''x'' (ss_reg s) = None"
proof -
  define b where "b = the (ss_begin 0 connected)"
  define rd where "rd = ss_read 0 b"
  define rc where "rc = snd (the (ss_connect ''x'' ''y'' rd))"
  have b: "ss_begin 0 connected = Some b"
    by (simp add: b_def ss_begin_def connected_facts sd_Begin_def NewShutdown_def)
  have rc: "ss_connect ''x'' ''y'' rd = Some (Some 0, rc)"
    by (simp add: rc_def rd_def ss_read_def b_def ss_begin_def connected_facts sd_Begin_def
        NewShutdown_def ss_connect_def cr_Add_def ctl_Replaced_def Let_def)
  note defs = rc_def rd_def ss_read_def b_def ss_begin_def connected_facts sd_Begin_def
    NewShutdown_def ss_connect_def cr_Add_def ctl_Replaced_def sd_WaitBegin_def Let_def
  have 0: "reach ss_step init_sessions connected"
    by (rule reach_step [OF reach_refl], rule connect [of "''x''" "[]"])
      (simp_all add: ss_connect_init)
  have 1: "reach ss_step init_sessions b"
    by (rule reach_step [OF 0], rule begin_shutdown [of 0]) (simp_all add: b connected_facts)
  have 2: "reach ss_step init_sessions rd"
    unfolding rd_def by (rule reach_step [OF 1], rule read_id) (simp_all add: defs)
  have 3: "reach ss_step init_sessions rc"
    by (rule reach_step [OF 2], rule connect [of "''y''" "''x''"]) (simp_all add: rc)
  have 4: "reach ss_step init_sessions (ss_del 0 ''x'' rc)"
    by (rule reach_step [OF 3], rule del) (simp add: defs)
  moreover have "1 < ss_next (ss_del 0 ''x'' rc) \<and> cr_id (ss_reg (ss_del 0 ''x'' rc)) 1 = ''x'' \<and>
      ss_stopper (ss_del 0 ''x'' rc) 1 = Idle \<and>
      \<not> sd_WaitBegin (cr_shutdown (ss_reg (ss_del 0 ''x'' rc)) 1) \<and>
      cr_Get ''x'' (ss_reg (ss_del 0 ''x'' rc)) = None"
    by (simp add: defs ss_del_def cr_Del_def cr_Get_def)
  ultimately show ?thesis by blast
qed

end
