(* ===== verification/Metrics.thy ===== *)
theory Metrics
  imports Go_Prelude
begin

text \<open>
  The counters of \<open>src/ngrok/metrics/metrics.go\<close> and the two implementations of the interface
  \<open>Metrics\<close> in \<open>src/ngrok/server/metrics.go\<close>. Each method of a counter holds its mutex from start
  to end, so it is one step on the fields. \<open>int64\<close> fields and durations (in nanoseconds) are
  64-bit words. A method that divides two numbers as \<open>float64\<close> returns the pair of the exact
  operands, \<open>None\<close> where the code returns the constant 0: the rounding of the division is not
  modelled.
\<close>

section \<open>Counters\<close>

type_synonym int64 = "64 word"

record counter =
  cn_count :: int64

definition NewCounter :: counter where
  "NewCounter = \<lparr>cn_count = 0\<rparr>"

definition counter_Inc :: "int64 \<Rightarrow> counter \<Rightarrow> counter" where
  "counter_Inc delta c = c\<lparr>cn_count := cn_count c + delta\<rparr>"

definition counter_Count :: "counter \<Rightarrow> int64" where
  "counter_Count c = cn_count c"

record gauge =
  ga_value :: int64

definition NewGauge :: gauge where
  "NewGauge = \<lparr>ga_value = 0\<rparr>"

definition gauge_Update :: "int64 \<Rightarrow> gauge \<Rightarrow> gauge" where
  "gauge_Update v g = g\<lparr>ga_value := v\<rparr>"

definition gauge_Value :: "gauge \<Rightarrow> int64" where
  "gauge_Value g = ga_value g"

record meter =
  me_count :: int64
  me_start :: int

definition NewMeter :: "int \<Rightarrow> meter" where
  "NewMeter now = \<lparr>me_count = 0, me_start = now\<rparr>"

definition meter_Mark :: "int64 \<Rightarrow> meter \<Rightarrow> meter" where
  "meter_Mark delta m = m\<lparr>me_count := me_count m + delta\<rparr>"

definition meter_Count :: "meter \<Rightarrow> int64" where
  "meter_Count m = me_count m"

definition meter_Rate1 :: "int \<Rightarrow> meter \<Rightarrow> (int \<times> int) option" where
  "meter_Rate1 now m =
     (let elapsed = now - me_start m in
      if elapsed \<le> 0 then None else Some (sint (me_count m), elapsed))"

record timer =
  ti_count :: int64
  ti_total :: int64

definition NewTimer :: timer where
  "NewTimer = \<lparr>ti_count = 0, ti_total = 0\<rparr>"

definition timer_Update :: "int64 \<Rightarrow> timer \<Rightarrow> timer" where
  "timer_Update duration t = t\<lparr>ti_count := ti_count t + 1, ti_total := ti_total t + duration\<rparr>"

text \<open>\<open>Time\<close> runs \<open>fn\<close> between two readings of the clock and also counts it when \<open>fn\<close> panics.\<close>

definition timer_Time :: "int64 \<Rightarrow> int64 \<Rightarrow> timer \<Rightarrow> timer" where
  "timer_Time start finish t = timer_Update (finish - start) t"

definition timer_Mean :: "timer \<Rightarrow> (int \<times> int) option" where
  "timer_Mean t = (if ti_count t = 0 then None else Some (sint (ti_total t), sint (ti_count t)))"

definition timer_Count :: "timer \<Rightarrow> int64" where
  "timer_Count t = ti_count t"

record histogram =
  hi_count :: int64
  hi_total :: int64

definition NewHistogram :: histogram where
  "NewHistogram = \<lparr>hi_count = 0, hi_total = 0\<rparr>"

definition histogram_Update :: "int64 \<Rightarrow> histogram \<Rightarrow> histogram" where
  "histogram_Update v h = h\<lparr>hi_count := hi_count h + 1, hi_total := hi_total h + v\<rparr>"

definition histogram_Count :: "histogram \<Rightarrow> int64" where
  "histogram_Count h = hi_count h"

definition histogram_Mean :: "histogram \<Rightarrow> (int \<times> int) option" where
  "histogram_Mean h = (if hi_count h = 0 then None else Some (sint (hi_total h), sint (hi_count h)))"

section \<open>Local metrics\<close>

text \<open>What the metrics read of a tunnel and of its control.\<close>

record metric_tunnel =
  mt_OS :: string
  mt_ClientId :: string
  mt_MmVersion :: string
  mt_Protocol :: string
  mt_url :: string
  mt_HttpAuth :: string
  mt_Subdomain :: string
  mt_start :: int

record LocalMetrics =
  lm_windowsCounter :: counter
  lm_linuxCounter :: counter
  lm_osxCounter :: counter
  lm_otherCounter :: counter
  lm_tunnelMeter :: meter
  lm_tcpTunnelMeter :: meter
  lm_httpTunnelMeter :: meter
  lm_connMeter :: meter
  lm_lostHeartbeatMeter :: meter
  lm_connTimer :: timer
  lm_bytesInCount :: counter
  lm_bytesOutCount :: counter

definition NewLocalMetrics :: "int \<Rightarrow> LocalMetrics" where
  "NewLocalMetrics now =
     \<lparr>lm_windowsCounter = NewCounter, lm_linuxCounter = NewCounter, lm_osxCounter = NewCounter,
      lm_otherCounter = NewCounter, lm_tunnelMeter = NewMeter now, lm_tcpTunnelMeter = NewMeter now,
      lm_httpTunnelMeter = NewMeter now, lm_connMeter = NewMeter now,
      lm_lostHeartbeatMeter = NewMeter now, lm_connTimer = NewTimer,
      lm_bytesInCount = NewCounter, lm_bytesOutCount = NewCounter\<rparr>"

definition lm_count_os :: "string \<Rightarrow> LocalMetrics \<Rightarrow> LocalMetrics" where
  "lm_count_os os m =
     (if os = ''windows'' then m\<lparr>lm_windowsCounter := counter_Inc 1 (lm_windowsCounter m)\<rparr>
      else if os = ''linux'' then m\<lparr>lm_linuxCounter := counter_Inc 1 (lm_linuxCounter m)\<rparr>
      else if os = ''darwin'' then m\<lparr>lm_osxCounter := counter_Inc 1 (lm_osxCounter m)\<rparr>
      else m\<lparr>lm_otherCounter := counter_Inc 1 (lm_otherCounter m)\<rparr>)"

definition lm_count_protocol :: "string \<Rightarrow> LocalMetrics \<Rightarrow> LocalMetrics" where
  "lm_count_protocol p m =
     (if p = ''tcp'' then m\<lparr>lm_tcpTunnelMeter := meter_Mark 1 (lm_tcpTunnelMeter m)\<rparr>
      else if p = ''http'' then m\<lparr>lm_httpTunnelMeter := meter_Mark 1 (lm_httpTunnelMeter m)\<rparr>
      else m)"

definition lm_OpenTunnel :: "metric_tunnel \<Rightarrow> LocalMetrics \<Rightarrow> LocalMetrics" where
  "lm_OpenTunnel t m =
     lm_count_protocol (mt_Protocol t)
       (lm_count_os (mt_OS t) (m\<lparr>lm_tunnelMeter := meter_Mark 1 (lm_tunnelMeter m)\<rparr>))"

definition lm_CloseTunnel :: "metric_tunnel \<Rightarrow> LocalMetrics \<Rightarrow> LocalMetrics" where
  "lm_CloseTunnel t m = m"

definition lm_OpenConnection :: "metric_tunnel \<Rightarrow> LocalMetrics \<Rightarrow> LocalMetrics" where
  "lm_OpenConnection t m = m\<lparr>lm_connMeter := meter_Mark 1 (lm_connMeter m)\<rparr>"

definition lm_CloseConnection ::
  "metric_tunnel \<Rightarrow> int \<Rightarrow> int64 \<Rightarrow> int64 \<Rightarrow> LocalMetrics \<Rightarrow> LocalMetrics" where
  "lm_CloseConnection t start bytesIn bytesOut m =
     m\<lparr>lm_bytesInCount := counter_Inc bytesIn (lm_bytesInCount m),
       lm_bytesOutCount := counter_Inc bytesOut (lm_bytesOutCount m)\<rparr>"

text \<open>The counts of one line of \<open>Report\<close>; the two rates are the operands of their divisions.\<close>

definition lm_report_counts :: "LocalMetrics \<Rightarrow> (string \<times> int) list" where
  "lm_report_counts m =
     [(''windows'', sint (counter_Count (lm_windowsCounter m))),
      (''linux'', sint (counter_Count (lm_linuxCounter m))),
      (''osx'', sint (counter_Count (lm_osxCounter m))),
      (''other'', sint (counter_Count (lm_otherCounter m))),
      (''httpTunnelMeter.count'', sint (meter_Count (lm_httpTunnelMeter m))),
      (''tcpTunnelMeter.count'', sint (meter_Count (lm_tcpTunnelMeter m))),
      (''tunnelMeter.count'', sint (meter_Count (lm_tunnelMeter m))),
      (''connMeter.count'', sint (meter_Count (lm_connMeter m))),
      (''bytesIn.count'', sint (counter_Count (lm_bytesInCount m))),
      (''bytesOut.count'', sint (counter_Count (lm_bytesOutCount m)))]"

definition lm_report_rates :: "int \<Rightarrow> LocalMetrics \<Rightarrow> (string \<times> (int \<times> int) option) list" where
  "lm_report_rates now m =
     [(''tunnelMeter.m1'', meter_Rate1 now (lm_tunnelMeter m)),
      (''connMeter.m1'', meter_Rate1 now (lm_connMeter m))]"

section \<open>Keen.io metrics\<close>

record keen_event =
  ke_Timestamp :: string
  ke_OS :: string
  ke_ClientId :: string
  ke_Protocol :: string
  ke_Url :: string
  ke_Version :: string
  ke_Reason :: string
  ke_HttpAuth :: bool
  ke_Subdomain :: bool
  ke_TunnelDuration :: int
  ke_ConnectionDuration :: int
  ke_BytesIn :: int64
  ke_BytesOut :: int64

record keen_tunnel_event =
  kt_Timestamp :: string
  kt_OS :: string
  kt_ClientId :: string
  kt_Protocol :: string
  kt_Url :: string
  kt_Version :: string
  kt_Reason :: string
  kt_Duration :: int
  kt_HttpAuth :: bool
  kt_Subdomain :: bool

datatype KeenIoMetric = CloseConnection keen_event | CloseTunnel keen_tunnel_event

fun Collection :: "KeenIoMetric \<Rightarrow> string" where
  "Collection (CloseConnection e) = ''CloseConnection''"
| "Collection (CloseTunnel e) = ''CloseTunnel''"

text \<open>\<open>fmt\<close> is the time formatter of package \<open>time\<close>; durations are in nanoseconds.\<close>

definition keen_CloseConnection ::
  "(int \<Rightarrow> string) \<Rightarrow> int \<Rightarrow> metric_tunnel \<Rightarrow> int \<Rightarrow> int64 \<Rightarrow> int64 \<Rightarrow> KeenIoMetric" where
  "keen_CloseConnection fmt now t start bytesIn bytesOut =
     CloseConnection
       \<lparr>ke_Timestamp = fmt start, ke_OS = mt_OS t, ke_ClientId = mt_ClientId t,
        ke_Protocol = mt_Protocol t, ke_Url = mt_url t, ke_Version = mt_MmVersion t,
        ke_Reason = [], ke_HttpAuth = (mt_HttpAuth t \<noteq> []), ke_Subdomain = (mt_Subdomain t \<noteq> []),
        ke_TunnelDuration = now - mt_start t, ke_ConnectionDuration = now - start,
        ke_BytesIn = bytesIn, ke_BytesOut = bytesOut\<rparr>"

definition keen_CloseTunnel :: "(int \<Rightarrow> string) \<Rightarrow> int \<Rightarrow> metric_tunnel \<Rightarrow> KeenIoMetric" where
  "keen_CloseTunnel fmt now t =
     CloseTunnel
       \<lparr>kt_Timestamp = fmt (mt_start t), kt_OS = mt_OS t, kt_ClientId = mt_ClientId t,
        kt_Protocol = mt_Protocol t, kt_Url = mt_url t, kt_Version = mt_MmVersion t,
        kt_Reason = [], kt_Duration = now - mt_start t, kt_HttpAuth = (mt_HttpAuth t \<noteq> []),
        kt_Subdomain = (mt_Subdomain t \<noteq> [])\<rparr>"

text \<open>
  The loop of \<open>NewKeenIoMetrics\<close>: the batch maps a collection to its events. \<open>Tick b\<close> is the
  timer; \<open>b\<close> tells whether the batch can be serialised. The second component of the result is the
  batch given to \<open>AuthedRequest\<close>, if any.
\<close>

type_synonym keen_batch = "(string \<times> KeenIoMetric list) list"

datatype keen_input = Metric KeenIoMetric | Tick bool

fun batch_add :: "KeenIoMetric \<Rightarrow> keen_batch \<Rightarrow> keen_batch" where
  "batch_add m [] = [(Collection m, [m])]"
| "batch_add m ((c, es) # b) =
     (if c = Collection m then (c, es @ [m]) # b else (c, es) # batch_add m b)"

fun keen_step :: "keen_batch \<Rightarrow> keen_input \<Rightarrow> keen_batch option \<times> keen_batch" where
  "keen_step b (Metric m) = (None, batch_add m b)"
| "keen_step b (Tick serialises) =
     (if b = [] then (None, b) else if serialises then (Some b, []) else (None, []))"

section \<open>What the counters count\<close>

datatype metric_op =
    MOpenTunnel metric_tunnel
  | MCloseTunnel metric_tunnel
  | MOpenConnection metric_tunnel
  | MCloseConnection metric_tunnel int int64 int64

fun lm_step :: "LocalMetrics \<Rightarrow> metric_op \<Rightarrow> LocalMetrics" where
  "lm_step m (MOpenTunnel t) = lm_OpenTunnel t m"
| "lm_step m (MCloseTunnel t) = lm_CloseTunnel t m"
| "lm_step m (MOpenConnection t) = lm_OpenConnection t m"
| "lm_step m (MCloseConnection t start i o') = lm_CloseConnection t start i o' m"

fun opens :: "(metric_tunnel \<Rightarrow> bool) \<Rightarrow> metric_op list \<Rightarrow> nat" where
  "opens P [] = 0"
| "opens P (MOpenTunnel t # es) = (if P t then 1 else 0) + opens P es"
| "opens P (_ # es) = opens P es"

fun conns :: "metric_op list \<Rightarrow> nat" where
  "conns [] = 0"
| "conns (MOpenConnection t # es) = Suc (conns es)"
| "conns (_ # es) = conns es"

fun traffic :: "metric_op list \<Rightarrow> int \<times> int" where
  "traffic [] = (0, 0)"
| "traffic (MCloseConnection t start i o' # es) =
     (sint i + fst (traffic es), sint o' + snd (traffic es))"
| "traffic (_ # es) = traffic es"

abbreviation os_is :: "string \<Rightarrow> metric_tunnel \<Rightarrow> bool" where
  "os_is os t \<equiv> mt_OS t = os"

abbreviation known_os :: "metric_tunnel \<Rightarrow> bool" where
  "known_os t \<equiv> mt_OS t \<in> {''windows'', ''linux'', ''darwin''}"

lemmas metric_defs = counter_Inc_def counter_Count_def meter_Mark_def meter_Count_def
  lm_OpenTunnel_def lm_CloseTunnel_def lm_OpenConnection_def lm_CloseConnection_def
  lm_count_os_def lm_count_protocol_def

lemma lm_run_tunnels:
  "cn_count (lm_windowsCounter (run lm_step m es)) =
     cn_count (lm_windowsCounter m) + of_nat (opens (os_is ''windows'') es)"
  "cn_count (lm_linuxCounter (run lm_step m es)) =
     cn_count (lm_linuxCounter m) + of_nat (opens (os_is ''linux'') es)"
  "cn_count (lm_osxCounter (run lm_step m es)) =
     cn_count (lm_osxCounter m) + of_nat (opens (os_is ''darwin'') es)"
  "cn_count (lm_otherCounter (run lm_step m es)) =
     cn_count (lm_otherCounter m) + of_nat (opens (\<lambda>t. \<not> known_os t) es)"
  "me_count (lm_tunnelMeter (run lm_step m es)) =
     me_count (lm_tunnelMeter m) + of_nat (opens (\<lambda>t. True) es)"
  "me_count (lm_tcpTunnelMeter (run lm_step m es)) =
     me_count (lm_tcpTunnelMeter m) + of_nat (opens (\<lambda>t. mt_Protocol t = ''tcp'') es)"
  "me_count (lm_httpTunnelMeter (run lm_step m es)) =
     me_count (lm_httpTunnelMeter m) + of_nat (opens (\<lambda>t. mt_Protocol t = ''http'') es)"
  "me_count (lm_connMeter (run lm_step m es)) = me_count (lm_connMeter m) + of_nat (conns es)"
proof (induction es arbitrary: m)
  case (Cons e es)
  {
    case 1 then show ?case using Cons by (cases e) (simp_all add: metric_defs)
  next
    case 2 then show ?case using Cons by (cases e) (simp_all add: metric_defs)
  next
    case 3 then show ?case using Cons by (cases e) (simp_all add: metric_defs)
  next
    case 4 then show ?case using Cons by (cases e) (simp_all add: metric_defs)
  next
    case 5 then show ?case using Cons by (cases e) (simp_all add: metric_defs)
  next
    case 6 then show ?case using Cons by (cases e) (simp_all add: metric_defs)
  next
    case 7 then show ?case using Cons by (cases e) (simp_all add: metric_defs)
  next
    case 8 then show ?case using Cons by (cases e) (simp_all add: metric_defs)
  }
qed simp_all

lemma lm_run_traffic:
  "cn_count (lm_bytesInCount (run lm_step m es)) =
     cn_count (lm_bytesInCount m) + word_of_int (fst (traffic es))"
  "cn_count (lm_bytesOutCount (run lm_step m es)) =
     cn_count (lm_bytesOutCount m) + word_of_int (snd (traffic es))"
proof (induction es arbitrary: m)
  case (Cons e es)
  {
    case 1 then show ?case using Cons by (cases e) (simp_all add: metric_defs)
  next
    case 2 then show ?case using Cons by (cases e) (simp_all add: metric_defs)
  }
qed simp_all

lemma opens_split: "opens (\<lambda>t. True) es =
    opens (os_is ''windows'') es + opens (os_is ''linux'') es + opens (os_is ''darwin'') es +
    opens (\<lambda>t. \<not> known_os t) es"
  by (induction es rule: conns.induct) auto

lemma opens_le: "opens P es \<le> length es"
  by (induction es rule: conns.induct) auto

lemma conns_le: "conns es \<le> length es"
  by (induction es rule: conns.induct) auto

lemma sint_small_int: "- (2 ^ 63) \<le> k \<Longrightarrow> k < 2 ^ 63 \<Longrightarrow> sint (word_of_int k :: int64) = k"
  by (simp add: signed_of_int signed_take_bit_int_eq_self_iff)

lemma sint_small_nat: "int n < 2 ^ 63 \<Longrightarrow> sint (of_nat n :: int64) = int n"
  using sint_small_int [of "int n"] by simp

text \<open>
  As long as fewer than \<open>2 ^ 63\<close> calls were made and the traffic of each direction fits 63 bits,
  the report of the local metrics is exact: every count is the number of tunnels opened on that
  system or with that protocol, of connections opened, of bytes carried; nothing wraps around,
  and the four systems add up to the tunnels.
\<close>

theorem local_metrics_exact:
  assumes "int (length es) < 2 ^ 63" "traffic es = (bytesIn, bytesOut)"
    "\<bar>bytesIn\<bar> < 2 ^ 63" "\<bar>bytesOut\<bar> < 2 ^ 63"
  shows "lm_report_counts (run lm_step (NewLocalMetrics now) es) =
      [(''windows'', int (opens (os_is ''windows'') es)),
       (''linux'', int (opens (os_is ''linux'') es)),
       (''osx'', int (opens (os_is ''darwin'') es)),
       (''other'', int (opens (\<lambda>t. \<not> known_os t) es)),
       (''httpTunnelMeter.count'', int (opens (\<lambda>t. mt_Protocol t = ''http'') es)),
       (''tcpTunnelMeter.count'', int (opens (\<lambda>t. mt_Protocol t = ''tcp'') es)),
       (''tunnelMeter.count'',
          int (opens (os_is ''windows'') es) + int (opens (os_is ''linux'') es) +
          int (opens (os_is ''darwin'') es) + int (opens (\<lambda>t. \<not> known_os t) es)),
       (''connMeter.count'', int (conns es)),
       (''bytesIn.count'', bytesIn), (''bytesOut.count'', bytesOut)]"
proof -
  have small: "int (opens P es) < 2 ^ 63" "int (conns es) < 2 ^ 63" for P
    using assms(1) opens_le [of P es] conns_le [of es] by simp_all
  have sum: "int (opens (os_is ''windows'') es) + int (opens (os_is ''linux'') es) +
      int (opens (os_is ''darwin'') es) + int (opens (\<lambda>t. \<not> known_os t) es) =
      int (opens (\<lambda>t. True) es)"
    by (simp only: opens_split of_nat_add)
  have bytes: "sint (word_of_int (fst (traffic es)) :: int64) = bytesIn"
    "sint (word_of_int (snd (traffic es)) :: int64) = bytesOut"
    using assms(2-4) by (simp_all add: sint_small_int)
  show ?thesis
    unfolding lm_report_counts_def counter_Count_def meter_Count_def lm_run_tunnels lm_run_traffic sum
    by (simp only: NewLocalMetrics_def NewCounter_def NewMeter_def LocalMetrics.simps
        counter.simps meter.simps add_0 sint_small_nat small bytes)
qed

definition sample_tunnel :: metric_tunnel where
  "sample_tunnel =
     \<lparr>mt_OS = ''linux'', mt_ClientId = ''c'', mt_MmVersion = ''1.7'', mt_Protocol = ''http'',
      mt_url = ''http://a.example.com'', mt_HttpAuth = [], mt_Subdomain = ''a'', mt_start = 0\<rparr>"

lemma local_metrics_exact_witness:
  "lm_report_counts (run lm_step (NewLocalMetrics 0)
       [MOpenTunnel sample_tunnel, MOpenConnection sample_tunnel,
        MCloseConnection sample_tunnel 5 100 7]) =
     [(''windows'', 0), (''linux'', 1), (''osx'', 0), (''other'', 0),
      (''httpTunnelMeter.count'', 1), (''tcpTunnelMeter.count'', 0), (''tunnelMeter.count'', 1),
      (''connMeter.count'', 1), (''bytesIn.count'', 100), (''bytesOut.count'', 7)]"
  by (subst local_metrics_exact [where bytesIn = 100 and bytesOut = 7])
    (simp_all add: sample_tunnel_def)

section \<open>Keen.io events are neither lost nor reordered\<close>

definition events_of :: "string \<Rightarrow> keen_batch \<Rightarrow> KeenIoMetric list" where
  "events_of c b = concat (map snd (filter (\<lambda>p. fst p = c) b))"

definition posted :: "string \<Rightarrow> keen_batch option list \<Rightarrow> KeenIoMetric list" where
  "posted c outs = concat (map (\<lambda>out. case out of None \<Rightarrow> [] | Some b \<Rightarrow> events_of c b) outs)"

fun received :: "keen_input list \<Rightarrow> KeenIoMetric list" where
  "received [] = []"
| "received (Metric m # ins) = m # received ins"
| "received (Tick s # ins) = received ins"

lemma events_of_absent: "c \<notin> fst ` set b \<Longrightarrow> events_of c b = []"
  by (induction b) (auto simp: events_of_def)

lemma events_of_Cons: "events_of c ((d, es) # b) = (if d = c then es else []) @ events_of c b"
  by (simp add: events_of_def)

lemma events_of_add:
  "distinct (map fst b) \<Longrightarrow>
     events_of c (batch_add m b) = events_of c b @ (if Collection m = c then [m] else [])"
proof (induction m b rule: batch_add.induct)
  case (2 m d es b)
  then show ?case
    by (auto simp: events_of_Cons events_of_absent)
qed (simp add: events_of_def)

lemma batch_add_keys: "fst ` set (batch_add m b) = insert (Collection m) (fst ` set b)"
  by (induction m b rule: batch_add.induct) auto

lemma batch_add_distinct: "distinct (map fst b) \<Longrightarrow> distinct (map fst (batch_add m b))"
proof (induction m b rule: batch_add.induct)
  case (2 m c es b)
  then show ?case
    using batch_add_keys [of m b] by (auto simp flip: set_map)
qed simp

lemma keen_run:
  assumes "distinct (map fst b)" "Tick False \<notin> set ins" "run_outs keen_step b ins = (outs, b')"
  shows "posted c outs @ events_of c b' = events_of c b @ filter (\<lambda>m. Collection m = c) (received ins)"
  using assms
proof (induction ins arbitrary: b outs)
  case Nil
  then show ?case by (simp add: posted_def)
next
  case (Cons i ins)
  obtain o1 b1 os where step: "keen_step b i = (o1, b1)" and rest: "run_outs keen_step b1 ins = (os, b')"
    and outs: "outs = o1 # os"
    using Cons.prems(3) by (auto simp: case_prod_unfold Let_def prod_eq_iff)
  have "distinct (map fst b1)"
    using Cons.prems(1) step by (cases i) (auto simp: batch_add_distinct split: if_splits)
  then have IH: "posted c os @ events_of c b' =
      events_of c b1 @ filter (\<lambda>m. Collection m = c) (received ins)"
    using Cons.IH [OF _ _ rest] Cons.prems(2) by simp
  show ?case
    using IH Cons.prems(1,2) step
    by (cases i) (auto simp: outs posted_def events_of_add events_of_absent split: if_splits)
qed

text \<open>
  When every batch can be serialised, the Keen.io reporter posts the events of a collection in
  the order in which they were sent to it, each exactly once, and keeps the ones that have not
  been posted yet; a tick with nothing to report posts nothing.
\<close>

theorem keen_events_in_order:
  assumes "Tick False \<notin> set ins" "run_outs keen_step [] ins = (outs, b)"
  shows "posted c outs @ events_of c b = filter (\<lambda>m. Collection m = c) (received ins) \<and>
    keen_step [] (Tick s) = (None, [])"
  using keen_run [OF _ assms] by (simp add: events_of_def)

lemma keen_events_in_order_witness:
  "posted ''CloseTunnel'' [None, Some [(''CloseTunnel'', [keen_CloseTunnel show_int 9 sample_tunnel])], None] =
     [keen_CloseTunnel show_int 9 sample_tunnel]"
  using keen_events_in_order
    [of "[Metric (keen_CloseTunnel show_int 9 sample_tunnel), Tick True, Tick True]"
       "[None, Some [(''CloseTunnel'', [keen_CloseTunnel show_int 9 sample_tunnel])], None]" "[]"
       "''CloseTunnel''"]
  by (simp add: keen_CloseTunnel_def events_of_def)

end
