(* ===== verification/Util.thy ===== *)
theory Util
  imports Go_Prelude
begin

text \<open>
  The small helpers: random identifiers (\<open>src/ngrok/util/id.go\<close>), panics as errors
  (\<open>src/ngrok/util/errors.go\<close>) and versions (\<open>src/ngrok/version/version.go\<close>). The random sources are
  parameters.
\<close>

section \<open>Random identifiers\<close>

text \<open>Byte \<open>i\<close> of the identifier: a random 32-bit word serves four bytes, the lowest first.\<close>

definition rand_byte :: "(nat \<Rightarrow> 32 word) \<Rightarrow> nat \<Rightarrow> 8 word" where
  "rand_byte rnd i = ucast (drop_bit (8 * (i mod 4)) (rnd (i div 4)))"

definition RandId :: "(nat \<Rightarrow> 32 word) \<Rightarrow> nat \<Rightarrow> string" where
  "RandId rnd idlen = hex_bytes (map (rand_byte rnd) [0..<idlen])"

text \<open>\<open>rand.Read\<close> gives the bytes it could read and perhaps an error.\<close>

definition SecureRandId :: "8 word list \<times> string option \<Rightarrow> nat \<Rightarrow> string result" where
  "SecureRandId got idlen =
     (let (b, err) = got; n = int (length b) in
      if n \<noteq> int idlen then
        Inl (''Only generated '' @ show_int n @ '' random bytes, '' @ show_int (int idlen) @ '' requested'')
      else (case err of Some e \<Rightarrow> Inl e | None \<Rightarrow> Inr (hex_bytes b)))"

text \<open>\<open>None\<close> is a panic.\<close>

definition SecureRandIdOrPanic :: "8 word list \<times> string option \<Rightarrow> nat \<Rightarrow> string option" where
  "SecureRandIdOrPanic got idlen = (case SecureRandId got idlen of Inl _ \<Rightarrow> None | Inr s \<Rightarrow> Some s)"

text \<open>A function that may panic with a value of text \<open>r\<close>, run by \<open>PanicToError\<close>.\<close>

definition PanicToError :: "string + 's \<Rightarrow> 's \<Rightarrow> string option \<times> 's" where
  "PanicToError outcome before =
     (case outcome of Inl r \<Rightarrow> (Some (''Panic: '' @ r), before) | Inr s \<Rightarrow> (None, s))"

section \<open>Versions\<close>

definition version_Proto :: string where "version_Proto = ''2''"

definition version_Major :: string where "version_Major = ''1''"

definition version_Minor :: string where "version_Minor = ''7''"

definition version_MajorMinor :: string where
  "version_MajorMinor = version_Major @ ''.'' @ version_Minor"

definition version_Full :: string where
  "version_Full = version_Proto @ ''-'' @ version_Major @ ''.'' @ version_Minor"

definition version_Compat :: "string \<Rightarrow> string \<Rightarrow> bool" where
  "version_Compat client server \<longleftrightarrow> client = server"

section \<open>Identifiers as text\<close>

definition is_hex :: "char \<Rightarrow> bool" where
  "is_hex c \<longleftrightarrow> is_digit c \<or> (of_char CHR ''a'' :: int) \<le> of_char c \<and> (of_char c :: int) \<le> of_char CHR ''f''"

lemma hex_char_inj:
  assumes "0 \<le> d" "d < 16" "0 \<le> e" "e < 16" "hex_char d = hex_char e"
  shows "d = e"
proof -
  have "(if d < 10 then 48 + d else 87 + d) = (if e < 10 then 48 + e else 87 + e)"
    using of_char_hex [of d] of_char_hex [of e] assms by metis
  then show ?thesis
    using assms(1-4) by (simp split: if_splits)
qed

lemma hex_char_is_hex: "0 \<le> d \<Longrightarrow> d < 16 \<Longrightarrow> is_hex (hex_char d)"
  using of_char_hex [of d] by (auto simp: is_hex_def is_digit_def)

lemma byte_digits: "0 \<le> uint (b :: 8 word) div 16" "uint b div 16 < 16" "0 \<le> uint b mod 16" "uint b mod 16 < 16"
proof -
  have "0 \<le> uint b" "uint b < 256"
    using uint_bounded [of b] by simp_all
  then show "0 \<le> uint b div 16" "uint b div 16 < 16"
    by presburger+
qed simp_all

lemma hex_byte_inj: "hex_byte b = hex_byte c \<longleftrightarrow> b = c"
proof
  assume "hex_byte b = hex_byte c"
  then have "hex_char (uint b div 16) = hex_char (uint c div 16)"
      "hex_char (uint b mod 16) = hex_char (uint c mod 16)"
    by (simp_all add: hex_byte_def)
  then have "uint b div 16 = uint c div 16" "uint b mod 16 = uint c mod 16"
    using hex_char_inj byte_digits [of b] byte_digits [of c] by blast+
  then have "uint b = uint c"
    by presburger
  then show "b = c"
    by (simp add: word_uint_eq_iff)
qed simp

lemma length_hex_byte [simp]: "length (hex_byte b) = 2"
  by (simp add: hex_byte_def)

lemma hex_bytes_inj: "hex_bytes bs = hex_bytes cs \<longleftrightarrow> bs = cs"
proof (induction bs arbitrary: cs)
  case Nil
  then show ?case by (cases cs) (auto simp: hex_bytes_def hex_byte_def)
next
  case (Cons b bs)
  then show ?case
  proof (cases cs)
    case (Cons c cs')
    then show ?thesis
      using Cons.IH [of cs'] hex_byte_inj [of b c] by (simp add: hex_bytes_def)
  qed (simp add: hex_bytes_def hex_byte_def)
qed

lemma length_hex_bytes: "length (hex_bytes bs) = 2 * length bs"
  by (induction bs) (simp_all add: hex_bytes_def)

lemma hex_bytes_hex: "list_all is_hex (hex_bytes bs)"
  by (induction bs) (simp_all add: hex_bytes_def hex_byte_def hex_char_is_hex byte_digits)

text \<open>
  Two client ids are equal only if their random bytes are: a \<open>SecureRandId\<close> of \<open>n\<close> bytes is \<open>2 n\<close>
  lower-case hexadecimal digits that determine the bytes, so the printing loses no randomness, and
  it fails whenever fewer bytes were read or the source reported an error.
\<close>

theorem secure_id_faithful:
  "(SecureRandId (bs, err) n = Inr i \<longleftrightarrow> length bs = n \<and> err = None \<and> i = hex_bytes bs) \<and>
   length (hex_bytes bs) = 2 * length bs \<and> list_all is_hex (hex_bytes bs) \<and>
   (hex_bytes bs = hex_bytes cs \<longleftrightarrow> bs = cs)"
  by (auto simp: SecureRandId_def length_hex_bytes hex_bytes_hex hex_bytes_inj split: option.splits)

end
