(* ===== verification/Tunnel.thy ===== *)
theory Tunnel
  imports Registry Hosts Messages Metrics
begin

text \<open>
  Opening and closing tunnels: \<open>NewTunnel\<close>, \<open>registerVhost\<close> and \<open>Shutdown\<close> of
  \<open>src/ngrok/server/tunnel.go\<close>. The server's state is the tunnel registry, the ports on which
  tunnels listen, the metrics, and how many random numbers and listening sockets were asked for;
  the random numbers and the answers of \<open>net.ListenTCP\<close> are parameters. \<open>None\<close> is a panic.
\<close>

section \<open>Basic authentication\<close>

definition basic_auth :: "string \<Rightarrow> string" where
  "basic_auth httpAuth = (if httpAuth = [] then [] else ''Basic '' @ base64 httpAuth)"

section \<open>State\<close>

text \<open>The configuration of the server and the world it runs in.\<close>

record server_env =
  se_lower :: "string \<Rightarrow> string"
  se_VHOST :: string
  se_domains :: "string list"
  se_allowRemotePorts :: bool
  se_listeners :: "string \<rightharpoonup> int"
  se_listen :: "nat \<Rightarrow> int \<Rightarrow> string + int"
  se_rand :: "nat \<Rightarrow> int"

record server =
  sv_tunnels :: tunnel_registry
  sv_ports :: "int list"
  sv_metrics :: LocalMetrics
  sv_listens :: nat
  sv_rands :: nat

text \<open>What a tunnel reads of its control.\<close>

record control_info =
  ci_id :: string
  ci_ip :: string
  ci_OS :: string
  ci_MmVersion :: string
  ci_prefix :: string

record tunnel =
  tn_number :: nat
  tn_req :: ReqTunnel
  tn_start :: int
  tn_url :: string
  tn_urls :: "string list"
  tn_listener :: "int option"
  tn_ctl :: control_info
  tn_closing :: bool

definition tn_key :: "tunnel \<Rightarrow> tunnel_key" where
  "tn_key t =
     \<lparr>tk_tunnel = tn_number t, tk_Protocol = rt_Protocol (tn_req t), tk_ip = ci_ip (tn_ctl t),
      tk_id = ci_id (tn_ctl t)\<rparr>"

definition tn_metric :: "tunnel \<Rightarrow> metric_tunnel" where
  "tn_metric t =
     \<lparr>mt_OS = ci_OS (tn_ctl t), mt_ClientId = ci_id (tn_ctl t), mt_MmVersion = ci_MmVersion (tn_ctl t),
      mt_Protocol = rt_Protocol (tn_req t), mt_url = tn_url t, mt_HttpAuth = rt_HttpAuth (tn_req t),
      mt_Subdomain = rt_Subdomain (tn_req t), mt_start = tn_start t\<rparr>"

section \<open>Registering URLs\<close>

definition add_url :: "string \<Rightarrow> tunnel \<Rightarrow> tunnel" where
  "add_url url t =
     (let t1 = t\<lparr>tn_urls := tn_urls t @ [url]\<rparr> in
      if tn_url t1 = [] then t1\<lparr>tn_url := url\<rparr> else t1)"

definition registerURL :: "string \<Rightarrow> tunnel \<Rightarrow> server \<Rightarrow> (tunnel \<times> server) result" where
  "registerURL url t s =
     (case tr_Register url (tn_number t) (sv_tunnels s) of
        Inl err \<Rightarrow> Inl err
      | Inr r \<Rightarrow> Inr (add_url url t, s\<lparr>sv_tunnels := r\<rparr>))"

definition registerAndCacheURL ::
  "int \<Rightarrow> string \<Rightarrow> tunnel \<Rightarrow> server \<Rightarrow> (tunnel \<times> server) result option" where
  "registerAndCacheURL now url t s =
     (case tr_RegisterAndCache now url (tn_key t) (sv_tunnels s) of
        None \<Rightarrow> None
      | Some (Inl err) \<Rightarrow> Some (Inl err)
      | Some (Inr r) \<Rightarrow> Some (Inr (add_url url t, s\<lparr>sv_tunnels := r\<rparr>)))"

definition unregisterURLs :: "tunnel \<Rightarrow> server \<Rightarrow> tunnel \<times> server" where
  "unregisterURLs t s =
     (t\<lparr>tn_urls := []\<rparr>, s\<lparr>sv_tunnels := foldl (\<lambda>r url. tr_Del url r) (sv_tunnels s) (tn_urls t)\<rparr>)"

definition random_url :: "server_env \<Rightarrow> string \<Rightarrow> string \<Rightarrow> nat \<Rightarrow> nat \<Rightarrow> string" where
  "random_url e protocol vhost n k =
     protocol @ ''://'' @ show_hex (se_rand e (n + k)) @ ''.'' @ vhost"

text \<open>An error of \<open>registerVhost\<close> leaves the tunnel but may have used random numbers.\<close>

definition registerVhost ::
  "server_env \<Rightarrow> int \<Rightarrow> string \<Rightarrow> int \<Rightarrow> tunnel \<Rightarrow> server \<Rightarrow> (tunnel result \<times> server) option" where
  "registerVhost e now protocol servingPort t s =
     (let vhosts = publicVhosts (se_lower e) (se_VHOST e) (se_domains e) protocol servingPort in
      if length vhosts = 0 then Some (Inl ''No domains configured'', s)
      else if defaultPortMap protocol = None
        then Some (Inl (''Couldn'' @ [CHR 0x27] @ ''t find default port for protocol '' @ protocol), s)
      else
        let hostname = to_lower (se_lower e) (trim_space (rt_Hostname (tn_req t))) in
        if hostname \<noteq> [] then
          if \<not> validHostname hostname then Some (Inl ''Invalid hostname'', s)
          else if \<not> hostnameAllowed hostname vhosts
            then Some (Inl ''Hostname is outside the configured domains'', s)
          else (case registerURL (protocol @ ''://'' @ hostname) t s of
                  Inl err \<Rightarrow> Some (Inl err, s)
                | Inr (t1, s1) \<Rightarrow> Some (Inr t1, s1))
        else
          let subdomain = to_lower (se_lower e) (trim_space (rt_Subdomain (tn_req t))) in
          if subdomain \<noteq> [] then
            if \<not> validHostnameLabel subdomain then Some (Inl ''Invalid subdomain'', s)
            else (case registerURL (protocol @ ''://'' @ subdomain @ ''.'' @ vhosts ! 0) t s of
                    Inl err \<Rightarrow> Some (Inl err, s)
                  | Inr (t1, s1) \<Rightarrow> Some (Inr t1, s1))
          else
            (case tr_RegisterRepeat now (random_url e protocol (vhosts ! 0) (sv_rands s)) (tn_key t)
                    (sv_tunnels s) of
               None \<Rightarrow> None
             | Some (res, k, r) \<Rightarrow>
                 let s1 = s\<lparr>sv_tunnels := r, sv_rands := sv_rands s + k\<rparr> in
                 (case res of
                    Inl err \<Rightarrow> Some (Inl err, s1)
                  | Inr url \<Rightarrow> Some (Inr (t\<lparr>tn_url := url, tn_urls := tn_urls t @ [url]\<rparr>), s1))))"

text \<open>
  \<open>bindTcp\<close>: the error it returns is also the \<open>err\<close> of \<open>NewTunnel\<close>. The evaluation of \<open>domains[0]\<close>
  panics without domains, with the socket bound.
\<close>

definition bindTcp ::
  "server_env \<Rightarrow> int \<Rightarrow> int \<Rightarrow> tunnel \<Rightarrow> server \<Rightarrow> (tunnel result \<times> server) option" where
  "bindTcp e now port t s =
     (let s1 = s\<lparr>sv_listens := Suc (sv_listens s)\<rparr> in
      case se_listen e (sv_listens s) port of
        Inl err \<Rightarrow> Some (Inl (ci_prefix (tn_ctl t) @ '' Error binding TCP listener: '' @ err), s1)
      | Inr bound \<Rightarrow>
          (case se_domains e of
             [] \<Rightarrow> None
           | d # _ \<Rightarrow>
               let url = ''tcp://'' @ d @ '':'' @ show_int bound in
               (case tr_RegisterAndCache now url (tn_key t) (sv_tunnels s1) of
                  None \<Rightarrow> None
                | Some (Inl err) \<Rightarrow>
                    Some (Inl (''TCP listener bound, but failed to register '' @ url), s1)
                | Some (Inr r) \<Rightarrow>
                    Some (Inr (t\<lparr>tn_listener := Some bound, tn_url := url, tn_urls := tn_urls t @ [url]\<rparr>),
                          s1\<lparr>sv_tunnels := r, sv_ports := bound # sv_ports s1\<rparr>))))"

text \<open>\<open>parts[len(parts)-1]\<close> of the cached URL.\<close>

definition cached_port :: "string \<Rightarrow> int option" where
  "cached_port cachedUrl = atoi (last (split_on CHR '':'' cachedUrl))"

definition NewTunnel_tcp ::
  "server_env \<Rightarrow> int \<Rightarrow> tunnel \<Rightarrow> server \<Rightarrow> (tunnel result \<times> server) option" where
  "NewTunnel_tcp e now t s =
     (if rt_RemotePort (tn_req t) \<noteq> 0 then
        if \<not> se_allowRemotePorts e
        then Some (Inl ''Custom TCP remote ports are disabled by the server'', s)
        else bindTcp e now (uint (rt_RemotePort (tn_req t))) t s
      else
        let (cachedUrl, r) = tr_GetCachedRegistration now (tn_key t) (sv_tunnels s);
            s1 = s\<lparr>sv_tunnels := r\<rparr> in
        if cachedUrl = [] then bindTcp e now 0 t s1
        else (case cached_port cachedUrl of
                None \<Rightarrow> bindTcp e now 0 t s1
              | Some port \<Rightarrow>
                  (case bindTcp e now port t s1 of
                     None \<Rightarrow> None
                   | Some (Inr t1, s2) \<Rightarrow> Some (Inr t1, s2)
                   | Some (Inl err, s2) \<Rightarrow> bindTcp e now 0 t s2)))"

definition init_tunnel :: "int \<Rightarrow> nat \<Rightarrow> ReqTunnel \<Rightarrow> control_info \<Rightarrow> tunnel" where
  "init_tunnel now n m ctl =
     \<lparr>tn_number = n, tn_req = m, tn_start = now, tn_url = [], tn_urls = [], tn_listener = None,
      tn_ctl = ctl, tn_closing = False\<rparr>"

definition NewTunnel ::
  "server_env \<Rightarrow> int \<Rightarrow> nat \<Rightarrow> ReqTunnel \<Rightarrow> control_info \<Rightarrow> server \<Rightarrow> (tunnel result \<times> server) option"
where
  "NewTunnel e now n m ctl s =
     (let t = init_tunnel now n m ctl; proto = rt_Protocol m in
      if proto = ''tcp'' then NewTunnel_tcp e now t s
      else if proto = ''http'' \<or> proto = ''https'' then
        (case se_listeners e proto of
           None \<Rightarrow> Some (Inl (''Not listening for '' @ proto @ '' connections''), s)
         | Some port \<Rightarrow>
             (case registerVhost e now proto port t s of
                None \<Rightarrow> None
              | Some (Inl err, s1) \<Rightarrow> Some (Inl err, s1)
              | Some (Inr t1, s1) \<Rightarrow>
                  let t2 = t1\<lparr>tn_req := (tn_req t1)\<lparr>rt_HttpAuth := basic_auth (rt_HttpAuth m)\<rparr>\<rparr> in
                  Some (Inr t2, s1\<lparr>sv_metrics := lm_OpenTunnel (tn_metric t2) (sv_metrics s1)\<rparr>)))
      else Some (Inl (''Protocol '' @ proto @ '' is not supported''), s))"

definition tunnel_Shutdown :: "tunnel \<Rightarrow> server \<Rightarrow> tunnel \<times> server" where
  "tunnel_Shutdown t s =
     (let t1 = t\<lparr>tn_closing := True\<rparr>;
          s1 = (case tn_listener t1 of None \<Rightarrow> s | Some p \<Rightarrow> s\<lparr>sv_ports := remove1 p (sv_ports s)\<rparr>);
          (t2, s2) = unregisterURLs t1 s1
      in (t2, s2\<lparr>sv_metrics := lm_CloseTunnel (tn_metric t2) (sv_metrics s2)\<rparr>))"

section \<open>Every outcome of opening a tunnel\<close>

text \<open>
  What a caller of the three registration routines may rely on: a refusal changes neither the URLs
  nor the ports nor the metrics; a success registers one URL, free before, for the tunnel.
\<close>

definition refused :: "server \<Rightarrow> server \<Rightarrow> bool" where
  "refused s s' \<longleftrightarrow> tr_tunnels (sv_tunnels s') = tr_tunnels (sv_tunnels s) \<and>
     sv_ports s' = sv_ports s \<and> sv_metrics s' = sv_metrics s \<and> tr_ok (sv_tunnels s')"

definition opened :: "tunnel \<Rightarrow> tunnel \<Rightarrow> server \<Rightarrow> server \<Rightarrow> bool" where
  "opened t t' s s' \<longleftrightarrow>
     tr_free (sv_tunnels s) (tn_url t') \<and> tn_urls t' = [tn_url t'] \<and>
     tr_tunnels (sv_tunnels s') = (tr_tunnels (sv_tunnels s))(tn_url t' \<mapsto> tn_number t) \<and>
     sv_ports s' = (case tn_listener t' of None \<Rightarrow> [] | Some p \<Rightarrow> [p]) @ sv_ports s \<and>
     sv_metrics s' = sv_metrics s \<and> tr_ok (sv_tunnels s') \<and>
     tn_number t' = tn_number t \<and> tn_req t' = tn_req t \<and> tn_ctl t' = tn_ctl t \<and>
     tn_start t' = tn_start t \<and> tn_closing t' = tn_closing t"

definition settles :: "tunnel \<Rightarrow> server \<Rightarrow> (tunnel result \<times> server) option \<Rightarrow> bool" where
  "settles t s out \<longleftrightarrow>
     (case out of
        None \<Rightarrow> False
      | Some (Inl err, s') \<Rightarrow> refused s s'
      | Some (Inr t', s') \<Rightarrow> opened t t' s s')"

lemma settlesE:
  assumes "settles t s out"
  obtains (refused) err s' where "out = Some (Inl err, s')" "refused s s'"
    | (opened) t' s' where "out = Some (Inr t', s')" "opened t t' s s'"
proof (cases out)
  case (Some p)
  then show ?thesis
    using assms refused opened by (cases p; cases "fst p") (auto simp: settles_def)
qed (use assms in \<open>simp add: settles_def\<close>)

definition fresh_tunnel :: "tunnel \<Rightarrow> bool" where
  "fresh_tunnel t \<longleftrightarrow> tn_url t = [] \<and> tn_urls t = [] \<and> tn_listener t = None"

lemma settles_simps [simp]:
  "settles t s (Some (Inl err, s')) = refused s s'"
  "settles t s (Some (Inr t', s')) = opened t t' s s'"
  "\<not> settles t s None"
  by (simp_all add: settles_def)

lemma refused_refl [simp]: "tr_ok (sv_tunnels s) \<Longrightarrow> refused s s"
  by (simp add: refused_def)

lemma settles_after_refusal: "refused s s1 \<Longrightarrow> settles t s1 out \<Longrightarrow> settles t s out"
  by (auto simp: settles_def refused_def opened_def tr_free_def split: option.splits sum.splits)

lemma registerURL_settles:
  assumes "tr_ok (sv_tunnels s)" "fresh_tunnel t"
  shows "settles t s (case registerURL url t s of
           Inl err \<Rightarrow> Some (Inl err, s) | Inr (t1, s1) \<Rightarrow> Some (Inr t1, s1))"
  using assms
  by (auto simp: registerURL_def tr_Register_def add_url_def Let_def opened_def fresh_tunnel_def
      tr_free_def tr_ok_def)

lemma registerVhost_settles:
  assumes "tr_ok (sv_tunnels s)" "fresh_tunnel t"
  shows "settles t s (registerVhost e now protocol port t s)"
proof -
  let ?vhosts = "publicVhosts (se_lower e) (se_VHOST e) (se_domains e) protocol port"
  let ?urlFn = "random_url e protocol (?vhosts ! 0) (sv_rands s)"
  obtain res k r where rep: "tr_RegisterRepeat now ?urlFn (tn_key t) (sv_tunnels s) = Some (res, k, r)"
    "tr_ok r"
    "case find (tr_free (sv_tunnels s)) (repeat_candidates ?urlFn (tn_key t) (sv_tunnels s)) of
       None \<Rightarrow> \<not> is_ok res \<and> tr_tunnels r = tr_tunnels (sv_tunnels s)
     | Some u \<Rightarrow> res = Inr u \<and>
         tr_tunnels r = (tr_tunnels (sv_tunnels s))(u \<mapsto> tk_tunnel (tn_key t)) \<and>
         (cacheUrl_Size u \<le> l_capacity (tr_affinity (sv_tunnels s)) \<longrightarrow> cached_url (tn_key t) r = u)"
    using RegisterRepeat_spec [OF assms(1), of now ?urlFn "tn_key t"] by blast
  have random: "settles t s
      (let s1 = s\<lparr>sv_tunnels := r, sv_rands := sv_rands s + k\<rparr> in
       (case res of
          Inl err \<Rightarrow> Some (Inl err, s1)
        | Inr url \<Rightarrow> Some (Inr (t\<lparr>tn_url := url, tn_urls := tn_urls t @ [url]\<rparr>), s1)))"
    using rep(2,3) assms(2)
    by (cases res) (auto simp: Let_def refused_def opened_def fresh_tunnel_def tn_key_def
        find_Some_iff split: option.splits)
  show ?thesis
    unfolding registerVhost_def Let_def rep(1)
    using random registerURL_settles [OF assms] assms(1) by (simp add: Let_def)
qed

lemma bindTcp_settles:
  assumes "tr_ok (sv_tunnels s)" "fresh_tunnel t" "se_domains e \<noteq> []"
  shows "settles t s (bindTcp e now port t s)"
proof (cases "se_listen e (sv_listens s) port")
  case (Inl err)
  then show ?thesis
    using assms(1) by (simp add: bindTcp_def Let_def refused_def)
next
  case (Inr bound)
  obtain d ds where d: "se_domains e = d # ds"
    using assms(3) by (cases "se_domains e") auto
  let ?url = "''tcp://'' @ d @ '':'' @ show_int bound"
  show ?thesis
  proof (cases "tr_tunnels (sv_tunnels s) ?url")
    case None
    then show ?thesis
      using Inr d assms(2) RegisterAndCache_free [OF assms(1) None, of now "tn_key t"]
      by (auto simp: bindTcp_def Let_def opened_def tr_free_def fresh_tunnel_def tn_key_def)
  next
    case (Some x)
    then show ?thesis
      using Inr d assms(1) RegisterAndCache_taken [of "sv_tunnels s" ?url now "tn_key t"]
      by (simp add: bindTcp_def Let_def refused_def)
  qed
qed

lemma NewTunnel_tcp_settles:
  assumes "tr_ok (sv_tunnels s)" "fresh_tunnel t" "se_domains e \<noteq> []"
  shows "settles t s (NewTunnel_tcp e now t s)"
proof -
  obtain url r where get: "tr_GetCachedRegistration now (tn_key t) (sv_tunnels s) = (url, r)"
    by force
  let ?s1 = "s\<lparr>sv_tunnels := r\<rparr>"
  have s1: "refused s ?s1" "tr_ok (sv_tunnels ?s1)"
    using GetCachedRegistration_spec(2,3) [OF assms(1), of now "tn_key t"] get
    by (simp_all add: refused_def)
  have bind: "settles t s (bindTcp e now port t s2)" if "refused s s2" for port s2
    using settles_after_refusal [OF that] bindTcp_settles [OF _ assms(2,3)] that
    by (simp add: refused_def)
  have retry: "settles t s (case bindTcp e now port t ?s1 of
      None \<Rightarrow> None | Some (Inr t1, s2) \<Rightarrow> Some (Inr t1, s2)
    | Some (Inl err, s2) \<Rightarrow> bindTcp e now 0 t s2)" for port
  proof (cases "bindTcp e now port t ?s1")
    case None
    then show ?thesis using bind [OF s1(1), of port] by simp
  next
    case (Some out)
    then show ?thesis
      using bind [OF s1(1), of port] bind [of "snd out" 0] by (cases out; cases "fst out") auto
  qed
  show ?thesis
    using bind [OF refused_refl [OF assms(1)]] bind [OF s1(1)] retry assms(1)
    by (auto simp: NewTunnel_tcp_def get Let_def split: option.split)
qed

lemma NewTunnel_branches:
  "rt_Protocol m = ''tcp'' \<Longrightarrow>
     NewTunnel e now n m ctl s = NewTunnel_tcp e now (init_tunnel now n m ctl) s"
  "rt_Protocol m = ''http'' \<or> rt_Protocol m = ''https'' \<Longrightarrow>
     se_listeners e (rt_Protocol m) = None \<Longrightarrow>
     NewTunnel e now n m ctl s =
       Some (Inl (''Not listening for '' @ rt_Protocol m @ '' connections''), s)"
  "rt_Protocol m \<notin> {''tcp'', ''http'', ''https''} \<Longrightarrow>
     NewTunnel e now n m ctl s = Some (Inl (''Protocol '' @ rt_Protocol m @ '' is not supported''), s)"
  by (auto simp: NewTunnel_def Let_def)

text \<open>The three ways in which opening a tunnel ends.\<close>

definition with_auth :: "tunnel \<Rightarrow> tunnel" where
  "with_auth t = t\<lparr>tn_req := (tn_req t)\<lparr>rt_HttpAuth := basic_auth (rt_HttpAuth (tn_req t))\<rparr>\<rparr>"

lemma NewTunnel_cases:
  assumes "tr_ok (sv_tunnels s)" "rt_Protocol m = ''tcp'' \<longrightarrow> se_domains e \<noteq> []"
  obtains (refused) err s' where "NewTunnel e now n m ctl s = Some (Inl err, s')" "refused s s'"
    | (tcp) t s' where "rt_Protocol m = ''tcp''" "NewTunnel e now n m ctl s = Some (Inr t, s')"
        "opened (init_tunnel now n m ctl) t s s'"
    | (vhost) t s' where "rt_Protocol m = ''http'' \<or> rt_Protocol m = ''https''"
        "rt_Protocol m \<noteq> ''tcp''"
        "NewTunnel e now n m ctl s = Some (Inr (with_auth t),
           s'\<lparr>sv_metrics := lm_OpenTunnel (tn_metric (with_auth t)) (sv_metrics s')\<rparr>)"
        "opened (init_tunnel now n m ctl) t s s'"
proof -
  let ?t = "init_tunnel now n m ctl"
  have fresh: "fresh_tunnel ?t" and t: "tn_number ?t = n" "tn_req ?t = m"
    by (simp_all add: fresh_tunnel_def init_tunnel_def)
  consider (is_tcp) "rt_Protocol m = ''tcp''"
    | (http) port where "rt_Protocol m = ''http'' \<or> rt_Protocol m = ''https''" "rt_Protocol m \<noteq> ''tcp''"
        "se_listeners e (rt_Protocol m) = Some port"
    | (refuse) err where "NewTunnel e now n m ctl s = Some (Inl err, s)"
    using NewTunnel_branches(2,3) [of m e now n ctl s]
    by (cases "se_listeners e (rt_Protocol m)"; cases "rt_Protocol m = ''tcp''";
        cases "rt_Protocol m = ''http'' \<or> rt_Protocol m = ''https''") blast+
  then show thesis
  proof cases
    case is_tcp
    then have eq: "NewTunnel e now n m ctl s = NewTunnel_tcp e now ?t s"
      by (rule NewTunnel_branches)
    from NewTunnel_tcp_settles [OF assms(1) fresh assms(2) [rule_format, OF is_tcp], of now] show ?thesis
      by (cases rule: settlesE) (use eq is_tcp refused tcp in auto)
  next
    case http
    from registerVhost_settles [OF assms(1) fresh, of e now "rt_Protocol m" port] show ?thesis
    proof (cases rule: settlesE)
      case (refused err s')
      then show ?thesis
        using http that(1) [of err s'] by (simp add: NewTunnel_def Let_def)
    next
      case (opened t' s')
      then show ?thesis
        using http t vhost [of t' s'] by (simp add: NewTunnel_def Let_def with_auth_def opened_def)
    qed
  qed (use assms(1) refused in auto)
qed

text \<open>
  C5: A request to open a tunnel never panics (for \<open>tcp\<close>, as long as a domain is configured) and
  either is refused, and then the registered URLs, the bound ports and the metrics are what they
  were, or opens a tunnel with exactly one URL, which was free and now belongs to it, all other
  URLs unchanged; only a \<open>tcp\<close> tunnel binds a port, only the others are counted by the metrics and
  get their credentials encoded.
\<close>

theorem new_tunnel_outcome:
  assumes "tr_ok (sv_tunnels s)" "rt_Protocol m = ''tcp'' \<longrightarrow> se_domains e \<noteq> []"
  shows "\<exists>res s'. NewTunnel e now n m ctl s = Some (res, s') \<and> tr_ok (sv_tunnels s') \<and>
    (case res of
       Inl err \<Rightarrow>
         tr_tunnels (sv_tunnels s') = tr_tunnels (sv_tunnels s) \<and>
         sv_ports s' = sv_ports s \<and> sv_metrics s' = sv_metrics s
     | Inr t \<Rightarrow>
         tr_Get (tn_url t) (sv_tunnels s) = None \<and> tn_urls t = [tn_url t] \<and> tn_number t = n \<and>
         tr_tunnels (sv_tunnels s') = (tr_tunnels (sv_tunnels s))(tn_url t \<mapsto> n) \<and>
         sv_ports s' = (case tn_listener t of None \<Rightarrow> [] | Some p \<Rightarrow> [p]) @ sv_ports s \<and>
         rt_Protocol m \<in> {''tcp'', ''http'', ''https''} \<and>
         (if rt_Protocol m = ''tcp''
          then sv_metrics s' = sv_metrics s \<and> tn_req t = m
          else sv_metrics s' = lm_OpenTunnel (tn_metric t) (sv_metrics s) \<and>
            tn_req t = m\<lparr>rt_HttpAuth := basic_auth (rt_HttpAuth m)\<rparr>))"
proof (cases rule: NewTunnel_cases [OF assms, where now = now and n = n and ctl = ctl, case_names refused tcp vhost])
  case (refused err s')
  then show ?thesis by (simp add: refused_def)
next
  case (tcp t s')
  then show ?thesis by (simp add: opened_def tr_free_def tr_Get_def init_tunnel_def)
next
  case (vhost t s')
  then show ?thesis by (simp add: opened_def tr_free_def tr_Get_def init_tunnel_def with_auth_def)
qed

text \<open>A configuration with one domain, and an empty server.\<close>

definition sample_env :: server_env where
  "sample_env =
     \<lparr>se_lower = id, se_VHOST = [], se_domains = [''example.com''], se_allowRemotePorts = True,
      se_listeners = [''http'' \<mapsto> 80], se_listen = (\<lambda>_ p. if p = 0 then Inr 40000 else Inr p),
      se_rand = int\<rparr>"

definition empty_server :: server where
  "empty_server =
     \<lparr>sv_tunnels = NewTunnelRegistry 1024, sv_ports = [], sv_metrics = NewLocalMetrics 0,
      sv_listens = 0, sv_rands = 0\<rparr>"

definition sample_ctl :: control_info where
  "sample_ctl = \<lparr>ci_id = ''c'', ci_ip = ''1.2.3.4'', ci_OS = ''linux'', ci_MmVersion = ''1.7'',
     ci_prefix = ''[ctl:1]''\<rparr>"

definition sample_req :: ReqTunnel where
  "sample_req = \<lparr>rt_ReqId = ''r'', rt_Protocol = ''tcp'', rt_Hostname = [], rt_Subdomain = [],
     rt_HttpAuth = [], rt_RemotePort = 5000\<rparr>"

lemma empty_server_ok: "tr_ok (sv_tunnels empty_server)"
  by (simp add: empty_server_def tr_ok_new)

lemma empty_server_facts [simp]:
  "tr_tunnels (sv_tunnels empty_server) = Map.empty" "sv_ports empty_server = []"
  "sv_listens empty_server = 0"
  by (simp_all add: empty_server_def NewTunnelRegistry_def)

lemma new_tunnel_outcome_witness:
  "\<exists>res s'. NewTunnel sample_env 0 1 sample_req sample_ctl empty_server = Some (res, s') \<and>
     tr_ok (sv_tunnels s')"
  using new_tunnel_outcome [OF empty_server_ok, of sample_req sample_env 0 1 sample_ctl]
  by (auto simp: sample_env_def)

section \<open>The life of a tunnel\<close>

text \<open>The facts of \<open>settles\<close> for a tunnel that was opened.\<close>

lemma NewTunnel_opened:
  assumes "tr_ok (sv_tunnels s)" "NewTunnel e now n m ctl s = Some (Inr t, s')"
    "rt_Protocol m = ''tcp'' \<longrightarrow> se_domains e \<noteq> []"
  shows "tr_ok (sv_tunnels s')" "tn_urls t = [tn_url t]"
    "tr_tunnels (sv_tunnels s') = (tr_tunnels (sv_tunnels s))(tn_url t \<mapsto> n)"
    "tr_tunnels (sv_tunnels s) (tn_url t) = None"
    "sv_ports s' = (case tn_listener t of None \<Rightarrow> [] | Some p \<Rightarrow> [p]) @ sv_ports s"
proof -
  have "tr_ok (sv_tunnels s') \<and> tn_urls t = [tn_url t] \<and>
      tr_tunnels (sv_tunnels s') = (tr_tunnels (sv_tunnels s))(tn_url t \<mapsto> n) \<and>
      tr_tunnels (sv_tunnels s) (tn_url t) = None \<and>
      sv_ports s' = (case tn_listener t of None \<Rightarrow> [] | Some p \<Rightarrow> [p]) @ sv_ports s"
    by (cases rule: NewTunnel_cases [OF assms(1,3), where now = now and n = n and ctl = ctl, case_names refused tcp vhost])
      (use assms(2) in \<open>auto simp: opened_def tr_free_def init_tunnel_def with_auth_def\<close>)
  then show "tr_ok (sv_tunnels s')" "tn_urls t = [tn_url t]"
    "tr_tunnels (sv_tunnels s') = (tr_tunnels (sv_tunnels s))(tn_url t \<mapsto> n)"
    "tr_tunnels (sv_tunnels s) (tn_url t) = None"
    "sv_ports s' = (case tn_listener t of None \<Rightarrow> [] | Some p \<Rightarrow> [p]) @ sv_ports s"
    by simp_all
qed

text \<open>
  C22: From its opening to its shutdown a tunnel is what the registry returns for its URL, whatever
  other tunnels do in between; its shutdown frees that URL, leaves all others as they are, closes
  its port if it has one, and marks it as closing.
\<close>

theorem tunnel_lifecycle:
  assumes "tr_ok (sv_tunnels s)" "NewTunnel e now n m ctl s = Some (Inr t, s1)"
    "rt_Protocol m = ''tcp'' \<longrightarrow> se_domains e \<noteq> []"
    and "OpDel (tn_url t) \<notin> set ops"
    and "s2 = s1\<lparr>sv_tunnels := run tr_step (sv_tunnels s1) ops, sv_ports := ports @ sv_ports s1\<rparr>"
    and "tunnel_Shutdown t s2 = (t3, s3)"
  shows "tr_Get (tn_url t) (sv_tunnels s2) = Some n \<and>
    tr_tunnels (sv_tunnels s3) = (tr_tunnels (sv_tunnels s2))(tn_url t := None) \<and>
    sv_ports s3 = (case tn_listener t of None \<Rightarrow> sv_ports s2 | Some p \<Rightarrow> remove1 p (sv_ports s2)) \<and>
    tn_closing t3 \<and> tn_urls t3 = []"
proof -
  note op = NewTunnel_opened [OF assms(1-3)]
  have "tr_tunnels (sv_tunnels s2) (tn_url t) = Some n"
    using tr_run_keeps [OF op(1) _ assms(4), of n] op(3) by (simp add: assms(5))
  then show ?thesis
    using assms(6) op(2)
    by (auto simp: tunnel_Shutdown_def unregisterURLs_def tr_Del_def tr_Get_def Let_def
        lm_CloseTunnel_def split: option.splits)
qed

lemma sample_tcp_opens:
  "case NewTunnel sample_env 0 1 sample_req sample_ctl empty_server of
     Some (Inr t, s1) \<Rightarrow> tn_url t = ''tcp://example.com:5000'' \<and> tn_listener t = Some 5000
   | _ \<Rightarrow> False"
  by code_simp

lemma tunnel_lifecycle_witness:
  "\<exists>t s1. NewTunnel sample_env 0 1 sample_req sample_ctl empty_server = Some (Inr t, s1) \<and>
     tr_Get ''tcp://example.com:5000'' (sv_tunnels s1) = Some 1 \<and>
     tr_Get ''tcp://example.com:5000'' (sv_tunnels (snd (tunnel_Shutdown t s1))) = None"
proof -
  obtain t s1 where t: "NewTunnel sample_env 0 1 sample_req sample_ctl empty_server = Some (Inr t, s1)"
      "tn_url t = ''tcp://example.com:5000''"
    using sample_tcp_opens by (auto split: option.splits sum.splits)
  have dom: "rt_Protocol sample_req = ''tcp'' \<longrightarrow> se_domains sample_env \<noteq> []"
    by (simp add: sample_env_def)
  obtain t3 s3 where "tunnel_Shutdown t s1 = (t3, s3)" by force
  then show ?thesis
    using tunnel_lifecycle [OF empty_server_ok t(1) dom, of "[]" s1 "[]" t3 s3] t
    by (auto simp: tr_Get_def)
qed

section \<open>Which URL a client gets\<close>

text \<open>
  C33: The URL of a virtual host is the one that was asked for and stays inside the domains that
  are served: a requested host name, lower-cased and trimmed, has to be valid and to be a served
  host or below one; otherwise a requested subdomain has to be a valid label and goes under the
  first virtual host.
\<close>

theorem vhost_url_as_requested:
  assumes "NewTunnel e now n m ctl s = Some (Inr t, s')" "rt_Protocol m \<noteq> ''tcp''"
    "se_listeners e (rt_Protocol m) = Some port"
    "vhosts = publicVhosts (se_lower e) (se_VHOST e) (se_domains e) (rt_Protocol m) port"
    "hostname = to_lower (se_lower e) (trim_space (rt_Hostname m))"
    "subdomain = to_lower (se_lower e) (trim_space (rt_Subdomain m))"
  shows "vhosts \<noteq> [] \<and>
    (hostname \<noteq> [] \<longrightarrow> tn_url t = rt_Protocol m @ ''://'' @ hostname \<and> validHostname hostname \<and>
       (\<exists>v \<in> set vhosts. hostname = stripHostPort v \<or> (\<exists>p. hostname = p @ ''.'' @ stripHostPort v))) \<and>
    (hostname = [] \<and> subdomain \<noteq> [] \<longrightarrow>
       tn_url t = rt_Protocol m @ ''://'' @ subdomain @ ''.'' @ hd vhosts \<and>
       validHostnameLabel subdomain)"
proof -
  have proto: "rt_Protocol m = ''http'' \<or> rt_Protocol m = ''https''"
    using assms(1,2) NewTunnel_branches(3) by fastforce
  obtain t1 s1 where 1: "registerVhost e now (rt_Protocol m) port (init_tunnel now n m ctl) s = Some (Inr t1, s1)"
    "tn_url t = tn_url t1"
    using assms(1,3) proto
    by (auto simp: NewTunnel_def Let_def split: option.splits sum.splits)
  have m: "tn_req (init_tunnel now n m ctl) = m" "tn_url (init_tunnel now n m ctl) = []"
    by (simp_all add: init_tunnel_def)
  show ?thesis
    using 1 hostnameAllowed_suffix [of hostname vhosts]
    unfolding registerVhost_def Let_def m assms(4-6) [symmetric]
    by (auto simp: registerURL_def add_url_def m Let_def hd_conv_nth split: if_splits sum.splits)
qed

definition sample_http :: ReqTunnel where
  "sample_http = \<lparr>rt_ReqId = ''r'', rt_Protocol = ''http'', rt_Hostname = [], rt_Subdomain = ''A'',
     rt_HttpAuth = [], rt_RemotePort = 0\<rparr>"

lemma sample_vhosts: "publicVhosts id [] [''example.com''] ''http'' 80 = [''example.com'']"
proof -
  have "show_int 80 = ''80''" by (simp add: show_int_def show_digits.simps)
  moreover have "trim_space ''example.com:80'' = ''example.com:80''"
    by (intro trim_space_id) (simp_all add: solid_ascii)
  moreover have "to_lower id ''example.com:80'' = ''example.com:80''"
    by (simp add: to_lower_def is_ascii_def lower_char_def is_upper_def)
  ultimately show ?thesis
    by (simp add: publicVhosts_def vhost_item_def defaultPortMap_def trim_suffix_def has_suffix_def
        Let_def)
qed

lemma sample_subdomain: "to_lower id (trim_space ''A'') = ''a''"
  using trim_space_id [of "''A''"]
  by (simp add: solid_ascii to_lower_def is_ascii_def lower_char_def is_upper_def char_of_def)

lemma vhost_url_as_requested_witness:
  "\<exists>t s'. NewTunnel sample_env 0 1 sample_http sample_ctl empty_server = Some (Inr t, s') \<and>
     tn_url t = ''http://a.example.com''"
proof -
  have label: "validHostnameLabel ''a''"
    by (simp add: validHostnameLabel_def label_char_def is_lower_def)
  let ?out = "registerVhost sample_env 0 ''http'' 80 (init_tunnel 0 1 sample_http sample_ctl) empty_server"
  have facts: "rt_Protocol sample_http = ''http''" "se_listeners sample_env ''http'' = Some 80"
    "rt_Hostname sample_http = []" "rt_Subdomain sample_http = ''A''"
    "se_lower sample_env = id" "se_VHOST sample_env = []" "se_domains sample_env = [''example.com'']"
    by (simp_all add: sample_http_def sample_env_def)
  then have "?out \<noteq> None" "\<not> isl (fst (the ?out))"
    using sample_subdomain label
    by (simp_all add: registerVhost_def sample_vhosts defaultPortMap_def init_tunnel_def registerURL_def
        tr_Register_def Let_def to_lower_def [of _ "[]"])
  moreover have "\<exists>t1 s1. out = Some (Inr t1, s1)" if "out \<noteq> None" "\<not> isl (fst (the out))"
    for out :: "(tunnel result \<times> server) option"
    using that by (cases out; cases "fst (the out)") auto
  ultimately obtain t1 s1 where "?out = Some (Inr t1, s1)"
    by blast
  then obtain t s' where
    t: "NewTunnel sample_env 0 1 sample_http sample_ctl empty_server = Some (Inr t, s')"
    by (simp add: NewTunnel_def Let_def facts)
  have empty: "to_lower id (trim_space []) = []"
    by (simp add: to_lower_def)
  have "tn_url t = ''http://'' @ ''a'' @ ''.'' @ hd [''example.com'']"
    using vhost_url_as_requested [OF t, of 80 "[''example.com'']" "[]" "''a''"]
    by (simp only: facts sample_vhosts sample_subdomain empty) simp
  then show ?thesis
    using t by simp
qed

text \<open>
  A remote port is never bound unless the server allows it: without \<open>-allowRemotePorts\<close> the
  request is refused and nothing at all changes; with it the tunnel gets exactly the port the
  system bound for the port asked for, or an error.
\<close>

theorem remote_port_only_if_allowed:
  assumes "rt_Protocol m = ''tcp''" "rt_RemotePort m \<noteq> 0"
  shows "if se_allowRemotePorts e
    then (\<forall>t s'. NewTunnel e now n m ctl s = Some (Inr t, s') \<longrightarrow>
            (\<exists>p d. tn_listener t = Some p \<and> se_listen e (sv_listens s) (uint (rt_RemotePort m)) = Inr p \<and>
               d = hd (se_domains e) \<and> tn_url t = ''tcp://'' @ d @ '':'' @ show_int p))
    else NewTunnel e now n m ctl s = Some (Inl ''Custom TCP remote ports are disabled by the server'', s)"
  using assms
  by (auto simp: NewTunnel_branches(1) NewTunnel_tcp_def bindTcp_def init_tunnel_def Let_def
      split: sum.splits option.splits list.splits prod.splits)

lemma remote_port_only_if_allowed_witness:
  "NewTunnel (sample_env\<lparr>se_allowRemotePorts := False\<rparr>) 0 1 sample_req sample_ctl empty_server =
     Some (Inl ''Custom TCP remote ports are disabled by the server'', empty_server)"
  using remote_port_only_if_allowed [of sample_req "sample_env\<lparr>se_allowRemotePorts := False\<rparr>"]
  by (simp add: sample_req_def sample_env_def)

text \<open>
  A client that comes back gets its old \<open>tcp\<close> port: when the affinity cache has a URL with a
  port for the client, that URL is free, its domain is still the first one and the system binds
  the port, then the new tunnel has that same URL.
\<close>

theorem tcp_port_returns:
  assumes "tr_ok (sv_tunnels s)" "rt_Protocol m = ''tcp''" "rt_RemotePort m = 0"
    and "cached_url (tn_key (init_tunnel now n m ctl)) (sv_tunnels s) = ''tcp://'' @ d @ '':'' @ show_int p"
    and "se_domains e = d # ds" "0 \<le> p" "p < 2 ^ 16"
    and "se_listen e (sv_listens s) p = Inr p"
    and "tr_free (sv_tunnels s) (''tcp://'' @ d @ '':'' @ show_int p)"
  shows "\<exists>t s'. NewTunnel e now n m ctl s = Some (Inr t, s') \<and>
    tn_url t = ''tcp://'' @ d @ '':'' @ show_int p \<and> tn_listener t = Some p"
proof -
  let ?t = "init_tunnel now n m ctl"
  let ?url = "''tcp://'' @ d @ '':'' @ show_int p"
  obtain url r where get: "tr_GetCachedRegistration now (tn_key ?t) (sv_tunnels s) = (url, r)"
    by force
  have r: "url = ?url" "tr_ok r" "tr_tunnels r = tr_tunnels (sv_tunnels s)"
    using GetCachedRegistration_spec [OF assms(1), of now "tn_key ?t"] get assms(4) by simp_all
  have "CHR '':'' \<notin> set (show_int p)"
    using show_int_digits [OF assms(6)] not_digit_simps(3) by blast
  then have "last (split_on CHR '':'' ?url) = show_int p"
    using last_split_on [of "CHR '':''" "show_int p" "''tcp://'' @ d"] by simp
  then have port: "cached_port ?url = Some p"
    using assms(6,7) by (simp add: cached_port_def atoi_show_int)
  obtain r2 where "tr_RegisterAndCache now ?url (tn_key ?t) r = Some (Inr r2)"
    using RegisterAndCache_free [OF r(2), of ?url now "tn_key ?t"] assms(9) r(3)
    by (auto simp: tr_free_def)
  then show ?thesis
    using assms(2,3,5,8) get r(1) port
    by (simp add: NewTunnel_branches(1) NewTunnel_tcp_def bindTcp_def Let_def init_tunnel_def)
qed

lemma tr_Del_ok: "tr_ok (tr_Del url r) = tr_ok r"
  by (simp add: tr_ok_def tr_Del_def)

lemma cached_url_other: "cached_url (k\<lparr>tk_tunnel := n\<rparr>) (tr_Del u r) = cached_url k r"
proof -
  have "affinity_of key (tr_Del u r) = affinity_of key r" for key
    by (simp add: affinity_of_def tr_Del_def)
  moreover have "tr_cacheKeys (k\<lparr>tk_tunnel := n\<rparr>) = tr_cacheKeys k"
    by (simp add: tr_cacheKeys_def)
  ultimately show ?thesis
    by (simp only: cached_url_def)
qed

lemma tcp_port_returns_witness:
  "\<exists>t s'. NewTunnel sample_env 5 2 (sample_req\<lparr>rt_RemotePort := 0\<rparr>) sample_ctl
       (empty_server\<lparr>sv_tunnels := tr_Del ''tcp://example.com:5000''
          (tr_step (NewTunnelRegistry 1024)
             (OpRegisterAndCache 0 ''tcp://example.com:5000''
                \<lparr>tk_tunnel = 1, tk_Protocol = ''tcp'', tk_ip = ''1.2.3.4'', tk_id = ''c''\<rparr>))\<rparr>) =
     Some (Inr t, s') \<and> tn_url t = ''tcp://example.com:5000''"
proof -
  let ?m = "sample_req\<lparr>rt_RemotePort := 0\<rparr>"
  let ?k = "\<lparr>tk_tunnel = 1, tk_Protocol = ''tcp'', tk_ip = ''1.2.3.4'', tk_id = ''c''\<rparr>"
  let ?r1 = "tr_step (NewTunnelRegistry 1024) (OpRegisterAndCache 0 ''tcp://example.com:5000'' ?k)"
  let ?r = "tr_Del ''tcp://example.com:5000'' ?r1"
  let ?s = "empty_server\<lparr>sv_tunnels := ?r\<rparr>"
  have k: "tn_key (init_tunnel 5 2 ?m sample_ctl) = ?k\<lparr>tk_tunnel := 2\<rparr>"
    by (simp add: tn_key_def init_tunnel_def sample_req_def sample_ctl_def)
  have free: "tr_tunnels (NewTunnelRegistry 1024) ''tcp://example.com:5000'' = None"
    by (simp add: NewTunnelRegistry_def)
  have ok: "tr_ok (sv_tunnels ?s)"
    using tr_step_ok [OF tr_ok_new] by (simp add: tr_Del_ok empty_server_def del: tr_step.simps)
  obtain r' where r': "tr_RegisterAndCache 0 ''tcp://example.com:5000'' ?k (NewTunnelRegistry 1024) =
      Some (Inr r')" "cached_url ?k r' = ''tcp://example.com:5000''"
    using RegisterAndCache_free [OF tr_ok_new free, of 0 ?k]
    by (auto simp: NewTunnelRegistry_def NewLRUCache_def cacheUrl_Size_def)
  have "cached_url (?k\<lparr>tk_tunnel := 2\<rparr>) ?r = cached_url ?k r'"
    unfolding cached_url_other using r'(1) by simp
  moreover have five: "show_int 5000 = ''5000''"
    by (simp add: show_int_def show_digits.simps)
  ultimately have cached: "cached_url (tn_key (init_tunnel 5 2 ?m sample_ctl)) (sv_tunnels ?s) =
      ''tcp://'' @ ''example.com'' @ '':'' @ show_int 5000"
    using r'(2) by (simp only: k server.simps) simp
  have "tr_free (sv_tunnels ?s) (''tcp://'' @ ''example.com'' @ '':'' @ show_int 5000)"
    by (simp add: five tr_free_def tr_Del_def)
  then have "\<exists>t s'. NewTunnel sample_env 5 2 ?m sample_ctl ?s = Some (Inr t, s') \<and>
      tn_url t = ''tcp://'' @ ''example.com'' @ '':'' @ show_int 5000 \<and> tn_listener t = Some 5000"
    by (intro tcp_port_returns [OF ok _ _ cached])
      (simp_all add: sample_req_def sample_env_def)
  then show ?thesis
    by (simp only: five append.simps) blast
qed

text \<open>
  Without a configured domain the two kinds of tunnels behave differently: a virtual host is
  refused with an error, but a \<open>tcp\<close> tunnel whose port could be bound panics on \<open>domains[0]\<close>.
\<close>

theorem no_domain_configured:
  assumes "tr_ok (sv_tunnels s)" "se_domains e = []" "se_VHOST e = []"
  shows "(rt_Protocol m = ''http'' \<and> se_listeners e ''http'' = Some port \<longrightarrow>
      NewTunnel e now n m ctl s = Some (Inl ''No domains configured'', s)) \<and>
    (rt_Protocol m = ''tcp'' \<and> rt_RemotePort m = 0 \<and>
       cached_url (tn_key (init_tunnel now n m ctl)) (sv_tunnels s) = [] \<and>
       se_listen e (sv_listens s) 0 = Inr p \<longrightarrow> NewTunnel e now n m ctl s = None)"
proof -
  have "to_lower ul (trim_space []) = []" for ul
    by (simp add: to_lower_def)
  moreover have "\<not> has_suffix [] (CHR '':'' # x)" for x
    by (simp add: has_suffix_iff)
  ultimately have vhosts: "publicVhosts (se_lower e) [] [] p port = []" for p
    by (simp add: publicVhosts_def vhost_item_def Let_def trim_suffix_def)
  obtain url r where get:
    "tr_GetCachedRegistration now (tn_key (init_tunnel now n m ctl)) (sv_tunnels s) = (url, r)"
    by force
  have m: "tn_req (init_tunnel now n m ctl) = m"
    by (simp add: init_tunnel_def)
  have url: "url = cached_url (tn_key (init_tunnel now n m ctl)) (sv_tunnels s)"
    using GetCachedRegistration_spec(1) [OF assms(1), of now "tn_key (init_tunnel now n m ctl)"] get
    by simp
  have "NewTunnel e now n m ctl s = Some (Inl ''No domains configured'', s)"
    if "rt_Protocol m = ''http''" "se_listeners e ''http'' = Some port"
    using that by (simp add: NewTunnel_def registerVhost_def assms(2,3) vhosts)
  moreover have "NewTunnel e now n m ctl s = None"
    if "rt_Protocol m = ''tcp''" "rt_RemotePort m = 0"
      "cached_url (tn_key (init_tunnel now n m ctl)) (sv_tunnels s) = []"
      "se_listen e (sv_listens s) 0 = Inr p"
    using that
    by (simp add: NewTunnel_branches(1) NewTunnel_tcp_def m get url bindTcp_def assms(2))
  ultimately show ?thesis by blast
qed

lemma no_domain_configured_witness:
  "NewTunnel (sample_env\<lparr>se_domains := []\<rparr>) 0 1 (sample_req\<lparr>rt_RemotePort := 0\<rparr>) sample_ctl empty_server
     = None"
proof -
  have "cached_url k (sv_tunnels empty_server) = []" for k
    by (simp add: cached_url_def affinity_of_def empty_server_def NewTunnelRegistry_def NewLRUCache_def
        lru_abs_def)
  then show ?thesis
    using no_domain_configured [OF empty_server_ok, of "sample_env\<lparr>se_domains := []\<rparr>"
        "sample_req\<lparr>rt_RemotePort := 0\<rparr>" 0 0 1 sample_ctl 40000]
    by (simp add: sample_env_def sample_req_def)
qed

end
