(* ===== verification/Certs.thy ===== *)
theory Certs
  imports Hosts
begin

text \<open>
  The certificates of the server, \<open>src/ngrok/server/tls.go\<close>: a source that reloads its files, the
  choice of the source for a name, and \<open>LoadTLSConfig\<close>. Times are in nanoseconds. The file system,
  the bundled assets and \<open>tls.X509KeyPair\<close> are what a \<open>cert_world\<close> answers; a call of
  \<open>Certificate\<close> is one step that looks at the world twice, before and after it takes the write
  lock, as the code does.
\<close>

section \<open>Certificate sources\<close>

definition certReloadBeforeExpiry :: int where
  "certReloadBeforeExpiry = 24 * 60 * 60 * 1000000000"

definition certReloadRetryAfter :: int where
  "certReloadRetryAfter = 60 * 1000000000"

text \<open>
  A \<open>tls.Certificate\<close>: the number of its DER blocks, the expiry of its \<open>Leaf\<close> if that was parsed,
  and what \<open>x509.ParseCertificate\<close> says of the first block.
\<close>

record certificate =
  ce_blocks :: nat
  ce_Leaf :: "int option"
  ce_parse :: "int option"
  ce_data :: "string \<times> string"

record cert_world =
  cw_ModTime :: "string \<Rightarrow> string + int"
  cw_ReadFile :: "string \<Rightarrow> string + string"
  cw_Asset :: "string \<Rightarrow> string + string"
  cw_X509KeyPair :: "string \<Rightarrow> string \<Rightarrow> string + certificate"

record certSource =
  cs_crtPath :: string
  cs_keyPath :: string
  cs_defaultCrt :: string
  cs_defaultKey :: string
  cs_cert :: "certificate option"
  cs_crtModTime :: int
  cs_keyModTime :: int
  cs_nextCheck :: int
  cs_assetBacked :: bool
  cs_description :: string

definition newCertSource :: "string \<Rightarrow> string \<Rightarrow> string \<Rightarrow> certSource" where
  "newCertSource description crtPath keyPath =
     \<lparr>cs_crtPath = crtPath, cs_keyPath = keyPath,
      cs_defaultCrt = ''assets/server/tls/snakeoil.crt'',
      cs_defaultKey = ''assets/server/tls/snakeoil.key'',
      cs_cert = None, cs_crtModTime = 0, cs_keyModTime = 0, cs_nextCheck = 0,
      cs_assetBacked = (crtPath = [] \<or> keyPath = []), cs_description = description\<rparr>"

definition fileOrAsset :: "cert_world \<Rightarrow> string \<Rightarrow> string \<Rightarrow> string + string" where
  "fileOrAsset w path defaultPath = (if path = [] then cw_Asset w defaultPath else cw_ReadFile w path)"

definition statModTimes :: "cert_world \<Rightarrow> certSource \<Rightarrow> string + int \<times> int" where
  "statModTimes w s =
     (if cs_assetBacked s then Inr (0, 0)
      else (case cw_ModTime w (cs_crtPath s) of
              Inl err \<Rightarrow> Inl err
            | Inr crtMod \<Rightarrow>
                (case cw_ModTime w (cs_keyPath s) of
                   Inl err \<Rightarrow> Inl err
                 | Inr keyMod \<Rightarrow> Inr (crtMod, keyMod))))"

text \<open>The time of the next check; a leaf that had to be parsed is kept in the certificate.\<close>

definition nextCertificateCheck :: "int \<Rightarrow> certificate \<Rightarrow> int \<times> certificate" where
  "nextCertificateCheck now cert =
     (if ce_blocks cert = 0 then (now + certReloadRetryAfter, cert)
      else case (case ce_Leaf cert of Some leaf \<Rightarrow> Some leaf | None \<Rightarrow> ce_parse cert) of
             None \<Rightarrow> (now + certReloadRetryAfter, cert)
           | Some NotAfter \<Rightarrow>
               let cert1 = cert\<lparr>ce_Leaf := Some NotAfter\<rparr>; nxt = NotAfter - certReloadBeforeExpiry in
               (if nxt < now then (now + certReloadRetryAfter, cert1) else (nxt, cert1)))"

definition cs_unchanged :: "int \<Rightarrow> int \<Rightarrow> certSource \<Rightarrow> bool" where
  "cs_unchanged crtMod keyMod s \<longleftrightarrow>
     cs_assetBacked s \<or> (crtMod = cs_crtModTime s \<and> keyMod = cs_keyModTime s)"

text \<open>What a failing step returns: the certificate that is already loaded, if there is one.\<close>

definition loaded_or :: "string \<Rightarrow> certSource \<Rightarrow> (string + certificate) \<times> certSource" where
  "loaded_or err s = (case cs_cert s of Some cert \<Rightarrow> (Inr cert, s) | None \<Rightarrow> (Inl err, s))"

text \<open>The part of \<open>Certificate\<close> under the write lock.\<close>

definition cs_reload :: "int \<Rightarrow> cert_world \<Rightarrow> certSource \<Rightarrow> (string + certificate) \<times> certSource" where
  "cs_reload now w s =
     (case statModTimes w s of
        Inl err \<Rightarrow> loaded_or err s
      | Inr (crtMod, keyMod) \<Rightarrow>
          (case (if cs_unchanged crtMod keyMod s then cs_cert s else None) of
             Some cert \<Rightarrow>
               let (nxt, cert1) = nextCertificateCheck now cert in
               (Inr cert1, s\<lparr>cs_cert := Some cert1, cs_nextCheck := nxt\<rparr>)
           | None \<Rightarrow>
               (case fileOrAsset w (cs_crtPath s) (cs_defaultCrt s) of
                  Inl err \<Rightarrow> loaded_or err s
                | Inr crt \<Rightarrow>
                    (case fileOrAsset w (cs_keyPath s) (cs_defaultKey s) of
                       Inl err \<Rightarrow> loaded_or err s
                     | Inr key \<Rightarrow>
                         (case cw_X509KeyPair w crt key of
                            Inl err \<Rightarrow> loaded_or err s
                          | Inr cert \<Rightarrow>
                              let (nxt, cert1) = nextCertificateCheck now cert in
                              (Inr cert1, s\<lparr>cs_cert := Some cert1, cs_crtModTime := crtMod,
                                 cs_keyModTime := keyMod, cs_nextCheck := nxt\<rparr>))))))"

definition cs_Certificate ::
  "int \<Rightarrow> int \<Rightarrow> cert_world \<Rightarrow> cert_world \<Rightarrow> certSource \<Rightarrow> (string + certificate) \<times> certSource"
where
  "cs_Certificate now later w1 w2 s =
     (case (if now < cs_nextCheck s then cs_cert s else None) of
        Some cert \<Rightarrow> (Inr cert, s)
      | None \<Rightarrow>
          (case statModTimes w1 s of
             Inl err \<Rightarrow> loaded_or err s
           | Inr (crtMod, keyMod) \<Rightarrow>
               (case (if cs_unchanged crtMod keyMod s then cs_cert s else None) of
                  Some cert \<Rightarrow> (Inr cert, s)
                | None \<Rightarrow> cs_reload later w2 s)))"

section \<open>Sources by name\<close>

record certReloader =
  rl_defaultSource :: certSource
  rl_byName :: "string \<rightharpoonup> certSource"

text \<open>\<open>strings.IndexByte(name, '.')\<close> and the text after it, for an index above 0.\<close>

definition parent_name :: "string \<Rightarrow> string option" where
  "parent_name name =
     (case cut CHR ''.'' name of None \<Rightarrow> None | Some (a, b) \<Rightarrow> if a = [] then None else Some b)"

text \<open>The key under which the source was found, \<open>None\<close> for the default source.\<close>

definition certificateForName :: "(string \<Rightarrow> string) \<Rightarrow> string \<Rightarrow> certReloader \<Rightarrow> string option" where
  "certificateForName ul serverName r =
     (let name = to_lower ul (trim_suffix serverName ''.'') in
      if rl_byName r name \<noteq> None then Some name
      else (case parent_name name of
              None \<Rightarrow> None
            | Some rest \<Rightarrow>
                if rl_byName r (''*.'' @ rest) \<noteq> None then Some (''*.'' @ rest) else None))"

definition rl_source :: "string option \<Rightarrow> certReloader \<Rightarrow> certSource" where
  "rl_source key r =
     (case key of None \<Rightarrow> rl_defaultSource r | Some k \<Rightarrow> the (rl_byName r k))"

definition cert_failure :: "certSource \<Rightarrow> string \<Rightarrow> string" where
  "cert_failure s err = ''failed to load certificate for '' @ cs_description s @ '': '' @ err"

text \<open>
  A domain's source is shared by its two keys, so the updated source is stored under both: under
  every key whose source has the same description and files.
\<close>

definition same_source :: "certSource \<Rightarrow> certSource \<Rightarrow> bool" where
  "same_source a b \<longleftrightarrow> cs_description a = cs_description b"

definition rl_store :: "string option \<Rightarrow> certSource \<Rightarrow> certReloader \<Rightarrow> certReloader" where
  "rl_store key s r =
     (case key of
        None \<Rightarrow> r\<lparr>rl_defaultSource := s\<rparr>
      | Some k \<Rightarrow>
          r\<lparr>rl_byName := (\<lambda>n. case rl_byName r n of
               None \<Rightarrow> None
             | Some old \<Rightarrow> if same_source old s then Some s else Some old)\<rparr>)"

definition GetCertificate ::
  "(string \<Rightarrow> string) \<Rightarrow> int \<Rightarrow> int \<Rightarrow> cert_world \<Rightarrow> cert_world \<Rightarrow> string \<Rightarrow> certReloader \<Rightarrow>
   (string + certificate) \<times> certReloader"
where
  "GetCertificate ul now later w1 w2 serverName r =
     (let key = certificateForName ul serverName r;
          (res, s) = cs_Certificate now later w1 w2 (rl_source key r);
          r1 = rl_store key s r
      in case res of
           Inl err \<Rightarrow> (Inl (cert_failure s err), r1)
         | Inr cert \<Rightarrow> (Inr cert, r1))"

fun load_domains ::
  "(string \<Rightarrow> string) \<Rightarrow> int \<Rightarrow> int \<Rightarrow> cert_world \<Rightarrow> cert_world \<Rightarrow> DomainTLSConfig list \<Rightarrow>
   (string \<rightharpoonup> certSource) \<Rightarrow> string + (string \<rightharpoonup> certSource)"
where
  "load_domains ul now later w1 w2 [] m = Inr m"
| "load_domains ul now later w1 w2 (d # ds) m =
     (case cs_Certificate now later w1 w2 (newCertSource (dt_Domain d) (dt_CrtPath d) (dt_KeyPath d)) of
        (Inl err, s) \<Rightarrow> Inl (''failed to load certificate for '' @ dt_Domain d @ '': '' @ err)
      | (Inr cert, s) \<Rightarrow>
          let domainName = to_lower ul (dt_Domain d) in
          load_domains ul now later w1 w2 ds (m(domainName \<mapsto> s, (''*.'' @ domainName) \<mapsto> s)))"

definition LoadTLSConfig ::
  "(string \<Rightarrow> string) \<Rightarrow> int \<Rightarrow> int \<Rightarrow> cert_world \<Rightarrow> cert_world \<Rightarrow> string \<Rightarrow> string \<Rightarrow>
   DomainTLSConfig list \<Rightarrow> string + certReloader"
where
  "LoadTLSConfig ul now later w1 w2 defaultCrtPath defaultKeyPath domains =
     (case cs_Certificate now later w1 w2 (newCertSource ''default'' defaultCrtPath defaultKeyPath) of
        (Inl err, s) \<Rightarrow> Inl err
      | (Inr cert, s) \<Rightarrow>
          (case load_domains ul now later w1 w2 domains Map.empty of
             Inl err \<Rightarrow> Inl err
           | Inr m \<Rightarrow> Inr \<lparr>rl_defaultSource = s, rl_byName = m\<rparr>))"

section \<open>A loaded certificate is never lost\<close>

definition cs_loaded :: "certSource \<Rightarrow> bool" where
  "cs_loaded s \<longleftrightarrow> cs_cert s \<noteq> None"

definition rl_loaded :: "certReloader \<Rightarrow> bool" where
  "rl_loaded r \<longleftrightarrow> cs_loaded (rl_defaultSource r) \<and> (\<forall>n s. rl_byName r n = Some s \<longrightarrow> cs_loaded s)"

text \<open>Whatever \<open>Certificate\<close> answers is what it has loaded, and it only unloads what it replaces.\<close>

lemma loaded_or_serves:
  "fst (loaded_or err s) = (case cs_cert s of Some cert \<Rightarrow> Inr cert | None \<Rightarrow> Inl err)"
  "snd (loaded_or err s) = s"
  by (auto simp: loaded_or_def split: option.splits)

definition serves :: "certSource \<Rightarrow> (string + certificate) \<times> certSource \<Rightarrow> bool" where
  "serves s out \<longleftrightarrow>
     (case out of
        (Inl err, s') \<Rightarrow> cs_cert s = None \<and> s' = s
      | (Inr cert, s') \<Rightarrow> cs_cert s' = Some cert \<and> cs_description s' = cs_description s \<and>
          cs_crtPath s' = cs_crtPath s \<and> cs_keyPath s' = cs_keyPath s)"

lemma loaded_or_ok: "serves s (loaded_or err s)"
  by (auto simp: serves_def loaded_or_def split: option.splits)

lemma serves_self: "cs_cert s = Some cert \<Longrightarrow> serves s (Inr cert, s)"
  by (simp add: serves_def)

lemma cs_reload_serves: "serves s (cs_reload now w s)"
  unfolding cs_reload_def
  by (simp split: sum.split prod.split option.split add: loaded_or_ok Let_def)
    (auto simp: serves_def split: if_splits)

lemma cs_Certificate_serves: "serves s (cs_Certificate now later w1 w2 s)"
  unfolding cs_Certificate_def
  by (simp split: sum.split prod.split option.split add: loaded_or_ok cs_reload_serves)
    (auto simp: serves_self split: if_splits)

definition rl_step ::
  "(string \<Rightarrow> string) \<Rightarrow> certReloader \<Rightarrow> int \<times> int \<times> cert_world \<times> cert_world \<times> string \<Rightarrow> certReloader"
where
  "rl_step ul r = (\<lambda>(now, later, w1, w2, name). snd (GetCertificate ul now later w1 w2 name r))"

lemma rl_source_loaded: "rl_loaded r \<Longrightarrow> cs_loaded (rl_source (certificateForName ul name r) r)"
  by (auto simp: rl_loaded_def rl_source_def certificateForName_def Let_def
      split: option.splits if_splits)

lemma cs_Certificate_loaded:
  assumes "cs_loaded s"
  shows "\<exists>cert s'. cs_Certificate now later w1 w2 s = (Inr cert, s') \<and> cs_cert s' = Some cert"
proof -
  obtain res s' where eq: "cs_Certificate now later w1 w2 s = (res, s')" by force
  then show ?thesis
    using cs_Certificate_serves [of s now later w1 w2] assms
    by (cases res) (auto simp: serves_def cs_loaded_def)
qed

lemma GetCertificate_serves:
  assumes "rl_loaded r"
  shows "\<exists>cert r'. GetCertificate ul now later w1 w2 name r = (Inr cert, r') \<and> rl_loaded r'"
proof -
  let ?key = "certificateForName ul name r"
  obtain cert s' where c: "cs_Certificate now later w1 w2 (rl_source ?key r) = (Inr cert, s')"
      "cs_cert s' = Some cert"
    using cs_Certificate_loaded [OF rl_source_loaded [OF assms]] by blast
  then have "rl_loaded (rl_store ?key s' r)"
    using assms
    by (auto simp: rl_loaded_def rl_store_def cs_loaded_def split: option.splits if_splits)
  then show ?thesis
    using c by (simp add: GetCertificate_def Let_def)
qed

interpretation reloader: machine_invariant "rl_step ul" rl_loaded for ul
proof
  fix r :: certReloader and e :: "int \<times> int \<times> cert_world \<times> cert_world \<times> string"
  assume "rl_loaded r"
  moreover obtain now later w1 w2 name where "e = (now, later, w1, w2, name)"
    by (cases e)
  ultimately show "rl_loaded (rl_step ul r e)"
    using GetCertificate_serves [of r ul now later w1 w2 name] by (auto simp: rl_step_def)
qed

lemma load_domains_loaded:
  "load_domains ul now later w1 w2 ds m = Inr m' \<Longrightarrow> (\<forall>n s. m n = Some s \<longrightarrow> cs_loaded s) \<Longrightarrow>
   m' n = Some s \<Longrightarrow> cs_loaded s"
proof (induction ds arbitrary: m)
  case (Cons d ds)
  let ?new = "newCertSource (dt_Domain d) (dt_CrtPath d) (dt_KeyPath d)"
  obtain res s1 where c: "cs_Certificate now later w1 w2 ?new = (res, s1)" by force
  then obtain cert where cert: "res = Inr cert"
    using Cons.prems(1) by (cases res) auto
  have "cs_loaded s1"
    using cs_Certificate_serves [of ?new now later w1 w2] c cert by (simp add: serves_def cs_loaded_def)
  then show ?case
    using Cons.IH [OF _ _ Cons.prems(3)] Cons.prems(1,2) c cert
    by (fastforce simp: Let_def split: if_splits)
qed auto

lemma LoadTLSConfig_loaded:
  assumes "LoadTLSConfig ul now later w1 w2 crt key ds = Inr r"
  shows "rl_loaded r"
proof -
  let ?new = "newCertSource ''default'' crt key"
  obtain res s1 where c: "cs_Certificate now later w1 w2 ?new = (res, s1)" by force
  then obtain cert m where "res = Inr cert" "load_domains ul now later w1 w2 ds Map.empty = Inr m"
    and r: "r = \<lparr>rl_defaultSource = s1, rl_byName = m\<rparr>"
    using assms by (auto simp: LoadTLSConfig_def split: sum.splits)
  then show ?thesis
    using cs_Certificate_serves [of ?new now later w1 w2] c
      load_domains_loaded [of ul now later w1 w2 ds Map.empty m]
    by (auto simp: rl_loaded_def serves_def cs_loaded_def)
qed

text \<open>
  A server that started keeps serving TLS: once \<open>LoadTLSConfig\<close> has succeeded, every handshake
  gets a certificate, whatever names are asked for and whatever becomes of the files (removed,
  unreadable, no longer a key pair), at any later time.
\<close>

theorem tls_always_serves:
  assumes "LoadTLSConfig ul now later w1 w2 crt key ds = Inr r"
  shows "\<exists>cert r'. GetCertificate ul now' later' w1' w2' name (run (rl_step ul) r es) = (Inr cert, r')"
  using GetCertificate_serves [OF reloader.run_inv [OF LoadTLSConfig_loaded [OF assms]]] by blast

text \<open>A world with two files, and one where nothing can be read.\<close>

definition good_world :: "int \<Rightarrow> string \<Rightarrow> cert_world" where
  "good_world m d =
     \<lparr>cw_ModTime = (\<lambda>_. Inr m), cw_ReadFile = (\<lambda>p. Inr (p @ d)), cw_Asset = (\<lambda>p. Inr p),
      cw_X509KeyPair = (\<lambda>c k. Inr \<lparr>ce_blocks = 1, ce_Leaf = None, ce_parse = Some 0, ce_data = (c, k)\<rparr>)\<rparr>"

definition bad_world :: cert_world where
  "bad_world =
     \<lparr>cw_ModTime = (\<lambda>_. Inl ''gone''), cw_ReadFile = (\<lambda>_. Inl ''gone''), cw_Asset = (\<lambda>_. Inl ''gone''),
      cw_X509KeyPair = (\<lambda>_ _. Inl ''bad'')\<rparr>"

definition example_domain :: DomainTLSConfig where
  "example_domain = \<lparr>dt_Domain = ''example.com'', dt_CrtPath = ''c'', dt_KeyPath = ''k''\<rparr>"

lemma sample_reloader:
  "\<exists>r. LoadTLSConfig id 0 0 (good_world 1 []) (good_world 1 []) ''c'' ''k'' [example_domain] = Inr r"
  by (simp add: LoadTLSConfig_def cs_Certificate_def cs_reload_def good_world_def newCertSource_def
      statModTimes_def fileOrAsset_def cs_unchanged_def nextCertificateCheck_def Let_def example_domain_def)

lemma tls_always_serves_witness:
  "\<exists>r cert r'. LoadTLSConfig id 0 0 (good_world 1 []) (good_world 1 []) ''c'' ''k'' [example_domain] = Inr r \<and>
     GetCertificate id 1 1 bad_world bad_world ''a.example.com'' r = (Inr cert, r')"
  using tls_always_serves [where now' = 1 and later' = 1 and w1' = bad_world and w2' = bad_world
      and name = "''a.example.com''" and es = "[]"] sample_reloader by simp blast

section \<open>Reloading\<close>

text \<open>
  A replaced certificate is picked up: when the check is due and both files can be stat'ed, read
  and form a key pair, and one of them has another modification time than the loaded one, then
  the next handshake gets the new key pair and the source remembers it with its times.
\<close>

theorem changed_certificate_is_served:
  assumes "\<not> now < cs_nextCheck s" "\<not> cs_assetBacked s"
    and "cw_ModTime w (cs_crtPath s) = Inr crtMod" "cw_ModTime w (cs_keyPath s) = Inr keyMod"
    and "crtMod \<noteq> cs_crtModTime s \<or> keyMod \<noteq> cs_keyModTime s"
    and "fileOrAsset w (cs_crtPath s) (cs_defaultCrt s) = Inr crt"
      "fileOrAsset w (cs_keyPath s) (cs_defaultKey s) = Inr key"
      "cw_X509KeyPair w crt key = Inr cert"
    and "cs_Certificate now later w w s = (res, s')"
  shows "\<exists>new. res = Inr new \<and> ce_data new = ce_data cert \<and> cs_cert s' = Some new \<and>
    cs_crtModTime s' = crtMod \<and> cs_keyModTime s' = keyMod"
proof -
  obtain nxt new where "nextCertificateCheck later cert = (nxt, new)" by force
  moreover from this have "ce_data new = ce_data cert"
    by (auto simp: nextCertificateCheck_def Let_def split: if_splits option.splits)
  ultimately show ?thesis
    using assms by (auto simp: cs_Certificate_def statModTimes_def cs_unchanged_def cs_reload_def)
qed

definition old_source :: certSource where
  "old_source = (newCertSource ''d'' ''c'' ''k'')
     \<lparr>cs_cert := Some \<lparr>ce_blocks = 1, ce_Leaf = Some 0, ce_parse = Some 0, ce_data = ([], [])\<rparr>,
      cs_crtModTime := 1, cs_keyModTime := 1\<rparr>"

lemma changed_certificate_is_served_witness:
  "\<exists>new s'. cs_Certificate 5 5 (good_world 2 ''x'') (good_world 2 ''x'') old_source = (Inr new, s') \<and>
     ce_data new = (''cx'', ''kx'')"
proof -
  obtain res s' where "cs_Certificate 5 5 (good_world 2 ''x'') (good_world 2 ''x'') old_source = (res, s')"
    by force
  then show ?thesis
    using changed_certificate_is_served [of 5 old_source "good_world 2 ''x''" 2 2 "''cx''" "''kx''"
        "\<lparr>ce_blocks = 1, ce_Leaf = None, ce_parse = Some 0, ce_data = (''cx'', ''kx'')\<rparr>" 5 res s']
    by (auto simp: old_source_def newCertSource_def good_world_def fileOrAsset_def)
qed

text \<open>
  A check that finds nothing new is not put off: when a certificate is loaded and the files are
  unchanged, \<open>Certificate\<close> answers from the branch under the read lock and leaves the source as it
  is. \<open>nextCheck\<close> stays in the past, so from the first due check on every handshake stats both
  files; the branch that would compute a new \<open>nextCheck\<close> is not reached.
\<close>

theorem due_check_stays_due:
  assumes "cs_cert s = Some cert" "statModTimes w1 s = Inr (crtMod, keyMod)"
    "cs_unchanged crtMod keyMod s"
  shows "cs_Certificate now later w1 w2 s = (Inr cert, s)"
  using assms by (simp add: cs_Certificate_def)

lemma due_check_stays_due_witness:
  "snd (cs_Certificate 5 5 (good_world 1 []) bad_world old_source) = old_source"
  using due_check_stays_due [of old_source _ "good_world 1 []" 1 1 5 5 bad_world]
  by (simp add: old_source_def newCertSource_def good_world_def statModTimes_def cs_unchanged_def)

section \<open>The certificate of a name\<close>

lemma load_domains_keys:
  "load_domains ul now later w1 w2 ds m = Inr m' \<Longrightarrow>
   dom m' = dom m \<union> to_lower ul ` dt_Domain ` set ds \<union> (\<lambda>d. ''*.'' @ to_lower ul d) ` dt_Domain ` set ds"
proof (induction ds arbitrary: m)
  case (Cons d ds)
  obtain res s1 where c: "cs_Certificate now later w1 w2
      (newCertSource (dt_Domain d) (dt_CrtPath d) (dt_KeyPath d)) = (res, s1)" by force
  let ?n = "to_lower ul (dt_Domain d)"
  have "load_domains ul now later w1 w2 ds (m(?n \<mapsto> s1, (''*.'' @ ?n) \<mapsto> s1)) = Inr m'"
    using Cons.prems c by (cases res) (simp_all add: Let_def)
  from Cons.IH [OF this] have "dom m' =
      dom m \<union> {?n, ''*.'' @ ?n} \<union> to_lower ul ` dt_Domain ` set ds \<union>
      (\<lambda>d. ''*.'' @ to_lower ul d) ` dt_Domain ` set ds"
    by (simp only: dom_fun_upd option.distinct if_False) blast
  then show ?case
    by (simp only: list.set image_insert) blast
qed simp

lemma LoadTLSConfig_keys:
  assumes "LoadTLSConfig ul now later w1 w2 crt key ds = Inr r" "\<forall>d \<in> set ds. validHostname (dt_Domain d)"
  shows "rl_byName r n \<noteq> None \<longleftrightarrow>
    n \<in> dt_Domain ` set ds \<or> (\<exists>d \<in> dt_Domain ` set ds. n = ''*.'' @ d)"
proof -
  have id: "to_lower ul x = x" if "x \<in> dt_Domain ` set ds" for x
    using assms(2) that valid_hostname_chars_normal(1) by blast
  obtain m where m: "load_domains ul now later w1 w2 ds Map.empty = Inr m" "rl_byName r = m"
    using assms(1) by (auto simp: LoadTLSConfig_def split: prod.splits sum.splits)
  have eq: "to_lower ul ` dt_Domain ` set ds = dt_Domain ` set ds"
    "(\<lambda>d. ''*.'' @ to_lower ul d) ` dt_Domain ` set ds = (\<lambda>d. ''*.'' @ d) ` dt_Domain ` set ds"
    by (rule image_cong [OF refl id, THEN trans], assumption, rule image_ident)
      (rule image_cong [OF refl], simp only: id)
  have "n \<in> dom m \<longleftrightarrow> n \<in> dt_Domain ` set ds \<or> n \<in> (\<lambda>d. ''*.'' @ d) ` dt_Domain ` set ds"
    unfolding load_domains_keys [OF m(1)] eq dom_empty Un_empty_left by (rule Un_iff)
  then show ?thesis
    unfolding m(2) domIff image_iff .
qed

lemma certificate_of_own_name:
  assumes "LoadTLSConfig ul now later w1 w2 crt key ds = Inr r"
    "\<forall>d \<in> set ds. validHostname (dt_Domain d)" "d \<in> set ds"
  shows "certificateForName ul (dt_Domain d) r = Some (dt_Domain d)"
proof -
  have "validHostname (dt_Domain d)"
    using assms(2,3) by blast
  then have "to_lower ul (trim_suffix (dt_Domain d) ''.'') = dt_Domain d"
    by (simp only: validHostname_no_dot_end valid_hostname_chars_normal(1))
  then show ?thesis
    using LoadTLSConfig_keys [OF assms(1,2), of "dt_Domain d"] assms(3)
    by (simp only: certificateForName_def Let_def) simp
qed

text \<open>
  Which certificate a name gets: with domains that \<open>-domainCert\<close> accepts, a configured domain
  gets its own certificate, a name one label below a configured domain gets that domain's, and
  every other name, deeper ones included, gets the default certificate. A final dot of the name
  makes no difference.
\<close>

theorem certificate_of_name:
  assumes "LoadTLSConfig ul now later w1 w2 crt key ds = Inr r"
    "\<forall>d \<in> set ds. validHostname (dt_Domain d)" "validHostname h"
  shows "certificateForName ul h r =
      (if h \<in> dt_Domain ` set ds then Some h
       else case cut CHR ''.'' h of
              None \<Rightarrow> None
            | Some (label, parent) \<Rightarrow>
                if parent \<in> dt_Domain ` set ds then Some (''*.'' @ parent) else None) \<and>
    certificateForName ul (h @ ''.'') r = certificateForName ul h r"
proof -
  have star: "''*.'' @ d \<notin> dt_Domain ` set ds" for d
    using assms(2) validHostname_no_star by (metis imageE)
  have own: "rl_byName r h \<noteq> None \<longleftrightarrow> h \<in> dt_Domain ` set ds"
    unfolding LoadTLSConfig_keys [OF assms(1,2)] using validHostname_no_star [OF assms(3)] by simp
  have wild: "rl_byName r (''*.'' @ d) \<noteq> None \<longleftrightarrow> d \<in> dt_Domain ` set ds" for d
    unfolding LoadTLSConfig_keys [OF assms(1,2)] using star by simp
  have label: "a \<noteq> []" if "cut CHR ''.'' h = Some (a, b)" for a b
  proof
    assume "a = []"
    then have "[] \<in> set (split_on CHR ''.'' h)"
      using cut_SomeD [OF that] by simp
    then show False
      using assms(3) by (auto simp: validHostname_def list_all_iff validHostnameLabel_def split: if_splits)
  qed
  have name: "to_lower ul (trim_suffix h ''.'') = h" "to_lower ul (trim_suffix (h @ ''.'') ''.'') = h"
    by (simp_all only: validHostname_no_dot_end [OF assms(3)] trim_suffix_append
        valid_hostname_chars_normal(1) [OF assms(3)])
  show ?thesis
    unfolding certificateForName_def name Let_def own parent_name_def
    using label by (auto simp only: wild split: option.splits prod.splits if_splits)
qed

lemma certificate_of_name_witness:
  "\<exists>r. LoadTLSConfig id 0 0 (good_world 1 []) (good_world 1 []) ''c'' ''k'' [example_domain] = Inr r \<and>
     certificateForName id ''a.example.com'' r = Some ''*.example.com''"
proof -
  have valid: "validHostname ''a.example.com''" "validHostname ''example.com''"
    by (simp_all add: validHostname_def validHostnameLabel_def label_char_def is_lower_def is_digit_def)
  obtain r where r: "LoadTLSConfig id 0 0 (good_world 1 []) (good_world 1 []) ''c'' ''k'' [example_domain] = Inr r"
    using sample_reloader by blast
  then show ?thesis
    using certificate_of_name [OF r _ valid(1)] valid(2) by (simp add: example_domain_def)
qed

end
