(* ===== verification/Go_Text.thy ===== *)
theory Go_Text
  imports Go_Prelude
begin

text \<open>
  More of the standard library, for the client and the administration tool: the lines of a
  \<open>bufio.Scanner\<close>, the verb \<open>%q\<close>, \<open>net.ParseIP\<close> with \<open>IsLoopback\<close>, and what \<open>strings.TrimSpace\<close>
  does to padded text.
\<close>

section \<open>Lines\<close>

definition newline :: char where "newline = CHR 0x0A"

text \<open>\<open>bufio.ScanLines\<close>: a carriage return at the end of a line is dropped.\<close>

definition drop_cr :: "string \<Rightarrow> string" where
  "drop_cr s = (if s \<noteq> [] \<and> last s = CHR 0x0D then butlast s else s)"

text \<open>The text between the newlines; the empty rest after the last newline is no line.\<close>

definition raw_lines :: "string \<Rightarrow> string list" where
  "raw_lines s = (let ls = split_on newline s in if last ls = [] then butlast ls else ls)"

text \<open>\<open>bufio.MaxScanTokenSize\<close>: the buffer has to hold a line and its newline.\<close>

definition max_token :: nat where "max_token = 65536"

text \<open>The lines a default \<open>Scanner\<close> returns, and its \<open>Err()\<close>.\<close>

definition scan_lines :: "string \<Rightarrow> string list \<times> string option" where
  "scan_lines s =
     (let ls = raw_lines s; fit = takeWhile (\<lambda>l. length l < max_token) ls in
      (map drop_cr fit,
       if length fit = length ls then None else Some ''bufio.Scanner: token too long''))"

definition unlines :: "string list \<Rightarrow> string" where
  "unlines ls = concat (map (\<lambda>l. l @ [newline]) ls)"

lemma unlines_simps [simp]:
  "unlines [] = []" "unlines (l # ls) = l @ newline # unlines ls"
  "unlines (xs @ ys) = unlines xs @ unlines ys"
  by (simp_all add: unlines_def)

lemma split_on_unlines: "\<forall>l \<in> set ls. newline \<notin> set l \<Longrightarrow> split_on newline (unlines ls) = ls @ [[]]"
  by (induction ls) (auto simp: split_on_append)

lemma raw_lines_unlines: "\<forall>l \<in> set ls. newline \<notin> set l \<Longrightarrow> raw_lines (unlines ls) = ls"
  by (simp add: raw_lines_def split_on_unlines)

lemma scan_unlines:
  assumes "\<forall>l \<in> set ls. newline \<notin> set l \<and> length l < max_token \<and> (l = [] \<or> last l \<noteq> CHR 0x0D)"
  shows "scan_lines (unlines ls) = (ls, None)"
proof -
  have "map drop_cr ls = ls"
    using assms by (intro map_idI) (auto simp: drop_cr_def)
  moreover have "takeWhile (\<lambda>l. length l < max_token) ls = ls"
    using assms by (auto simp: takeWhile_eq_all_conv)
  moreover have "raw_lines (unlines ls) = ls"
    using assms by (intro raw_lines_unlines) blast
  ultimately show ?thesis
    by (simp only: scan_lines_def Let_def simp_thms if_True)
qed

section \<open>Quoted text\<close>

text \<open>
  \<open>strconv.Quote\<close> (verb \<open>%q\<close>): for ASCII text as below; the Unicode tables that decide what else
  is printable are the parameter \<open>uq\<close>, which gives the text between the quotes.
\<close>

definition quote_char :: "char \<Rightarrow> string" where
  "quote_char c =
     (if c = CHR 0x22 then [CHR 0x5C, CHR 0x22]
      else if c = CHR 0x5C then [CHR 0x5C, CHR 0x5C]
      else if c = CHR 0x07 then [CHR 0x5C, CHR ''a'']
      else if c = CHR 0x08 then [CHR 0x5C, CHR ''b'']
      else if c = CHR 0x0C then [CHR 0x5C, CHR ''f'']
      else if c = CHR 0x0A then [CHR 0x5C, CHR ''n'']
      else if c = CHR 0x0D then [CHR 0x5C, CHR ''r'']
      else if c = CHR 0x09 then [CHR 0x5C, CHR ''t'']
      else if c = CHR 0x0B then [CHR 0x5C, CHR ''v'']
      else if (of_char c :: int) < 32 \<or> (of_char c :: int) = 127
        then [CHR 0x5C, CHR ''x'', hex_char (of_char c div 16), hex_char (of_char c mod 16)]
      else [c])"

definition quote :: "(string \<Rightarrow> string) \<Rightarrow> string \<Rightarrow> string" where
  "quote uq s =
     [CHR 0x22] @ (if list_all is_ascii s then concat (map quote_char s) else uq s) @ [CHR 0x22]"

section \<open>Addresses\<close>

text \<open>
  One number of a dotted address: one to three digits, no leading zero, at most 255.
\<close>

definition ipv4_field :: "string \<Rightarrow> int option" where
  "ipv4_field f =
     (if f = [] \<or> 3 < length f \<or> (1 < length f \<and> hd f = CHR ''0'') then None
      else case parse_digits f of None \<Rightarrow> None | Some n \<Rightarrow> if n \<le> 255 then Some n else None)"

definition parse_ipv4 :: "string \<Rightarrow> (int \<times> int \<times> int \<times> int) option" where
  "parse_ipv4 s =
     (case map ipv4_field (split_on CHR ''.'' s) of
        [Some a, Some b, Some c, Some d] \<Rightarrow> Some (a, b, c, d)
      | _ \<Rightarrow> None)"

text \<open>
  \<open>ParseIP(s) != nil\<close> and \<open>IsLoopback()\<close>: the first of the characters \<open>.\<close>, \<open>:\<close> and \<open>%\<close> decides
  which syntax is read; a text whose first such character is a colon is read as IPv6, which is
  the parameter \<open>ip6\<close>.
\<close>

definition ip_is_loopback :: "(string \<Rightarrow> bool) \<Rightarrow> string \<Rightarrow> bool" where
  "ip_is_loopback ip6 s =
     (case dropWhile (\<lambda>c. c \<notin> set ''.:%'') s of
        [] \<Rightarrow> False
      | c # _ \<Rightarrow>
          if c = CHR ''.'' then (case parse_ipv4 s of Some (a, _) \<Rightarrow> a = 127 | None \<Rightarrow> False)
          else if c = CHR '':'' then ip6 s
          else False)"

section \<open>Padded text\<close>

lemma trim_left_space: "trim_left_seqs space_seqs (CHR '' '' # s) = trim_left_seqs space_seqs s"
  by (subst trim_left_seqs.simps) (simp add: space_seqs_def utf8_spaces_def has_prefix_def char_of_def)

lemma trim_left_space_rev:
  "trim_left_seqs (map rev space_seqs) (CHR '' '' # s) = trim_left_seqs (map rev space_seqs) s"
  by (subst trim_left_seqs.simps) (simp add: space_seqs_def utf8_spaces_def has_prefix_def char_of_def)

lemma trim_left_spaces: "trim_left_seqs space_seqs (replicate n CHR '' '' @ s) = trim_left_seqs space_seqs s"
  by (induction n) (simp_all add: trim_left_space)

lemma trim_left_spaces_rev:
  "trim_left_seqs (map rev space_seqs) (replicate n CHR '' '' @ s) = trim_left_seqs (map rev space_seqs) s"
  by (induction n) (simp_all add: trim_left_space_rev)

lemma trim_space_front [go_simps]: "trim_space (replicate n CHR '' '' @ s) = trim_space s"
  by (simp add: trim_space_def trim_left_spaces)

lemma trim_space_back:
  assumes "s \<noteq> []" "solid (hd s)" "solid (last s)"
  shows "trim_space (s @ replicate n CHR '' '') = s"
proof -
  have l: "trim_left_seqs space_seqs (s @ t) = s @ t" for t
    using assms space_seqs_nonempty by (intro trim_left_id) (auto simp: solid_def list_all_iff)
  have r: "trim_left_seqs (map rev space_seqs) (rev s) = rev s"
    using assms space_seqs_nonempty by (intro trim_left_id) (auto simp: solid_def list_all_iff hd_rev)
  show ?thesis
    by (simp add: trim_space_def l trim_left_spaces_rev r)
qed

lemma trim_space_padded [go_simps]:
  "s \<noteq> [] \<Longrightarrow> solid (hd s) \<Longrightarrow> solid (last s) \<Longrightarrow>
   trim_space (replicate i CHR '' '' @ s @ replicate j CHR '' '') = s"
  by (simp add: trim_space_front trim_space_back)

lemma trim_space_blank [go_simps]: "trim_space (replicate n CHR '' '') = []"
  using trim_space_front [of n "[]"] by simp

lemma solid_not_space: "solid c \<Longrightarrow> c \<noteq> CHR '' ''"
  by (auto simp: solid_def space_seqs_def utf8_spaces_def char_of_def)

lemma not_solid_cr: "\<not> solid CHR 0x0D"
  by (simp add: solid_def space_seqs_def utf8_spaces_def char_of_def)

text \<open>Trimming removes nothing but bytes of space encodings.\<close>

definition space_bytes :: "char set" where
  "space_bytes = (\<Union>p \<in> set space_seqs. set p)"

lemma trim_left_keeps:
  "c \<notin> (\<Union>p \<in> set ps. set p) \<Longrightarrow> c \<in> set s \<Longrightarrow> c \<in> set (trim_left_seqs ps s)"
proof (induction ps s rule: trim_left_seqs.induct)
  case (1 ps s)
  show ?case
  proof (cases "leading_seq ps s")
    case None
    then show ?thesis using "1.prems" by (subst trim_left_seqs.simps) simp
  next
    case (Some p)
    have "p \<in> set ps \<and> has_prefix s p" using Some
      by (induction ps) (auto split: if_splits)
    then have s: "s = p @ drop (length p) s" and "c \<notin> set p"
      using "1.prems" by (auto simp: has_prefix_iff)
    then have "c \<in> set (drop (length p) s)"
      using "1.prems"(2) by (metis Un_iff set_append)
    with Some "1.IH" "1.prems" show ?thesis
      by (subst trim_left_seqs.simps) auto
  qed
qed

lemma trim_space_keeps: "c \<notin> space_bytes \<Longrightarrow> c \<in> set s \<Longrightarrow> c \<in> set (trim_space s)"
  unfolding trim_space_def space_bytes_def by (auto intro!: trim_left_keeps)

lemma trim_left_subset: "set (trim_left_seqs ps s) \<subseteq> set s"
proof (induction ps s rule: trim_left_seqs.induct)
  case (1 ps s)
  then show ?case
    by (subst trim_left_seqs.simps) (auto split: option.splits dest: in_set_dropD)
qed

lemma trim_space_subset: "set (trim_space s) \<subseteq> set s"
  unfolding trim_space_def using trim_left_subset by (metis set_rev subset_trans)

lemma trim_space_chars: "c \<notin> space_bytes \<Longrightarrow> c \<in> set (trim_space s) \<longleftrightarrow> c \<in> set s"
  using trim_space_keeps trim_space_subset by blast

lemma space_bytes_ascii: "32 < (of_char c :: int) \<Longrightarrow> (of_char c :: int) < 128 \<Longrightarrow> c \<notin> space_bytes"
  by (auto simp: space_bytes_def space_seqs_def utf8_spaces_def simp flip: of_char_eq_iff)

end
