(* ===== verification/Go_Strings.thy ===== *)
theory Go_Strings
  imports Go_Text
begin

text \<open>
  The standard library for the administration tool and the inspector: \<open>strings.Fields\<close>,
  \<open>FieldsFunc\<close>, \<open>Contains\<close> and \<open>TrimPrefix\<close>, \<open>strconv.Unquote\<close>, \<open>filepath.Clean\<close> and \<open>Join\<close> of a
  Unix system, and the decoder of \<open>base64.StdEncoding\<close>.
\<close>

section \<open>Package strings\<close>

definition trim_prefix :: "string \<Rightarrow> string \<Rightarrow> string" where
  "trim_prefix s p = (if has_prefix s p then drop (length p) s else s)"

fun str_contains :: "string \<Rightarrow> string \<Rightarrow> bool" where
  "str_contains [] t = (t = [])"
| "str_contains (c # s) t = (has_prefix (c # s) t \<or> str_contains s t)"

definition contains_any :: "string \<Rightarrow> string \<Rightarrow> bool" where
  "contains_any s cs = list_ex (\<lambda>c. c \<in> set cs) s"

text \<open>\<open>FieldsFunc\<close> for a predicate that holds only of ASCII characters.\<close>

function fields_func :: "(char \<Rightarrow> bool) \<Rightarrow> string \<Rightarrow> string list" where
  "fields_func sep [] = []"
| "fields_func sep (c # s) =
     (if sep c then fields_func sep s
      else (c # takeWhile (\<lambda>x. \<not> sep x) s) # fields_func sep (dropWhile (\<lambda>x. \<not> sep x) s))"
  by pat_completeness auto
termination
  by (relation "measure (\<lambda>(sep, s). length s)") (auto simp: less_Suc_eq_le length_dropWhile_le)

text \<open>The text up to the first code point of \<open>unicode.IsSpace\<close>, and the rest.\<close>

fun cut_space :: "string \<Rightarrow> string \<times> string" where
  "cut_space [] = ([], [])"
| "cut_space (c # s) =
     (if leading_seq space_seqs (c # s) = None then (case cut_space s of (a, b) \<Rightarrow> (c # a, b)) else ([], c # s))"

lemma cut_space_shorter: "length (snd (cut_space s)) \<le> length s"
  by (induction s rule: cut_space.induct) (auto split: prod.splits)

lemma cut_space_append: "fst (cut_space s) @ snd (cut_space s) = s"
  by (induction s rule: cut_space.induct) (auto split: prod.splits)

lemma trim_left_shorter: "length (trim_left_seqs ps s) \<le> length s"
proof (induction ps s rule: trim_left_seqs.induct)
  case (1 ps s)
  then show ?case
    by (subst trim_left_seqs.simps) (fastforce split: option.splits)
qed

lemma trim_left_stops: "trim_left_seqs ps s \<noteq> [] \<Longrightarrow> [] \<notin> set ps \<Longrightarrow> leading_seq ps (trim_left_seqs ps s) = None"
proof (induction ps s rule: trim_left_seqs.induct)
  case (1 ps s)
  show ?case
  proof (cases "leading_seq ps s")
    case None
    then show ?thesis by (subst trim_left_seqs.simps) simp
  next
    case (Some p)
    have "p \<noteq> []" using Some "1.prems"(2)
      by (induction ps) (auto split: if_splits)
    moreover have "s \<noteq> []"
      using "1.prems" by (subst (asm) trim_left_seqs.simps) (auto split: option.splits)
    ultimately have e: "trim_left_seqs ps s = trim_left_seqs ps (drop (length p) s)"
      using Some by (subst trim_left_seqs.simps) simp
    show ?thesis
      using "1.IH" [OF Some] \<open>p \<noteq> []\<close> \<open>s \<noteq> []\<close> "1.prems" unfolding e by simp
  qed
qed

text \<open>\<open>strings.Fields\<close>.\<close>

function go_fields :: "string \<Rightarrow> string list" where
  "go_fields s =
     (let t = trim_left_seqs space_seqs s in
      if t = [] then [] else fst (cut_space t) # go_fields (snd (cut_space t)))"
  by pat_completeness auto
termination
proof (relation "measure length")
  fix s t :: string
  assume t: "t = trim_left_seqs space_seqs s" "t \<noteq> []"
  obtain c u where u: "t = c # u" using t(2) by (cases t) simp_all
  have "leading_seq space_seqs t = None"
    unfolding t(1) using t space_seqs_nonempty by (intro trim_left_stops) auto
  then have "snd (cut_space t) = snd (cut_space u)"
    using u by (simp split: prod.splits)
  then have "length (snd (cut_space t)) < length t"
    using u cut_space_shorter [of u] by simp
  then show "(snd (cut_space t), s) \<in> measure length"
    using t(1) trim_left_shorter [of space_seqs s] by simp
qed simp

declare go_fields.simps [simp del]

section \<open>Package strconv\<close>

definition backslash :: char where "backslash = CHR 0x5C"
definition dquote :: char where "dquote = CHR 0x22"
definition squote :: char where "squote = CHR 0x27"
definition backquote :: char where "backquote = CHR 0x60"

definition unhex :: "char \<Rightarrow> int option" where
  "unhex c =
     (if is_digit c then Some (digit_val c)
      else if 97 \<le> (of_char c :: int) \<and> (of_char c :: int) \<le> 102 then Some (of_char c - 87)
      else if 65 \<le> (of_char c :: int) \<and> (of_char c :: int) \<le> 70 then Some (of_char c - 55)
      else None)"

fun hex_digits :: "nat \<Rightarrow> int \<Rightarrow> string \<Rightarrow> (int \<times> string) option" where
  "hex_digits 0 v s = Some (v, s)"
| "hex_digits (Suc n) v [] = None"
| "hex_digits (Suc n) v (c # s) =
     (case unhex c of None \<Rightarrow> None | Some x \<Rightarrow> hex_digits n (16 * v + x) s)"

definition octal_val :: "char \<Rightarrow> int option" where
  "octal_val c = (if is_digit c \<and> digit_val c \<le> 7 then Some (digit_val c) else None)"

definition valid_rune :: "int \<Rightarrow> bool" where
  "valid_rune v \<longleftrightarrow> (0 \<le> v \<and> v < 0xD800) \<or> (0xDFFF < v \<and> v \<le> 0x10FFFF)"

text \<open>\<open>utf8.AppendRune\<close> of a valid code point.\<close>

definition utf8_encode :: "int \<Rightarrow> string" where
  "utf8_encode v =
     map char_of
       (if v < 0x80 then [v]
        else if v < 0x800 then [192 + v div 64, 128 + v mod 64]
        else if v < 0x10000 then [224 + v div 4096, 128 + v div 64 mod 64, 128 + v mod 64]
        else [240 + v div 262144, 128 + v div 4096 mod 64, 128 + v div 64 mod 64, 128 + v mod 64])"

text \<open>The escapes of one character, by the letter after the backslash.\<close>

definition simple_escape :: "char \<rightharpoonup> char" where
  "simple_escape =
     [CHR ''a'' \<mapsto> CHR 0x07, CHR ''b'' \<mapsto> CHR 0x08, CHR ''f'' \<mapsto> CHR 0x0C, CHR ''n'' \<mapsto> CHR 0x0A,
      CHR ''r'' \<mapsto> CHR 0x0D, CHR ''t'' \<mapsto> CHR 0x09, CHR ''v'' \<mapsto> CHR 0x0B]"

text \<open>
  \<open>strconv.UnquoteChar\<close> in the loop of \<open>Unquote\<close>, with the check for a newline: the bytes of the
  first character and the rest, \<open>None\<close> for a syntax error.
\<close>

definition unquote_escape :: "char \<Rightarrow> char \<Rightarrow> string \<Rightarrow> (string \<times> string) option" where
  "unquote_escape q d ds =
     (case simple_escape d of Some e \<Rightarrow> Some ([e], ds)
      | None \<Rightarrow>
          if d = CHR ''x'' then map_option (\<lambda>(v, r). ([char_of v], r)) (hex_digits 2 0 ds)
          else if d = CHR ''u'' \<or> d = CHR ''U'' then
            (case hex_digits (if d = CHR ''u'' then 4 else 8) 0 ds of
               None \<Rightarrow> None
             | Some (v, r) \<Rightarrow> if valid_rune v then Some (utf8_encode v, r) else None)
          else if octal_val d \<noteq> None then
            (case ds of
               a # b # r \<Rightarrow>
                 (case (octal_val a, octal_val b) of
                    (Some y, Some z) \<Rightarrow>
                      let v = 64 * the (octal_val d) + 8 * y + z in
                      if v > 255 then None else Some ([char_of v], r)
                  | _ \<Rightarrow> None)
             | _ \<Rightarrow> None)
          else if d = backslash \<or> d = q then Some ([d], ds)
          else None)"

fun unquote_char :: "char \<Rightarrow> string \<Rightarrow> (string \<times> string) option" where
  "unquote_char q [] = None"
| "unquote_char q (c # s) =
     (if c = q \<or> c = newline then None
      else if c \<noteq> backslash then Some ([c], s)
      else case s of [] \<Rightarrow> None | d # ds \<Rightarrow> unquote_escape q d ds)"

lemma hex_digits_length: "hex_digits n v s = Some (w, r) \<Longrightarrow> length r \<le> length s"
  by (induction n v s rule: hex_digits.induct) (fastforce split: option.splits)+

lemma unquote_escape_length: "unquote_escape q d ds = Some (b, r) \<Longrightarrow> length r \<le> length ds"
  by (auto simp: unquote_escape_def Let_def dest: hex_digits_length
      split: option.splits if_splits list.splits)

lemma unquote_char_length: "unquote_char q s = Some (b, r) \<Longrightarrow> length r < length s"
  by (cases s) (auto split: if_splits list.splits dest: unquote_escape_length)

function unquote_chars :: "char \<Rightarrow> string \<Rightarrow> string option" where
  "unquote_chars q s =
     (if s = [] then Some []
      else case unquote_char q s of
             None \<Rightarrow> None
           | Some (b, r) \<Rightarrow> map_option ((@) b) (unquote_chars q r))"
  by pat_completeness auto
termination
  by (relation "measure (\<lambda>(q, s). length s)") (auto dest: unquote_char_length)

declare unquote_chars.simps [simp del]

text \<open>
  \<open>strconv.Unquote\<close>. Quoted text with bytes from 128 on goes through the UTF-8 decoder, which is
  the parameter \<open>un\<close>. Text in single quotes is at most one character.
\<close>

definition unquote :: "(string \<Rightarrow> string option) \<Rightarrow> string \<Rightarrow> string option" where
  "unquote un s =
     (if length s < 2 \<or> last s \<noteq> hd s then None
      else let q = hd s; body = butlast (tl s) in
           if q = backquote then (if backquote \<in> set body then None else Some (filter (\<lambda>c. c \<noteq> CHR 0x0D) body))
           else if q \<noteq> dquote \<and> q \<noteq> squote then None
           else if \<not> list_all is_ascii s then un s
           else if q = dquote then unquote_chars q body
           else if body = [] then Some []
           else case unquote_char q body of Some (b, []) \<Rightarrow> Some b | _ \<Rightarrow> None)"

section \<open>Package filepath\<close>

definition slash :: char where "slash = CHR ''/''"

text \<open>The elements kept so far, last one first.\<close>

definition clean_element :: "bool \<Rightarrow> string list \<Rightarrow> string \<Rightarrow> string list" where
  "clean_element rooted acc c =
     (if c = [] \<or> c = ''.'' then acc
      else if c = ''..'' then
        (case acc of
           [] \<Rightarrow> if rooted then [] else [c]
         | x # xs \<Rightarrow> if x = ''..'' then c # acc else xs)
      else c # acc)"

definition path_clean :: "string \<Rightarrow> string" where
  "path_clean p =
     (let rooted = has_prefix p [slash];
          body = join [slash] (rev (foldl (clean_element rooted) [] (split_on slash p)))
      in if rooted then slash # body else if body = [] then ''.'' else body)"

definition path_join :: "string list \<Rightarrow> string" where
  "path_join elems =
     (case dropWhile (\<lambda>e. e = []) elems of [] \<Rightarrow> [] | es \<Rightarrow> path_clean (join [slash] es))"

section \<open>Package base64\<close>

fun index_of :: "char \<Rightarrow> string \<Rightarrow> nat option" where
  "index_of c [] = None"
| "index_of c (x # xs) = (if x = c then Some 0 else map_option Suc (index_of c xs))"

definition base64_val :: "char \<Rightarrow> nat option" where
  "base64_val c = index_of c base64_alphabet"

definition pad :: char where "pad = CHR ''=''"

text \<open>The quanta of four characters; only the last one may be padded. \<open>None\<close> is \<open>CorruptInputError\<close>.\<close>

fun base64_quanta :: "string \<Rightarrow> string option" where
  "base64_quanta [] = Some []"
| "base64_quanta (a # b # c # d # s) =
     (case (base64_val a, base64_val b, base64_val c, base64_val d) of
        (Some w, Some x, Some y, Some z) \<Rightarrow>
          let n = ((w * 64 + x) * 64 + y) * 64 + z in
          map_option ((@) [char_of (n div 65536), char_of (n div 256), char_of n]) (base64_quanta s)
      | (Some w, Some x, Some y, None) \<Rightarrow>
          if d = pad \<and> s = [] then
            let n = ((w * 64 + x) * 64 + y) div 4 in Some [char_of (n div 256), char_of n]
          else None
      | (Some w, Some x, None, None) \<Rightarrow>
          if c = pad \<and> d = pad \<and> s = [] then Some [char_of ((w * 64 + x) div 16)] else None
      | _ \<Rightarrow> None)"
| "base64_quanta _ = None"

text \<open>\<open>StdEncoding.DecodeString\<close> skips the ends of lines.\<close>

definition base64_decode :: "string \<Rightarrow> string option" where
  "base64_decode s = base64_quanta (filter (\<lambda>c. c \<noteq> CHR 0x0D \<and> c \<noteq> newline) s)"

text \<open>\<open>RawURLEncoding.EncodeToString\<close>: another alphabet for the last two values, and no padding.\<close>

definition url_char :: "char \<Rightarrow> char" where
  "url_char c = (if c = CHR ''+'' then CHR ''-'' else if c = CHR ''/'' then CHR ''_'' else c)"

definition base64_raw_url :: "string \<Rightarrow> string" where
  "base64_raw_url s = map url_char (filter (\<lambda>c. c \<noteq> pad) (base64 s))"

section \<open>Package subtle\<close>

text \<open>\<open>subtle.ConstantTimeCompare\<close>: 0 for different lengths, else whether no byte differs.\<close>

fun xor_bytes :: "int \<Rightarrow> string \<Rightarrow> string \<Rightarrow> int" where
  "xor_bytes v (x # xs) (y # ys) = xor_bytes (or v (xor (of_char x) (of_char y))) xs ys"
| "xor_bytes v _ _ = v"

definition ConstantTimeCompare :: "string \<Rightarrow> string \<Rightarrow> int" where
  "ConstantTimeCompare x y =
     (if length x \<noteq> length y then 0 else if xor_bytes 0 x y = 0 then 1 else 0)"

lemma xor_zero: "xor (a :: int) b = 0 \<longleftrightarrow> a = b"
proof
  assume "xor a b = 0"
  then have "xor (xor a b) b = b" by simp
  then show "a = b" by (simp add: xor.assoc)
qed simp

lemma xor_bytes_zero:
  "length x = length y \<Longrightarrow> xor_bytes v x y = 0 \<longleftrightarrow> v = 0 \<and> x = y"
  by (induction v x y rule: xor_bytes.induct) (auto simp: or_eq_0_iff xor_zero)

lemma ConstantTimeCompare_eq: "ConstantTimeCompare x y = 1 \<longleftrightarrow> x = y"
  by (auto simp: ConstantTimeCompare_def xor_bytes_zero)

section \<open>Decoding what was encoded\<close>

lemma base64_distinct: "distinct base64_alphabet" "length base64_alphabet = 64"
  by (simp_all add: base64_alphabet_def)

lemma base64_char_inj: "base64_char m = base64_char n \<longleftrightarrow> m mod 64 = n mod 64"
  using nth_eq_iff_index_eq [OF base64_distinct(1)] base64_distinct(2) by (simp add: base64_char_def)

lemma base64_char_pad: "base64_char n \<noteq> CHR ''=''"
proof
  assume "base64_char n = CHR ''=''"
  then have "CHR ''='' \<in> set base64_alphabet"
    using nth_mem [of "n mod 64" base64_alphabet] base64_distinct(2) by (simp add: base64_char_def)
  then show False by (simp add: base64_alphabet_def)
qed

lemma index_of_nth: "distinct xs \<Longrightarrow> k < length xs \<Longrightarrow> index_of (xs ! k) xs = Some k"
proof (induction xs arbitrary: k)
  case (Cons x xs)
  then show ?case by (cases k) (auto simp: in_set_conv_nth)
qed simp

lemma base64_val_char [simp]: "base64_val (base64_char n) = Some (n mod 64)"
  using index_of_nth [OF base64_distinct(1), of "n mod 64"] base64_distinct(2)
  by (simp add: base64_val_def base64_char_def)

lemma base64_val_pad [simp]: "base64_val pad = None" "base64_val CHR ''='' = None"
  by (simp_all add: base64_val_def base64_alphabet_def pad_def)

lemma sextets_2: "(x :: nat) < 4096 \<Longrightarrow> x div 64 mod 64 * 64 + x mod 64 = x"
  using div_mult_mod_eq [of x 64] less_mult_imp_div_less [of x 64 64] by simp

lemma sextets_3:
  assumes "(x :: nat) < 262144"
  shows "(x div 4096 mod 64 * 64 + x div 64 mod 64) * 64 + x mod 64 = x"
proof -
  have "x div 64 < 4096" using assms less_mult_imp_div_less [of x 4096 64] by simp
  moreover have "x div 4096 = x div 64 div 64" by (simp flip: div_mult2_eq)
  ultimately have "x div 4096 mod 64 * 64 + x div 64 mod 64 = x div 64"
    using sextets_2 [of "x div 64"] by simp
  then show ?thesis by (simp only: div_mult_mod_eq)
qed

lemma sextets_4:
  assumes "(x :: nat) < 16777216"
  shows "((x div 262144 mod 64 * 64 + x div 4096 mod 64) * 64 + x div 64 mod 64) * 64 + x mod 64 = x"
proof -
  have "x div 64 < 262144" using assms less_mult_imp_div_less [of x 262144 64] by simp
  moreover have "x div 4096 = x div 64 div 64" "x div 262144 = x div 64 div 4096"
    by (simp_all flip: div_mult2_eq)
  ultimately have "(x div 262144 mod 64 * 64 + x div 4096 mod 64) * 64 + x div 64 mod 64 = x div 64"
    using sextets_3 [of "x div 64"] by simp
  then show ?thesis by (simp only: div_mult_mod_eq)
qed

lemma char_of_byte: "(n :: nat) mod 256 = of_char c \<Longrightarrow> char_of n = c"
  by (metis char_of_mod_256 char_of_char)

lemma base64_one: "base64_quanta [base64_char (x div 64), base64_char x, pad, pad] = Some [char_of (x div 16)]"
  if "x < 4096"
  by (simp only: base64_quanta.simps base64_val_char base64_val_pad option.case prod.case simp_thms if_True sextets_2 [OF that])

lemma base64_two:
  "base64_quanta [base64_char (x div 4096), base64_char (x div 64), base64_char x, pad] =
     Some [char_of (x div 4 div 256), char_of (x div 4)]" if "x < 262144"
  by (simp only: base64_quanta.simps base64_val_char base64_val_pad option.case prod.case simp_thms if_True sextets_3 [OF that] Let_def)

lemma base64_three:
  "base64_quanta (base64_char (x div 262144) # base64_char (x div 4096) # base64_char (x div 64) # base64_char x # s) =
     map_option ((@) [char_of (x div 65536), char_of (x div 256), char_of x]) (base64_quanta s)" if "x < 16777216"
  by (simp only: base64_quanta.simps base64_val_char option.case prod.case sextets_4 [OF that] Let_def)

lemma byte_le: "of_char c \<le> (255 :: nat)"
  using nat_of_char_less_256 [of c] by linarith

lemma byte_digit: "(m * 256 + of_char c :: nat) div 256 = m" "(m * 256 + of_char c :: nat) mod 256 = of_char c"
  by simp_all

lemma base64_quanta_encode: "base64_quanta (base64 s) = Some s"
proof (induction s rule: base64.induct)
  case (2 a)
  have "of_char a < (256 :: nat)" by simp
  then have "of_char a * 16 < (4096 :: nat)" by linarith
  from base64_one [OF this] show ?case by (simp only: base64.simps Let_def pad_def) simp
next
  case (3 a b)
  have b: "of_char a < (256 :: nat)" "of_char b < (256 :: nat)" by simp_all
  have x: "(of_char a * 256 + of_char b) * 4 < (262144 :: nat)" using byte_le [of a] byte_le [of b] by simp
  have "char_of ((of_char a * 256 + of_char b) * 4 div 4 div 256 :: nat) = a"
    "char_of ((of_char a * 256 + of_char b) * 4 div 4 :: nat) = b"
    using b by (auto intro!: char_of_byte)
  with base64_two [OF x] show ?case by (simp only: base64.simps Let_def pad_def)
next
  case (4 a b c s)
  have b: "of_char a < (256 :: nat)" "of_char b < (256 :: nat)" "of_char c < (256 :: nat)" by simp_all
  have x: "(of_char a * 256 + of_char b) * 256 + of_char c < (16777216 :: nat)"
    using byte_le [of a] byte_le [of b] byte_le [of c] by simp
  let ?x = "(of_char a * 256 + of_char b) * 256 + of_char c :: nat"
  have d: "?x div 256 = of_char a * 256 + of_char b" by (rule byte_digit)
  have "?x div 65536 = ?x div 256 div 256" by (simp flip: div_mult2_eq)
  then have "?x div 65536 = of_char a" unfolding d byte_digit .
  then have "char_of (?x div 65536) = a" by simp
  moreover have "char_of (?x div 256) = b" unfolding d by (rule char_of_byte) (rule byte_digit)
  moreover have "char_of ?x = c" by (rule char_of_byte) (rule byte_digit)
  ultimately have "char_of (?x div 65536) = a" "char_of (?x div 256) = b" "char_of ?x = c" .
  with base64_three [OF x] 4 show ?case by (simp only: base64.simps Let_def) simp
qed simp

lemma base64_text: "c \<in> set (base64 s) \<Longrightarrow> c \<in> set base64_alphabet \<or> c = pad"
  by (induction s rule: base64.induct) (auto simp: Let_def base64_char_def pad_def base64_distinct(2))

lemma base64_decode_encode [simp]: "base64_decode (base64 s) = Some s"
proof -
  have "CHR 0x0D \<notin> set base64_alphabet" "newline \<notin> set base64_alphabet"
    by (simp_all add: base64_alphabet_def newline_def)
  then have "filter (\<lambda>c. c \<noteq> CHR 0x0D \<and> c \<noteq> newline) (base64 s) = base64 s"
    using base64_text [of _ s] by (auto simp: filter_id_conv pad_def newline_def)
  then show ?thesis by (simp add: base64_decode_def base64_quanta_encode)
qed

lemma base64_inj: "base64 s = base64 t \<Longrightarrow> s = t"
  by (metis base64_decode_encode option.inject)

end
