(* ===== verification/Server_Http.thy ===== *)
theory Server_Http
  imports Tunnel Go_Strings
begin

text \<open>
  Public HTTP connections: \<open>httpHandler\<close> of \<open>src/ngrok/server/http.go\<close>. The request is what
  \<open>http.ReadRequest\<close> returns, \<open>None\<close> for an error; the handler answers it itself or hands the
  connection to a tunnel, with the bytes that were read put back in front.
\<close>

definition nl :: string where
  "nl = [CHR 0x0A]"

definition NotAuthorized :: string where
  "NotAuthorized =
     ''HTTP/1.0 401 Not Authorized'' @ nl @
     ''WWW-Authenticate: Basic realm='' @ [CHR 0x22] @ ''ngrok'' @ [CHR 0x22] @ nl @
     ''Content-Length: 23'' @ nl @ nl @
     ''Authorization required'' @ nl"

definition NotFound :: "int \<Rightarrow> string \<Rightarrow> string" where
  "NotFound n host =
     ''HTTP/1.0 404 Not Found'' @ nl @ ''Content-Length: '' @ show_int n @ nl @ nl @
     ''Tunnel '' @ host @ '' not found'' @ nl"

definition BadRequest :: string where
  "BadRequest =
     ''HTTP/1.0 400 Bad Request'' @ nl @ ''Content-Length: 12'' @ nl @ nl @ ''Bad Request'' @ nl"

record http_request =
  hr_Host :: string
  hr_Authorization :: string

datatype http_action = Answer string | Handle nat string

text \<open>
  The reader of \<open>replayConn\<close>: first the replayed bytes, then the connection. \<open>n\<close> is the size of
  the caller's buffer; the result is what \<open>Read\<close> stores and the rest of the replay.
\<close>

definition replay_Read :: "nat \<Rightarrow> string \<Rightarrow> string \<Rightarrow> string \<times> string \<times> string" where
  "replay_Read n replay rest =
     (if replay \<noteq> [] then (take n replay, drop n replay, rest) else (take n rest, [], drop n rest))"

definition replay_step :: "string \<times> string \<Rightarrow> nat \<Rightarrow> string \<times> string \<times> string" where
  "replay_step s n = replay_Read n (fst s) (snd s)"

text \<open>\<open>auth\<close> gives the encoded \<open>HttpAuth\<close> of the tunnels and \<open>replay\<close> the bytes read so far.\<close>

definition httpHandler ::
  "(string \<Rightarrow> string) \<Rightarrow> string \<Rightarrow> tunnel_registry \<Rightarrow> (nat \<Rightarrow> string) \<Rightarrow> string \<Rightarrow> http_request option \<Rightarrow> http_action"
where
  "httpHandler ul proto r auth replay req =
     (case req of
        None \<Rightarrow> Answer BadRequest
      | Some q \<Rightarrow>
          let host = to_lower ul (hr_Host q) in
          (case tr_Get (proto @ ''://'' @ host) r of
             None \<Rightarrow> Answer (NotFound (int (length host) + 18) host)
           | Some t \<Rightarrow>
               if auth t \<noteq> [] \<and> ConstantTimeCompare (hr_Authorization q) (auth t) \<noteq> 1
               then Answer NotAuthorized
               else Handle t replay))"

section \<open>Comparing credentials\<close>

lemma basic_auth_inj: "basic_auth x = basic_auth y \<longleftrightarrow> x = y"
  by (auto simp: basic_auth_def dest: base64_inj)

section \<open>What the handler answers\<close>

text \<open>
  C4: A public request reaches a tunnel exactly if the tunnel is registered under the protocol and
  the lower-cased host of the request and, when the tunnel has credentials, the request's
  \<open>Authorization\<close> is their encoding; since the encoding loses nothing, no other credentials are
  let through. The tunnel gets the bytes that were read.
\<close>

theorem http_access:
  assumes "\<And>n. auth n = basic_auth (creds n)"
  shows "(httpHandler ul proto r auth replay req = Handle t sent \<longleftrightarrow>
      sent = replay \<and>
      (\<exists>q. req = Some q \<and> tr_Get (proto @ ''://'' @ to_lower ul (hr_Host q)) r = Some t \<and>
        (creds t = [] \<or> hr_Authorization q = ''Basic '' @ base64 (creds t)))) \<and>
    (base64 x = base64 (creds t) \<longrightarrow> x = creds t)"
proof (rule conjI)
  show "base64 x = base64 (creds t) \<longrightarrow> x = creds t"
    by (rule impI) (erule base64_inj)
  show "httpHandler ul proto r auth replay req = Handle t sent \<longleftrightarrow> sent = replay \<and>
      (\<exists>q. req = Some q \<and> tr_Get (proto @ ''://'' @ to_lower ul (hr_Host q)) r = Some t \<and>
        (creds t = [] \<or> hr_Authorization q = ''Basic '' @ base64 (creds t)))"
    by (auto simp: httpHandler_def Let_def ConstantTimeCompare_eq assms basic_auth_def
        split: option.splits if_splits)
qed

lemma http_access_witness:
  "httpHandler id ''http'' \<lparr>tr_tunnels = [''http://a'' \<mapsto> 3], tr_affinity = NewLRUCache 1\<rparr>
     (\<lambda>_. basic_auth ''u:p'') ''GET'' (Some \<lparr>hr_Host = ''a'', hr_Authorization = ''Basic '' @ base64 ''u:p''\<rparr>) =
   Handle 3 ''GET''"
proof -
  have "to_lower id ''a'' = ''a''"
    by (simp add: to_lower_def is_ascii_def lower_char_def is_upper_def)
  then show ?thesis
    using http_access [of "\<lambda>_. basic_auth ''u:p''" "\<lambda>_. ''u:p''" id "''http''"
        "\<lparr>tr_tunnels = [''http://a'' \<mapsto> 3], tr_affinity = NewLRUCache 1\<rparr>" "''GET''"
        "Some \<lparr>hr_Host = ''a'', hr_Authorization = ''Basic '' @ base64 ''u:p''\<rparr>" 3 "''GET''" "[]"]
    by (simp add: tr_Get_def del: base64.simps)
qed

text \<open>
  Every answer the handler writes itself is a complete HTTP message: the header ends with the
  exact length of the body that follows it, also for the page that names the host.
\<close>

theorem answers_have_exact_length:
  assumes "httpHandler ul proto r auth replay req = Answer resp"
  shows "\<exists>status body. resp = status @ ''Content-Length: '' @ show_int (int (length body)) @ nl @ nl @ body \<and>
    (\<exists>rest. status = ''HTTP/1.0 4'' @ rest)"
proof -
  have digits: "show_int 23 = ''23''" "show_int 12 = ''12''"
    by (simp_all add: show_int_def show_digits.simps)
  have complete: "\<exists>status body. resp = status @ ''Content-Length: '' @ show_int (int (length body)) @ nl @ nl @ body \<and>
      (\<exists>rest. status = ''HTTP/1.0 4'' @ rest)"
    if "resp = (''HTTP/1.0 4'' @ rest) @ ''Content-Length: '' @ show_int (int (length body)) @ nl @ nl @ body"
    for rest body
    using that by blast
  consider "resp = BadRequest" | host where "resp = NotFound (int (length host) + 18) host"
    | "resp = NotAuthorized"
    using assms by (auto simp: httpHandler_def Let_def split: option.splits if_splits)
  then show ?thesis
  proof cases
    case 1
    then show ?thesis
      by (intro complete [of "''00 Bad Request'' @ nl" "''Bad Request'' @ nl"])
        (simp add: BadRequest_def nl_def digits)
  next
    case 2
    then show ?thesis
      by (intro complete [of "''04 Not Found'' @ nl" "''Tunnel '' @ host @ '' not found'' @ nl"])
        (simp add: NotFound_def nl_def add.commute)
  next
    case 3
    then show ?thesis
      by (intro complete [of "''01 Not Authorized'' @ nl @
               ''WWW-Authenticate: Basic realm='' @ [CHR 0x22] @ ''ngrok'' @ [CHR 0x22] @ nl"
            "''Authorization required'' @ nl"])
        (simp add: NotAuthorized_def nl_def digits)
  qed
qed

lemma answers_have_exact_length_witness:
  "\<exists>status body. BadRequest = status @ ''Content-Length: '' @ show_int (int (length body)) @ nl @ nl @ body \<and>
     (\<exists>rest. status = ''HTTP/1.0 4'' @ rest)"
  by (rule answers_have_exact_length [of id "''http''" "NewTunnelRegistry 0" "\<lambda>_. []" "[]" None])
    (simp add: httpHandler_def)

text \<open>
  Reading from the connection that is handed to the tunnel gives the bytes of the request and
  then the rest of the stream, in order, whatever the sizes of the reads.
\<close>

theorem replay_is_transparent:
  assumes "run_outs replay_step (replay, rest) sizes = (outs, (replay', rest'))"
  shows "concat outs @ replay' @ rest' = replay @ rest"
  using assms
proof (induction sizes arbitrary: replay rest outs)
  case (Cons n sizes)
  obtain out re1 re2 where read: "replay_Read n replay rest = (out, re1, re2)"
    by (cases "replay_Read n replay rest")
  then have "out @ re1 @ re2 = replay @ rest"
    by (auto simp: replay_Read_def split: if_splits)
  moreover obtain os where "outs = out # os" "concat os @ replay' @ rest' = re1 @ re2"
    using Cons read by (auto simp: case_prod_unfold Let_def prod_eq_iff replay_step_def)
  ultimately show ?case
    by simp
qed simp

lemma replay_is_transparent_witness:
  "concat [''GE'', ''T'', '' /''] @ [] @ ''x'' = ''GET'' @ '' /x''"
  by (rule replay_is_transparent [of "''GET''" "'' /x''" "[2, 2, 2]"])
    (simp add: replay_step_def replay_Read_def Let_def eval_nat_numeral)

text \<open>
  A tunnel for a requested host name is registered without a port, but a client that reaches
  the server on another port than the protocol's default sends the port in its \<open>Host\<close> header, and
  the handler looks it up with the port: the request is answered with 404 although the tunnel is
  open, while the same request without the port reaches it.
\<close>

theorem hostname_tunnel_misses_port:
  assumes "validHostname h" "0 \<le> port" "tr_tunnels r = [proto @ ''://'' @ h \<mapsto> t]" "auth t = []"
  shows "httpHandler ul proto r auth replay (Some \<lparr>hr_Host = h @ '':'' @ show_int port, hr_Authorization = a\<rparr>) =
      Answer (NotFound (int (length (h @ '':'' @ show_int port)) + 18) (h @ '':'' @ show_int port)) \<and>
    httpHandler ul proto r auth replay (Some \<lparr>hr_Host = h, hr_Authorization = a\<rparr>) = Handle t replay"
proof -
  have "is_ascii CHR '':'' \<and> lower_char CHR '':'' = CHR '':''"
    by (simp add: is_ascii_def lower_char_def is_upper_def)
  then have "\<forall>c \<in> set (h @ '':'' @ show_int port). is_ascii c \<and> lower_char c = c"
    using validHostname_chars [OF assms(1)] host_char_facts(2,3) show_int_digits [OF assms(2)]
      digit_facts(2,3) by auto
  then have "to_lower ul (h @ '':'' @ show_int port) = h @ '':'' @ show_int port"
    by (rule to_lower_id)
  then show ?thesis
    using assms(3,4) valid_hostname_chars_normal(1) [OF assms(1)]
    by (simp add: httpHandler_def tr_Get_def Let_def)
qed

lemma hostname_tunnel_misses_port_witness:
  "httpHandler id ''http'' \<lparr>tr_tunnels = [''http://ex.org'' \<mapsto> 3], tr_affinity = NewLRUCache 1\<rparr>
     (\<lambda>_. []) [] (Some \<lparr>hr_Host = ''ex.org:8080'', hr_Authorization = []\<rparr>) = Answer (NotFound 29 ''ex.org:8080'')"
proof -
  have "validHostname ''ex.org''"
    by (simp add: validHostname_def validHostnameLabel_def label_char_def is_lower_def is_digit_def)
  moreover have "show_int 8080 = ''8080''"
    by (simp add: show_int_def show_digits.simps)
  ultimately show ?thesis
    using hostname_tunnel_misses_port [of "''ex.org''" 8080
        "\<lparr>tr_tunnels = [''http://ex.org'' \<mapsto> 3], tr_affinity = NewLRUCache 1\<rparr>" "''http''" 3 "\<lambda>_. []" id "[]" "[]"]
    by simp
qed

end
