(* ===== verification/Control_Shutdown.thy ===== *)
theory Control_Shutdown
  imports Go_Prelude
begin

text \<open>
  The goroutines of a control connection and how they stop (\<open>src/ngrok/server/control.go\<close>):
  \<open>NewControl\<close> after the registration of the control, \<open>writer\<close>, \<open>manager\<close>, \<open>reader\<close> and \<open>stopper\<close>. The
  channels \<open>in\<close> and \<open>out\<close> are unbuffered, so a send and its receive are one step; the state keeps
  for each goroutine where it is, and which channels are closed. What the messages say is in theory
  \<open>Control\<close>; here only their number matters.
\<close>

text \<open>
  \<open>NSending k\<close>: \<open>NewControl\<close> still has \<open>k\<close> of its two messages to send. \<open>MSending k\<close>: the manager
  handles a message and has \<open>k > 0\<close> messages left to send. \<open>RHolding\<close>: the reader has read a message and
  sends it to the manager. \<open>SWaitManager\<close>, \<open>SWaitWriter\<close>: the stopper waits for the completion of
  \<open>managerShutdown\<close>, \<open>writerShutdown\<close>.
\<close>

datatype newcontrol_pc = NSending nat | NReturned
datatype manager_pc = MNew | MWaiting | MSending nat | MDone
datatype writer_pc = WRunning | WDone
datatype reader_pc = RNew | RReading | RHolding | RDone
datatype stopper_pc = SNew | SWaitBegin | SWaitManager | SWaitWriter | SComplete

record ctl_state =
  ct_new :: newcontrol_pc
  ct_manager :: manager_pc
  ct_writer :: writer_pc
  ct_reader :: reader_pc
  ct_stopper :: stopper_pc
  ct_begun :: bool
  ct_in_closed :: bool
  ct_out_closed :: bool

definition ctl_init :: ctl_state where
  "ctl_init =
     \<lparr>ct_new = NSending 2, ct_manager = MNew, ct_writer = WRunning, ct_reader = RNew,
      ct_stopper = SNew, ct_begun = False, ct_in_closed = False, ct_out_closed = False\<rparr>"

definition after_send :: "nat \<Rightarrow> manager_pc" where
  "after_send k = (if k = 0 then MWaiting else MSending k)"

text \<open>
  The writer takes a message and writes it, which fails if \<open>ok\<close> is false: then it panics, is
  recovered, completes \<open>writerShutdown\<close> and begins the shutdown.
\<close>

definition writer_takes :: "bool \<Rightarrow> ctl_state \<Rightarrow> ctl_state" where
  "writer_takes ok s =
     (if ok then s else s\<lparr>ct_writer := WDone, ct_begun := True\<rparr>)"

text \<open>
  The steps. \<open>fails\<close> tells whether a write to the client may fail. A send on a closed channel panics. The
  manager and \<open>NewControl\<close> send only before \<open>out\<close> is closed (lemma \<open>ctl_ok_step\<close>); the reader, which may send on
  the closed \<open>in\<close>, and \<open>GetProxy\<close> and \<open>HandlePublicConnection\<close>, which may send on the closed \<open>out\<close>, recover:
  the first ends, the others have no effect on the control. \<open>replaced\<close> is \<open>Begin\<close> in \<open>Replaced\<close>, by a control
  with the same id; \<open>public_send\<close> is a send of a public connection.
\<close>

inductive ctl_step :: "bool \<Rightarrow> ctl_state \<Rightarrow> ctl_state \<Rightarrow> bool" for fails where
  new_send: "ct_new s = NSending (Suc k) \<Longrightarrow> ct_writer s = WRunning \<Longrightarrow> ok \<or> fails \<Longrightarrow>
     ctl_step fails s (writer_takes ok (s\<lparr>ct_new := NSending k\<rparr>))"
| new_start: "ct_new s = NSending 0 \<Longrightarrow>
     ctl_step fails s (s\<lparr>ct_new := NReturned, ct_manager := MWaiting, ct_reader := RReading,
       ct_stopper := SWaitBegin\<rparr>)"
| manager_send: "ct_manager s = MSending (Suc k) \<Longrightarrow> ct_writer s = WRunning \<Longrightarrow> ok \<or> fails \<Longrightarrow>
     ctl_step fails s (writer_takes ok (s\<lparr>ct_manager := after_send k\<rparr>))"
| manager_reap: "ct_manager s = MWaiting \<Longrightarrow> ctl_step fails s (s\<lparr>ct_begun := True\<rparr>)"
| manager_receive: "ct_manager s = MWaiting \<Longrightarrow> ct_reader s = RHolding \<Longrightarrow> \<not> ct_in_closed s \<Longrightarrow>
     ctl_step fails s (s\<lparr>ct_manager := after_send k, ct_reader := RReading\<rparr>)"
| manager_in_closed: "ct_manager s = MWaiting \<Longrightarrow> ct_in_closed s \<Longrightarrow>
     ctl_step fails s (s\<lparr>ct_manager := MDone, ct_begun := True\<rparr>)"
| manager_panic: "ct_manager s = MWaiting \<Longrightarrow> ct_reader s = RHolding \<Longrightarrow> \<not> ct_in_closed s \<Longrightarrow>
     ctl_step fails s (s\<lparr>ct_manager := MDone, ct_reader := RReading, ct_begun := True\<rparr>)"
| reader_read: "ct_reader s = RReading \<Longrightarrow> ctl_step fails s (s\<lparr>ct_reader := RHolding\<rparr>)"
| reader_error: "ct_reader s = RReading \<Longrightarrow> ctl_step fails s (s\<lparr>ct_reader := RDone, ct_begun := True\<rparr>)"
| reader_in_closed: "ct_reader s = RHolding \<Longrightarrow> ct_in_closed s \<Longrightarrow>
     ctl_step fails s (s\<lparr>ct_reader := RDone, ct_begun := True\<rparr>)"
| replaced: "ctl_step fails s (s\<lparr>ct_begun := True\<rparr>)"
| public_send: "ct_new s = NReturned \<Longrightarrow> \<not> ct_out_closed s \<Longrightarrow> ct_writer s = WRunning \<Longrightarrow> ok \<or> fails \<Longrightarrow>
     ctl_step fails s (writer_takes ok s)"
| writer_out_closed: "ct_writer s = WRunning \<Longrightarrow> ct_out_closed s \<Longrightarrow>
     ctl_step fails s (s\<lparr>ct_writer := WDone, ct_begun := True\<rparr>)"
| stop_begin: "ct_stopper s = SWaitBegin \<Longrightarrow> ct_begun s \<Longrightarrow>
     ctl_step fails s (s\<lparr>ct_stopper := SWaitManager, ct_in_closed := True\<rparr>)"
| stop_manager: "ct_stopper s = SWaitManager \<Longrightarrow> ct_manager s = MDone \<Longrightarrow>
     ctl_step fails s (s\<lparr>ct_stopper := SWaitWriter, ct_out_closed := True\<rparr>)"
| stop_writer: "ct_stopper s = SWaitWriter \<Longrightarrow> ct_writer s = WDone \<Longrightarrow>
     ctl_step fails s (s\<lparr>ct_stopper := SComplete\<rparr>)"

inductive_cases ctl_stepE: "ctl_step fails s t"

section \<open>Invariants\<close>

text \<open>
  \<open>out\<close> is closed only when the manager and \<open>NewControl\<close> are past their last send. Without write errors the writer ends only because \<open>out\<close> was closed.
\<close>

definition ctl_ok :: "bool \<Rightarrow> ctl_state \<Rightarrow> bool" where
  "ctl_ok fails s \<longleftrightarrow>
     (ct_out_closed s \<longleftrightarrow> ct_stopper s = SWaitWriter \<or> ct_stopper s = SComplete) \<and>
     (ct_out_closed s \<longrightarrow> ct_manager s = MDone) \<and>
     (ct_in_closed s \<longleftrightarrow> ct_stopper s \<notin> {SNew, SWaitBegin}) \<and>
     (ct_new s = NReturned \<longleftrightarrow> ct_stopper s \<noteq> SNew) \<and>
     (ct_new s \<noteq> NReturned \<longleftrightarrow> ct_manager s = MNew) \<and>
     (ct_stopper s \<notin> {SNew, SWaitBegin} \<longrightarrow> ct_begun s) \<and>
     ct_manager s \<noteq> MSending 0 \<and>
     (\<not> fails \<longrightarrow> ct_writer s = WDone \<longrightarrow> ct_out_closed s)"

lemma ctl_ok_init: "ctl_ok fails ctl_init"
  by (simp add: ctl_ok_def ctl_init_def)

lemma after_send_simps [simp]: "after_send k \<noteq> MDone" "after_send k \<noteq> MNew" "after_send k \<noteq> MSending 0"
  by (simp_all add: after_send_def)

lemma ctl_ok_step: "ctl_ok fails s \<Longrightarrow> ctl_step fails s t \<Longrightarrow> ctl_ok fails t"
  by (erule ctl_stepE) (auto simp: ctl_ok_def writer_takes_def)

interpretation ctl: relation_invariant "ctl_step fails" ctl_init "ctl_ok fails" for fails
  by unfold_locales (auto intro: ctl_ok_init ctl_ok_step)

section \<open>A control whose client can be written to stops\<close>

lemma reach_one: "stp s t \<Longrightarrow> reach stp s t"
  by (rule reach_step [OF reach_refl])

lemma new_finishes:
  assumes "ctl_ok False s" "ct_new s = NSending k"
  shows "\<exists>t. reach (ctl_step False) s t \<and> ctl_ok False t \<and> ct_new t = NReturned \<and>
    (ct_begun s \<longrightarrow> ct_begun t)"
  using assms
proof (induction k arbitrary: s)
  case 0
  then show ?case
    using new_start [of s False] ctl_ok_step [OF 0(1) new_start]
    by (intro exI [of _ "s\<lparr>ct_new := NReturned, ct_manager := MWaiting, ct_reader := RReading,
         ct_stopper := SWaitBegin\<rparr>"]) (auto intro: reach_one)
next
  case (Suc k)
  have "ct_writer s = WRunning"
    using Suc.prems by (cases "ct_writer s") (auto simp: ctl_ok_def)
  then have st: "ctl_step False s (s\<lparr>ct_new := NSending k\<rparr>)"
    using new_send [of s k True False] Suc.prems(2) by (simp add: writer_takes_def)
  obtain t where "reach (ctl_step False) (s\<lparr>ct_new := NSending k\<rparr>) t" "ctl_ok False t"
      "ct_new t = NReturned" "ct_begun s \<longrightarrow> ct_begun t"
    using Suc.IH [OF ctl_ok_step [OF Suc.prems(1) st]] by auto
  then show ?case
    using reach_trans [OF reach_one [of "ctl_step False", OF st]] by blast
qed

lemma manager_finishes:
  assumes "ctl_ok False s" "ct_manager s = MSending k"
  shows "\<exists>t. reach (ctl_step False) s t \<and> ctl_ok False t \<and> ct_manager t = MWaiting \<and>
    ct_stopper t = ct_stopper s \<and> ct_begun t = ct_begun s"
  using assms
proof (induction k arbitrary: s)
  case 0
  then show ?case by (simp add: ctl_ok_def)
next
  case (Suc k)
  let ?t = "s\<lparr>ct_manager := after_send k\<rparr>"
  have "ct_writer s = WRunning"
    using Suc.prems by (cases "ct_writer s") (auto simp: ctl_ok_def)
  then have st: "ctl_step False s ?t"
    using manager_send [of s k True False] Suc.prems(2) by (simp add: writer_takes_def)
  note ok = ctl_ok_step [OF Suc.prems(1) st]
  show ?case
  proof (cases "k = 0")
    case True
    then show ?thesis
      using reach_one [of "ctl_step False", OF st] ok
      by (intro exI [of _ ?t]) (simp add: after_send_def)
  next
    case False
    then obtain t where "reach (ctl_step False) ?t t" "ctl_ok False t" "ct_manager t = MWaiting"
        "ct_stopper t = ct_stopper s" "ct_begun t = ct_begun s"
      using Suc.IH [OF ok] by (auto simp: after_send_def)
    then show ?thesis
      using reach_trans [OF reach_one [of "ctl_step False", OF st]] by blast
  qed
qed

text \<open>From each stage of the stopper the next one can be reached.\<close>

lemma writer_stage:
  assumes "ctl_ok False s" "ct_stopper s = SWaitWriter"
  shows "\<exists>t. reach (ctl_step False) s t \<and> ct_stopper t = SComplete"
proof -
  have *: "\<exists>t. reach (ctl_step False) u t \<and> ct_stopper t = SComplete"
    if "ct_stopper u = SWaitWriter" "ct_writer u = WDone" for u
    using reach_one [of "ctl_step False", OF stop_writer [OF that]] by force
  show ?thesis
  proof (cases "ct_writer s")
    case WRunning
    have "ct_out_closed s"
      using assms by (simp add: ctl_ok_def)
    then have "ctl_step False s (s\<lparr>ct_writer := WDone, ct_begun := True\<rparr>)"
      using WRunning by (intro writer_out_closed)
    then show ?thesis
      using * [of "s\<lparr>ct_writer := WDone, ct_begun := True\<rparr>"] assms(2)
        reach_trans [OF reach_one [of "ctl_step False"]] by fastforce
  qed (use * assms(2) in blast)
qed

lemma manager_stage:
  assumes "ctl_ok False s" "ct_stopper s = SWaitManager"
  shows "\<exists>t. reach (ctl_step False) s t \<and> ct_stopper t = SComplete"
proof -
  have finished: "\<exists>t. reach (ctl_step False) u t \<and> ct_stopper t = SComplete"
    if "ctl_ok False u" "ct_stopper u = SWaitManager" "ct_manager u = MDone" for u
  proof -
    note st = stop_manager [OF that(2,3), of False]
    show ?thesis
      using writer_stage [OF ctl_ok_step [OF that(1) st]] reach_trans [OF reach_one [of "ctl_step False", OF st]]
      by auto
  qed
  have waiting: "\<exists>t. reach (ctl_step False) u t \<and> ct_stopper t = SComplete"
    if "ctl_ok False u" "ct_stopper u = SWaitManager" "ct_manager u = MWaiting" for u
  proof -
    have "ct_in_closed u"
      using that(1,2) by (simp add: ctl_ok_def)
    note st = manager_in_closed [OF that(3) this, of False]
    show ?thesis
      using finished [OF ctl_ok_step [OF that(1) st]] that(2) reach_trans [OF reach_one [of "ctl_step False", OF st]]
      by auto
  qed
  show ?thesis
  proof (cases "ct_manager s")
    case MNew
    then show ?thesis using assms by (auto simp: ctl_ok_def)
  next
    case (MSending k)
    then obtain t where "reach (ctl_step False) s t" "ctl_ok False t" "ct_manager t = MWaiting"
        "ct_stopper t = SWaitManager"
      using manager_finishes [OF assms(1)] assms(2) by auto
    then show ?thesis
      using waiting reach_trans by metis
  qed (use assms waiting finished in auto)
qed

lemma begun_stage:
  assumes "ctl_ok False s" "ct_begun s" "ct_stopper s \<noteq> SNew"
  shows "\<exists>t. reach (ctl_step False) s t \<and> ct_stopper t = SComplete"
proof (cases "ct_stopper s")
  case SWaitBegin
  note st = stop_begin [OF SWaitBegin assms(2), of False]
  show ?thesis
    using manager_stage [OF ctl_ok_step [OF assms(1) st]] reach_trans [OF reach_one [of "ctl_step False", OF st]]
    by auto
qed (use assms manager_stage writer_stage in auto)

text \<open>
  C8: As long as writes to the client do not fail, a control can always stop: from every state a
  control can be in, once its shutdown has begun the goroutines have a way to finish, up to the
  end of the stopper. And \<open>out\<close> is closed only after the manager is done and \<open>NewControl\<close> has returned, so
  that neither of them ever sends on a closed channel.
\<close>

theorem control_can_stop:
  assumes "reach (ctl_step False) ctl_init s" "ct_begun s"
  shows "(\<exists>t. reach (ctl_step False) s t \<and> ct_stopper t = SComplete) \<and>
    (ct_out_closed s \<longrightarrow> ct_manager s = MDone \<and> ct_new s = NReturned)"
proof (rule conjI)
  have ok: "ctl_ok False s"
    by (rule ctl.reach_inv [OF assms(1)])
  then show "ct_out_closed s \<longrightarrow> ct_manager s = MDone \<and> ct_new s = NReturned"
    by (auto simp: ctl_ok_def)
  show "\<exists>t. reach (ctl_step False) s t \<and> ct_stopper t = SComplete"
  proof (cases "ct_new s")
    case (NSending k)
    then obtain t where t: "reach (ctl_step False) s t" "ctl_ok False t" "ct_new t = NReturned" "ct_begun t"
      using new_finishes [OF ok] assms(2) by blast
    then have "ct_stopper t \<noteq> SNew"
      by (simp add: ctl_ok_def)
    then obtain u where "reach (ctl_step False) t u" "ct_stopper u = SComplete"
      using begun_stage [OF t(2,4)] by blast
    then show ?thesis
      using reach_trans [OF t(1)] by blast
  next
    case NReturned
    then show ?thesis
      using begun_stage [OF ok assms(2)] ok by (auto simp: ctl_ok_def)
  qed
qed

text \<open>A control whose client hangs up while the manager has two messages to send.\<close>

definition running :: ctl_state where
  "running = ctl_init\<lparr>ct_new := NReturned, ct_manager := MWaiting, ct_reader := RReading,
     ct_stopper := SWaitBegin\<rparr>"

lemma running_reach: "reach (ctl_step fails) ctl_init running"
proof -
  let ?s1 = "ctl_init\<lparr>ct_new := NSending 1\<rparr>"
  let ?s0 = "ctl_init\<lparr>ct_new := NSending 0\<rparr>"
  have "ctl_step fails ctl_init ?s1"
    using new_send [of ctl_init 1 True fails] by (simp add: ctl_init_def writer_takes_def numeral_2_eq_2)
  moreover have "ctl_step fails ?s1 ?s0"
    using new_send [of ?s1 0 True fails] by (simp add: ctl_init_def writer_takes_def)
  moreover have "ctl_step fails ?s0 running"
    using new_start [of ?s0 fails] by (simp add: running_def ctl_init_def)
  ultimately show ?thesis
    by (auto intro: reach_step [OF reach_step [OF reach_step [OF reach_refl]]])
qed

lemma control_can_stop_witness:
  "\<exists>t. reach (ctl_step False) (running\<lparr>ct_begun := True\<rparr>) t \<and> ct_stopper t = SComplete"
proof -
  have "ctl_step False running (running\<lparr>ct_begun := True\<rparr>)"
    by (rule manager_reap) (simp add: running_def)
  then show ?thesis
    using control_can_stop [OF reach_step [OF running_reach]] by auto
qed

section \<open>A control whose client cannot be written to\<close>

text \<open>The writer is gone and someone still has a message for it: \<open>NewControl\<close>, or the manager.\<close>

definition stuck_new :: "ctl_state \<Rightarrow> bool" where
  "stuck_new s \<longleftrightarrow> ct_writer s = WDone \<and> (\<exists>k. ct_new s = NSending (Suc k)) \<and>
     ct_stopper s = SNew \<and> ct_manager s = MNew"

definition stuck_manager :: "ctl_state \<Rightarrow> bool" where
  "stuck_manager s \<longleftrightarrow> ct_writer s = WDone \<and> (\<exists>k. ct_manager s = MSending (Suc k)) \<and>
     ct_new s = NReturned \<and> ct_stopper s \<in> {SWaitBegin, SWaitManager}"

lemma stuck_step:
  "stuck_new s \<Longrightarrow> ctl_step fails s t \<Longrightarrow> stuck_new t"
  "stuck_manager s \<Longrightarrow> ctl_step fails s t \<Longrightarrow> stuck_manager t"
  by (erule ctl_stepE; auto simp: stuck_new_def stuck_manager_def writer_takes_def)+

lemma stuck_forever:
  "reach (ctl_step fails) s t \<Longrightarrow> stuck_new s \<Longrightarrow> stuck_new t"
  "reach (ctl_step fails) s t \<Longrightarrow> stuck_manager s \<Longrightarrow> stuck_manager t"
  by (induction rule: reach.induct) (auto intro: stuck_step)

text \<open>
  C11: When a write to the client fails, a control may never stop. Two states can be reached from
  which the shutdown, although begun, cannot complete: in one \<open>NewControl\<close> still wants to send its
  second message after the write of the first one failed, and the stopper was not even started;
  in the other the manager wants to send the second message of its answer, and the stopper waits
  for the manager. Both wait for a writer that is gone. A client that comes back with the same id
  then waits for this control in \<open>replaced.shutdown.WaitComplete()\<close>, and its tunnels stay
  registered.
\<close>

theorem control_can_hang:
  "(\<exists>s. reach (ctl_step True) ctl_init s \<and> ct_begun s \<and> ct_stopper s = SNew \<and>
      (\<nexists>t. reach (ctl_step True) s t \<and> ct_stopper t \<noteq> SNew)) \<and>
   (\<exists>s. reach (ctl_step True) ctl_init s \<and> ct_begun s \<and> ct_stopper s = SWaitManager \<and>
      (\<nexists>t. reach (ctl_step True) s t \<and> ct_stopper t = SComplete))"
proof (rule conjI)
  let ?n = "ctl_init\<lparr>ct_new := NSending 1, ct_writer := WDone, ct_begun := True\<rparr>"
  have "ctl_step True ctl_init ?n"
    using new_send [of ctl_init 1 False True] by (simp add: ctl_init_def writer_takes_def numeral_2_eq_2)
  moreover have "stuck_new ?n"
    by (simp add: stuck_new_def ctl_init_def)
  ultimately show "\<exists>s. reach (ctl_step True) ctl_init s \<and> ct_begun s \<and> ct_stopper s = SNew \<and>
      (\<nexists>t. reach (ctl_step True) s t \<and> ct_stopper t \<noteq> SNew)"
    using stuck_forever(1) [of True ?n]
    by (intro exI [of _ ?n]) (auto simp: stuck_new_def ctl_init_def intro: reach_one)
next
  let ?s1 = "running\<lparr>ct_reader := RHolding\<rparr>"
  let ?s2 = "?s1\<lparr>ct_manager := MSending 2, ct_reader := RReading\<rparr>"
  let ?s3 = "?s2\<lparr>ct_manager := MSending 1, ct_writer := WDone, ct_begun := True\<rparr>"
  let ?s4 = "?s3\<lparr>ct_stopper := SWaitManager, ct_in_closed := True\<rparr>"
  have 1: "ctl_step True running ?s1"
    by (rule reader_read) (simp add: running_def)
  have 2: "ctl_step True ?s1 ?s2"
    using manager_receive [of ?s1 True 2] by (simp add: running_def ctl_init_def after_send_def)
  have 3: "ctl_step True ?s2 ?s3"
    using manager_send [of ?s2 1 False True]
    by (simp add: running_def ctl_init_def after_send_def writer_takes_def numeral_2_eq_2)
  have 4: "ctl_step True ?s3 ?s4"
    using stop_begin [of ?s3 True] by (simp add: running_def)
  have "reach (ctl_step True) ctl_init ?s4"
    by (rule reach_step [OF reach_step [OF reach_step [OF reach_step [OF running_reach 1] 2] 3] 4])
  moreover have "stuck_manager ?s4"
    by (simp add: stuck_manager_def running_def)
  moreover have "ct_begun ?s4" "ct_stopper ?s4 = SWaitManager"
    by simp_all
  ultimately show "\<exists>s. reach (ctl_step True) ctl_init s \<and> ct_begun s \<and> ct_stopper s = SWaitManager \<and>
      (\<nexists>t. reach (ctl_step True) s t \<and> ct_stopper t = SComplete)"
    using stuck_forever(2) [of True ?s4] by (metis insertE singletonD stopper_pc.distinct stuck_manager_def)
qed

end
