(* ===== verification/Control.thy ===== *)
theory Control
  imports Tunnel Sessions Util
begin

text \<open>
  Control connections, \<open>src/ngrok/server/control.go\<close> with \<open>validateAuth\<close> and \<open>NewProxy\<close> of
  \<open>src/ngrok/server/main.go\<close> and \<open>HandlePublicConnection\<close> of \<open>src/ngrok/server/tunnel.go\<close>: who may open
  a control, what it answers, the pool of proxy connections, the manager and what the stopper
  releases. Connections are numbers. How the goroutines interleave is in theory
  \<open>Control_Shutdown\<close>.
\<close>

section \<open>Opening a control\<close>







section \<open>Proxy connections\<close>

definition proxyMaxPoolSize :: nat where
  "proxyMaxPoolSize = 10"

text \<open>The buffered channel \<open>proxies\<close>.\<close>

record proxy_pool =
  pp_conns :: "nat list"
  pp_closed :: bool

definition NewPool :: proxy_pool where
  "NewPool = \<lparr>pp_conns = [], pp_closed = False\<rparr>"

datatype registered = Registered | Discarded | Panicked

text \<open>A discarded connection is closed; a send on the closed channel panics.\<close>

definition RegisterProxy :: "nat \<Rightarrow> proxy_pool \<Rightarrow> registered \<times> proxy_pool" where
  "RegisterProxy c p =
     (if pp_closed p then (Panicked, p)
      else if length (pp_conns p) < 10 then (Registered, p\<lparr>pp_conns := pp_conns p @ [c]\<rparr>)
      else (Discarded, p))"

text \<open>
  What can happen while \<open>GetProxy\<close> waits: a connection is registered, the channel is closed, or 30
  seconds pass. \<open>out_closed\<close> tells whether the send of \<open>ReqProxy\<close> panics.
\<close>

datatype proxy_wait = Arrives nat | Closes | TimesOut

definition GetProxy :: "bool \<Rightarrow> proxy_wait \<Rightarrow> proxy_pool \<Rightarrow> nat result \<times> msg list \<times> proxy_pool" where
  "GetProxy out_closed wait p =
     (case pp_conns p of
        c # cs \<Rightarrow> (Inr c, [], p\<lparr>pp_conns := cs\<rparr>)
      | [] \<Rightarrow>
          if pp_closed p then (Inl ''No proxy connections available, control is closing'', [], p)
          else if out_closed then (Inl ''Panic: send on closed channel'', [], p)
          else (case wait of
                  Arrives c \<Rightarrow> (Inr c, [MReqProxy], p)
                | Closes \<Rightarrow>
                    (Inl ''No proxy connections available, control is closing'', [MReqProxy],
                     p\<lparr>pp_closed := True\<rparr>)
                | TimesOut \<Rightarrow> (Inl ''Timeout trying to get proxy connection'', [MReqProxy], p)))"

text \<open>The stopper closes the channel and every connection left in it.\<close>

definition close_pool :: "proxy_pool \<Rightarrow> nat list \<times> proxy_pool" where
  "close_pool p = (pp_conns p, \<lparr>pp_conns = [], pp_closed = True\<rparr>)"

text \<open>
  \<open>NewProxy\<close>: the control of the client id takes the connection. The result is whether the
  connection is closed, because there is no control, the pool is full, or the channel is closed.
\<close>

definition NewProxy ::
  "nat \<Rightarrow> RegProxy \<Rightarrow> control_registry \<Rightarrow> (nat \<Rightarrow> proxy_pool) \<Rightarrow> bool \<times> (nat \<Rightarrow> proxy_pool)" where
  "NewProxy conn m r pools =
     (case cr_Get (rp_ClientId m) r of
        None \<Rightarrow> (True, pools)
      | Some ctl \<Rightarrow>
          (case RegisterProxy conn (pools ctl) of
             (Registered, p) \<Rightarrow> (False, pools(ctl := p))
           | (_, p) \<Rightarrow> (True, pools(ctl := p))))"

section \<open>Public connections\<close>

text \<open>
  What \<open>HandlePublicConnection\<close> meets, by the rounds of its loop: whether \<open>out\<close> is closed, what happens
  while \<open>GetProxy\<close> waits, and the pool, which other goroutines change in between; whether \<open>StartProxy\<close> can be
  written to a proxy; whether \<open>out\<close> is closed after the loop; and the byte counts of \<open>conn.Join\<close>.
\<close>

record public_world =
  pb_outClosed :: "nat \<Rightarrow> bool"
  pb_wait :: "nat \<Rightarrow> proxy_wait"
  pb_pool :: "nat \<Rightarrow> proxy_pool"
  pb_startOk :: "nat \<Rightarrow> bool"
  pb_outClosedAfter :: bool
  pb_joined :: "int64 \<times> int64"

definition pb_GetProxy :: "public_world \<Rightarrow> nat \<Rightarrow> nat result \<times> msg list" where
  "pb_GetProxy w i = (case GetProxy (pb_outClosed w i) (pb_wait w i) (pb_pool w i) of (r, sent, _) \<Rightarrow> (r, sent))"

text \<open>
  The loop: the outcome, the proxies that were taken, which the deferred calls close in the end, and the
  messages sent to the client of the control.
\<close>

datatype public_outcome = NoProxy string | TooManyFailures | Joined nat

fun start_proxy :: "public_world \<Rightarrow> nat \<Rightarrow> nat \<Rightarrow> public_outcome \<times> nat list \<times> msg list" where
  "start_proxy w 0 i = (TooManyFailures, [], [])"
| "start_proxy w (Suc left) i =
     (case pb_GetProxy w i of
        (Inl err, sent) \<Rightarrow> (NoProxy err, [], sent)
      | (Inr c, sent) \<Rightarrow>
          if pb_startOk w c then (Joined c, [c], sent)
          else (case start_proxy w left (Suc i) of (outcome, taken, sent') \<Rightarrow> (outcome, c # taken, sent @ sent')))"

text \<open>
  The whole handler: the outcome, the connections it closed, the messages it sent to the control's
  client and the metrics. The send that asks for a new proxy is inside \<open>PanicToError\<close>: on a closed channel
  it has no effect.
\<close>

definition HandlePublicConnection ::
  "public_world \<Rightarrow> int \<Rightarrow> nat \<Rightarrow> tunnel \<Rightarrow> LocalMetrics \<Rightarrow> public_outcome \<times> nat list \<times> msg list \<times> LocalMetrics"
where
  "HandlePublicConnection w now publicConn t m =
     (let m1 = lm_OpenConnection (tn_metric t) m;
          (outcome, taken, sent) = start_proxy w (2 * proxyMaxPoolSize) 0
      in case outcome of
           Joined c \<Rightarrow>
             (outcome, taken @ [publicConn], sent @ (if pb_outClosedAfter w then [] else [MReqProxy]),
              lm_CloseConnection (tn_metric t) now (fst (pb_joined w)) (snd (pb_joined w)) m1)
         | _ \<Rightarrow> (outcome, taken @ [publicConn], sent, m1))"

section \<open>The manager\<close>

text \<open>\<open>strings.Replace(s, old, new, 1)\<close> for a non-empty \<open>old\<close>.\<close>

fun replace_first :: "string \<Rightarrow> string \<Rightarrow> string \<Rightarrow> string" where
  "replace_first old new [] = []"
| "replace_first old new (c # s) =
     (if has_prefix (c # s) old then new @ drop (length old) (c # s)
      else c # replace_first old new s)"

record control =
  co_info :: control_info
  co_tunnels :: "tunnel list"
  co_lastPing :: int
  co_shutdown :: shutdown
  co_out :: "msg list"

definition tunnel_failure :: "string \<Rightarrow> msg" where
  "tunnel_failure err = MNewTunnel \<lparr>nt_ReqId = [], nt_Url = [], nt_Protocol = [], nt_Error = err\<rparr>"

definition tunnel_success :: "tunnel \<Rightarrow> string \<Rightarrow> string \<Rightarrow> msg" where
  "tunnel_success t proto reqId =
     MNewTunnel \<lparr>nt_ReqId = reqId, nt_Url = tn_url t, nt_Protocol = proto, nt_Error = []\<rparr>"

definition send :: "msg \<Rightarrow> control \<Rightarrow> control" where
  "send m c = c\<lparr>co_out := co_out c @ [m]\<rparr>"

text \<open>
  The loop of \<open>registerTunnel\<close> over the protocols: \<open>raw\<close> is the request, whose host name a
  registered tunnel overwrites; \<open>n\<close> is the number of the next tunnel. \<open>None\<close> is a panic.
\<close>

fun register_protocols ::
  "server_env \<Rightarrow> int \<Rightarrow> string list \<Rightarrow> nat \<Rightarrow> ReqTunnel \<Rightarrow> control \<Rightarrow> server \<Rightarrow> (control \<times> nat \<times> server) option"
where
  "register_protocols e now [] n raw c s = Some (c, n, s)"
| "register_protocols e now (proto # protos) n raw c s =
     (case NewTunnel e now n (raw\<lparr>rt_Protocol := proto\<rparr>) (co_info c) s of
        None \<Rightarrow> None
      | Some (Inl err, s1) \<Rightarrow>
          let c1 = send (tunnel_failure err) c in
          if co_tunnels c1 = [] then
            (case sd_Begin (co_shutdown c1) of
               None \<Rightarrow> None
             | Some sd \<Rightarrow> Some (c1\<lparr>co_shutdown := sd\<rparr>, n, s1))
          else Some (c1, n, s1)
      | Some (Inr t, s1) \<Rightarrow>
          let c1 = send (tunnel_success t proto (rt_ReqId raw)) (c\<lparr>co_tunnels := co_tunnels c @ [t]\<rparr>);
              raw1 = raw\<lparr>rt_Hostname := replace_first (proto @ ''://'') [] (tn_url t)\<rparr>
          in register_protocols e now protos (Suc n) raw1 c1 s1)"

definition registerTunnel ::
  "server_env \<Rightarrow> int \<Rightarrow> nat \<Rightarrow> ReqTunnel \<Rightarrow> control \<Rightarrow> server \<Rightarrow> (control \<times> nat \<times> server) option" where
  "registerTunnel e now n raw c s =
     register_protocols e now (split_on CHR ''+'' (rt_Protocol raw)) n raw c s"

definition pingTimeoutInterval :: int where
  "pingTimeoutInterval = 30 * 1000000000"

text \<open>What the manager selects: the reaping timer, or a message of the client.\<close>

datatype manager_event = Reap | Received msg

definition manager_step ::
  "server_env \<Rightarrow> int \<Rightarrow> manager_event \<Rightarrow> nat \<Rightarrow> control \<Rightarrow> server \<Rightarrow> (control \<times> nat \<times> server) option" where
  "manager_step e now ev n c s =
     (case ev of
        Reap \<Rightarrow>
          if now - co_lastPing c > pingTimeoutInterval then
            (case sd_Begin (co_shutdown c) of
               None \<Rightarrow> None
             | Some sd \<Rightarrow> Some (c\<lparr>co_shutdown := sd\<rparr>, n, s))
          else Some (c, n, s)
      | Received (MReqTunnel m) \<Rightarrow> registerTunnel e now n m c s
      | Received MPing \<Rightarrow> Some (send MPong (c\<lparr>co_lastPing := now\<rparr>), n, s)
      | Received _ \<Rightarrow> Some (c, n, s))"

text \<open>The stopper's loop over the tunnels.\<close>

fun shutdown_tunnels :: "tunnel list \<Rightarrow> server \<Rightarrow> server" where
  "shutdown_tunnels [] s = s"
| "shutdown_tunnels (t # ts) s = shutdown_tunnels ts (snd (tunnel_Shutdown t s))"

section \<open>Who may open a control\<close>




section \<open>No proxy connection is lost or used twice\<close>

datatype pool_op = PRegister nat | PGet bool proxy_wait | PClose

text \<open>
  What an operation does with connections: those that enter the channel; those that leave it, handed to a
  public connection or closed by the stopper; and those that are closed without having entered it,
  because the channel is full or closed (\<open>RegisterProxy\<close> or the recovery of \<open>NewProxy\<close> closes them). One that
  arrives while \<open>GetProxy\<close> waits enters and leaves.
\<close>

fun pool_step :: "proxy_pool \<Rightarrow> pool_op \<Rightarrow> (nat list \<times> nat list \<times> nat list) \<times> proxy_pool" where
  "pool_step p (PRegister c) =
     (case RegisterProxy c p of (Registered, p') \<Rightarrow> (([c], [], []), p') | (_, p') \<Rightarrow> (([], [], [c]), p'))"
| "pool_step p (PGet out_closed wait) =
     (case GetProxy out_closed wait p of
        (Inr c, _, p') \<Rightarrow> ((if pp_conns p = [] then [c] else [], [c], []), p')
      | (Inl _, _, p') \<Rightarrow> (([], [], []), p'))"
| "pool_step p PClose = (let (cs, p') = close_pool p in (([], cs, []), p'))"

definition entered :: "(nat list \<times> nat list \<times> nat list) list \<Rightarrow> nat list" where
  "entered outs = concat (map fst outs)"

definition left_pool :: "(nat list \<times> nat list \<times> nat list) list \<Rightarrow> nat list" where
  "left_pool outs = concat (map (fst \<circ> snd) outs)"

definition pool_ok :: "proxy_pool \<Rightarrow> bool" where
  "pool_ok p \<longleftrightarrow> length (pp_conns p) \<le> proxyMaxPoolSize \<and> (pp_closed p \<longrightarrow> pp_conns p = [])"

text \<open>What becomes of one connection that is registered.\<close>

fun register_accounted :: "proxy_pool \<Rightarrow> pool_op \<Rightarrow> nat list \<times> nat list \<times> nat list \<Rightarrow> bool" where
  "register_accounted p (PRegister c) out \<longleftrightarrow>
     out = (if pp_closed p \<or> proxyMaxPoolSize \<le> length (pp_conns p) then ([], [], [c]) else ([c], [], []))"
| "register_accounted p _ out \<longleftrightarrow> snd (snd out) = []"

lemma pool_step_conserves:
  assumes "pool_ok p" "pool_step p op = ((ins, outs, closed), p')"
  shows "pp_conns p @ ins = outs @ pp_conns p' \<and> pool_ok p' \<and> register_accounted p op (ins, outs, closed)"
  using assms
  by (cases op)
    (auto simp: RegisterProxy_def GetProxy_def close_pool_def pool_ok_def proxyMaxPoolSize_def
      split: if_splits list.splits proxy_wait.splits)

lemma pool_run_conserves:
  "pool_ok p \<Longrightarrow> run_outs pool_step p ops = (outs, p') \<Longrightarrow>
   pp_conns p @ entered outs = left_pool outs @ pp_conns p' \<and> pool_ok p' \<and> length outs = length ops \<and>
   (\<forall>i < length ops. register_accounted (snd (run_outs pool_step p (take i ops))) (ops ! i) (outs ! i))"
proof (induction ops arbitrary: p outs)
  case (Cons op ops)
  obtain ins left closed p1 os where step: "pool_step p op = ((ins, left, closed), p1)"
    and rest: "run_outs pool_step p1 ops = (os, p')" "outs = (ins, left, closed) # os"
    using Cons.prems(2) by (auto simp: case_prod_unfold Let_def prod_eq_iff)
  have st: "pp_conns p @ ins = left @ pp_conns p1" "pool_ok p1" "register_accounted p op (ins, left, closed)"
    using pool_step_conserves [OF Cons.prems(1) step] by simp_all
  note ih = Cons.IH [OF st(2) rest(1)]
  have "pp_conns p @ entered outs = (pp_conns p @ ins) @ entered os"
    by (simp add: rest(2) entered_def)
  also have "\<dots> = left @ (pp_conns p1 @ entered os)"
    by (simp add: st(1))
  also have "\<dots> = left_pool outs @ pp_conns p'"
    using ih by (simp add: rest(2) left_pool_def)
  finally have flow: "pp_conns p @ entered outs = left_pool outs @ pp_conns p'" .
  have "register_accounted (snd (run_outs pool_step p (take i (op # ops)))) ((op # ops) ! i) (outs ! i)"
    if "i < length (op # ops)" for i
    using that ih st(3) step rest(2) by (cases i) (auto simp: case_prod_unfold Let_def)
  with flow ih show ?case by (simp add: rest(2))
qed (simp add: entered_def left_pool_def)

text \<open>
  C37: Proxy connections pass through the pool first in, first out, and none is lost or used twice:
  after any sequence of registrations, requests and closes, the connections that entered are those
  that were handed out or closed, in order, followed by those still in the pool; every connection that is
  registered enters, unless the pool at that moment is closed or holds ten, and then it is closed; no
  other operation closes a connection that did not enter. The pool never holds more than ten, and holds
  none once it is closed.
\<close>

theorem proxies_conserved:
  assumes "run_outs pool_step NewPool ops = (outs, p)"
  shows "entered outs = left_pool outs @ pp_conns p \<and> length outs = length ops \<and>
    (\<forall>i < length ops. register_accounted (snd (run_outs pool_step NewPool (take i ops))) (ops ! i) (outs ! i)) \<and>
    length (pp_conns p) \<le> 10 \<and> (pp_closed p \<longrightarrow> pp_conns p = [])"
  using pool_run_conserves [OF _ assms] by (auto simp: pool_ok_def NewPool_def proxyMaxPoolSize_def)

lemma proxies_conserved_witness:
  "\<exists>outs p. run_outs pool_step NewPool [PRegister 7, PGet False TimesOut, PGet False (Arrives 8), PRegister 5, PClose, PRegister 9] = (outs, p) \<and>
     entered outs = [7, 8, 5] \<and> entered outs = left_pool outs @ pp_conns p \<and>
     register_accounted (snd (run_outs pool_step NewPool [PRegister 7, PGet False TimesOut, PGet False (Arrives 8), PRegister 5, PClose]))
       (PRegister 9) (outs ! 5)"
proof -
  let ?ops = "[PRegister 7, PGet False TimesOut, PGet False (Arrives 8), PRegister 5, PClose, PRegister 9]"
  obtain outs p where r: "run_outs pool_step NewPool ?ops = (outs, p)"
    by (cases "run_outs pool_step NewPool ?ops")
  have "entered outs = [7, 8, 5]"
    using r by (auto simp: entered_def NewPool_def RegisterProxy_def GetProxy_def close_pool_def)
  moreover note t = proxies_conserved [OF r]
  moreover have "register_accounted (snd (run_outs pool_step NewPool (take 5 ?ops))) (?ops ! 5) (outs ! 5)"
    by (rule t [THEN conjunct2, THEN conjunct2, THEN conjunct1, rule_format]) simp
  moreover have "take 5 ?ops = [PRegister 7, PGet False TimesOut, PGet False (Arrives 8), PRegister 5, PClose]" "?ops ! 5 = PRegister 9"
    by simp_all
  ultimately show ?thesis
    using r by (intro exI [of _ outs] exI [of _ p]) (simp only: simp_thms)
qed

section \<open>Serving a public connection\<close>

text \<open>\<open>GetProxy\<close> asks the client for a proxy exactly if it finds none in an open pool, on an open channel.\<close>

definition asks_proxy :: "public_world \<Rightarrow> nat \<Rightarrow> bool" where
  "asks_proxy w i \<longleftrightarrow> pp_conns (pb_pool w i) = [] \<and> \<not> pp_closed (pb_pool w i) \<and> \<not> pb_outClosed w i"

lemma pb_GetProxy_sends: "snd (pb_GetProxy w i) = (if asks_proxy w i then [MReqProxy] else [])"
  by (auto simp: pb_GetProxy_def GetProxy_def asks_proxy_def split: list.splits proxy_wait.splits)

definition asked_in :: "public_world \<Rightarrow> nat \<Rightarrow> nat \<Rightarrow> msg list" where
  "asked_in w i n = concat (map (\<lambda>k. if asks_proxy w (i + k) then [MReqProxy] else []) [0..<n])"

lemma asked_in_Suc: "asked_in w i (Suc n) = (if asks_proxy w i then [MReqProxy] else []) @ asked_in w (Suc i) n"
proof -
  have "[0..<Suc n] = 0 # map Suc [0..<n]"
    by (simp add: upt_conv_Cons map_Suc_upt del: upt_Suc)
  then show ?thesis by (simp add: asked_in_def comp_def del: upt_Suc)
qed

lemma start_proxy_spec:
  "start_proxy w left i = (outcome, cs, sent) \<Longrightarrow>
   length cs \<le> left \<and> (\<forall>k < length cs. fst (pb_GetProxy w (i + k)) = Inr (cs ! k)) \<and>
     (case outcome of
        Joined c \<Rightarrow> cs \<noteq> [] \<and> last cs = c \<and> pb_startOk w c \<and> (\<forall>d \<in> set (butlast cs). \<not> pb_startOk w d) \<and>
          sent = asked_in w i (length cs)
      | NoProxy err \<Rightarrow> length cs < left \<and> fst (pb_GetProxy w (i + length cs)) = Inl err \<and> (\<forall>d \<in> set cs. \<not> pb_startOk w d) \<and>
          sent = asked_in w i (Suc (length cs))
      | TooManyFailures \<Rightarrow> length cs = left \<and> (\<forall>d \<in> set cs. \<not> pb_startOk w d) \<and> sent = asked_in w i (length cs))"
proof (induction left arbitrary: i cs sent)
  case 0
  then show ?case by (auto simp: asked_in_def)
next
  case (Suc left)
  obtain r ms where g: "pb_GetProxy w i = (r, ms)" by (cases "pb_GetProxy w i")
  have ms: "ms = (if asks_proxy w i then [MReqProxy] else [])"
    using pb_GetProxy_sends [of w i] by (simp add: g)
  show ?case
  proof (cases r)
    case (Inl err)
    then show ?thesis
      using Suc.prems g ms by (auto simp: asked_in_Suc asked_in_def)
  next
    case (Inr c)
    show ?thesis
    proof (cases "pb_startOk w c")
      case True
      then show ?thesis
        using Suc.prems Inr g ms by (auto simp: asked_in_Suc asked_in_def)
    next
      case False
      obtain ds sent' where rec: "start_proxy w left (Suc i) = (outcome, ds, sent')" "cs = c # ds" "sent = ms @ sent'"
        using Suc.prems Inr False g by (auto split: prod.splits)
      have "\<forall>k < length cs. fst (pb_GetProxy w (i + k)) = Inr (cs ! k)"
        using Suc.IH [OF rec(1)] g Inr by (auto simp: rec(2) nth_Cons split: nat.split)
      then show ?thesis
        using Suc.IH [OF rec(1)] False unfolding rec(2,3)
        by (auto simp: asked_in_Suc ms split: public_outcome.splits)
    qed
  qed
qed

text \<open>
  C40: A public connection is served by the first proxy connection that accepts the start message,
  among at most twenty; it gives up after twenty, or when no proxy can be had. Every proxy that
  was taken and the public connection itself are closed in the end. The client is asked for a proxy in
  every round that finds the pool empty, and once more, to replace the one that was taken, if the connection is
  served, unless the control has closed its channel by then; the metrics count bytes only of a
  connection that was served.
\<close>

theorem public_connection_served:
  assumes "HandlePublicConnection w now publicConn t m = (outcome, closed, sent, m')"
  shows "\<exists>cs. closed = cs @ [publicConn] \<and> length cs \<le> 20 \<and> (\<forall>k < length cs. fst (pb_GetProxy w k) = Inr (cs ! k)) \<and>
    (case outcome of
       Joined c \<Rightarrow> cs \<noteq> [] \<and> last cs = c \<and> pb_startOk w c \<and> (\<forall>d \<in> set (butlast cs). \<not> pb_startOk w d) \<and>
         sent = asked_in w 0 (length cs) @ (if pb_outClosedAfter w then [] else [MReqProxy]) \<and>
         m' = lm_CloseConnection (tn_metric t) now (fst (pb_joined w)) (snd (pb_joined w)) (lm_OpenConnection (tn_metric t) m)
     | NoProxy err \<Rightarrow> fst (pb_GetProxy w (length cs)) = Inl err \<and> (\<forall>d \<in> set cs. \<not> pb_startOk w d) \<and>
         sent = asked_in w 0 (Suc (length cs)) \<and> m' = lm_OpenConnection (tn_metric t) m
     | TooManyFailures \<Rightarrow> length cs = 20 \<and> (\<forall>d \<in> set cs. \<not> pb_startOk w d) \<and> sent = asked_in w 0 20 \<and>
         m' = lm_OpenConnection (tn_metric t) m)"
proof -
  obtain out cs sent0 where st: "start_proxy w 20 0 = (out, cs, sent0)"
    by (cases "start_proxy w 20 0")
  have h: "HandlePublicConnection w now publicConn t m =
      (case out of
         Joined c \<Rightarrow> (out, cs @ [publicConn], sent0 @ (if pb_outClosedAfter w then [] else [MReqProxy]),
              lm_CloseConnection (tn_metric t) now (fst (pb_joined w)) (snd (pb_joined w)) (lm_OpenConnection (tn_metric t) m))
       | _ \<Rightarrow> (out, cs @ [publicConn], sent0, lm_OpenConnection (tn_metric t) m))"
    using st by (simp add: HandlePublicConnection_def proxyMaxPoolSize_def Let_def)
  show ?thesis
    using start_proxy_spec [OF st] assms unfolding h
    by (intro exI [of _ cs]) (auto split: public_outcome.splits)
qed

definition sample_public :: public_world where
  "sample_public = \<lparr>pb_outClosed = (\<lambda>_. False), pb_wait = Arrives,
     pb_pool = (\<lambda>k. \<lparr>pp_conns = (if k = 0 then [7] else []), pp_closed = False\<rparr>), pb_startOk = (\<lambda>c. c = 1),
     pb_outClosedAfter = False, pb_joined = (3, 4)\<rparr>"

lemma public_connection_served_witness:
  "\<exists>m'. HandlePublicConnection sample_public 0 9 (init_tunnel 0 0 sample_req sample_ctl) (NewLocalMetrics 0) =
     (Joined 1, [7, 1, 9], asked_in sample_public 0 2 @ [MReqProxy], m') \<and> asked_in sample_public 0 2 = [MReqProxy]"
proof -
  obtain out closed sent m' where h: "HandlePublicConnection sample_public 0 9
      (init_tunnel 0 0 sample_req sample_ctl) (NewLocalMetrics 0) = (out, closed, sent, m')"
    by (metis surj_pair)
  have o: "out = Joined 1" "closed = [7, 1, 9]"
    using h by (auto simp: HandlePublicConnection_def proxyMaxPoolSize_def eval_nat_numeral Let_def pb_GetProxy_def GetProxy_def
        sample_public_def)
  have "asked_in sample_public 0 2 = [MReqProxy]" "\<not> pb_outClosedAfter sample_public"
    by (simp_all add: asked_in_def asks_proxy_def sample_public_def eval_nat_numeral)
  moreover obtain cs where "closed = cs @ [9]" "sent = asked_in sample_public 0 (length cs) @ [MReqProxy]"
    using public_connection_served [OF h] calculation(2) by (auto simp: o(1))
  ultimately show ?thesis using h o by (auto simp: eval_nat_numeral)
qed

section \<open>The heartbeat\<close>

text \<open>
  The reaper shuts a control down exactly if no ping came for more than 30 seconds, and a ping
  is answered and counts as a sign of life: reaping at a time \<open>d\<close> after a ping begins the shutdown
  if and only if \<open>d\<close> is above 30 seconds, unless it had begun before.
\<close>

theorem heartbeat:
  assumes "sd_ok (co_shutdown c)" "manager_step e now (Received MPing) n c s = Some (c1, n1, s1)"
    "manager_step e (now + d) Reap n1 c1 s1 = Some (c2, n2, s2)"
  shows "(sd_WaitBegin (co_shutdown c2) \<longleftrightarrow> sd_WaitBegin (co_shutdown c) \<or> d > 30 * 1000000000) \<and>
    co_out c2 = co_out c @ [MPong] \<and> s2 = s"
  using assms
  by (auto simp: manager_step_def send_def pingTimeoutInterval_def sd_Begin_total sd_WaitBegin_def
      sd_ok_def split: if_splits)

definition sample_control :: control where
  "sample_control = \<lparr>co_info = sample_ctl, co_tunnels = [], co_lastPing = 0, co_shutdown = NewShutdown, co_out = []\<rparr>"

lemma heartbeat_witness:
  "\<exists>c1 c2. manager_step sample_env 5 (Received MPing) 0 sample_control empty_server = Some (c1, 0, empty_server) \<and>
     manager_step sample_env (5 + 31 * 1000000000) Reap 0 c1 empty_server = Some (c2, 0, empty_server) \<and>
     sd_WaitBegin (co_shutdown c2)"
proof -
  have ok: "sd_ok (co_shutdown sample_control)"
    by (simp add: sample_control_def)
  obtain c1 where 1: "manager_step sample_env 5 (Received MPing) 0 sample_control empty_server = Some (c1, 0, empty_server)"
    by (simp add: manager_step_def)
  then obtain c2 where 2: "manager_step sample_env (5 + 31 * 1000000000) Reap 0 c1 empty_server = Some (c2, 0, empty_server)"
    by (auto simp: manager_step_def send_def sample_control_def pingTimeoutInterval_def sd_Begin_total)
  show ?thesis
    using heartbeat [OF ok 1 2] 1 2 by auto
qed

section \<open>The tunnels of a control\<close>

text \<open>
  What holds between the messages of a client: its tunnels have different URLs, the registry has
  them under those URLs, which \<open>base\<close> (the registry before the client came) does not have, and is
  otherwise as \<open>base\<close>.
\<close>

definition control_ok :: "(string \<rightharpoonup> nat) \<Rightarrow> control \<Rightarrow> server \<Rightarrow> bool" where
  "control_ok base c s \<longleftrightarrow> tr_ok (sv_tunnels s) \<and> sd_ok (co_shutdown c) \<and> distinct (map tn_url (co_tunnels c)) \<and>
     (\<forall>t \<in> set (co_tunnels c). tn_urls t = [tn_url t] \<and> base (tn_url t) = None \<and>
        tr_Get (tn_url t) (sv_tunnels s) = Some (tn_number t)) \<and>
     (\<forall>url. url \<notin> tn_url ` set (co_tunnels c) \<longrightarrow> tr_Get url (sv_tunnels s) = base url)"

lemma send_simps [simp]:
  "co_tunnels (send m c) = co_tunnels c" "co_shutdown (send m c) = co_shutdown c"
  "co_info (send m c) = co_info c" "co_out (send m c) = co_out c @ [m]" "co_lastPing (send m c) = co_lastPing c"
  by (simp_all add: send_def)

lemma control_ok_refused: "control_ok base c s \<Longrightarrow> refused s s' \<Longrightarrow> control_ok base c s'"
  by (auto simp: control_ok_def refused_def tr_Get_def)

lemma control_ok_opened:
  assumes "control_ok base c s" "opened t0 t s s'" "tn_url t' = tn_url t" "tn_urls t' = tn_urls t"
    "tn_number t' = tn_number t" "tr_tunnels (sv_tunnels s'') = tr_tunnels (sv_tunnels s')"
    "tr_ok (sv_tunnels s'')"
  shows "control_ok base (c\<lparr>co_tunnels := co_tunnels c @ [t']\<rparr>) s''"
proof -
  have free: "tr_Get (tn_url t) (sv_tunnels s) = None"
    using assms(2) by (simp add: opened_def tr_free_def tr_Get_def)
  then have new: "tn_url t \<notin> tn_url ` set (co_tunnels c)"
    using assms(1) by (auto simp: control_ok_def)
  then have "base (tn_url t) = None"
    using assms(1) free by (auto simp: control_ok_def)
  then show ?thesis
    using assms new by (auto simp: control_ok_def opened_def tr_Get_def)
qed

text \<open>
  The answers to the protocols of one request: a success for each tunnel, in order, and one failure
  after them if a protocol was refused; nothing follows a failure.
\<close>

fun answered :: "string \<Rightarrow> string list \<Rightarrow> tunnel list \<Rightarrow> msg list \<Rightarrow> bool" where
  "answered reqId ps [] [] \<longleftrightarrow> ps = []"
| "answered reqId (p # ps) (t # ts) (m # ms) \<longleftrightarrow> m = tunnel_success t p reqId \<and> answered reqId ps ts ms"
| "answered reqId (p # ps) [] [m] \<longleftrightarrow> (\<exists>err. m = tunnel_failure err)"
| "answered reqId _ _ _ \<longleftrightarrow> False"

definition registered_ok ::
  "(string \<rightharpoonup> nat) \<Rightarrow> string \<Rightarrow> string list \<Rightarrow> control \<Rightarrow> (control \<times> nat \<times> server) option \<Rightarrow> bool" where
  "registered_ok base reqId protos c out \<longleftrightarrow>
     (\<exists>c' n' s' ts ms. out = Some (c', n', s') \<and> control_ok base c' s' \<and>
        co_tunnels c' = co_tunnels c @ ts \<and> co_out c' = co_out c @ ms \<and> answered reqId protos ts ms \<and>
        (sd_WaitBegin (co_shutdown c') \<longleftrightarrow> sd_WaitBegin (co_shutdown c) \<or>
           length ts < length protos \<and> co_tunnels c' = []))"

lemma registered_ok_failure:
  assumes "control_ok base c s1"
  shows "registered_ok base reqId (p # protos) c
    (let c1 = send (tunnel_failure err) c in
     if co_tunnels c1 = [] then
       (case sd_Begin (co_shutdown c1) of None \<Rightarrow> None | Some sd \<Rightarrow> Some (c1\<lparr>co_shutdown := sd\<rparr>, n, s1))
     else Some (c1, n, s1))"
proof -
  have "answered reqId (p # protos) [] [tunnel_failure err]"
    by auto
  then show ?thesis
    using assms unfolding registered_ok_def
    by (auto simp: Let_def sd_Begin_total control_ok_def sd_WaitBegin_def sd_ok_def
        simp del: answered.simps intro!: exI [of _ "[tunnel_failure err]"])
qed

lemma registered_ok_success:
  assumes "registered_ok base reqId protos (send (tunnel_success t p reqId) (c\<lparr>co_tunnels := co_tunnels c @ [t]\<rparr>)) out"
  shows "registered_ok base reqId (p # protos) c out"
proof -
  let ?c1 = "send (tunnel_success t p reqId) (c\<lparr>co_tunnels := co_tunnels c @ [t]\<rparr>)"
  obtain c' n' s' ts ms where o: "out = Some (c', n', s')" "control_ok base c' s'"
    "co_tunnels c' = co_tunnels ?c1 @ ts" "co_out c' = co_out ?c1 @ ms" "answered reqId protos ts ms"
    "sd_WaitBegin (co_shutdown c') \<longleftrightarrow> sd_WaitBegin (co_shutdown ?c1) \<or>
       length ts < length protos \<and> co_tunnels c' = []"
    using assms unfolding registered_ok_def by (elim exE conjE) (rule that)
  then show ?thesis
    unfolding registered_ok_def
    by (intro exI [of _ c'] exI [of _ n'] exI [of _ s'] exI [of _ "t # ts"]
        exI [of _ "tunnel_success t p reqId # ms"]) (simp add: send_def)
qed

lemma control_ok_send: "control_ok base (send m c) s = control_ok base c s"
  by (simp add: control_ok_def)

lemma register_protocols_ok:
  assumes "control_ok base c s" "se_domains e \<noteq> []"
  shows "registered_ok base (rt_ReqId raw) protos c (register_protocols e now protos n raw c s)"
  using assms(1)
proof (induction protos arbitrary: n raw c s)
  case Nil
  then show ?case
    by (auto simp: registered_ok_def intro!: exI [of _ "[]"])
next
  case (Cons p protos)
  let ?m = "raw\<lparr>rt_Protocol := p\<rparr>"
  have ok: "tr_ok (sv_tunnels s)"
    using Cons.prems by (simp add: control_ok_def)
  have succeed: ?case if r: "NewTunnel e now n ?m (co_info c) s = Some (Inr t, s1)"
    and c1: "control_ok base (c\<lparr>co_tunnels := co_tunnels c @ [t]\<rparr>) s1" for t s1
  proof -
    let ?c1 = "send (tunnel_success t p (rt_ReqId raw)) (c\<lparr>co_tunnels := co_tunnels c @ [t]\<rparr>)"
    let ?raw = "raw\<lparr>rt_Hostname := replace_first (p @ ''://'') [] (tn_url t)\<rparr>"
    have "registered_ok base (rt_ReqId raw) protos ?c1 (register_protocols e now protos (Suc n) ?raw ?c1 s1)"
      using Cons.IH [of ?c1 s1 ?raw "Suc n"] c1 by (simp add: control_ok_send)
    then show ?thesis
      using r by (simp add: Let_def registered_ok_success)
  qed
  show ?case
  proof (cases rule: NewTunnel_cases [OF ok impI [OF assms(2)], where m = ?m and now = now and n = n and ctl = "co_info c",
        case_names refused tcp vhost])
    case (refused err s')
    then show ?thesis
      using registered_ok_failure [OF control_ok_refused [OF Cons.prems refused(2)]] by simp
  next
    case (tcp t s')
    then show ?thesis
      using succeed control_ok_opened [OF Cons.prems tcp(3)] by (simp add: opened_def)
  next
    case (vhost t s')
    then show ?thesis
      using succeed control_ok_opened [OF Cons.prems vhost(4), of "with_auth t"]
      by (simp add: opened_def with_auth_def)
  qed
qed

text \<open>
  C2: A request for tunnels never panics and is answered completely: one message per protocol, in
  order, each with the URL of the tunnel that was opened for it, up to the first protocol that is
  refused, which is answered with the error and ends the request. The control shuts down by itself
  only if a refusal leaves it without any tunnel. All tunnels of the control stay registered under
  distinct URLs.
\<close>

theorem request_is_answered:
  assumes "control_ok base c s" "se_domains e \<noteq> []"
  shows "\<exists>c' n' s' ts ms. registerTunnel e now n raw c s = Some (c', n', s') \<and> control_ok base c' s' \<and>
    co_tunnels c' = co_tunnels c @ ts \<and> co_out c' = co_out c @ ms \<and>
    answered (rt_ReqId raw) (split_on CHR ''+'' (rt_Protocol raw)) ts ms \<and>
    (sd_WaitBegin (co_shutdown c') \<longleftrightarrow> sd_WaitBegin (co_shutdown c) \<or>
       length ts < length (split_on CHR ''+'' (rt_Protocol raw)) \<and> co_tunnels c' = [])"
  using register_protocols_ok [OF assms, of raw "split_on CHR ''+'' (rt_Protocol raw)" now n]
  unfolding registerTunnel_def registered_ok_def .

lemma sample_control_ok: "control_ok Map.empty sample_control empty_server"
  by (simp add: control_ok_def sample_control_def empty_server_ok tr_Get_def)

lemma request_is_answered_witness:
  "\<exists>c' n' s'. registerTunnel sample_env 0 1 sample_req sample_control empty_server = Some (c', n', s')"
  using request_is_answered [OF sample_control_ok, of sample_env 0 1 sample_req]
  by (auto simp: sample_env_def)

text \<open>A client's whole session, as the manager sees it.\<close>

fun control_run ::
  "server_env \<Rightarrow> (int \<times> manager_event) list \<Rightarrow> nat \<Rightarrow> control \<Rightarrow> server \<Rightarrow> (control \<times> nat \<times> server) option" where
  "control_run e [] n c s = Some (c, n, s)"
| "control_run e ((now, ev) # evs) n c s =
     (case manager_step e now ev n c s of
        None \<Rightarrow> None
      | Some (c', n', s') \<Rightarrow> control_run e evs n' c' s')"

lemma manager_step_ok:
  assumes "control_ok base c s" "se_domains e \<noteq> []"
  shows "\<exists>c' n' s'. manager_step e now ev n c s = Some (c', n', s') \<and> control_ok base c' s'"
proof (cases ev)
  case Reap
  then show ?thesis
    using assms(1) by (simp add: manager_step_def control_ok_def sd_Begin_total sd_ok_def)
next
  case (Received m)
  have "\<exists>c' n' s'. registerTunnel e now n raw c s = Some (c', n', s') \<and> control_ok base c' s'" for raw
    using register_protocols_ok [OF assms, of raw "split_on CHR ''+'' (rt_Protocol raw)" now n]
    unfolding registerTunnel_def registered_ok_def by blast
  then show ?thesis
    using assms(1) by (cases m) (simp_all add: Received manager_step_def control_ok_def)
qed

lemma control_run_ok:
  "control_ok base c s \<Longrightarrow> se_domains e \<noteq> [] \<Longrightarrow>
   \<exists>c' n' s'. control_run e evs n c s = Some (c', n', s') \<and> control_ok base c' s'"
proof (induction evs arbitrary: n c s)
  case (Cons x evs)
  obtain now ev where x: "x = (now, ev)" by force
  obtain c1 n1 s1 where "manager_step e now ev n c s = Some (c1, n1, s1)" "control_ok base c1 s1"
    using manager_step_ok [OF Cons.prems] by blast
  then show ?case
    using Cons.IH [of c1 s1 n1] Cons.prems(2) x by simp
qed simp

lemma shutdown_tunnels_registry:
  "\<forall>t \<in> set ts. tn_urls t = [tn_url t] \<Longrightarrow>
   tr_Get url (sv_tunnels (shutdown_tunnels ts s)) =
     (if url \<in> tn_url ` set ts then None else tr_Get url (sv_tunnels s))"
proof (induction ts arbitrary: s)
  case (Cons t ts)
  have "tr_Get url (sv_tunnels (snd (tunnel_Shutdown t s))) = (if url = tn_url t then None else tr_Get url (sv_tunnels s))"
    using Cons.prems
    by (auto simp: tunnel_Shutdown_def unregisterURLs_def tr_Del_def tr_Get_def Let_def split: option.splits)
  then show ?case
    using Cons by auto
qed simp

text \<open>
  C1: A client leaves no trace: whatever it asked for during its session, nothing panics on the way,
  and when the stopper has shut its tunnels down, the registry has exactly the URLs it had before
  the client came, with the same tunnels.
\<close>

theorem session_leaves_no_url:
  assumes "tr_ok (sv_tunnels s)" "se_domains e \<noteq> []" "co_tunnels c = []" "sd_ok (co_shutdown c)"
  shows "\<exists>c' n' s'. control_run e evs n c s = Some (c', n', s') \<and>
    (\<forall>url. tr_Get url (sv_tunnels (shutdown_tunnels (co_tunnels c') s')) = tr_Get url (sv_tunnels s))"
proof -
  have "control_ok (\<lambda>url. tr_Get url (sv_tunnels s)) c s"
    using assms by (simp add: control_ok_def)
  then obtain c' n' s' where run: "control_run e evs n c s = Some (c', n', s')"
    and ok: "control_ok (\<lambda>url. tr_Get url (sv_tunnels s)) c' s'"
    using control_run_ok [OF _ assms(2)] by blast
  have "tr_Get url (sv_tunnels (shutdown_tunnels (co_tunnels c') s')) = tr_Get url (sv_tunnels s)" for url
    using shutdown_tunnels_registry [of "co_tunnels c'" url s'] ok by (auto simp: control_ok_def)
  then show ?thesis
    using run by blast
qed

lemma session_leaves_no_url_witness:
  "\<exists>c' n' s'. control_run sample_env [(0, Received (MReqTunnel sample_req)), (9, Received MPing)] 1
       sample_control empty_server = Some (c', n', s') \<and>
     tr_Get ''tcp://example.com:5000'' (sv_tunnels (shutdown_tunnels (co_tunnels c') s')) = None"
  using session_leaves_no_url [OF empty_server_ok, of sample_env sample_control
      "[(0, Received (MReqTunnel sample_req)), (9, Received MPing)]" 1]
  by (auto simp: sample_control_def sample_env_def tr_Get_def)

section \<open>Two protocols on ports that are not the default\<close>

lemma replace_first_prefix: "old \<noteq> [] \<Longrightarrow> replace_first old new (old @ s) = new @ s"
  by (cases old) (simp_all add: has_prefix_def)

lemma host_with_port_normal:
  assumes "validHostname h" "0 \<le> port"
  shows "to_lower ul (trim_space (h @ '':'' @ show_int port)) = h @ '':'' @ show_int port"
    and "\<not> validHostname (h @ '':'' @ show_int port)"
proof -
  let ?s = "h @ '':'' @ show_int port"
  have colon: "is_ascii CHR '':'' \<and> lower_char CHR '':'' = CHR '':''" "solid CHR '':''"
    by (simp_all add: is_ascii_def lower_char_def is_upper_def solid_ascii)
  have chars: "\<forall>c \<in> set ?s. is_ascii c \<and> lower_char c = c" "\<forall>c \<in> set ?s. solid c"
    using validHostname_chars [OF assms(1)] host_char_facts show_int_digits [OF assms(2)] digit_facts colon
    by auto
  have "trim_space ?s = ?s"
    using chars(2) hd_in_set [of ?s] last_in_set [of ?s] by (intro trim_space_id) blast+
  then show "to_lower ul (trim_space ?s) = ?s"
    using to_lower_id [OF chars(1)] by simp
  show "\<not> validHostname ?s"
    using validHostname_chars [of ?s "CHR '':''"] host_char_facts(4) by auto
qed

text \<open>
  \<open>http+https\<close> cannot work off the default ports: the URL of the first tunnel then has a port,
  \<open>registerTunnel\<close> takes host and port from it as the host name for the second protocol, and a
  host name with a port is not valid. The client gets one tunnel and the error \<open>Invalid hostname\<close>,
  whatever the configuration of the second protocol.
\<close>

theorem second_protocol_refused:
  assumes "NewTunnel e now n (raw\<lparr>rt_Protocol := p\<rparr>) (co_info c) s = Some (Inr t, s1)"
    "tn_url t = p @ ''://'' @ h @ '':'' @ show_int port" "validHostname h" "0 \<le> port"
    and "q = ''http'' \<or> q = ''https''" "se_listeners e q = Some qport"
    "publicVhosts (se_lower e) (se_VHOST e) (se_domains e) q qport \<noteq> []"
  shows "\<exists>c'. register_protocols e now [p, q] n raw c s = Some (c', Suc n, s1) \<and>
    co_tunnels c' = co_tunnels c @ [t] \<and>
    co_out c' = co_out c @ [tunnel_success t p (rt_ReqId raw), tunnel_failure ''Invalid hostname'']"
proof -
  let ?h = "h @ '':'' @ show_int port"
  let ?m = "raw\<lparr>rt_Hostname := ?h, rt_Protocol := q\<rparr>"
  have "q \<noteq> ''tcp''" "defaultPortMap q \<noteq> None"
    using assms(5) by (auto simp: defaultPortMap_def)
  moreover have "?h \<noteq> []"
    by simp
  moreover have "tn_req (init_tunnel now (Suc n) ?m (co_info c)) = ?m"
    by (simp add: init_tunnel_def)
  ultimately have "NewTunnel e now (Suc n) ?m (co_info c) s1 = Some (Inl ''Invalid hostname'', s1)"
    using assms(5-7) host_with_port_normal(1) [OF assms(3,4), of "se_lower e"]
      host_with_port_normal(2) [OF assms(3,4)]
    by (simp add: NewTunnel_def registerVhost_def Let_def)
  moreover have "replace_first (p @ ''://'') [] (tn_url t) = ?h"
    using replace_first_prefix [of "p @ ''://''" "[]" ?h] by (simp add: assms(2))
  ultimately show ?thesis
    using assms(1) by (simp add: Let_def send_def)
qed

definition env_8080 :: server_env where
  "env_8080 = sample_env\<lparr>se_listeners := [''http'' \<mapsto> 8080, ''https'' \<mapsto> 8080]\<rparr>"

lemma vhosts_8080:
  "publicVhosts id [] [''example.com''] ''http'' 8080 = [''example.com:8080'']"
  "publicVhosts id [] [''example.com''] ''https'' 8080 = [''example.com:8080'']"
proof -
  have valid: "list_all validHostname [''example.com'']"
    by (simp add: validHostname_def validHostnameLabel_def label_char_def is_lower_def is_digit_def)
  have ports: "defaultPortMap ''http'' = Some 80" "defaultPortMap ''https'' = Some 443"
    by (simp_all add: defaultPortMap_def)
  have host: "host_port 8080 ''example.com'' = ''example.com:8080''"
    by (simp add: host_port_def show_int_def show_digits.simps)
  show "publicVhosts id [] [''example.com''] ''http'' 8080 = [''example.com:8080'']"
    "publicVhosts id [] [''example.com''] ''https'' 8080 = [''example.com:8080'']"
    using publicVhosts_no_VHOST [OF _ valid _ _ ports(1), of 8080 id]
      publicVhosts_no_VHOST [OF _ valid _ _ ports(2), of 8080 id] host by simp_all
qed

lemma sample_8080_opens:
  "\<exists>t s1. NewTunnel env_8080 0 1 (sample_http\<lparr>rt_Protocol := ''http''\<rparr>) sample_ctl empty_server = Some (Inr t, s1) \<and>
     tn_url t = ''http://a.example.com:8080''"
proof -
  have label: "validHostnameLabel ''a''"
    by (simp add: validHostnameLabel_def label_char_def is_lower_def)
  let ?m = "sample_http\<lparr>rt_Protocol := ''http''\<rparr>"
  let ?t = "init_tunnel 0 1 ?m sample_ctl"
  have facts: "rt_Hostname ?m = []" "rt_Subdomain ?m = ''A''" "rt_Protocol ?m = ''http''"
    "se_lower env_8080 = id" "se_VHOST env_8080 = []" "se_domains env_8080 = [''example.com'']"
    "se_listeners env_8080 ''http'' = Some 8080" "tn_req ?t = ?m" "tn_url ?t = []"
    by (simp_all add: sample_http_def env_8080_def sample_env_def init_tunnel_def)
  obtain t1 s1 where reg: "registerURL ''http://a.example.com:8080'' ?t empty_server = Inr (t1, s1)"
      "tn_url t1 = ''http://a.example.com:8080''"
    by (simp add: registerURL_def tr_Register_def add_url_def Let_def init_tunnel_def)
  have "to_lower id (trim_space []) = []"
    by (simp add: to_lower_def)
  then have "registerVhost env_8080 0 ''http'' 8080 ?t empty_server = Some (Inr t1, s1)"
    using reg(1) label
    by (simp add: registerVhost_def facts vhosts_8080 sample_subdomain defaultPortMap_def Let_def
        del: trim_space_Nil One_nat_def)
  then show ?thesis
    using reg(2) by (simp add: NewTunnel_def facts(3,7) Let_def del: One_nat_def)
qed

lemma second_protocol_refused_witness:
  "\<exists>c' s1. register_protocols env_8080 0 [''http'', ''https''] 1 sample_http sample_control empty_server = Some (c', 2, s1) \<and>
     (\<exists>t. co_out c' = [tunnel_success t ''http'' ''r'', tunnel_failure ''Invalid hostname''])"
proof -
  obtain t s1 where t: "NewTunnel env_8080 0 1 (sample_http\<lparr>rt_Protocol := ''http''\<rparr>) (co_info sample_control) empty_server = Some (Inr t, s1)"
      "tn_url t = ''http://a.example.com:8080''"
    using sample_8080_opens by (auto simp: sample_control_def)
  have port: "tn_url t = ''http'' @ ''://'' @ ''a.example.com'' @ '':'' @ show_int 8080"
    by (simp add: t(2) show_int_def show_digits.simps)
  have host: "validHostname ''a.example.com''"
    by (simp add: validHostname_def validHostnameLabel_def label_char_def is_lower_def is_digit_def)
  have env: "se_listeners env_8080 ''https'' = Some 8080"
    "publicVhosts (se_lower env_8080) (se_VHOST env_8080) (se_domains env_8080) ''https'' 8080 \<noteq> []"
    by (simp_all add: env_8080_def sample_env_def vhosts_8080 flip: id_def)
  show ?thesis
    using second_protocol_refused [OF t(1) port host _ _ env]
    by (auto simp: sample_control_def sample_http_def numeral_2_eq_2)
qed

end
