(* ===== verification/Server_Main.thy ===== *)
theory Server_Main
  imports Control Certs
begin

text \<open>
  The server as a whole, \<open>src/ngrok/server/main.go\<close> and \<open>cli.go\<close>: the options, the start, the
  connection slots and the listener for control and proxy connections.
\<close>

section \<open>Options\<close>

record Options =
  op_httpAddr :: string
  op_httpsAddr :: string
  op_tunnelAddr :: string
  op_domain :: string
  op_domainCerts :: "string list"
  op_tlsCrt :: string
  op_tlsKey :: string
  op_logto :: string
  op_loglevel :: string
  op_authToken :: string
  op_allowRemotePorts :: bool
  op_maxConnections :: int

text \<open>The options without any flag; \<open>token\<close> is the variable \<open>NGROK_AUTH_TOKEN\<close>.\<close>

definition default_options :: "string \<Rightarrow> Options" where
  "default_options token =
     \<lparr>op_httpAddr = '':80'', op_httpsAddr = '':443'', op_tunnelAddr = '':4443'', op_domain = ''ngrok.com'',
      op_domainCerts = [], op_tlsCrt = [], op_tlsKey = [], op_logto = ''stdout'', op_loglevel = ''INFO'',
      op_authToken = token, op_allowRemotePorts = False, op_maxConnections = 1024\<rparr>"

definition domainCertFlags_Set :: "string \<Rightarrow> string list \<Rightarrow> string list" where
  "domainCertFlags_Set value f = f @ [value]"

text \<open>The flags of the command line, already split into names and values by package \<open>flag\<close>.\<close>

datatype option_flag =
  F_httpAddr string | F_httpsAddr string | F_tunnelAddr string | F_domain string | F_domainCert string
| F_tlsCrt string | F_tlsKey string | F_log string | F_log_level string | F_authToken string
| F_allowRemotePorts bool | F_maxConnections int

fun set_flag :: "Options \<Rightarrow> option_flag \<Rightarrow> Options" where
  "set_flag o' (F_httpAddr v) = o'\<lparr>op_httpAddr := v\<rparr>"
| "set_flag o' (F_httpsAddr v) = o'\<lparr>op_httpsAddr := v\<rparr>"
| "set_flag o' (F_tunnelAddr v) = o'\<lparr>op_tunnelAddr := v\<rparr>"
| "set_flag o' (F_domain v) = o'\<lparr>op_domain := v\<rparr>"
| "set_flag o' (F_domainCert v) = o'\<lparr>op_domainCerts := domainCertFlags_Set v (op_domainCerts o')\<rparr>"
| "set_flag o' (F_tlsCrt v) = o'\<lparr>op_tlsCrt := v\<rparr>"
| "set_flag o' (F_tlsKey v) = o'\<lparr>op_tlsKey := v\<rparr>"
| "set_flag o' (F_log v) = o'\<lparr>op_logto := v\<rparr>"
| "set_flag o' (F_log_level v) = o'\<lparr>op_loglevel := v\<rparr>"
| "set_flag o' (F_authToken v) = o'\<lparr>op_authToken := v\<rparr>"
| "set_flag o' (F_allowRemotePorts b) = o'\<lparr>op_allowRemotePorts := b\<rparr>"
| "set_flag o' (F_maxConnections n) = o'\<lparr>op_maxConnections := n\<rparr>"

definition parseArgs :: "string \<Rightarrow> option_flag list \<Rightarrow> Options" where
  "parseArgs token flags = foldl set_flag (default_options token) flags"

section \<open>Connection slots\<close>

text \<open>The channel \<open>connSlots\<close>: its capacity and how many slots are taken, \<open>None\<close> before the start.\<close>

type_synonym conn_slots = "(nat \<times> nat) option"

definition acquireConnSlot :: "conn_slots \<Rightarrow> bool \<times> conn_slots" where
  "acquireConnSlot sl =
     (case sl of
        None \<Rightarrow> (True, None)
      | Some (cap, used) \<Rightarrow> if used < cap then (True, Some (cap, Suc used)) else (False, sl))"

text \<open>\<open>None\<close>: the receive from the empty channel blocks.\<close>

definition releaseConnSlot :: "conn_slots \<Rightarrow> conn_slots option" where
  "releaseConnSlot sl =
     (case sl of
        None \<Rightarrow> Some None
      | Some (cap, used) \<Rightarrow> if used = 0 then None else Some (Some (cap, used - 1)))"

section \<open>The listener for control and proxy connections\<close>

text \<open>How the handler of a connection ends, from its first message.\<close>

datatype first_message =
  ReadFails
| FirstAuth bool
| FirstRegProxy bool
| FirstOther

text \<open>
  Whether the connection is still open when the handler returns: a control or a proxy connection
  that was accepted stays open, everything else was closed.
\<close>

fun stays_open :: "first_message \<Rightarrow> bool" where
  "stays_open ReadFails = False"
| "stays_open (FirstAuth accepted) = accepted"
| "stays_open (FirstRegProxy kept) = kept"
| "stays_open FirstOther = False"

record tunnel_listener =
  tl_slots :: conn_slots
  tl_handlers :: "nat list"
  tl_open :: "nat list"

text \<open>A connection is accepted, a handler returns, or the client of an open connection hangs up.\<close>

datatype listener_event = Accept nat | HandlerReturns nat first_message | HangsUp nat

fun listener_step :: "tunnel_listener \<Rightarrow> listener_event \<Rightarrow> tunnel_listener" where
  "listener_step l (Accept c) =
     (let (got, sl) = acquireConnSlot (tl_slots l) in
      if got then l\<lparr>tl_slots := sl, tl_handlers := c # tl_handlers l\<rparr> else l)"
| "listener_step l (HandlerReturns c m) =
     (if c \<in> set (tl_handlers l) then
        (case releaseConnSlot (tl_slots l) of
           None \<Rightarrow> l
         | Some sl \<Rightarrow>
             l\<lparr>tl_slots := sl, tl_handlers := remove1 c (tl_handlers l),
               tl_open := (if stays_open m then c # tl_open l else tl_open l)\<rparr>)
      else l)"
| "listener_step l (HangsUp c) = l\<lparr>tl_open := remove1 c (tl_open l)\<rparr>"

section \<open>The start\<close>

datatype start_panic =
  BadMaxConnections
| NoSeed string
| BadDomainCerts domain_cert_error
| NoCertificate string
| CannotListen string string

record started =
  st_env :: server_env
  st_slots :: conn_slots
  st_tls :: certReloader
  st_registry :: tunnel_registry
  st_sessions :: sessions
  st_authToken :: string

definition registryCacheSize :: "64 word" where
  "registryCacheSize = 1048576"

text \<open>
  The world of the start: the random seed, \<open>conn.Listen\<close> (the port that was bound), the variable
  \<open>VHOST\<close>, the certificate files, and what later calls of \<open>net.ListenTCP\<close> and \<open>rand\<close> answer.
\<close>

record start_world =
  sw_seed :: "string + unit"
  sw_Listen :: "string \<Rightarrow> string + int"
  sw_VHOST :: string
  sw_lower :: "string \<Rightarrow> string"
  sw_certs :: cert_world
  sw_now :: int
  sw_listen_tcp :: "nat \<Rightarrow> int \<Rightarrow> string + int"
  sw_rand :: "nat \<Rightarrow> int"

definition add_listener ::
  "start_world \<Rightarrow> string \<Rightarrow> string \<Rightarrow> (string \<rightharpoonup> int) \<Rightarrow> start_panic + (string \<rightharpoonup> int)" where
  "add_listener w proto addr ls =
     (if addr = [] then Inr ls
      else (case sw_Listen w addr of
              Inl err \<Rightarrow> Inl (CannotListen addr err)
            | Inr port \<Rightarrow> Inr (ls(proto \<mapsto> port))))"

definition Main_start :: "start_world \<Rightarrow> Options \<Rightarrow> start_panic + started" where
  "Main_start w opts =
     (if op_maxConnections opts \<le> 0 then Inl BadMaxConnections
      else case sw_seed w of
        Inl err \<Rightarrow> Inl (NoSeed err)
      | Inr _ \<Rightarrow>
     (case parseDomainTLSConfigs (sw_lower w) (op_domainCerts opts) of
        Inl err \<Rightarrow> Inl (BadDomainCerts err)
      | Inr certs \<Rightarrow>
     (case LoadTLSConfig (sw_lower w) (sw_now w) (sw_now w) (sw_certs w) (sw_certs w)
             (op_tlsCrt opts) (op_tlsKey opts) certs of
        Inl err \<Rightarrow> Inl (NoCertificate err)
      | Inr tls \<Rightarrow>
     (case add_listener w ''http'' (op_httpAddr opts) Map.empty of
        Inl p \<Rightarrow> Inl p
      | Inr ls1 \<Rightarrow>
     (case add_listener w ''https'' (op_httpsAddr opts) ls1 of
        Inl p \<Rightarrow> Inl p
      | Inr ls2 \<Rightarrow>
     (case sw_Listen w (op_tunnelAddr opts) of
        Inl err \<Rightarrow> Inl (CannotListen (op_tunnelAddr opts) err)
      | Inr _ \<Rightarrow>
          Inr \<lparr>st_env =
                 \<lparr>se_lower = sw_lower w, se_VHOST = sw_VHOST w,
                  se_domains = configuredDomains (sw_lower w) (op_domain opts) certs,
                  se_allowRemotePorts = op_allowRemotePorts opts, se_listeners = ls2,
                  se_listen = sw_listen_tcp w, se_rand = sw_rand w\<rparr>,
               st_slots = Some (nat (op_maxConnections opts), 0), st_tls = tls,
               st_registry = NewTunnelRegistry registryCacheSize, st_sessions = init_sessions,
               st_authToken = op_authToken opts\<rparr>))))))"

section \<open>What the slots bound\<close>

definition listener_ok :: "nat \<Rightarrow> tunnel_listener \<Rightarrow> bool" where
  "listener_ok cap l \<longleftrightarrow> tl_slots l = Some (cap, length (tl_handlers l)) \<and> length (tl_handlers l) \<le> cap"

lemma listener_step_ok: "listener_ok cap l \<Longrightarrow> listener_ok cap (listener_step l ev)"
  by (cases ev)
    (auto simp: listener_ok_def acquireConnSlot_def releaseConnSlot_def length_remove1 Let_def
      dest: length_pos_if_in_set split: option.splits)

interpretation listener: machine_invariant listener_step "listener_ok cap" for cap
  by unfold_locales (rule listener_step_ok)

definition new_listener :: "nat \<Rightarrow> tunnel_listener" where
  "new_listener cap = \<lparr>tl_slots = Some (cap, 0), tl_handlers = [], tl_open = []\<rparr>"

lemma new_listener_ok: "listener_ok cap (new_listener cap)"
  by (simp add: listener_ok_def new_listener_def)

text \<open>
  The slots count the handlers that run: however connections come and go, a slot is taken for
  each running handler and given back when it returns, never more than \<open>maxConnections\<close> handlers
  run, and giving a slot back never blocks.
\<close>

theorem slots_bound_handlers:
  assumes "l = run listener_step (new_listener cap) evs"
  shows "tl_slots l = Some (cap, length (tl_handlers l)) \<and> length (tl_handlers l) \<le> cap \<and>
    (c \<in> set (tl_handlers l) \<longrightarrow> releaseConnSlot (tl_slots l) \<noteq> None)"
  using listener.run_inv [OF new_listener_ok, of cap evs] length_pos_if_in_set
  unfolding assms listener_ok_def by (auto simp: releaseConnSlot_def)

lemma slots_bound_handlers_witness:
  "length (tl_handlers (run listener_step (new_listener 1) [Accept 0, Accept 1])) \<le> 1"
  using slots_bound_handlers [OF refl, of 1 "[Accept 0, Accept 1]"] by blast

text \<open>
  The slots do not bound the tunnel connections: since the handler of a control or proxy
  connection returns as soon as the connection is set up, with one slot any number of accepted
  connections can be open at the same time, with all slots free.
\<close>

theorem slots_do_not_bound_tunnels:
  assumes "1 \<le> cap"
  shows "\<exists>evs. length (tl_open (run listener_step (new_listener cap) evs)) = n \<and>
    tl_slots (run listener_step (new_listener cap) evs) = Some (cap, 0)"
proof -
  define f where "f c = [Accept c, HandlerReturns c (FirstAuth True)]" for c :: nat
  have "length (tl_open (run listener_step l (concat (map f cs)))) = length (tl_open l) + length cs \<and>
      tl_slots (run listener_step l (concat (map f cs))) = Some (cap, 0)"
    if "tl_slots l = Some (cap, 0)" "tl_handlers l = []" for l cs
    using that
  proof (induction cs arbitrary: l)
    case (Cons c cs)
    let ?l = "l\<lparr>tl_open := c # tl_open l\<rparr>"
    have "run listener_step l (f c) = ?l"
      using Cons.prems assms
      by (cases l) (simp add: f_def acquireConnSlot_def releaseConnSlot_def)
    then show ?case
      using Cons.IH [of ?l] Cons.prems by simp
  qed simp
  from this [of "new_listener cap" "[0..<n]"] show ?thesis
    by (auto simp: new_listener_def)
qed

lemma slots_do_not_bound_tunnels_witness:
  "\<exists>evs. length (tl_open (run listener_step (new_listener 1) evs)) = 1000 \<and>
     tl_slots (run listener_step (new_listener 1) evs) = Some (1, 0)"
  by (rule slots_do_not_bound_tunnels) simp

section \<open>A server that started\<close>

text \<open>
  A server that started is ready: it has a positive number of slots, all free; every domain of
  its command line has its own certificate under its name; and every TLS handshake it will ever
  answer gets a certificate, whatever becomes of the certificate files.
\<close>

theorem started_server_ready:
  assumes "Main_start w opts = Inr st"
  shows "st_slots st = Some (nat (op_maxConnections opts), 0) \<and> 0 < op_maxConnections opts \<and>
    (\<exists>certs. parseDomainTLSConfigs (sw_lower w) (op_domainCerts opts) = Inr certs \<and>
      (\<forall>d \<in> set certs. certificateForName (sw_lower w) (dt_Domain d) (st_tls st) = Some (dt_Domain d))) \<and>
    (\<exists>cert r'. GetCertificate ul now later w1 w2 name (run (rl_step ul) (st_tls st) es) = (Inr cert, r'))"
proof -
  obtain certs tls where pos: "0 < op_maxConnections opts"
    and certs: "parseDomainTLSConfigs (sw_lower w) (op_domainCerts opts) = Inr certs"
    and tls: "LoadTLSConfig (sw_lower w) (sw_now w) (sw_now w) (sw_certs w) (sw_certs w)
             (op_tlsCrt opts) (op_tlsKey opts) certs = Inr tls"
    and st: "st_slots st = Some (nat (op_maxConnections opts), 0)" "st_tls st = tls"
    using assms by (auto simp: Main_start_def split: if_splits sum.splits)
  have valid: "\<forall>d \<in> set certs. validHostname (dt_Domain d)"
    using parsed_domains_valid [OF certs] by simp
  have "certificateForName (sw_lower w) (dt_Domain d) tls = Some (dt_Domain d)" if "d \<in> set certs" for d
    using certificate_of_own_name [OF tls valid] that by blast
  moreover have "\<exists>cert r'. GetCertificate ul now later w1 w2 name (run (rl_step ul) tls es) = (Inr cert, r')"
    using GetCertificate_serves [OF reloader.run_inv [OF LoadTLSConfig_loaded [OF tls]]] by blast
  ultimately show ?thesis
    using pos certs st by auto
qed

definition sample_world :: start_world where
  "sample_world =
     \<lparr>sw_seed = Inr (), sw_Listen = (\<lambda>_. Inr 80), sw_VHOST = [], sw_lower = id, sw_certs = good_world 1 [],
      sw_now = 0, sw_listen_tcp = (\<lambda>_ p. Inr p), sw_rand = int\<rparr>"

lemma started_server_ready_witness:
  "\<exists>st cert r'. Main_start sample_world (default_options ''t'') = Inr st \<and>
     GetCertificate id 9 9 bad_world bad_world ''x'' (st_tls st) = (Inr cert, r')"
proof -
  obtain tls where tls: "LoadTLSConfig id 0 0 (good_world 1 []) (good_world 1 []) [] [] [] = Inr tls"
    by (simp add: LoadTLSConfig_def cs_Certificate_def cs_reload_def good_world_def newCertSource_def
        statModTimes_def fileOrAsset_def cs_unchanged_def nextCertificateCheck_def Let_def
        certReloadBeforeExpiry_def certReloadRetryAfter_def)
  have "\<not> isl (Main_start sample_world (default_options ''t''))"
    by (simp add: Main_start_def sample_world_def default_options_def add_listener_def tls)
  then obtain st where st: "Main_start sample_world (default_options ''t'') = Inr st"
    by (cases "Main_start sample_world (default_options ''t'')") auto
  show ?thesis
    using started_server_ready [OF st, of id 9 9 bad_world bad_world "''x''" "[]"] st by auto
qed

end
