(* ===== verification/Public_Listeners.thy ===== *)
theory Public_Listeners
  imports Server_Main
begin

text \<open>
  The accept loops of the server and the slots they share: \<open>listenTcp\<close> of a tunnel (\<open>tunnel.go\<close>),
  the loop of \<open>startHttpListener\<close> (\<open>http.go\<close>) and \<open>tunnelListener\<close> (\<open>main.go\<close>), with the handlers
  they start, for the public connections of one control and its pool of proxies. A step is one turn of
  one of these goroutines.
\<close>

section \<open>State\<close>

text \<open>
  \<open>sg_http\<close>: handlers that read a request. \<open>sg_waiting\<close>: public connections in \<open>GetProxy\<close>, with the
  number of proxies they lost. \<open>sg_joined\<close>: public connections with their proxies. \<open>sg_tunnel\<close>: handlers that
  read the first message of a control or proxy connection. \<open>sg_deferred\<close>: the deferred calls of the
  goroutine of \<open>listenTcp\<close>, which is alive while \<open>sg_loop\<close>.
\<close>

record serving =
  sg_slots :: conn_slots
  sg_http :: "nat list"
  sg_waiting :: "(nat \<times> nat) list"
  sg_joined :: "(nat \<times> nat) list"
  sg_tunnel :: "nat list"
  sg_pool :: proxy_pool
  sg_closing :: bool
  sg_socket :: bool
  sg_loop :: bool
  sg_deferred :: nat
  sg_closed :: "nat list"

definition new_serving :: "nat \<Rightarrow> nat list \<Rightarrow> serving" where
  "new_serving cap proxies =
     \<lparr>sg_slots = Some (cap, 0), sg_http = [], sg_waiting = [], sg_joined = [], sg_tunnel = [],
      sg_pool = \<lparr>pp_conns = proxies, pp_closed = False\<rparr>, sg_closing = False, sg_socket = True, sg_loop = True,
      sg_deferred = 0, sg_closed = []\<rparr>"

section \<open>The accept loops\<close>

text \<open>
  Every loop asks for a slot and closes the connection if there is none; otherwise the handler
  \<open>start\<close> runs in a goroutine of its own.
\<close>

definition with_slot :: "nat \<Rightarrow> (serving \<Rightarrow> serving) \<Rightarrow> serving \<Rightarrow> serving" where
  "with_slot c start s =
     (case acquireConnSlot (sg_slots s) of
        (True, sl) \<Rightarrow> start (s\<lparr>sg_slots := sl\<rparr>)
      | (False, sl) \<Rightarrow> s\<lparr>sg_slots := sl, sg_closed := c # sg_closed s\<rparr>)"

text \<open>One turn of \<open>listenTcp\<close>: what \<open>AcceptTCP\<close> gives, \<open>None\<close> for an error.\<close>

definition listenTcp :: "nat option \<Rightarrow> serving \<Rightarrow> serving" where
  "listenTcp accepted s =
     (if \<not> sg_loop s then s
      else let s = s\<lparr>sg_deferred := Suc (sg_deferred s)\<rparr> in
        (case accepted of
           None \<Rightarrow> if sg_closing s then s\<lparr>sg_loop := False, sg_deferred := 0\<rparr> else s
         | Some c \<Rightarrow> with_slot c (\<lambda>s. s\<lparr>sg_waiting := (c, 0) # sg_waiting s\<rparr>) s))"

definition http_turn :: "nat \<Rightarrow> serving \<Rightarrow> serving" where
  "http_turn c = with_slot c (\<lambda>s. s\<lparr>sg_http := c # sg_http s\<rparr>)"

definition tunnel_turn :: "nat \<Rightarrow> serving \<Rightarrow> serving" where
  "tunnel_turn c = with_slot c (\<lambda>s. s\<lparr>sg_tunnel := c # sg_tunnel s\<rparr>)"

section \<open>The handlers\<close>

text \<open>A handler returns: the deferred \<open>releaseConnSlot\<close>, which would block on an empty channel.\<close>

definition returns :: "(serving \<Rightarrow> serving) \<Rightarrow> serving \<Rightarrow> serving" where
  "returns finish s =
     (case releaseConnSlot (sg_slots s) of None \<Rightarrow> s | Some sl \<Rightarrow> finish (s\<lparr>sg_slots := sl\<rparr>))"

text \<open>
  \<open>httpHandler\<close> in short: the request leads to the tunnel, or it is answered and the connection closed.
\<close>

definition http_request :: "nat \<Rightarrow> bool \<Rightarrow> serving \<Rightarrow> serving" where
  "http_request c routed s =
     (if c \<notin> set (sg_http s) then s
      else if routed then s\<lparr>sg_http := remove1 c (sg_http s), sg_waiting := (c, 0) # sg_waiting s\<rparr>
      else returns (\<lambda>s. s\<lparr>sg_http := remove1 c (sg_http s), sg_closed := c # sg_closed s\<rparr>) s)"

text \<open>
  A public connection that waits takes a proxy; without one it goes on waiting. If \<open>StartProxy\<close> cannot
  be written, the proxy is lost; after 20 of them the connection is closed.
\<close>

definition takes_proxy :: "nat \<Rightarrow> nat \<Rightarrow> bool \<Rightarrow> serving \<Rightarrow> serving" where
  "takes_proxy c i written s =
     (if (c, i) \<notin> set (sg_waiting s) then s
      else case pp_conns (sg_pool s) of
        [] \<Rightarrow> s
      | p # ps \<Rightarrow>
          let s = s\<lparr>sg_pool := (sg_pool s)\<lparr>pp_conns := ps\<rparr>\<rparr> in
          if written then s\<lparr>sg_waiting := remove1 (c, i) (sg_waiting s), sg_joined := (c, p) # sg_joined s\<rparr>
          else if Suc i < 2 * proxyMaxPoolSize then
            s\<lparr>sg_waiting := (c, Suc i) # remove1 (c, i) (sg_waiting s), sg_closed := p # sg_closed s\<rparr>
          else returns (\<lambda>s. s\<lparr>sg_waiting := remove1 (c, i) (sg_waiting s), sg_closed := [c, p] @ sg_closed s\<rparr>) s)"

text \<open>No proxy came within 30 seconds, or the control closed its pool.\<close>

definition no_proxy :: "nat \<Rightarrow> nat \<Rightarrow> serving \<Rightarrow> serving" where
  "no_proxy c i s =
     (if (c, i) \<notin> set (sg_waiting s) \<or> pp_conns (sg_pool s) \<noteq> [] then s
      else returns (\<lambda>s. s\<lparr>sg_waiting := remove1 (c, i) (sg_waiting s), sg_closed := c # sg_closed s\<rparr>) s)"

definition join_ends :: "nat \<Rightarrow> nat \<Rightarrow> serving \<Rightarrow> serving" where
  "join_ends c p s =
     (if (c, p) \<notin> set (sg_joined s) then s
      else returns (\<lambda>s. s\<lparr>sg_joined := remove1 (c, p) (sg_joined s), sg_closed := [c, p] @ sg_closed s\<rparr>) s)"

text \<open>The first message of a control or proxy connection; a proxy is registered with the control.\<close>

definition first_handled :: "nat \<Rightarrow> first_message \<Rightarrow> serving \<Rightarrow> serving" where
  "first_handled c m s =
     (let s = s\<lparr>sg_tunnel := remove1 c (sg_tunnel s)\<rparr> in
      case m of
        FirstAuth accepted \<Rightarrow> if accepted then s else s\<lparr>sg_closed := c # sg_closed s\<rparr>
      | FirstRegProxy known \<Rightarrow>
          if known then
            (case RegisterProxy c (sg_pool s) of
               (Registered, pool) \<Rightarrow> s\<lparr>sg_pool := pool\<rparr>
             | (_, pool) \<Rightarrow> s\<lparr>sg_pool := pool, sg_closed := c # sg_closed s\<rparr>)
          else s\<lparr>sg_closed := c # sg_closed s\<rparr>
      | _ \<Rightarrow> s\<lparr>sg_closed := c # sg_closed s\<rparr>)"

definition tunnel_message :: "nat \<Rightarrow> first_message \<Rightarrow> serving \<Rightarrow> serving" where
  "tunnel_message c m s = (if c \<notin> set (sg_tunnel s) then s else returns (first_handled c m) s)"

text \<open>
  \<open>Shutdown\<close> of the tunnel first marks it and then closes its socket; \<open>AcceptTCP\<close> gives a connection
  only while the socket is open. \<open>PoolCloses\<close> is the stopper of the control.
\<close>

datatype serving_event =
  TcpAccepts nat | TcpFails | HttpAccepts nat | TunnelAccepts nat
| HttpRequest nat bool | TakesProxy nat nat bool | GivesUp nat nat | JoinEnds nat nat
| TunnelMessage nat first_message
| ShutdownMarks | ShutdownCloses | PoolCloses

fun serving_step :: "serving \<Rightarrow> serving_event \<Rightarrow> serving" where
  "serving_step s (TcpAccepts c) = (if sg_socket s then listenTcp (Some c) s else s)"
| "serving_step s TcpFails = listenTcp None s"
| "serving_step s (HttpAccepts c) = http_turn c s"
| "serving_step s (TunnelAccepts c) = tunnel_turn c s"
| "serving_step s (HttpRequest c routed) = http_request c routed s"
| "serving_step s (TakesProxy c i written) = takes_proxy c i written s"
| "serving_step s (GivesUp c i) = no_proxy c i s"
| "serving_step s (JoinEnds c p) = join_ends c p s"
| "serving_step s (TunnelMessage c m) = tunnel_message c m s"
| "serving_step s ShutdownMarks = s\<lparr>sg_closing := True\<rparr>"
| "serving_step s ShutdownCloses = (if sg_closing s then s\<lparr>sg_socket := False\<rparr> else s)"
| "serving_step s PoolCloses =
     (let (left, pool) = close_pool (sg_pool s) in s\<lparr>sg_pool := pool, sg_closed := left @ sg_closed s\<rparr>)"

lemmas serving_defs = listenTcp_def http_turn_def tunnel_turn_def with_slot_def returns_def http_request_def
  takes_proxy_def no_proxy_def join_ends_def tunnel_message_def acquireConnSlot_def releaseConnSlot_def close_pool_def

section \<open>Slots\<close>

definition handlers :: "serving \<Rightarrow> nat" where
  "handlers s = length (sg_http s) + length (sg_waiting s) + length (sg_joined s) + length (sg_tunnel s)"

definition slots_ok :: "nat \<Rightarrow> serving \<Rightarrow> bool" where
  "slots_ok cap s \<longleftrightarrow> sg_slots s = Some (cap, handlers s) \<and> handlers s \<le> cap"

definition tcp_ok :: "serving \<Rightarrow> bool" where
  "tcp_ok s \<longleftrightarrow> (sg_loop s \<or> sg_closing s) \<and> (sg_socket s \<or> sg_closing s)"

lemma handlers_slots [simp]: "handlers (s\<lparr>sg_slots := sl\<rparr>) = handlers s"
  by (simp add: handlers_def)

lemma length_remove1_mem: "x \<in> set xs \<Longrightarrow> length xs = Suc (length (remove1 x xs))"
  by (simp add: length_remove1) (metis Suc_pred length_pos_if_in_set)

lemma slots_ok_frame: "slots_ok cap s \<Longrightarrow> sg_slots t = sg_slots s \<Longrightarrow> handlers t = handlers s \<Longrightarrow> slots_ok cap t"
  by (simp add: slots_ok_def)

lemma with_slot_ok:
  assumes "slots_ok cap s" "\<And>t. handlers (start t) = Suc (handlers t)" "\<And>t. sg_slots (start t) = sg_slots t"
  shows "slots_ok cap (with_slot c start s)"
proof (cases "handlers s < cap")
  case True
  then have "with_slot c start s = start (s\<lparr>sg_slots := Some (cap, Suc (handlers s))\<rparr>)"
    using assms(1) by (simp add: with_slot_def acquireConnSlot_def slots_ok_def)
  then show ?thesis using True assms(2,3) by (simp add: slots_ok_def)
next
  case False
  then show ?thesis
    using assms(1) by (simp add: with_slot_def acquireConnSlot_def slots_ok_def handlers_def)
qed

lemma returns_ok:
  assumes "slots_ok cap s" "\<And>sl. Suc (handlers (finish (s\<lparr>sg_slots := sl\<rparr>))) = handlers s" "\<And>t. sg_slots (finish t) = sg_slots t"
  shows "slots_ok cap (returns finish s)"
proof -
  have "handlers s \<noteq> 0" using assms(2) [of None] by linarith
  then have "returns finish s = finish (s\<lparr>sg_slots := Some (cap, handlers s - 1)\<rparr>)"
    using assms(1) by (simp add: returns_def releaseConnSlot_def slots_ok_def)
  then show ?thesis
    using assms(1) assms(2) [of "Some (cap, handlers s - 1)"] by (simp add: slots_ok_def assms(3))
qed

lemma http_request_ok:
  assumes "slots_ok cap s"
  shows "slots_ok cap (http_request c routed s)"
proof (cases "c \<in> set (sg_http s)")
  case True
  note m = length_remove1_mem [OF True]
  show ?thesis
  proof (cases routed)
    case True
    have "slots_ok cap (s\<lparr>sg_http := remove1 c (sg_http s), sg_waiting := (c, 0) # sg_waiting s\<rparr>)"
      using assms by (rule slots_ok_frame) (simp_all add: handlers_def m)
    then show ?thesis using True \<open>c \<in> set (sg_http s)\<close> by (simp add: http_request_def)
  next
    case False
    have "slots_ok cap (returns (\<lambda>s. s\<lparr>sg_http := remove1 c (sg_http s), sg_closed := c # sg_closed s\<rparr>) s)"
      using assms by (rule returns_ok) (simp_all add: handlers_def m)
    then show ?thesis using False \<open>c \<in> set (sg_http s)\<close> by (simp add: http_request_def)
  qed
qed (simp add: http_request_def assms)

lemma takes_proxy_ok:
  assumes "slots_ok cap s"
  shows "slots_ok cap (takes_proxy c i written s)"
proof (cases "(c, i) \<in> set (sg_waiting s) \<and> pp_conns (sg_pool s) \<noteq> []")
  case True
  then obtain p ps where w: "(c, i) \<in> set (sg_waiting s)" "pp_conns (sg_pool s) = p # ps" by (auto simp: neq_Nil_conv)
  note m = length_remove1_mem [OF w(1)]
  let ?s = "s\<lparr>sg_pool := (sg_pool s)\<lparr>pp_conns := ps\<rparr>\<rparr>"
  have ok: "slots_ok cap ?s"
    using assms by (rule slots_ok_frame) (simp_all add: handlers_def)
  have joined: "slots_ok cap (?s\<lparr>sg_waiting := remove1 (c, i) (sg_waiting ?s), sg_joined := (c, p) # sg_joined ?s\<rparr>)"
    using ok by (rule slots_ok_frame) (simp_all add: handlers_def m)
  have again: "slots_ok cap (?s\<lparr>sg_waiting := (c, Suc i) # remove1 (c, i) (sg_waiting ?s), sg_closed := p # sg_closed ?s\<rparr>)"
    using ok by (rule slots_ok_frame) (simp_all add: handlers_def m)
  have gone: "slots_ok cap (returns (\<lambda>s. s\<lparr>sg_waiting := remove1 (c, i) (sg_waiting s), sg_closed := [c, p] @ sg_closed s\<rparr>) ?s)"
    using ok by (rule returns_ok) (simp_all add: handlers_def m)
  have "takes_proxy c i written s =
     (if written then ?s\<lparr>sg_waiting := remove1 (c, i) (sg_waiting ?s), sg_joined := (c, p) # sg_joined ?s\<rparr>
      else if Suc i < 2 * proxyMaxPoolSize then ?s\<lparr>sg_waiting := (c, Suc i) # remove1 (c, i) (sg_waiting ?s), sg_closed := p # sg_closed ?s\<rparr>
      else returns (\<lambda>s. s\<lparr>sg_waiting := remove1 (c, i) (sg_waiting s), sg_closed := [c, p] @ sg_closed s\<rparr>) ?s)"
    by (simp only: takes_proxy_def Let_def w list.case not_not if_False simp_thms)
  then show ?thesis using joined again gone by (simp only: split: if_split) simp
qed (auto simp: takes_proxy_def assms)

lemma no_proxy_ok:
  assumes "slots_ok cap s"
  shows "slots_ok cap (no_proxy c i s)"
proof (cases "(c, i) \<in> set (sg_waiting s) \<and> pp_conns (sg_pool s) = []")
  case True
  note m = length_remove1_mem [OF conjunct1 [OF True]]
  have "slots_ok cap (returns (\<lambda>s. s\<lparr>sg_waiting := remove1 (c, i) (sg_waiting s), sg_closed := c # sg_closed s\<rparr>) s)"
    using assms by (rule returns_ok) (simp_all add: handlers_def m)
  then show ?thesis using True by (simp add: no_proxy_def)
qed (auto simp: no_proxy_def assms)

lemma join_ends_ok:
  assumes "slots_ok cap s"
  shows "slots_ok cap (join_ends c p s)"
proof (cases "(c, p) \<in> set (sg_joined s)")
  case True
  note m = length_remove1_mem [OF True]
  have "slots_ok cap (returns (\<lambda>s. s\<lparr>sg_joined := remove1 (c, p) (sg_joined s), sg_closed := [c, p] @ sg_closed s\<rparr>) s)"
    using assms by (rule returns_ok) (simp_all add: handlers_def m)
  then show ?thesis using True by (simp add: join_ends_def)
qed (simp add: join_ends_def assms)

lemma first_handled_frame:
  "handlers (first_handled c m s) = length (sg_http s) + length (sg_waiting s) + length (sg_joined s) + length (remove1 c (sg_tunnel s))"
  "sg_slots (first_handled c m s) = sg_slots s"
  by (cases m; simp add: first_handled_def handlers_def Let_def split: bool.split registered.split prod.split)+

lemma tunnel_message_ok:
  assumes "slots_ok cap s"
  shows "slots_ok cap (tunnel_message c m s)"
proof (cases "c \<in> set (sg_tunnel s)")
  case True
  have "slots_ok cap (returns (first_handled c m) s)"
    using assms by (rule returns_ok) (simp_all add: first_handled_frame handlers_def [of s] length_remove1_mem [OF True])
  then show ?thesis using True by (simp add: tunnel_message_def)
qed (simp add: tunnel_message_def assms)

lemma listenTcp_ok:
  assumes "slots_ok cap s"
  shows "slots_ok cap (listenTcp a s)"
proof -
  have ok: "slots_ok cap (s\<lparr>sg_deferred := n\<rparr>)" "slots_ok cap (s\<lparr>sg_deferred := n, sg_loop := b, sg_deferred := k\<rparr>)" for n b k
    using assms by (rule slots_ok_frame; simp add: handlers_def)+
  have "slots_ok cap (with_slot c (\<lambda>s. s\<lparr>sg_waiting := (c, 0) # sg_waiting s\<rparr>) (s\<lparr>sg_deferred := n\<rparr>))" for c n
    by (rule with_slot_ok [OF ok(1)]) (simp_all add: handlers_def)
  then show ?thesis
    using assms ok by (simp add: listenTcp_def Let_def split: option.split)
qed

lemma handlers_frame [simp]:
  "handlers (s\<lparr>sg_closing := b\<rparr>) = handlers s" "handlers (s\<lparr>sg_socket := b\<rparr>) = handlers s"
  "handlers (s\<lparr>sg_pool := pool, sg_closed := cs\<rparr>) = handlers s"
  by (simp_all add: handlers_def)

lemma serving_step_slots: "slots_ok cap s \<Longrightarrow> slots_ok cap (serving_step s ev)"
proof (cases ev)
  case (HttpAccepts c)
  then show "slots_ok cap s \<Longrightarrow> ?thesis"
    by (auto intro!: with_slot_ok simp: http_turn_def handlers_def)
next
  case (TunnelAccepts c)
  then show "slots_ok cap s \<Longrightarrow> ?thesis"
    by (auto intro!: with_slot_ok simp: tunnel_turn_def handlers_def)
qed (auto simp: listenTcp_ok http_request_ok takes_proxy_ok no_proxy_ok join_ends_ok tunnel_message_ok close_pool_def
      intro: slots_ok_frame [of cap s])

interpretation serving: machine_invariant serving_step "slots_ok cap" for cap
  by unfold_locales (rule serving_step_slots)

lemma new_serving_ok: "slots_ok cap (new_serving cap proxies)" "tcp_ok (new_serving cap proxies)"
  by (simp_all add: slots_ok_def tcp_ok_def handlers_def new_serving_def)

text \<open>
  All listeners share the slots: at any time the slots that are taken are those of the running handlers
  of every listener together, never more than the limit, so that giving one back never blocks.
\<close>
theorem slots_shared:
  assumes "s = run serving_step (new_serving cap proxies) es"
  shows "sg_slots s = Some (cap, handlers s) \<and> handlers s \<le> cap \<and> (handlers s = 0 \<or> releaseConnSlot (sg_slots s) \<noteq> None)"
proof -
  have "slots_ok cap s" unfolding assms by (rule serving.run_inv [OF new_serving_ok(1)])
  then show ?thesis by (auto simp: slots_ok_def releaseConnSlot_def)
qed

theorem slots_shared_witness:
  "\<exists>s. s = run serving_step (new_serving 1 []) [TcpAccepts 4, HttpAccepts 5] \<and> handlers s \<le> 1 \<and> handlers s = 1"
proof -
  have "handlers (run serving_step (new_serving 1 []) [TcpAccepts 4, HttpAccepts 5]) = 1"
    by (simp add: new_serving_def listenTcp_def http_turn_def with_slot_def acquireConnSlot_def handlers_def)
  then show ?thesis using slots_shared [OF refl, of 1 "[]" "[TcpAccepts 4, HttpAccepts 5]"] by blast
qed

section \<open>The loop of a tunnel\<close>

definition same_tcp :: "serving \<Rightarrow> serving \<Rightarrow> bool" where
  "same_tcp s t \<longleftrightarrow> sg_loop t = sg_loop s \<and> sg_closing t = sg_closing s \<and> sg_socket t = sg_socket s"

lemma same_tcp_updates [simp]:
  "same_tcp s s" "same_tcp s (t\<lparr>sg_slots := a\<rparr>) = same_tcp s t" "same_tcp s (t\<lparr>sg_http := b\<rparr>) = same_tcp s t"
  "same_tcp s (t\<lparr>sg_waiting := w\<rparr>) = same_tcp s t" "same_tcp s (t\<lparr>sg_joined := w\<rparr>) = same_tcp s t"
  "same_tcp s (t\<lparr>sg_tunnel := b\<rparr>) = same_tcp s t" "same_tcp s (t\<lparr>sg_pool := pool\<rparr>) = same_tcp s t"
  "same_tcp s (t\<lparr>sg_closed := b\<rparr>) = same_tcp s t" "same_tcp s (t\<lparr>sg_deferred := n\<rparr>) = same_tcp s t"
  "same_tcp s (t\<lparr>sg_http := b, sg_closed := d\<rparr>) = same_tcp s t" "same_tcp s (t\<lparr>sg_waiting := w, sg_closed := d\<rparr>) = same_tcp s t"
  "same_tcp s (t\<lparr>sg_joined := w, sg_closed := d\<rparr>) = same_tcp s t" "same_tcp s (t\<lparr>sg_http := b, sg_waiting := w\<rparr>) = same_tcp s t"
  "same_tcp s (t\<lparr>sg_pool := pool, sg_closed := d\<rparr>) = same_tcp s t"
  by (simp_all add: same_tcp_def)

lemma same_tcp_slots: "same_tcp (s\<lparr>sg_slots := x\<rparr>) t \<Longrightarrow> same_tcp s t"
  by (simp add: same_tcp_def)

lemma with_slot_tcp: "(\<And>t. same_tcp t (start t)) \<Longrightarrow> same_tcp s (with_slot c start s)"
  unfolding with_slot_def by (auto split: prod.split bool.split intro: same_tcp_slots)

lemma returns_tcp: "(\<And>t. same_tcp t (finish t)) \<Longrightarrow> same_tcp s (returns finish s)"
  unfolding returns_def by (auto split: option.split intro: same_tcp_slots)

lemma first_handled_tcp: "same_tcp s (first_handled c m s)"
  by (cases m) (auto simp: first_handled_def same_tcp_def Let_def split: registered.split prod.split)

lemma handlers_tcp:
  "same_tcp s (http_turn c s)" "same_tcp s (tunnel_turn c s)" "same_tcp s (http_request c routed s)"
  "same_tcp s (no_proxy c i s)" "same_tcp s (join_ends c p s)" "same_tcp s (tunnel_message c m s)"
  unfolding http_turn_def tunnel_turn_def http_request_def no_proxy_def join_ends_def tunnel_message_def
  by (auto intro!: with_slot_tcp returns_tcp first_handled_tcp)

lemma takes_proxy_tcp: "same_tcp s (takes_proxy c i written s)"
proof -
  have "same_tcp t (returns (\<lambda>s. s\<lparr>sg_waiting := remove1 (c, i) (sg_waiting s), sg_closed := [c, p] @ sg_closed s\<rparr>) t)" for t p
    by (rule returns_tcp) simp
  then show ?thesis
    by (simp add: takes_proxy_def Let_def same_tcp_def split: list.split)
qed

lemma listenTcp_tcp:
  "sg_closing (listenTcp a s) = sg_closing s" "sg_socket (listenTcp a s) = sg_socket s"
  "sg_loop (listenTcp a s) \<longleftrightarrow> sg_loop s \<and> (a \<noteq> None \<or> \<not> sg_closing s)"
proof -
  have "same_tcp t (with_slot c (\<lambda>s. s\<lparr>sg_waiting := (c, 0) # sg_waiting s\<rparr>) t)" for t c
    by (rule with_slot_tcp) simp
  then show "sg_closing (listenTcp a s) = sg_closing s" "sg_socket (listenTcp a s) = sg_socket s"
    "sg_loop (listenTcp a s) \<longleftrightarrow> sg_loop s \<and> (a \<noteq> None \<or> \<not> sg_closing s)"
    by (simp_all add: listenTcp_def Let_def same_tcp_def split: option.split)
qed

lemma serving_step_tcp: "tcp_ok s \<Longrightarrow> tcp_ok (serving_step s ev)"
proof -
  have same: "tcp_ok s \<Longrightarrow> same_tcp s t \<Longrightarrow> tcp_ok t" for t
    by (simp add: tcp_ok_def same_tcp_def)
  assume "tcp_ok s"
  then show ?thesis
    by (cases ev) (auto intro: same handlers_tcp takes_proxy_tcp simp: listenTcp_tcp close_pool_def tcp_ok_def [of "listenTcp _ _"]
        tcp_ok_def [of "s\<lparr>sg_closing := _\<rparr>"] tcp_ok_def [of "s\<lparr>sg_socket := _\<rparr>"], auto simp: tcp_ok_def)
qed

interpretation tcp: machine_invariant serving_step tcp_ok
  by unfold_locales (rule serving_step_tcp)

text \<open>
  The loop of a TCP tunnel lives as long as the tunnel: it ends, and its socket is closed, only after
  \<open>Shutdown\<close> marked the tunnel, however often \<open>AcceptTCP\<close> fails; and once the socket is closed the next turn ends the
  loop and no connection is accepted any more.
\<close>
theorem tcp_loop_ends_with_tunnel:
  assumes "s = run serving_step (new_serving cap proxies) es"
  shows "(sg_loop s \<and> sg_socket s \<or> sg_closing s) \<and>
    (sg_socket s \<or> \<not> sg_loop (serving_step s TcpFails) \<and> serving_step s (TcpAccepts c) = s)"
proof -
  have "tcp_ok s" unfolding assms by (rule tcp.run_inv [OF new_serving_ok(2)])
  then show ?thesis by (auto simp: tcp_ok_def listenTcp_tcp)
qed

theorem tcp_loop_ends_with_tunnel_witness:
  "\<exists>s. s = run serving_step (new_serving 1 []) [TcpFails, ShutdownMarks, ShutdownCloses] \<and> sg_loop s \<and> \<not> sg_socket s \<and>
     \<not> sg_loop (serving_step s TcpFails)"
proof -
  let ?s = "run serving_step (new_serving 1 []) [TcpFails, ShutdownMarks, ShutdownCloses]"
  have "sg_loop ?s \<and> \<not> sg_socket ?s" by (simp add: new_serving_def listenTcp_def)
  then show ?thesis using tcp_loop_ends_with_tunnel [of ?s 1 "[]" "[TcpFails, ShutdownMarks, ShutdownCloses]" 0] by blast
qed

section \<open>Public connections that wait starve the proxies they wait for\<close>

text \<open>Every slot is taken by a public connection, joined or waiting, and the pool is empty.\<close>

definition starved :: "serving \<Rightarrow> bool" where
  "starved s \<longleftrightarrow> (\<exists>cap. sg_slots s = Some (cap, cap)) \<and> sg_http s = [] \<and> sg_tunnel s = [] \<and> pp_conns (sg_pool s) = []"

text \<open>An event in which no handler of a public connection returns: no timeout, and no end of a joined connection.\<close>

fun no_end :: "serving_event \<Rightarrow> bool" where
  "no_end (GivesUp c i) = False"
| "no_end (JoinEnds c p) = False"
| "no_end _ = True"

lemma with_slot_starved: "starved s \<Longrightarrow> with_slot c start s = s\<lparr>sg_closed := c # sg_closed s\<rparr>"
  by (auto simp: starved_def with_slot_def acquireConnSlot_def)

lemma starved_step:
  assumes "starved s" "no_end ev"
  shows "starved (serving_step s ev) \<and> sg_waiting (serving_step s ev) = sg_waiting s \<and>
    sg_joined (serving_step s ev) = sg_joined s \<and> set (sg_closed s) \<subseteq> set (sg_closed (serving_step s ev)) \<and>
    (\<forall>c. ev = TunnelAccepts c \<longrightarrow> c \<in> set (sg_closed (serving_step s ev)))"
proof -
  note w = with_slot_starved [OF assms(1)]
  have f: "starved (s\<lparr>sg_deferred := n\<rparr>)" for n
    using assms(1) by (simp add: starved_def)
  note w' = with_slot_starved [OF f]
  have q: "pp_conns (sg_pool s) = []" "sg_http s = []" "sg_tunnel s = []"
    using assms(1) by (auto simp: starved_def)
  show ?thesis
    using assms
    by (cases ev) (auto simp: w w' q listenTcp_def http_turn_def tunnel_turn_def http_request_def takes_proxy_def tunnel_message_def
        close_pool_def starved_def Let_def split: option.split)
qed

lemma starved_run:
  "starved s \<Longrightarrow> list_all no_end es \<Longrightarrow>
   sg_waiting (run serving_step s es) = sg_waiting s \<and> sg_joined (run serving_step s es) = sg_joined s \<and>
   set (sg_closed s) \<subseteq> set (sg_closed (run serving_step s es)) \<and>
   (\<forall>c. TunnelAccepts c \<in> set es \<longrightarrow> c \<in> set (sg_closed (run serving_step s es)))"
proof (induction es arbitrary: s)
  case (Cons ev es)
  note st = starved_step [of s ev]
  have "no_end ev" "list_all no_end es" using Cons.prems(2) by simp_all
  then show ?case
    using st Cons.IH [of "serving_step s ev"] Cons.prems(1) by (auto simp: subset_eq)
qed simp

text \<open>The connections \<open>cs\<close> take the proxies \<open>ps\<close>, then the connections \<open>ds\<close> wait.\<close>

definition crowd :: "nat \<Rightarrow> nat \<Rightarrow> serving_event list" where
  "crowd k n = concat (map (\<lambda>c. [TcpAccepts c, TakesProxy c 0 True]) [0..<k]) @ map TcpAccepts [k..<n]"

lemma served_crowd:
  "sg_slots s = Some (cap, length (sg_joined s)) \<Longrightarrow> length (sg_joined s) + length ps \<le> cap \<Longrightarrow> sg_loop s \<Longrightarrow> sg_socket s \<Longrightarrow>
   pp_conns (sg_pool s) = ps @ rest \<Longrightarrow> sg_waiting s = [] \<Longrightarrow> length cs = length ps \<Longrightarrow>
   \<exists>t. run serving_step s (concat (map (\<lambda>c. [TcpAccepts c, TakesProxy c 0 True]) cs)) = t \<and>
     sg_slots t = Some (cap, length (sg_joined t)) \<and> length (sg_joined t) = length (sg_joined s) + length ps \<and> sg_loop t \<and> sg_socket t \<and>
     pp_conns (sg_pool t) = rest \<and> sg_waiting t = [] \<and> sg_http t = sg_http s \<and> sg_tunnel t = sg_tunnel s"
proof (induction ps arbitrary: s cs)
  case (Cons p ps)
  obtain c cs' where cs: "cs = c # cs'" "length cs' = length ps" using Cons.prems(7) by (cases cs) auto
  let ?t = "s\<lparr>sg_deferred := Suc (sg_deferred s), sg_slots := Some (cap, Suc (length (sg_joined s))), sg_waiting := [],
    sg_pool := (sg_pool s)\<lparr>pp_conns := ps @ rest\<rparr>, sg_joined := (c, p) # sg_joined s\<rparr>"
  have "run serving_step s [TcpAccepts c, TakesProxy c 0 True] = ?t"
    using Cons.prems(1-6) by (simp add: listenTcp_def with_slot_def acquireConnSlot_def takes_proxy_def Let_def)
  then have "run serving_step s (concat (map (\<lambda>c. [TcpAccepts c, TakesProxy c 0 True]) cs)) =
      run serving_step ?t (concat (map (\<lambda>c. [TcpAccepts c, TakesProxy c 0 True]) cs'))"
    by (simp add: cs(1))
  then show ?case
    using Cons.IH [of ?t cs'] Cons.prems cs(2) by simp
qed simp

lemma waiting_crowd:
  "sg_slots s = Some (cap, u) \<Longrightarrow> u + length ds \<le> cap \<Longrightarrow> sg_loop s \<Longrightarrow> sg_socket s \<Longrightarrow>
   \<exists>t. run serving_step s (map TcpAccepts ds) = t \<and> sg_slots t = Some (cap, u + length ds) \<and>
     length (sg_waiting t) = length (sg_waiting s) + length ds \<and> sg_joined t = sg_joined s \<and> sg_pool t = sg_pool s \<and>
     sg_http t = sg_http s \<and> sg_tunnel t = sg_tunnel s"
proof (induction ds arbitrary: s u)
  case (Cons d ds)
  let ?t = "s\<lparr>sg_deferred := Suc (sg_deferred s), sg_slots := Some (cap, Suc u), sg_waiting := (d, 0) # sg_waiting s\<rparr>"
  have "serving_step s (TcpAccepts d) = ?t"
    using Cons.prems by (simp add: listenTcp_def with_slot_def acquireConnSlot_def Let_def)
  then show ?case
    using Cons.IH [of ?t "Suc u"] Cons.prems by simp
qed simp

text \<open>
  The slots can starve the server. A public connection keeps its slot while it waits for a proxy, and
  the proxy connection of the client needs one too. When as many public connections come at the same time
  as there are slots, only those that find a proxy in the pool are served. The others wait in vain: whatever
  happens, as long as no handler of a public connection returns (the end of a joined connection, or the
  timeout of 30 seconds), every control or proxy connection that arrives is closed, no more public
  connection is joined, and all of them go on waiting.
\<close>
theorem waiting_starves_proxies:
  assumes "length proxies < cap" "s = run serving_step (new_serving cap proxies) (crowd (length proxies) cap)"
    and "list_all no_end es" "t = run serving_step s es"
  shows "handlers s = cap \<and> length (sg_joined s) = length proxies \<and> length (sg_waiting s) = cap - length proxies \<and>
    sg_waiting t = sg_waiting s \<and> sg_joined t = sg_joined s \<and> {c. TunnelAccepts c \<in> set es} \<subseteq> set (sg_closed t)"
proof -
  have n: "sg_slots (new_serving cap proxies) = Some (cap, length (sg_joined (new_serving cap proxies)))"
    "length (sg_joined (new_serving cap proxies)) + length proxies \<le> cap" "sg_loop (new_serving cap proxies)"
    "sg_socket (new_serving cap proxies)" "pp_conns (sg_pool (new_serving cap proxies)) = proxies @ []"
    "sg_waiting (new_serving cap proxies) = []" "length [0..<length proxies] = length proxies"
    "sg_http (new_serving cap proxies) = []" "sg_tunnel (new_serving cap proxies) = []" "sg_joined (new_serving cap proxies) = []"
    using assms(1) by (simp_all add: new_serving_def)
  obtain s1 where s1: "run serving_step (new_serving cap proxies) (concat (map (\<lambda>c. [TcpAccepts c, TakesProxy c 0 True]) [0..<length proxies])) = s1"
      "sg_slots s1 = Some (cap, length (sg_joined s1))" "length (sg_joined s1) = length proxies" "sg_loop s1" "sg_socket s1"
      "pp_conns (sg_pool s1) = []" "sg_waiting s1 = []" "sg_http s1 = []" "sg_tunnel s1 = []"
    using served_crowd [OF n(1-7)] n(8-10) by auto
  have "run serving_step s1 (map TcpAccepts [length proxies..<cap]) = s"
    unfolding assms(2) crowd_def run_append s1(1) ..
  then have s: "sg_slots s = Some (cap, cap)" "length (sg_waiting s) = cap - length proxies" "length (sg_joined s) = length proxies"
      "pp_conns (sg_pool s) = []" "sg_http s = []" "sg_tunnel s = []"
    using waiting_crowd [OF s1(2), of "[length proxies..<cap]"] s1(3-9) assms(1) by auto
  then have "starved s" by (simp add: starved_def)
  from starved_run [OF this assms(3)] s show ?thesis
    using assms(1) unfolding assms(4) handlers_def by auto
qed

theorem waiting_starves_proxies_witness:
  "\<exists>s t. s = run serving_step (new_serving 3 [7]) (crowd 1 3) \<and> t = run serving_step s [TunnelAccepts 9, TcpFails] \<and>
     length (sg_joined s) = 1 \<and> length (sg_waiting s) = 2 \<and> sg_waiting t = sg_waiting s \<and> 9 \<in> set (sg_closed t)"
proof -
  define s where "s = run serving_step (new_serving 3 [7]) (crowd 1 3)"
  define t where "t = run serving_step s [TunnelAccepts 9, TcpFails]"
  have "length [7 :: nat] < 3" "s = run serving_step (new_serving 3 [7]) (crowd (length [7 :: nat]) 3)"
    "list_all no_end [TunnelAccepts 9, TcpFails]" by (simp_all add: s_def)
  from waiting_starves_proxies [OF this t_def] show ?thesis
    by (intro exI [of _ s] exI [of _ t] conjI s_def t_def) simp_all
qed

end
