(* ===== verification/Client_Cli.thy ===== *)
theory Client_Cli
  imports Go_Text Util
begin

text \<open>
  The command line of the client, \<open>src/ngrok/client/cli.go\<close>. Package \<open>flag\<close> has split it into
  flags and the remaining arguments.
\<close>

record client_options =
  co_config :: string
  co_logto :: string
  co_loglevel :: string
  co_authtoken :: string
  co_inspectauth :: string
  co_httpauth :: string
  co_hostname :: string
  co_protocol :: string
  co_subdomain :: string
  co_command :: string
  co_args :: "string list"

datatype client_flag =
  CF_config string | CF_log string | CF_log_level string | CF_authtoken string
| CF_inspectauth string | CF_httpauth string | CF_subdomain string | CF_hostname string
| CF_proto string

definition default_client_options :: client_options where
  "default_client_options =
     \<lparr>co_config = [], co_logto = ''none'', co_loglevel = ''DEBUG'', co_authtoken = [],
      co_inspectauth = [], co_httpauth = [], co_hostname = [], co_protocol = ''http+https'',
      co_subdomain = [], co_command = [], co_args = []\<rparr>"

fun set_client_flag :: "client_options \<Rightarrow> client_flag \<Rightarrow> client_options" where
  "set_client_flag o' (CF_config v) = o'\<lparr>co_config := v\<rparr>"
| "set_client_flag o' (CF_log v) = o'\<lparr>co_logto := v\<rparr>"
| "set_client_flag o' (CF_log_level v) = o'\<lparr>co_loglevel := v\<rparr>"
| "set_client_flag o' (CF_authtoken v) = o'\<lparr>co_authtoken := v\<rparr>"
| "set_client_flag o' (CF_inspectauth v) = o'\<lparr>co_inspectauth := v\<rparr>"
| "set_client_flag o' (CF_httpauth v) = o'\<lparr>co_httpauth := v\<rparr>"
| "set_client_flag o' (CF_subdomain v) = o'\<lparr>co_subdomain := v\<rparr>"
| "set_client_flag o' (CF_hostname v) = o'\<lparr>co_hostname := v\<rparr>"
| "set_client_flag o' (CF_proto v) = o'\<lparr>co_protocol := v\<rparr>"

text \<open>How \<open>ParseArgs\<close> ends; \<open>version\<close> and \<open>help\<close> leave the process with code 0.\<close>

datatype parsed_args =
  Parsed client_options
| ParseError string
| PrintsVersion string
| PrintsUsage

definition no_command_error :: string where
  "no_command_error =
     ''Error: Specify a local port to tunnel to, or '' @ ''an ngrok command.'' @ [newline, newline] @
     ''Example: To expose port 80, run '' @ [CHR 0x27] @ ''ngrok 80'' @ [CHR 0x27]"

definition ParseArgs :: "client_flag list \<Rightarrow> string list \<Rightarrow> parsed_args" where
  "ParseArgs flags args =
     (let opts = foldl set_client_flag default_client_options flags;
          command = (if args = [] then [] else hd args);
          opts = opts\<lparr>co_command := command\<rparr> in
      if command = ''list'' \<or> command = ''start'' \<or> command = ''start-all''
        then Parsed (opts\<lparr>co_args := tl args\<rparr>)
      else if command = ''version'' then PrintsVersion (version_MajorMinor @ [newline])
      else if command = ''help'' then PrintsUsage
      else if command = [] then ParseError no_command_error
      else if 1 < length args
        then ParseError (''You may only specify one port to tunnel to on the command line, got '' @
               show_int (int (length args)) @ '': ['' @ join '' '' args @ '']'')
      else Parsed (opts\<lparr>co_command := ''default'', co_args := args\<rparr>))"

text \<open>
  What the rest of the client relies on: a parsed command is one of the four below, and the
  command \<open>default\<close> comes with exactly one argument.
\<close>

lemma foldl_set_client_flag [simp]:
  "co_command (foldl set_client_flag o' fs) = co_command o'"
  "co_args (foldl set_client_flag o' fs) = co_args o'"
proof -
  have "co_command (set_client_flag o'' f) = co_command o''" "co_args (set_client_flag o'' f) = co_args o''"
    for o'' f by (cases f; simp)+
  then show "co_command (foldl set_client_flag o' fs) = co_command o'"
    "co_args (foldl set_client_flag o' fs) = co_args o'"
    by (induction fs arbitrary: o') simp_all
qed

definition wellformed_options :: "client_options \<Rightarrow> bool" where
  "wellformed_options o' \<longleftrightarrow>
     co_command o' \<in> {''default'', ''list'', ''start'', ''start-all''} \<and>
     (co_command o' = ''default'' \<longrightarrow> length (co_args o') = 1 \<and> co_args o' \<noteq> [''''])"

lemma parsed_wellformed: "ParseArgs flags args = Parsed o' \<Longrightarrow> wellformed_options o'"
  by (cases args) (auto simp: ParseArgs_def Let_def wellformed_options_def split: if_splits)

end
