(* ===== verification/Client_Config.thy ===== *)
theory Client_Config
  imports Client_Cli
begin

text \<open>
  The configuration of the client, \<open>src/ngrok/client/config.go\<close>: reading and writing the file
  \<open>.ngrok\<close>, defaults and validation, the choice of tunnels by the command, and saving an
  authentication token. The file system, the environment, \<open>url.Parse\<close>, \<open>path.Join\<close> and the order
  in which Go ranges over a map are fields of \<open>client_env\<close>.
\<close>

record tunnelConfiguration =
  tc_Subdomain :: string
  tc_Hostname :: string
  tc_Protocols :: "string \<rightharpoonup> string"
  tc_HttpAuth :: string
  tc_RemotePort :: "16 word"

record configuration =
  cf_HttpProxy :: string
  cf_ServerAddr :: string
  cf_InspectAddr :: string
  cf_InspectAuth :: string
  cf_TrustHostRootCerts :: bool
  cf_AuthToken :: string
  cf_Tunnels :: "string \<rightharpoonup> tunnelConfiguration"
  cf_LogTo :: string
  cf_Path :: string

definition empty_tunnel :: tunnelConfiguration where
  "empty_tunnel = \<lparr>tc_Subdomain = [], tc_Hostname = [], tc_Protocols = Map.empty, tc_HttpAuth = [],
     tc_RemotePort = 0\<rparr>"

definition empty_configuration :: configuration where
  "empty_configuration = \<lparr>cf_HttpProxy = [], cf_ServerAddr = [], cf_InspectAddr = [], cf_InspectAuth = [],
     cf_TrustHostRootCerts = False, cf_AuthToken = [], cf_Tunnels = Map.empty, cf_LogTo = [], cf_Path = []\<rparr>"

text \<open>
  \<open>ce_range tag S\<close> is the order in which the loop named \<open>tag\<close> ranges over a map with the keys \<open>S\<close>.
\<close>

record client_env =
  ce_readFile :: "string \<Rightarrow> string \<times> string option"
  ce_getenv :: "string \<Rightarrow> string"
  ce_user :: "string result"
  ce_join :: "string \<Rightarrow> string \<Rightarrow> string"
  ce_url_scheme :: "string \<Rightarrow> string result"
  ce_lower :: "string \<Rightarrow> string"
  ce_quote :: "string \<Rightarrow> string"
  ce_ip6_loopback :: "string \<Rightarrow> bool"
  ce_range :: "string list \<Rightarrow> string set \<Rightarrow> string list"

section \<open>Addresses and protocols\<close>

definition isLoopbackAddress :: "client_env \<Rightarrow> string \<Rightarrow> bool" where
  "isLoopbackAddress e addr =
     (case split_host_port addr of
        Inl _ \<Rightarrow> False
      | Inr (host, _) \<Rightarrow> ip_is_loopback (ce_ip6_loopback e) host)"

definition defaultPath :: "client_env \<Rightarrow> string" where
  "defaultPath e =
     ce_join e (case ce_user e of Inl _ \<Rightarrow> ce_getenv e ''HOME'' | Inr home \<Rightarrow> home) ''.ngrok''"

definition sq :: string where "sq = [CHR 0x27]"

definition normalizeAddress :: "string \<Rightarrow> string \<Rightarrow> string result" where
  "normalizeAddress addr propName =
     (let addr = (case atoi addr of Some _ \<Rightarrow> '':'' @ addr | None \<Rightarrow> addr) in
      case split_host_port addr of
        Inl err \<Rightarrow> Inl (''Invalid address '' @ propName @ '' '' @ sq @ addr @ sq @ '': '' @ err)
      | Inr (host, port) \<Rightarrow> Inr ((if host = [] then ''127.0.0.1'' else host) @ '':'' @ port))"

text \<open>\<open>Some\<close> is the error.\<close>

definition validateProtocol :: "string \<Rightarrow> string \<Rightarrow> string option" where
  "validateProtocol proto propName =
     (if proto \<in> {''http'', ''https'', ''http+https'', ''tcp''} then None
      else Some (''Invalid protocol for '' @ propName @ '': '' @ proto))"

section \<open>Reading\<close>

definition stripComment :: "string \<Rightarrow> string" where
  "stripComment line = (case cut CHR ''#'' line of Some (a, _) \<Rightarrow> a | None \<Rightarrow> line)"

definition leadingSpaces :: "string \<Rightarrow> nat" where
  "leadingSpaces line = length line - length (trim_left_set '' '' line)"

definition quote_chars :: string where "quote_chars = [CHR 0x22, CHR 0x27]"

text \<open>\<open>None\<close> is \<open>ok = false\<close>; no caller looks at the key and value then.\<close>

definition splitKeyValue :: "string \<Rightarrow> (string \<times> string) option" where
  "splitKeyValue line =
     (case split_n 2 CHR '':'' line of
        [a, b] \<Rightarrow>
          let key = trim_space a; value = trim_set quote_chars (trim_space b) in
          if key = [] then None else Some (key, value)
      | _ \<Rightarrow> None)"

definition parseBool :: "(string \<Rightarrow> string) \<Rightarrow> string \<Rightarrow> bool" where
  "parseBool ul value \<longleftrightarrow> to_lower ul value \<in> {''true'', ''yes'', ''1'', ''on''}"

text \<open>The variables of the loop: \<open>ps_tunnel\<close> is the name under which \<open>currentTunnel\<close> is stored.\<close>

record parse_state =
  ps_config :: configuration
  ps_section :: string
  ps_tunnel :: "string option"
  ps_inProto :: bool

definition on_config :: "(configuration \<Rightarrow> configuration) \<Rightarrow> parse_state \<Rightarrow> parse_state" where
  "on_config f st = st\<lparr>ps_config := f (ps_config st)\<rparr>"

definition on_tunnel :: "string \<Rightarrow> (tunnelConfiguration \<Rightarrow> tunnelConfiguration) \<Rightarrow> parse_state \<Rightarrow> parse_state" where
  "on_tunnel name f st =
     on_config (\<lambda>c. c\<lparr>cf_Tunnels := (cf_Tunnels c)(name := map_option f (cf_Tunnels c name))\<rparr>) st"

definition at_line :: "nat \<Rightarrow> string \<Rightarrow> string" where
  "at_line lineNo msg = ''line '' @ show_int (int lineNo) @ '': '' @ msg"

definition parse_top :: "client_env \<Rightarrow> nat \<Rightarrow> string \<Rightarrow> string \<Rightarrow> parse_state \<Rightarrow> parse_state result" where
  "parse_top e lineNo key value st =
     (let st = st\<lparr>ps_section := [], ps_tunnel := None, ps_inProto := False\<rparr> in
      if key = ''http_proxy'' then Inr (on_config (\<lambda>c. c\<lparr>cf_HttpProxy := value\<rparr>) st)
      else if key = ''server_addr'' then Inr (on_config (\<lambda>c. c\<lparr>cf_ServerAddr := value\<rparr>) st)
      else if key = ''inspect_addr'' then Inr (on_config (\<lambda>c. c\<lparr>cf_InspectAddr := value\<rparr>) st)
      else if key = ''inspect_auth'' then Inr (on_config (\<lambda>c. c\<lparr>cf_InspectAuth := value\<rparr>) st)
      else if key = ''trust_host_root_certs''
        then Inr (on_config (\<lambda>c. c\<lparr>cf_TrustHostRootCerts := parseBool (ce_lower e) value\<rparr>) st)
      else if key = ''auth_token'' then Inr (on_config (\<lambda>c. c\<lparr>cf_AuthToken := value\<rparr>) st)
      else if key = ''tunnels'' then Inr (st\<lparr>ps_section := ''tunnels''\<rparr>)
      else Inl (at_line lineNo (''unknown config key '' @ quote (ce_quote e) key)))"

definition parse_tunnel_name :: "client_env \<Rightarrow> nat \<Rightarrow> string \<Rightarrow> parse_state \<Rightarrow> parse_state result" where
  "parse_tunnel_name e lineNo key st =
     (if ps_section st \<noteq> ''tunnels''
      then Inl (at_line lineNo (''unexpected nested key '' @ quote (ce_quote e) key))
      else Inr (on_config (\<lambda>c. c\<lparr>cf_Tunnels := (cf_Tunnels c)(key \<mapsto> empty_tunnel)\<rparr>)
                 (st\<lparr>ps_inProto := False, ps_tunnel := Some key\<rparr>)))"

definition parse_tunnel_option :: "client_env \<Rightarrow> nat \<Rightarrow> string \<Rightarrow> string \<Rightarrow> parse_state \<Rightarrow> parse_state result" where
  "parse_tunnel_option e lineNo key value st =
     (case ps_tunnel st of
        None \<Rightarrow> Inl (at_line lineNo ''tunnel option without tunnel'')
      | Some name \<Rightarrow>
          let st = st\<lparr>ps_inProto := False\<rparr> in
          if key = ''subdomain'' then Inr (on_tunnel name (\<lambda>t. t\<lparr>tc_Subdomain := value\<rparr>) st)
          else if key = ''hostname'' then Inr (on_tunnel name (\<lambda>t. t\<lparr>tc_Hostname := value\<rparr>) st)
          else if key = ''auth'' then Inr (on_tunnel name (\<lambda>t. t\<lparr>tc_HttpAuth := value\<rparr>) st)
          else if key = ''remote_port'' then
            (case parse_uint16 value of
               None \<Rightarrow> Inl (at_line lineNo ''invalid remote_port'')
             | Some port \<Rightarrow> Inr (on_tunnel name (\<lambda>t. t\<lparr>tc_RemotePort := word_of_int port\<rparr>) st))
          else if key = ''proto'' then Inr (st\<lparr>ps_inProto := True\<rparr>)
          else Inl (at_line lineNo (''unknown tunnel key '' @ quote (ce_quote e) key)))"

definition parse_protocol :: "nat \<Rightarrow> string \<Rightarrow> string \<Rightarrow> parse_state \<Rightarrow> parse_state result" where
  "parse_protocol lineNo key value st =
     (case ps_tunnel st of
        None \<Rightarrow> Inl (at_line lineNo ''protocol without proto section'')
      | Some name \<Rightarrow>
          if \<not> ps_inProto st then Inl (at_line lineNo ''protocol without proto section'')
          else Inr (on_tunnel name (\<lambda>t. t\<lparr>tc_Protocols := (tc_Protocols t)(key \<mapsto> value)\<rparr>) st))"

definition parse_line :: "client_env \<Rightarrow> nat \<Rightarrow> string \<Rightarrow> parse_state \<Rightarrow> parse_state result" where
  "parse_line e lineNo text st =
     (let raw = stripComment text in
      if trim_space raw = [] then Inr st
      else (case splitKeyValue (trim_space raw) of
              None \<Rightarrow> Inl (at_line lineNo ''expected key: value'')
            | Some (key, value) \<Rightarrow>
                let indent = leadingSpaces raw in
                if indent = 0 then parse_top e lineNo key value st
                else if indent = 2 then parse_tunnel_name e lineNo key st
                else if indent = 4 then parse_tunnel_option e lineNo key value st
                else if indent = 6 then parse_protocol lineNo key value st
                else Inl (at_line lineNo ''unsupported indentation'')))"

fun parse_lines :: "client_env \<Rightarrow> nat \<Rightarrow> string list \<Rightarrow> parse_state \<Rightarrow> parse_state result" where
  "parse_lines e lineNo [] st = Inr st"
| "parse_lines e lineNo (l # ls) st =
     (case parse_line e lineNo l st of
        Inl err \<Rightarrow> Inl err
      | Inr st' \<Rightarrow> parse_lines e (Suc lineNo) ls st')"

definition start_parse :: "configuration \<Rightarrow> parse_state" where
  "start_parse c = \<lparr>ps_config = c, ps_section = [], ps_tunnel = None, ps_inProto = False\<rparr>"

definition parseConfiguration :: "client_env \<Rightarrow> string \<Rightarrow> configuration \<Rightarrow> configuration result" where
  "parseConfiguration e data c =
     (let (ls, err) = scan_lines data in
      case parse_lines e 1 ls (start_parse c) of
        Inl msg \<Rightarrow> Inl msg
      | Inr st \<Rightarrow> (case err of Some msg \<Rightarrow> Inl msg | None \<Rightarrow> Inr (ps_config st)))"

section \<open>Writing\<close>

definition config_line :: "string \<Rightarrow> string \<Rightarrow> string \<Rightarrow> string" where
  "config_line pad key value = pad @ key @ '': '' @ value @ [newline]"

definition writeString :: "string \<Rightarrow> string \<Rightarrow> string" where
  "writeString key value = (if value \<noteq> [] then config_line [] key value else [])"

definition writeTunnelString :: "string \<Rightarrow> string \<Rightarrow> string" where
  "writeTunnelString key value = (if value \<noteq> [] then config_line ''    '' key value else [])"

text \<open>Text of one tunnel and of all tunnels, for the orders in which the loops see the keys.\<close>

definition format_tunnel :: "client_env \<Rightarrow> string \<Rightarrow> tunnelConfiguration \<Rightarrow> string" where
  "format_tunnel e name t =
     ''  '' @ name @ '':'' @ [newline] @
     writeTunnelString ''subdomain'' (tc_Subdomain t) @
     writeTunnelString ''hostname'' (tc_Hostname t) @
     writeTunnelString ''auth'' (tc_HttpAuth t) @
     (if tc_RemotePort t \<noteq> 0
      then config_line ''    '' ''remote_port'' (show_int (uint (tc_RemotePort t))) else []) @
     (if tc_Protocols t \<noteq> Map.empty
      then ''    proto:'' @ [newline] @
           concat (map (\<lambda>proto. config_line ''      '' proto (the (tc_Protocols t proto)))
             (ce_range e [''format'', name] (dom (tc_Protocols t))))
      else [])"

definition formatConfiguration :: "client_env \<Rightarrow> configuration \<Rightarrow> string" where
  "formatConfiguration e c =
     writeString ''http_proxy'' (cf_HttpProxy c) @
     writeString ''server_addr'' (cf_ServerAddr c) @
     writeString ''inspect_addr'' (cf_InspectAddr c) @
     writeString ''inspect_auth'' (cf_InspectAuth c) @
     (if cf_TrustHostRootCerts c then ''trust_host_root_certs: true'' @ [newline] else []) @
     writeString ''auth_token'' (cf_AuthToken c) @
     (if cf_Tunnels c \<noteq> Map.empty
      then ''tunnels:'' @ [newline] @
           concat (map (\<lambda>name. format_tunnel e name (the (cf_Tunnels c name)))
             (ce_range e [''format''] (dom (cf_Tunnels c))))
      else [])"

section \<open>Loading\<close>

definition defaultServerAddr :: string where "defaultServerAddr = ''ngrokd.ngrok.com:443''"

definition defaultInspectAddr :: string where "defaultInspectAddr = ''127.0.0.1:4040''"

text \<open>The characters \<open>[0-9a-zA-Z_\-!]\<close> of the old single-token format.\<close>

definition token_char :: "char \<Rightarrow> bool" where
  "token_char c \<longleftrightarrow> is_digit c \<or> is_lower c \<or> is_upper c \<or> c \<in> {CHR ''_'', CHR ''-'', CHR ''!''}"

definition legacy_token :: "string \<Rightarrow> bool" where
  "legacy_token content \<longleftrightarrow> content \<noteq> [] \<and> list_all token_char content"

definition read_configuration :: "client_env \<Rightarrow> client_options \<Rightarrow> configuration result" where
  "read_configuration e opts =
     (let configPath = (if co_config opts = [] then defaultPath e else co_config opts);
          (configBuf, err) = ce_readFile e configPath in
      case (err, co_config opts \<noteq> []) of
        (Some msg, True) \<Rightarrow> Inl (''Failed to read configuration file '' @ configPath @ '': '' @ msg)
      | _ \<Rightarrow>
          (case parseConfiguration e configBuf empty_configuration of
             Inl msg \<Rightarrow> Inl (''Error parsing configuration file '' @ configPath @ '': '' @ msg)
           | Inr c \<Rightarrow>
               let content = trim_space configBuf in
               Inr (if legacy_token content then empty_configuration\<lparr>cf_AuthToken := content\<rparr> else c)))"

definition config_defaults :: "client_env \<Rightarrow> configuration \<Rightarrow> configuration" where
  "config_defaults e c =
     (let c = (if cf_ServerAddr c = [] then c\<lparr>cf_ServerAddr := defaultServerAddr\<rparr> else c);
          c = (if cf_InspectAddr c = [] then c\<lparr>cf_InspectAddr := defaultInspectAddr\<rparr> else c) in
      if cf_HttpProxy c = [] then c\<lparr>cf_HttpProxy := ce_getenv e ''http_proxy''\<rparr> else c)"

definition check_inspect :: "client_env \<Rightarrow> client_options \<Rightarrow> configuration \<Rightarrow> configuration result" where
  "check_inspect e opts c =
     (if cf_InspectAddr c = ''disabled'' then Inr c
      else case normalizeAddress (cf_InspectAddr c) ''inspect_addr'' of
        Inl err \<Rightarrow> Inl err
      | Inr addr \<Rightarrow>
          let c = c\<lparr>cf_InspectAddr := addr\<rparr> in
          if cf_InspectAuth c \<noteq> [] then Inr c
          else
            let c = c\<lparr>cf_InspectAuth := co_inspectauth opts\<rparr> in
            if cf_InspectAuth c = [] \<and> \<not> isLoopbackAddress e (cf_InspectAddr c)
            then Inl (''inspect_addr '' @ cf_InspectAddr c @
                   '' is not loopback; set inspect_auth or use inspect_addr: disabled'')
            else Inr c)"

definition check_server :: "configuration \<Rightarrow> configuration result" where
  "check_server c =
     (case normalizeAddress (cf_ServerAddr c) ''server_addr'' of
        Inl err \<Rightarrow> Inl err
      | Inr addr \<Rightarrow> Inr (c\<lparr>cf_ServerAddr := addr\<rparr>))"

text \<open>\<open>Some\<close> is the error.\<close>

definition check_proxy :: "client_env \<Rightarrow> configuration \<Rightarrow> string option" where
  "check_proxy e c =
     (if cf_HttpProxy c = [] then None
      else case ce_url_scheme e (cf_HttpProxy c) of
        Inl err \<Rightarrow> Some err
      | Inr scheme \<Rightarrow>
          if scheme \<noteq> ''http'' \<and> scheme \<noteq> ''https''
          then Some (''Proxy url scheme must be '' @ sq @ ''http'' @ sq @ '' or '' @ sq @ ''https'' @ sq @
                 '', got '' @ scheme)
          else None)"

fun check_protocols :: "string \<Rightarrow> string list \<Rightarrow> (string \<rightharpoonup> string) \<Rightarrow> (string \<rightharpoonup> string) result" where
  "check_protocols name [] ps = Inr ps"
| "check_protocols name (k # ks) ps =
     (let tunnelName = ''for tunnel '' @ name @ ''['' @ k @ '']'' in
      case normalizeAddress (the (ps k)) tunnelName of
        Inl err \<Rightarrow> Inl err
      | Inr addr \<Rightarrow>
          (case validateProtocol k tunnelName of
             Some err \<Rightarrow> Inl err
           | None \<Rightarrow> check_protocols name ks (ps(k \<mapsto> addr))))"

definition check_tunnel :: "client_env \<Rightarrow> string \<Rightarrow> tunnelConfiguration \<Rightarrow> tunnelConfiguration result" where
  "check_tunnel e name t =
     (if tc_Protocols t = Map.empty
      then Inl (''Tunnel '' @ name @ '' does not specify any protocols to tunnel.'')
      else case check_protocols name (ce_range e [''protocols'', name] (dom (tc_Protocols t))) (tc_Protocols t) of
        Inl err \<Rightarrow> Inl err
      | Inr ps \<Rightarrow>
          let t = t\<lparr>tc_Protocols := ps\<rparr> in
          Inr (if tc_Hostname t = [] \<and> tc_Subdomain t = []
               then (if 1 < length (split_on CHR ''.'' name) then t\<lparr>tc_Hostname := name\<rparr>
                     else t\<lparr>tc_Subdomain := name\<rparr>)
               else t))"

fun check_tunnels ::
  "client_env \<Rightarrow> string list \<Rightarrow> (string \<rightharpoonup> tunnelConfiguration) \<Rightarrow> (string \<rightharpoonup> tunnelConfiguration) result" where
  "check_tunnels e [] ts = Inr ts"
| "check_tunnels e (name # names) ts =
     (case check_tunnel e name (the (ts name)) of
        Inl err \<Rightarrow> Inl err
      | Inr t \<Rightarrow> check_tunnels e names (ts(name \<mapsto> t)))"

text \<open>The configuration after defaults, validation and the options of the command line.\<close>

definition validated :: "client_env \<Rightarrow> client_options \<Rightarrow> configuration result" where
  "validated e opts =
     (case read_configuration e opts of
        Inl err \<Rightarrow> Inl err
      | Inr c \<Rightarrow>
     (case check_inspect e opts (config_defaults e c) of
        Inl err \<Rightarrow> Inl err
      | Inr c \<Rightarrow>
     (case check_server c of
        Inl err \<Rightarrow> Inl err
      | Inr c \<Rightarrow>
     (case check_proxy e c of
        Some err \<Rightarrow> Inl err
      | None \<Rightarrow>
     (case check_tunnels e (ce_range e [''tunnels''] (dom (cf_Tunnels c))) (cf_Tunnels c) of
        Inl err \<Rightarrow> Inl err
      | Inr ts \<Rightarrow>
          let c = c\<lparr>cf_Tunnels := ts, cf_LogTo := co_logto opts,
                    cf_Path := (if co_config opts = [] then defaultPath e else co_config opts)\<rparr> in
          Inr (if co_authtoken opts \<noteq> [] then c\<lparr>cf_AuthToken := co_authtoken opts\<rparr> else c))))))"

datatype loaded =
  Loaded configuration
| LoadFails string
| ListsTunnels "string list"
| LoadPanics

text \<open>The loop over the protocols of the command \<open>default\<close>; \<open>opts.args[0]\<close> panics without arguments.\<close>

fun default_protocols :: "string list \<Rightarrow> string list \<Rightarrow> tunnelConfiguration \<Rightarrow> tunnelConfiguration + loaded" where
  "default_protocols args [] t = Inl t"
| "default_protocols args (proto # protos) t =
     (case validateProtocol proto ''default'' of
        Some err \<Rightarrow> Inr (LoadFails err)
      | None \<Rightarrow>
          if args = [] then Inr LoadPanics
          else (case normalizeAddress (args ! 0) [] of
                  Inl err \<Rightarrow> Inr (LoadFails err)
                | Inr addr \<Rightarrow>
                    default_protocols args protos (t\<lparr>tc_Protocols := (tc_Protocols t)(proto \<mapsto> addr)\<rparr>)))"

definition default_tunnel :: "client_options \<Rightarrow> tunnelConfiguration" where
  "default_tunnel opts =
     empty_tunnel\<lparr>tc_Subdomain := co_subdomain opts, tc_Hostname := co_hostname opts,
       tc_HttpAuth := co_httpauth opts\<rparr>"

text \<open>The first requested tunnel that the file does not define.\<close>

definition undefined_tunnel :: "string list \<Rightarrow> configuration \<Rightarrow> string option" where
  "undefined_tunnel args c = find (\<lambda>arg. cf_Tunnels c arg = None) args"

definition run_command :: "client_env \<Rightarrow> client_options \<Rightarrow> configuration \<Rightarrow> loaded" where
  "run_command e opts c =
     (if co_command opts = ''default'' then
        (case default_protocols (co_args opts) (split_on CHR ''+'' (co_protocol opts)) (default_tunnel opts) of
           Inr out \<Rightarrow> out
         | Inl t \<Rightarrow> Loaded (c\<lparr>cf_Tunnels := [''default'' \<mapsto> t]\<rparr>))
      else if co_command opts = ''list'' then ListsTunnels (ce_range e [''list''] (dom (cf_Tunnels c)))
      else if co_command opts = ''start'' then
        (if co_args opts = [] then LoadFails ''You must specify at least one tunnel to start''
         else case undefined_tunnel (co_args opts) c of
           Some arg \<Rightarrow> LoadFails (''Requested to start tunnel '' @ arg @
                                '' which is not defined in the config file.'')
         | None \<Rightarrow> Loaded (c\<lparr>cf_Tunnels := cf_Tunnels c |` set (co_args opts)\<rparr>))
      else if co_command opts = ''start-all'' then Loaded c
      else LoadFails (''Unknown command: '' @ co_command opts))"

definition LoadConfiguration :: "client_env \<Rightarrow> client_options \<Rightarrow> loaded" where
  "LoadConfiguration e opts =
     (case validated e opts of Inl err \<Rightarrow> LoadFails err | Inr c \<Rightarrow> run_command e opts c)"

section \<open>Saving a token\<close>

text \<open>
  The error or the new content of the file, if it is written at all; \<open>write\<close> is the error of
  \<open>os.WriteFile\<close>.
\<close>

definition SaveAuthToken ::
  "client_env \<Rightarrow> (string \<Rightarrow> string option) \<Rightarrow> string \<Rightarrow> string \<Rightarrow> string option \<times> string option" where
  "SaveAuthToken e write configPath authtoken =
     (let (old, err) = ce_readFile e configPath in
      case (if err = None then parseConfiguration e old empty_configuration else Inr empty_configuration) of
        Inl msg \<Rightarrow> (Some msg, None)
      | Inr c \<Rightarrow>
          if cf_AuthToken c = authtoken then (err, None)
          else
            let new = formatConfiguration e (c\<lparr>cf_AuthToken := authtoken\<rparr>) in
            (case write new of Some msg \<Rightarrow> (Some msg, None) | None \<Rightarrow> (None, Some new)))"

end
