(* ===== verification/Config_Roundtrip.thy ===== *)
theory Config_Roundtrip
  imports Client_Config "HOL-Library.Char_ord" "HOL-Library.List_Lexorder"
begin

text \<open>
  What the configuration file of the client keeps: a configuration whose values need no quoting is
  read back as it was written, and what saving an authentication token does to the file.
\<close>

section \<open>Texts that survive\<close>

definition solid_ends :: "string \<Rightarrow> bool" where
  "solid_ends s \<longleftrightarrow> s \<noteq> [] \<and> solid (hd s) \<and> solid (last s)"

text \<open>
  A value starts and ends with a byte that is neither a quote nor part of a space, has no \<open>#\<close> and
  no newline, and fits into a line of the scanner; a key moreover has no colon.
\<close>

definition clean_value :: "string \<Rightarrow> bool" where
  "clean_value v \<longleftrightarrow>
     (v \<noteq> [] \<longrightarrow> solid_ends v \<and> hd v \<notin> set quote_chars \<and> last v \<notin> set quote_chars) \<and>
     CHR ''#'' \<notin> set v \<and> newline \<notin> set v \<and> length v \<le> 60000"

definition clean_key :: "string \<Rightarrow> bool" where
  "clean_key k \<longleftrightarrow>
     solid_ends k \<and> CHR '':'' \<notin> set k \<and> CHR ''#'' \<notin> set k \<and> newline \<notin> set k \<and> length k \<le> 5000"

definition clean_tunnel :: "tunnelConfiguration \<Rightarrow> bool" where
  "clean_tunnel t \<longleftrightarrow>
     clean_value (tc_Subdomain t) \<and> clean_value (tc_Hostname t) \<and> clean_value (tc_HttpAuth t) \<and>
     finite (dom (tc_Protocols t)) \<and>
     (\<forall>k v. tc_Protocols t k = Some v \<longrightarrow> clean_key k \<and> clean_value v)"

definition clean_config :: "configuration \<Rightarrow> bool" where
  "clean_config c \<longleftrightarrow>
     clean_value (cf_HttpProxy c) \<and> clean_value (cf_ServerAddr c) \<and> clean_value (cf_InspectAddr c) \<and>
     clean_value (cf_InspectAuth c) \<and> clean_value (cf_AuthToken c) \<and> cf_LogTo c = [] \<and> cf_Path c = [] \<and>
     finite (dom (cf_Tunnels c)) \<and>
     (\<forall>name t. cf_Tunnels c name = Some t \<longrightarrow> clean_key name \<and> clean_tunnel t)"

text \<open>A loop over a map sees every key once.\<close>

definition ranges_ok :: "client_env \<Rightarrow> bool" where
  "ranges_ok e \<longleftrightarrow> (\<forall>tag S. finite S \<longrightarrow> set (ce_range e tag S) = S)"

section \<open>One line\<close>

definition entry :: "nat \<Rightarrow> string \<Rightarrow> string \<Rightarrow> string" where
  "entry i k v = replicate i CHR '' '' @ k @ '': '' @ v"

definition header :: "nat \<Rightarrow> string \<Rightarrow> string" where
  "header i k = replicate i CHR '' '' @ k @ '':''"

lemma solid_colon: "solid CHR '':''"
  by (rule solid_ascii) simp_all

lemma stripComment_id: "CHR ''#'' \<notin> set s \<Longrightarrow> stripComment s = s"
  using cut_None [of "CHR ''#''" s] by (simp add: stripComment_def)

lemma leadingSpaces_pad: "s \<noteq> [] \<Longrightarrow> hd s \<noteq> CHR '' '' \<Longrightarrow> leadingSpaces (replicate i CHR '' '' @ s) = i"
  by (cases s) (simp_all add: leadingSpaces_def trim_left_set_def dropWhile_append)

lemma dropWhile_hd: "v = [] \<or> \<not> P (hd v) \<Longrightarrow> dropWhile P v = v"
  by (cases v) auto

lemma trim_set_id: "v = [] \<or> (hd v \<notin> set cs \<and> last v \<notin> set cs) \<Longrightarrow> trim_set cs v = v"
  using dropWhile_hd [of v "\<lambda>c. c \<in> set cs"] dropWhile_hd [of "rev v" "\<lambda>c. c \<in> set cs"]
  by (auto simp: trim_set_def hd_rev)

lemma trim_value: "clean_value v \<Longrightarrow> trim_set quote_chars (trim_space (CHR '' '' # v)) = v"
proof (cases "v = []")
  case False
  assume "clean_value v"
  with False have "trim_space (CHR '' '' # v) = v" "trim_set quote_chars v = v"
    using trim_space_padded [of v 1 0] by (auto simp: clean_value_def solid_ends_def intro: trim_set_id)
  then show ?thesis by simp
qed (use trim_space_blank [of 1] in \<open>simp add: trim_set_id\<close>)

lemma trim_key: "clean_key k \<Longrightarrow> trim_space k = k"
  by (auto simp: clean_key_def solid_ends_def intro: trim_space_id)

lemma splitKeyValue_clean:
  assumes "clean_key k"
  shows "splitKeyValue (k @ CHR '':'' # r) = Some (k, trim_set quote_chars (trim_space r))"
  using assms trim_key [OF assms]
  by (simp add: splitKeyValue_def numeral_2_eq_2 cut_append clean_key_def solid_ends_def Let_def)

lemma parse_clean_line:
  fixes i :: nat
  assumes k: "clean_key k" and r: "r = [] \<or> solid (last r)" "CHR ''#'' \<notin> set r"
  defines "text \<equiv> replicate i CHR '' '' @ k @ CHR '':'' # r"
  shows "trim_space (stripComment text) = k @ CHR '':'' # r" "stripComment text = text"
    "leadingSpaces text = i"
proof -
  have ends: "k \<noteq> []" "solid (hd k)" "hd k \<noteq> CHR '' ''"
    using k solid_not_space by (auto simp: clean_key_def solid_ends_def)
  show strip: "stripComment text = text"
    using k r by (intro stripComment_id) (auto simp: text_def clean_key_def)
  have "solid (last (k @ CHR '':'' # r))"
    using r(1) solid_colon by auto
  then show "trim_space (stripComment text) = k @ CHR '':'' # r"
    unfolding strip using ends trim_space_padded [of "k @ CHR '':'' # r" i 0] by (simp add: text_def)
  show "leadingSpaces text = i"
    unfolding text_def using ends by (intro leadingSpaces_pad) simp_all
qed

definition dispatch :: "client_env \<Rightarrow> nat \<Rightarrow> nat \<Rightarrow> string \<Rightarrow> string \<Rightarrow> parse_state \<Rightarrow> parse_state result" where
  "dispatch e lineNo i k v st =
     (if i = 0 then parse_top e lineNo k v st
      else if i = 2 then parse_tunnel_name e lineNo k st
      else if i = 4 then parse_tunnel_option e lineNo k v st
      else if i = 6 then parse_protocol lineNo k v st
      else Inl (at_line lineNo ''unsupported indentation''))"

lemma parse_line_header: "clean_key k \<Longrightarrow> parse_line e n (header i k) st = dispatch e n i k [] st"
  using parse_clean_line [of k "[]" i] splitKeyValue_clean [of k "[]"]
  by (simp add: parse_line_def header_def dispatch_def Let_def trim_set_def)

lemma trim_space_colon_space:
  assumes "clean_key k"
  shows "trim_space (replicate i CHR '' '' @ k @ '': '') = k @ '':''"
  using assms solid_colon trim_space_padded [of "k @ '':''" i 1]
  by (simp add: clean_key_def solid_ends_def)

lemma parse_line_entry:
  assumes k: "clean_key k" and v: "clean_value v"
  shows "parse_line e n (entry i k v) st = dispatch e n i k v st"
proof (cases "v = []")
  case True
  have ends: "k \<noteq> []" "hd k \<noteq> CHR '' ''"
    using k solid_not_space by (auto simp: clean_key_def solid_ends_def)
  have strip: "stripComment (entry i k []) = replicate i CHR '' '' @ k @ '': ''"
    using k by (subst stripComment_id) (auto simp: entry_def clean_key_def)
  have "leadingSpaces (replicate i CHR '' '' @ k @ '': '') = i"
    using ends by (intro leadingSpaces_pad) simp_all
  then show ?thesis
    using splitKeyValue_clean [OF k, of "[]"]
    by (simp add: parse_line_def strip trim_space_colon_space [OF k] dispatch_def Let_def True trim_set_def)
next
  case False
  then have "solid (last (CHR '' '' # v))" "CHR ''#'' \<notin> set (CHR '' '' # v)"
    using v by (auto simp: clean_value_def solid_ends_def)
  then show ?thesis
    using parse_clean_line [OF k, of "CHR '' '' # v" i] splitKeyValue_clean [OF k, of "CHR '' '' # v"] trim_value [OF v]
    by (simp add: parse_line_def entry_def dispatch_def Let_def)
qed

section \<open>Several lines\<close>

definition parses :: "client_env \<Rightarrow> string list \<Rightarrow> parse_state \<Rightarrow> parse_state \<Rightarrow> bool" where
  "parses e ls st st' \<longleftrightarrow> (\<forall>n. parse_lines e n ls st = Inr st')"

named_theorems parses_intros \<open>blocks of lines and the states between them\<close>

lemma parses_Nil [parses_intros]: "parses e [] st st"
  by (simp add: parses_def)

lemma parses_Cons: "\<forall>n. parse_line e n l st = Inr a \<Longrightarrow> parses e ls a b \<Longrightarrow> parses e (l # ls) st b"
  by (simp add: parses_def)

lemma parses_one: "\<forall>n. parse_line e n l st = Inr a \<Longrightarrow> parses e [l] st a"
  by (rule parses_Cons [OF _ parses_Nil])

lemma parse_lines_append:
  "parse_lines e n (xs @ ys) st =
     (case parse_lines e n xs st of Inl err \<Rightarrow> Inl err | Inr a \<Rightarrow> parse_lines e (n + length xs) ys a)"
  by (induction xs arbitrary: n st) (auto split: sum.splits)

lemma parses_append: "parses e xs st a \<Longrightarrow> parses e ys a b \<Longrightarrow> parses e (xs @ ys) st b"
  by (simp add: parses_def parse_lines_append)

section \<open>The lines of a configuration\<close>

definition opt_entry :: "nat \<Rightarrow> string \<Rightarrow> string \<Rightarrow> string list" where
  "opt_entry i k v = (if v = [] then [] else [entry i k v])"

definition port_text :: "16 word \<Rightarrow> string" where
  "port_text p = (if p = 0 then [] else show_int (uint p))"

definition protocol_lines :: "(string \<rightharpoonup> string) \<Rightarrow> string list \<Rightarrow> string list" where
  "protocol_lines ps ks = map (\<lambda>k. entry 6 k (the (ps k))) ks"

definition tunnel_lines :: "client_env \<Rightarrow> string \<Rightarrow> tunnelConfiguration \<Rightarrow> string list" where
  "tunnel_lines e name t =
     header 2 name # opt_entry 4 ''subdomain'' (tc_Subdomain t) @ opt_entry 4 ''hostname'' (tc_Hostname t) @
     opt_entry 4 ''auth'' (tc_HttpAuth t) @ opt_entry 4 ''remote_port'' (port_text (tc_RemotePort t)) @
     (if tc_Protocols t \<noteq> Map.empty
      then header 4 ''proto'' #
           protocol_lines (tc_Protocols t) (ce_range e [''format'', name] (dom (tc_Protocols t)))
      else [])"

definition top_lines :: "configuration \<Rightarrow> string list" where
  "top_lines c =
     opt_entry 0 ''http_proxy'' (cf_HttpProxy c) @ opt_entry 0 ''server_addr'' (cf_ServerAddr c) @
     opt_entry 0 ''inspect_addr'' (cf_InspectAddr c) @ opt_entry 0 ''inspect_auth'' (cf_InspectAuth c) @
     opt_entry 0 ''trust_host_root_certs'' (if cf_TrustHostRootCerts c then ''true'' else []) @
     opt_entry 0 ''auth_token'' (cf_AuthToken c)"

definition config_lines :: "client_env \<Rightarrow> configuration \<Rightarrow> string list" where
  "config_lines e c =
     top_lines c @
     (if cf_Tunnels c \<noteq> Map.empty
      then header 0 ''tunnels'' #
           concat (map (\<lambda>name. tunnel_lines e name (the (cf_Tunnels c name)))
             (ce_range e [''format''] (dom (cf_Tunnels c))))
      else [])"

lemma config_line_entry: "config_line (replicate i CHR '' '') k v = unlines [entry i k v]"
  by (simp add: config_line_def entry_def)

lemma pads: "[] = replicate 0 CHR '' ''" "''    '' = replicate 4 CHR '' ''" "''      '' = replicate 6 CHR '' ''"
  by (simp_all add: numeral_eq_Suc)

lemma writeString_lines: "writeString k v = unlines (opt_entry 0 k v)"
  using config_line_entry [of 0 k v] by (simp add: writeString_def opt_entry_def)

lemma writeTunnelString_lines: "writeTunnelString k v = unlines (opt_entry 4 k v)"
  by (simp only: writeTunnelString_def opt_entry_def pads(2) config_line_entry unlines_simps if_split) simp

lemma protocol_text: "concat (map (\<lambda>k. config_line ''      '' k (the (ps k))) ks) = unlines (protocol_lines ps ks)"
  unfolding pads(3) config_line_entry by (simp add: protocol_lines_def unlines_def comp_def)

lemma port_lines:
  "(if p \<noteq> 0 then config_line ''    '' ''remote_port'' (show_int (uint p)) else []) =
   unlines (opt_entry 4 ''remote_port'' (port_text p))"
proof -
  have "show_int (uint p) \<noteq> []"
    by simp
  then show ?thesis
    unfolding pads(2) config_line_entry by (simp add: port_text_def opt_entry_def)
qed

lemma format_tunnel_lines: "format_tunnel e name t = unlines (tunnel_lines e name t)"
proof -
  have h: "''  '' @ name @ '':'' @ [newline] @ r = header 2 name @ newline # r"
    "''    proto:'' @ [newline] @ r = header 4 ''proto'' @ newline # r" for r
    by (simp_all add: header_def numeral_eq_Suc)
  show ?thesis
    unfolding format_tunnel_def tunnel_lines_def h writeTunnelString_lines port_lines protocol_text
    by simp
qed

lemma unlines_concat: "unlines (concat (map f xs)) = concat (map (\<lambda>x. unlines (f x)) xs)"
  by (induction xs) simp_all

lemma format_lines: "formatConfiguration e c = unlines (config_lines e c)"
proof -
  have h: "''tunnels:'' @ [newline] @ r = header 0 ''tunnels'' @ newline # r" for r
    by (simp add: header_def)
  have b: "(if b then ''trust_host_root_certs: true'' @ [newline] else []) =
      unlines (opt_entry 0 ''trust_host_root_certs'' (if b then ''true'' else []))" for b
    by (simp add: opt_entry_def entry_def)
  show ?thesis
    unfolding formatConfiguration_def config_lines_def top_lines_def h b writeString_lines format_tunnel_lines
    by (simp add: unlines_concat)
qed

section \<open>Reading the lines back\<close>

lemma clean_keywords:
  "clean_key ''http_proxy''" "clean_key ''server_addr''" "clean_key ''inspect_addr''"
  "clean_key ''inspect_auth''" "clean_key ''trust_host_root_certs''" "clean_key ''auth_token''"
  "clean_key ''tunnels''" "clean_key ''subdomain''" "clean_key ''hostname''" "clean_key ''auth''"
  "clean_key ''remote_port''" "clean_key ''proto''"
  by (simp_all add: clean_key_def solid_ends_def solid_ascii newline_def)

lemma parses_entry:
  "clean_key k \<Longrightarrow> clean_value v \<Longrightarrow> \<forall>n. dispatch e n i k v st = Inr a \<Longrightarrow> parses e [entry i k v] st a"
  by (rule parses_one) (simp add: parse_line_entry)

lemma parses_header: "clean_key k \<Longrightarrow> \<forall>n. dispatch e n i k [] st = Inr a \<Longrightarrow> parses e [header i k] st a"
  by (rule parses_one) (simp add: parse_line_header)

lemma parses_opt_entry:
  assumes "clean_key k" "clean_value v" "v = [] \<longrightarrow> a = st" "\<forall>n. dispatch e n i k v st = Inr a"
  shows "parses e (opt_entry i k v) st a"
  using assms parses_Nil by (simp add: opt_entry_def parses_entry)

subsection \<open>The keys of the top level\<close>

lemmas top_defs = dispatch_def parse_top_def on_config_def start_parse_def Let_def

lemma parses_top_string [parses_intros]:
  assumes "clean_value v"
  shows
    "cf_HttpProxy c = [] \<Longrightarrow> parses e (opt_entry 0 ''http_proxy'' v) (start_parse c) (start_parse (c\<lparr>cf_HttpProxy := v\<rparr>))"
    "cf_ServerAddr c = [] \<Longrightarrow> parses e (opt_entry 0 ''server_addr'' v) (start_parse c) (start_parse (c\<lparr>cf_ServerAddr := v\<rparr>))"
    "cf_InspectAddr c = [] \<Longrightarrow> parses e (opt_entry 0 ''inspect_addr'' v) (start_parse c) (start_parse (c\<lparr>cf_InspectAddr := v\<rparr>))"
    "cf_InspectAuth c = [] \<Longrightarrow> parses e (opt_entry 0 ''inspect_auth'' v) (start_parse c) (start_parse (c\<lparr>cf_InspectAuth := v\<rparr>))"
    "cf_AuthToken c = [] \<Longrightarrow> parses e (opt_entry 0 ''auth_token'' v) (start_parse c) (start_parse (c\<lparr>cf_AuthToken := v\<rparr>))"
  using assms by (auto intro!: parses_opt_entry clean_keywords simp: top_defs)

lemma clean_true: "clean_value ''true''"
  by (simp add: clean_value_def solid_ends_def solid_ascii newline_def quote_chars_def)

lemma clean_Nil: "clean_value []"
  by (simp add: clean_value_def)

lemma parseBool_true: "parseBool ul ''true''"
  by (simp add: parseBool_def to_lower_def is_ascii_def lower_char_def is_upper_def)

lemma same_fields:
  "\<not> cf_TrustHostRootCerts c \<Longrightarrow> c\<lparr>cf_TrustHostRootCerts := False\<rparr> = c"
  "tc_Subdomain t = [] \<Longrightarrow> t\<lparr>tc_Subdomain := []\<rparr> = t"
  "tc_Hostname t = [] \<Longrightarrow> t\<lparr>tc_Hostname := []\<rparr> = t"
  "tc_HttpAuth t = [] \<Longrightarrow> t\<lparr>tc_HttpAuth := []\<rparr> = t"
  for c :: configuration and t :: tunnelConfiguration
  by (cases c; cases t; simp)+

lemma parses_top_bool:
  "\<not> cf_TrustHostRootCerts c \<Longrightarrow>
   parses e (opt_entry 0 ''trust_host_root_certs'' (if b then ''true'' else [])) (start_parse c)
     (start_parse (c\<lparr>cf_TrustHostRootCerts := b\<rparr>))"
proof (cases b)
  case True
  have "parses e [entry 0 ''trust_host_root_certs'' ''true''] (start_parse c)
     (start_parse (c\<lparr>cf_TrustHostRootCerts := True\<rparr>))"
    by (rule parses_entry) (simp_all add: clean_keywords clean_true top_defs parseBool_true)
  with True show ?thesis by (simp add: opt_entry_def)
qed (simp add: opt_entry_def parses_Nil same_fields)

lemma parses_top_lines:
  assumes "clean_config c"
  shows "parses e (top_lines c) (start_parse empty_configuration) (start_parse (c\<lparr>cf_Tunnels := Map.empty\<rparr>))"
proof -
  let ?c0 = empty_configuration
  let ?c1 = "?c0\<lparr>cf_HttpProxy := cf_HttpProxy c\<rparr>"
  let ?c2 = "?c1\<lparr>cf_ServerAddr := cf_ServerAddr c\<rparr>"
  let ?c3 = "?c2\<lparr>cf_InspectAddr := cf_InspectAddr c\<rparr>"
  let ?c4 = "?c3\<lparr>cf_InspectAuth := cf_InspectAuth c\<rparr>"
  let ?c5 = "?c4\<lparr>cf_TrustHostRootCerts := cf_TrustHostRootCerts c\<rparr>"
  let ?c6 = "?c5\<lparr>cf_AuthToken := cf_AuthToken c\<rparr>"
  have v: "clean_value (cf_HttpProxy c)" "clean_value (cf_ServerAddr c)" "clean_value (cf_InspectAddr c)"
    "clean_value (cf_InspectAuth c)" "clean_value (cf_AuthToken c)" and p: "cf_LogTo c = []" "cf_Path c = []"
    using assms by (auto simp: clean_config_def)
  have empty: "cf_ServerAddr ?c1 = []" "cf_InspectAddr ?c2 = []" "cf_InspectAuth ?c3 = []"
    "\<not> cf_TrustHostRootCerts ?c4" "cf_AuthToken ?c5 = []" "cf_HttpProxy ?c0 = []"
    by (simp_all add: empty_configuration_def)
  have "parses e (top_lines c) (start_parse ?c0) (start_parse ?c6)"
    unfolding top_lines_def
    by (rule parses_append [OF parses_top_string(1) [OF v(1) empty(6)]]
          parses_append [OF parses_top_string(2) [OF v(2) empty(1)]]
          parses_append [OF parses_top_string(3) [OF v(3) empty(2)]]
          parses_append [OF parses_top_string(4) [OF v(4) empty(3)]]
          parses_append [OF parses_top_bool [OF empty(4)]] parses_top_string(5) [OF v(5) empty(5)])+
  moreover have "?c6 = c\<lparr>cf_Tunnels := Map.empty\<rparr>"
    using p by (cases c) (simp add: empty_configuration_def)
  ultimately show ?thesis by simp
qed

subsection \<open>The options of a tunnel\<close>

definition in_tunnel :: "configuration \<Rightarrow> string \<Rightarrow> tunnelConfiguration \<Rightarrow> bool \<Rightarrow> parse_state" where
  "in_tunnel c name t ip =
     \<lparr>ps_config = c\<lparr>cf_Tunnels := (cf_Tunnels c)(name \<mapsto> t)\<rparr>, ps_section = ''tunnels'',
      ps_tunnel = Some name, ps_inProto = ip\<rparr>"

definition in_tunnels :: "configuration \<Rightarrow> parse_state \<Rightarrow> bool" where
  "in_tunnels c st \<longleftrightarrow> ps_config st = c \<and> ps_section st = ''tunnels''"

lemma on_tunnel_in: "on_tunnel name f (in_tunnel c name t ip) = in_tunnel c name (f t) ip"
  by (simp add: on_tunnel_def on_config_def in_tunnel_def)

lemma in_tunnel_fields [simp]:
  "ps_tunnel (in_tunnel c name t ip) = Some name" "ps_inProto (in_tunnel c name t ip) = ip"
  "(in_tunnel c name t ip)\<lparr>ps_inProto := b\<rparr> = in_tunnel c name t b"
  by (simp_all add: in_tunnel_def)

lemmas tunnel_defs = dispatch_def parse_tunnel_option_def on_tunnel_in Let_def

lemma parses_tunnel_string:
  assumes "clean_value v"
  shows
    "tc_Subdomain t = [] \<Longrightarrow> parses e (opt_entry 4 ''subdomain'' v) (in_tunnel c name t False)
       (in_tunnel c name (t\<lparr>tc_Subdomain := v\<rparr>) False)"
    "tc_Hostname t = [] \<Longrightarrow> parses e (opt_entry 4 ''hostname'' v) (in_tunnel c name t False)
       (in_tunnel c name (t\<lparr>tc_Hostname := v\<rparr>) False)"
    "tc_HttpAuth t = [] \<Longrightarrow> parses e (opt_entry 4 ''auth'' v) (in_tunnel c name t False)
       (in_tunnel c name (t\<lparr>tc_HttpAuth := v\<rparr>) False)"
  using assms by (auto intro!: parses_opt_entry clean_keywords simp: tunnel_defs same_fields)

lemma clean_digits: "0 \<le> n \<Longrightarrow> length (show_int n) \<le> 60000 \<Longrightarrow> clean_value (show_int n)"
proof -
  assume n: "0 \<le> n" "length (show_int n) \<le> 60000"
  have d: "c \<in> set (show_int n) \<Longrightarrow> is_digit c" for c
    using show_int_digits [OF n(1)] .
  have s: "solid c" "c \<notin> set quote_chars" "c \<noteq> CHR ''#''" "c \<noteq> newline" if "is_digit c" for c
  proof -
    have c: "48 \<le> (of_char c :: int)" "(of_char c :: int) \<le> 57"
      using that by (simp_all add: is_digit_def)
    then show "solid c" by (intro solid_ascii) simp_all
    show "c \<notin> set quote_chars" "c \<noteq> CHR ''#''" "c \<noteq> newline"
      using c by (auto simp: quote_chars_def newline_def)
  qed
  have "show_int n \<noteq> []" using n by simp
  then have "is_digit (hd (show_int n))" "is_digit (last (show_int n))"
    by (auto intro: d)
  then show ?thesis
    using n s d unfolding clean_value_def solid_ends_def by blast
qed

lemma length_show_digits: "0 \<le> n \<Longrightarrow> n < 10 ^ k \<Longrightarrow> 0 < k \<Longrightarrow> length (show_digits n) \<le> k"
proof (induction k arbitrary: n)
  case (Suc k)
  show ?case
  proof (cases "n < 10")
    case False
    then have "length (show_digits (n div 10)) \<le> k"
      using Suc by (cases k) (auto intro!: Suc.IH)
    with False show ?thesis by (subst show_digits.simps) simp
  qed (subst show_digits.simps, simp)
qed simp

lemma port_text_clean: "clean_value (port_text p)"
proof (cases "p = 0")
  case False
  have b: "0 \<le> uint p" "uint p < 10 ^ 5"
    using uint_lt2p [of p] by simp_all
  then have "length (show_int (uint p)) \<le> 5"
    using length_show_digits [of "uint p" 5] by (simp add: show_int_def)
  with False b(1) show ?thesis
    by (simp add: port_text_def clean_digits)
qed (simp add: port_text_def clean_Nil)

lemma port_text_back: "p \<noteq> 0 \<Longrightarrow> parse_uint16 (port_text p) = Some (uint p)"
  using uint_lt2p [of p] parse_digits_show [of "uint p"]
  by (simp add: port_text_def parse_uint16_def show_int_def)

lemma parses_tunnel_port:
  assumes "tc_RemotePort t = 0"
  shows "parses e (opt_entry 4 ''remote_port'' (port_text p)) (in_tunnel c name t False)
     (in_tunnel c name (t\<lparr>tc_RemotePort := p\<rparr>) False)"
proof (cases "p = 0")
  case True
  with assms have "t\<lparr>tc_RemotePort := p\<rparr> = t" by simp
  then show ?thesis using True by (simp add: opt_entry_def port_text_def parses_Nil)
next
  case False
  then have "port_text p \<noteq> []" by (simp add: port_text_def)
  with False show ?thesis
    using port_text_back [OF False]
    by (intro parses_opt_entry) (simp_all add: clean_keywords port_text_clean tunnel_defs)
qed

text \<open>A map written key by key.\<close>

fun write_keys :: "(string \<rightharpoonup> 'v) \<Rightarrow> string list \<Rightarrow> (string \<rightharpoonup> 'v) \<Rightarrow> (string \<rightharpoonup> 'v)" where
  "write_keys ps [] m = m"
| "write_keys ps (k # ks) m = write_keys ps ks (m(k \<mapsto> the (ps k)))"

lemma write_keys_apply: "write_keys ps ks m k = (if k \<in> set ks then Some (the (ps k)) else m k)"
  by (induction ks arbitrary: m) auto

lemma write_keys_all: "set ks = dom ps \<Longrightarrow> write_keys ps ks Map.empty = ps"
  by (rule ext) (auto simp: write_keys_apply domIff)

lemma map_fields:
  "tc_Protocols (t\<lparr>tc_Protocols := p\<rparr>) = p" "t\<lparr>tc_Protocols := p, tc_Protocols := p'\<rparr> = t\<lparr>tc_Protocols := p'\<rparr>"
  "cf_Tunnels (c\<lparr>cf_Tunnels := q\<rparr>) = q" "c\<lparr>cf_Tunnels := q, cf_Tunnels := q'\<rparr> = c\<lparr>cf_Tunnels := q'\<rparr>"
  "t\<lparr>tc_Protocols := tc_Protocols t\<rparr> = t" "c\<lparr>cf_Tunnels := cf_Tunnels c\<rparr> = c"
  for t :: tunnelConfiguration and c :: configuration
  by simp_all

lemma parses_protocols:
  assumes "\<forall>k \<in> set ks. clean_key k \<and> clean_value (the (ps k))"
  shows "parses e (protocol_lines ps ks) (in_tunnel c name t True)
     (in_tunnel c name (t\<lparr>tc_Protocols := write_keys ps ks (tc_Protocols t)\<rparr>) True)"
  using assms
proof (induction ks arbitrary: t)
  case (Cons k ks)
  let ?t = "t\<lparr>tc_Protocols := (tc_Protocols t)(k \<mapsto> the (ps k))\<rparr>"
  have "\<forall>n. dispatch e n 6 k (the (ps k)) (in_tunnel c name t True) = Inr (in_tunnel c name ?t True)"
    by (simp add: dispatch_def parse_protocol_def on_tunnel_in)
  then have "parses e [entry 6 k (the (ps k))] (in_tunnel c name t True) (in_tunnel c name ?t True)"
    using Cons.prems by (intro parses_entry) auto
  moreover have "parses e (protocol_lines ps ks) (in_tunnel c name ?t True)
      (in_tunnel c name (t\<lparr>tc_Protocols := write_keys ps (k # ks) (tc_Protocols t)\<rparr>) True)"
    using Cons.IH [of ?t] Cons.prems unfolding map_fields write_keys.simps by simp
  ultimately have "parses e ([entry 6 k (the (ps k))] @ protocol_lines ps ks) (in_tunnel c name t True)
      (in_tunnel c name (t\<lparr>tc_Protocols := write_keys ps (k # ks) (tc_Protocols t)\<rparr>) True)"
    by (rule parses_append)
  then show ?case
    by (simp only: protocol_lines_def list.map append.simps)
next
  case Nil
  show ?case unfolding write_keys.simps map_fields by (simp add: protocol_lines_def parses_Nil)
qed

lemma parses_tunnel_rest:
  assumes e: "ranges_ok e" and t: "clean_tunnel t"
  shows "\<exists>ip. parses e
     (if tc_Protocols t \<noteq> Map.empty
      then header 4 ''proto'' # protocol_lines (tc_Protocols t) (ce_range e [''format'', name] (dom (tc_Protocols t)))
      else [])
     (in_tunnel c name (t\<lparr>tc_Protocols := Map.empty\<rparr>) False) (in_tunnel c name t ip)"
proof (cases "tc_Protocols t = Map.empty")
  case True
  have t0: "t\<lparr>tc_Protocols := Map.empty\<rparr> = t"
    using map_fields(5) [of t] unfolding True .
  show ?thesis
    unfolding t0 by (intro exI [of _ False]) (simp add: True parses_Nil)
next
  case False
  let ?ks = "ce_range e [''format'', name] (dom (tc_Protocols t))"
  let ?t0 = "t\<lparr>tc_Protocols := Map.empty\<rparr>"
  have ks: "set ?ks = dom (tc_Protocols t)"
    using e t by (simp add: ranges_ok_def clean_tunnel_def)
  have h: "parses e [header 4 ''proto''] (in_tunnel c name ?t0 False) (in_tunnel c name ?t0 True)"
    by (rule parses_header) (simp_all add: clean_keywords tunnel_defs)
  have pr: "\<forall>k \<in> set ?ks. clean_key k \<and> clean_value (the (tc_Protocols t k))"
    using t unfolding ks by (auto simp: clean_tunnel_def)
  have p: "parses e (protocol_lines (tc_Protocols t) ?ks) (in_tunnel c name ?t0 True) (in_tunnel c name t True)"
    using parses_protocols [OF pr, of e c name ?t0] unfolding map_fields write_keys_all [OF ks] .
  from parses_append [OF h p] False show ?thesis
    by (intro exI [of _ True]) (simp only: append.simps simp_thms if_True)
qed

lemma parses_tunnel_lines:
  assumes e: "ranges_ok e" and t: "clean_tunnel t" and n: "clean_key name" and st: "in_tunnels c st"
  shows "\<exists>ip. parses e (tunnel_lines e name t) st (in_tunnel c name t ip)"
proof -
  let ?t0 = empty_tunnel
  let ?t1 = "?t0\<lparr>tc_Subdomain := tc_Subdomain t\<rparr>"
  let ?t2 = "?t1\<lparr>tc_Hostname := tc_Hostname t\<rparr>"
  let ?t3 = "?t2\<lparr>tc_HttpAuth := tc_HttpAuth t\<rparr>"
  let ?t4 = "?t3\<lparr>tc_RemotePort := tc_RemotePort t\<rparr>"
  have v: "clean_value (tc_Subdomain t)" "clean_value (tc_Hostname t)" "clean_value (tc_HttpAuth t)"
    using t by (auto simp: clean_tunnel_def)
  have empty: "tc_Subdomain ?t0 = []" "tc_Hostname ?t1 = []" "tc_HttpAuth ?t2 = []" "tc_RemotePort ?t3 = 0"
    by (simp_all add: empty_tunnel_def)
  have "ps_config st = c" "ps_section st = ''tunnels''"
    using st by (simp_all add: in_tunnels_def)
  then have "\<forall>m. dispatch e m 2 name [] st = Inr (in_tunnel c name ?t0 False)"
    by (cases st) (simp add: dispatch_def parse_tunnel_name_def on_config_def in_tunnel_def)
  then have h: "parses e [header 2 name] st (in_tunnel c name ?t0 False)"
    using n by (intro parses_header)
  have t4: "?t4 = t\<lparr>tc_Protocols := Map.empty\<rparr>"
    by (cases t) (simp add: empty_tunnel_def)
  obtain ip where r: "parses e
     (if tc_Protocols t \<noteq> Map.empty
      then header 4 ''proto'' # protocol_lines (tc_Protocols t) (ce_range e [''format'', name] (dom (tc_Protocols t)))
      else []) (in_tunnel c name ?t4 False) (in_tunnel c name t ip)"
    unfolding t4 using parses_tunnel_rest [OF e t] by blast
  have "parses e ([header 2 name] @ opt_entry 4 ''subdomain'' (tc_Subdomain t) @
      opt_entry 4 ''hostname'' (tc_Hostname t) @ opt_entry 4 ''auth'' (tc_HttpAuth t) @
      opt_entry 4 ''remote_port'' (port_text (tc_RemotePort t)) @
     (if tc_Protocols t \<noteq> Map.empty
      then header 4 ''proto'' # protocol_lines (tc_Protocols t) (ce_range e [''format'', name] (dom (tc_Protocols t)))
      else [])) st (in_tunnel c name t ip)"
    by (rule parses_append [OF h] parses_append [OF parses_tunnel_string(1) [OF v(1) empty(1)]]
          parses_append [OF parses_tunnel_string(2) [OF v(2) empty(2)]]
          parses_append [OF parses_tunnel_string(3) [OF v(3) empty(3)]]
          parses_append [OF parses_tunnel_port [OF empty(4)] r])+
  then show ?thesis
    unfolding tunnel_lines_def by auto
qed

lemma parses_tunnels:
  assumes e: "ranges_ok e"
    and ts: "\<forall>name \<in> set names. clean_key name \<and> clean_tunnel (the (ts name))" and st: "in_tunnels c st"
  shows "\<exists>st'. parses e (concat (map (\<lambda>name. tunnel_lines e name (the (ts name))) names)) st st' \<and>
     in_tunnels (c\<lparr>cf_Tunnels := write_keys ts names (cf_Tunnels c)\<rparr>) st'"
  using ts st
proof (induction names arbitrary: c st)
  case Nil
  then show ?case using parses_Nil by auto
next
  case (Cons name names)
  let ?t = "the (ts name)" and ?c = "c\<lparr>cf_Tunnels := (cf_Tunnels c)(name \<mapsto> the (ts name))\<rparr>"
  obtain ip where one: "parses e (tunnel_lines e name ?t) st (in_tunnel c name ?t ip)"
    using parses_tunnel_lines [OF e _ _ Cons.prems(2), of ?t name] Cons.prems(1) by auto
  have "in_tunnels ?c (in_tunnel c name ?t ip)"
    by (simp add: in_tunnels_def in_tunnel_def)
  then obtain st' where rest:
    "parses e (concat (map (\<lambda>name. tunnel_lines e name (the (ts name))) names)) (in_tunnel c name ?t ip) st'"
    "in_tunnels (?c\<lparr>cf_Tunnels := write_keys ts names (cf_Tunnels ?c)\<rparr>) st'"
    using Cons.IH [of ?c] Cons.prems(1) by (metis (no_types, lifting) list.set_intros(2))
  from parses_append [OF one rest(1)] rest(2) [unfolded map_fields] show ?case
    by (intro exI [of _ st']) (simp only: list.map concat.simps write_keys.simps simp_thms)
qed

lemma parses_config:
  assumes e: "ranges_ok e" and c: "clean_config c"
  shows "\<exists>st. parses e (config_lines e c) (start_parse empty_configuration) st \<and> ps_config st = c"
proof (cases "cf_Tunnels c = Map.empty")
  case True
  then have "c\<lparr>cf_Tunnels := Map.empty\<rparr> = c" by (cases c) simp
  with True parses_top_lines [OF c, of e] show ?thesis
    by (intro exI [of _ "start_parse c"]) (simp add: config_lines_def start_parse_def)
next
  case False
  let ?names = "ce_range e [''format''] (dom (cf_Tunnels c))" and ?c0 = "c\<lparr>cf_Tunnels := Map.empty\<rparr>"
  let ?st = "(start_parse ?c0)\<lparr>ps_section := ''tunnels''\<rparr>"
  have names: "set ?names = dom (cf_Tunnels c)"
    using e c by (simp add: ranges_ok_def clean_config_def)
  have "parses e [header 0 ''tunnels''] (start_parse ?c0) ?st"
    by (rule parses_header) (simp_all add: clean_keywords top_defs)
  note h = parses_append [OF parses_top_lines [OF c] this]
  have "\<exists>st'. parses e (concat (map (\<lambda>name. tunnel_lines e name (the (cf_Tunnels c name))) ?names)) ?st st' \<and>
      in_tunnels (?c0\<lparr>cf_Tunnels := write_keys (cf_Tunnels c) ?names (cf_Tunnels ?c0)\<rparr>) st'"
    using c by (intro parses_tunnels [OF e]) (auto simp: names clean_config_def in_tunnels_def start_parse_def)
  then obtain st' where r: "parses e (concat (map (\<lambda>name. tunnel_lines e name (the (cf_Tunnels c name))) ?names)) ?st st'"
    "in_tunnels c st'"
    using write_keys_all [OF names] by auto
  from parses_append [OF h r(1)] False r(2) show ?thesis
    by (intro exI [of _ st']) (simp add: config_lines_def in_tunnels_def)
qed

subsection \<open>The written lines fit the scanner\<close>

definition fits :: "string \<Rightarrow> bool" where
  "fits l \<longleftrightarrow> newline \<notin> set l \<and> length l < max_token \<and> (l = [] \<or> last l \<noteq> CHR 0x0D)"

lemma fits_entry: "clean_key k \<Longrightarrow> clean_value v \<Longrightarrow> i \<le> 6 \<Longrightarrow> fits (entry i k v)"
  using not_solid_cr
  by (cases "v = []")
    (auto simp: fits_def entry_def clean_key_def clean_value_def solid_ends_def max_token_def newline_def)

lemma fits_header: "clean_key k \<Longrightarrow> i \<le> 6 \<Longrightarrow> fits (header i k)"
  by (auto simp: fits_def header_def clean_key_def max_token_def newline_def)

lemma fits_opt: "l \<in> set (opt_entry i k v) \<Longrightarrow> clean_key k \<Longrightarrow> clean_value v \<Longrightarrow> i \<le> 6 \<Longrightarrow> fits l"
  by (auto simp: opt_entry_def fits_entry split: if_splits)

lemma fits_tunnel:
  assumes e: "ranges_ok e" and t: "clean_key name" "clean_tunnel t" and l: "l \<in> set (tunnel_lines e name t)"
  shows "fits l"
proof -
  have "set (ce_range e [''format'', name] (dom (tc_Protocols t))) = dom (tc_Protocols t)"
    using e t by (simp add: ranges_ok_def clean_tunnel_def)
  then show ?thesis
    using l t unfolding tunnel_lines_def clean_tunnel_def protocol_lines_def
    by (auto simp: clean_keywords port_text_clean dest!: fits_opt split: if_splits intro: fits_header fits_entry)
qed

lemma fits_config:
  assumes e: "ranges_ok e" and c: "clean_config c" and l: "l \<in> set (config_lines e c)"
  shows "fits l"
proof -
  have "set (ce_range e [''format''] (dom (cf_Tunnels c))) = dom (cf_Tunnels c)"
    using e c by (simp add: ranges_ok_def clean_config_def)
  then have "l \<in> set (top_lines c) \<or> l = header 0 ''tunnels'' \<or>
      (\<exists>name t. cf_Tunnels c name = Some t \<and> l \<in> set (tunnel_lines e name t))"
    using l by (auto simp: config_lines_def split: if_splits)
  moreover have "l \<in> set (top_lines c) \<Longrightarrow> fits l"
    using c by (auto simp: top_lines_def clean_config_def clean_keywords clean_true clean_Nil
        dest!: fits_opt split: if_splits)
  moreover have "fits (header 0 ''tunnels'')"
    by (simp add: fits_header clean_keywords)
  ultimately show ?thesis
    using c fits_tunnel [OF e] unfolding clean_config_def by blast
qed

lemma roundtrip:
  assumes "ranges_ok e" "clean_config c"
  shows "parseConfiguration e (formatConfiguration e c) empty_configuration = Inr c"
proof -
  have "scan_lines (formatConfiguration e c) = (config_lines e c, None)"
    unfolding format_lines using fits_config [OF assms] by (intro scan_unlines) (auto simp: fits_def)
  then show ?thesis
    using parses_config [OF assms] by (auto simp: parseConfiguration_def parses_def)
qed

section \<open>The file and its configuration\<close>

text \<open>An environment for the witnesses: the loops see the keys in the order of the texts.\<close>

definition sample_client_env :: client_env where
  "sample_client_env =
     \<lparr>ce_readFile = (\<lambda>_. ([], Some ''no such file'')), ce_getenv = (\<lambda>_. []), ce_user = Inr ''/root'',
      ce_join = (\<lambda>a b. a @ ''/'' @ b), ce_url_scheme = (\<lambda>_. Inr ''http''), ce_lower = (\<lambda>s. s),
      ce_quote = (\<lambda>s. s), ce_ip6_loopback = (\<lambda>_. False), ce_range = (\<lambda>_ S. sorted_list_of_set S)\<rparr>"

lemma sample_ranges: "ranges_ok sample_client_env"
  by (simp add: ranges_ok_def sample_client_env_def)

definition sample_tunnel :: tunnelConfiguration where
  "sample_tunnel = \<lparr>tc_Subdomain = [], tc_Hostname = ''a.b'', tc_Protocols = [''http'' \<mapsto> ''8080''],
     tc_HttpAuth = [], tc_RemotePort = 8022\<rparr>"

definition sample_config :: configuration where
  "sample_config = empty_configuration\<lparr>cf_AuthToken := ''t0k'', cf_TrustHostRootCerts := True,
     cf_Tunnels := [''www'' \<mapsto> sample_tunnel]\<rparr>"

lemma clean_samples: "clean_value ''t0k''" "clean_value ''a.b''" "clean_value ''8080''" "clean_key ''www''"
  "clean_key ''http''" "clean_value ''new''"
  by (simp_all add: clean_value_def clean_key_def solid_ends_def solid_ascii newline_def quote_chars_def)

lemma sample_clean: "clean_config sample_config"
proof -
  have "clean_tunnel sample_tunnel"
    using clean_samples clean_Nil by (simp add: clean_tunnel_def sample_tunnel_def)
  then show ?thesis
    using clean_samples clean_Nil by (simp add: clean_config_def sample_config_def empty_configuration_def)
qed

text \<open>
  C16: The configuration file is read back as it was written: parsing what \<open>formatConfiguration\<close>
  prints gives exactly the configuration, every tunnel with every option and protocol, in whatever
  order the loops range over the maps, as long as the texts need no quoting.
\<close>
theorem config_roundtrip:
  assumes "ranges_ok e" "clean_config c"
  shows "parseConfiguration e (formatConfiguration e c) empty_configuration = Inr c"
  by (rule roundtrip [OF assms])

theorem config_roundtrip_witness:
  "parseConfiguration sample_client_env (formatConfiguration sample_client_env sample_config)
     empty_configuration = Inr sample_config"
  by (rule config_roundtrip [OF sample_ranges sample_clean])

text \<open>
  Saving an authentication token changes nothing but the token: the written file is read back
  as the configuration the old file held, with the new token; and if the file already holds the
  token, nothing is written.
\<close>
theorem save_token:
  assumes "ranges_ok e" "clean_config c" "clean_value tok"
    and "ce_readFile e path = (old, None)" "parseConfiguration e old empty_configuration = Inr c"
    and "\<forall>text. write text = None"
  shows "if cf_AuthToken c = tok then SaveAuthToken e write path tok = (None, None)
     else \<exists>new. SaveAuthToken e write path tok = (None, Some new) \<and>
       parseConfiguration e new empty_configuration = Inr (c\<lparr>cf_AuthToken := tok\<rparr>)"
proof -
  have "clean_config (c\<lparr>cf_AuthToken := tok\<rparr>)"
    using assms(2,3) by (simp add: clean_config_def)
  then show ?thesis
    using assms roundtrip [OF assms(1), of "c\<lparr>cf_AuthToken := tok\<rparr>"]
    by (simp add: SaveAuthToken_def Let_def)
qed

lemma format_readFile:
  "format_tunnel (e\<lparr>ce_readFile := r\<rparr>) name t = format_tunnel e name t"
  "formatConfiguration (e\<lparr>ce_readFile := r\<rparr>) c = formatConfiguration e c"
proof -
  show t: "format_tunnel (e\<lparr>ce_readFile := r\<rparr>) name t = format_tunnel e name t" for name t
    by (simp add: format_tunnel_def)
  show "formatConfiguration (e\<lparr>ce_readFile := r\<rparr>) c = formatConfiguration e c"
    unfolding formatConfiguration_def t by simp
qed

theorem save_token_witness:
  "\<exists>new. SaveAuthToken (sample_client_env\<lparr>ce_readFile := \<lambda>_. (formatConfiguration sample_client_env sample_config, None)\<rparr>)
      (\<lambda>_. None) ''.ngrok'' ''new'' = (None, Some new) \<and>
     parseConfiguration (sample_client_env\<lparr>ce_readFile := \<lambda>_. (formatConfiguration sample_client_env sample_config, None)\<rparr>)
       new empty_configuration = Inr (sample_config\<lparr>cf_AuthToken := ''new''\<rparr>)"
proof -
  let ?e = "sample_client_env\<lparr>ce_readFile := \<lambda>_. (formatConfiguration sample_client_env sample_config, None)\<rparr>"
  have e: "ranges_ok ?e"
    using sample_ranges by (simp add: ranges_ok_def)
  have "ce_readFile ?e ''.ngrok'' = (formatConfiguration sample_client_env sample_config, None)"
    by simp
  moreover have "parseConfiguration ?e (formatConfiguration sample_client_env sample_config) empty_configuration
      = Inr sample_config"
    using roundtrip [OF e sample_clean] by (simp only: format_readFile)
  ultimately show ?thesis
    using save_token [OF e sample_clean clean_samples(6), of "''.ngrok''" _ "\<lambda>_. None"]
    by (simp add: sample_config_def)
qed

text \<open>
  Text after a number sign does not survive: an authentication token with a \<open>#\<close> is written
  unquoted and comes back cut off before the \<open>#\<close>.
\<close>
theorem token_cut_at_number_sign:
  assumes "clean_value a" "a \<noteq> []" "newline \<notin> set b" "length b \<le> 5000" "b = [] \<or> last b \<noteq> CHR 0x0D"
  shows "parseConfiguration e
     (formatConfiguration e (empty_configuration\<lparr>cf_AuthToken := a @ CHR ''#'' # b\<rparr>)) empty_configuration
   = Inr (empty_configuration\<lparr>cf_AuthToken := a\<rparr>)"
proof -
  let ?l = "entry 0 ''auth_token'' (a @ CHR ''#'' # b)"
  have lines: "formatConfiguration e (empty_configuration\<lparr>cf_AuthToken := a @ CHR ''#'' # b\<rparr>) = unlines [?l]"
    unfolding format_lines by (simp add: config_lines_def top_lines_def opt_entry_def empty_configuration_def)
  have c: "CHR ''#'' \<notin> set (entry 0 ''auth_token'' a)"
    using assms by (auto simp: entry_def clean_value_def)
  have "?l = entry 0 ''auth_token'' a @ CHR ''#'' # b"
    by (simp add: entry_def)
  then have strip: "stripComment ?l = stripComment (entry 0 ''auth_token'' a)"
    using cut_append [OF c, of b] by (simp only: stripComment_id [OF c]) (simp only: stripComment_def option.case prod.case)
  have "parse_line e n ?l st = parse_line e n (entry 0 ''auth_token'' a) st" for n st
    unfolding parse_line_def strip ..
  then have p: "parse_line e 1 ?l (start_parse empty_configuration) =
      Inr (start_parse (empty_configuration\<lparr>cf_AuthToken := a\<rparr>))"
    using assms by (simp add: parse_line_entry clean_keywords top_defs)
  have "scan_lines (unlines [?l]) = ([?l], None)"
    using assms by (intro scan_unlines) (auto simp: entry_def clean_value_def newline_def max_token_def)
  then show ?thesis
    unfolding lines using p by (simp add: parseConfiguration_def start_parse_def)
qed

theorem token_cut_at_number_sign_witness:
  "parseConfiguration sample_client_env
     (formatConfiguration sample_client_env (empty_configuration\<lparr>cf_AuthToken := ''t0k#en''\<rparr>)) empty_configuration
   = Inr (empty_configuration\<lparr>cf_AuthToken := ''t0k''\<rparr>)"
  using token_cut_at_number_sign [OF clean_samples(1), of "''en''" sample_client_env] by (simp add: newline_def)

end
