(* ===== verification/Config_Load.thy ===== *)
theory Config_Load
  imports Config_Roundtrip
begin

text \<open>
  What a configuration that \<open>LoadConfiguration\<close> accepts is like, which tunnels the commands start,
  and the files it refuses.
\<close>

section \<open>Addresses\<close>

definition host_port :: "string \<Rightarrow> bool" where
  "host_port a \<longleftrightarrow> (\<exists>h p. a = h @ CHR '':'' # p \<and> h \<noteq> [] \<and> CHR '':'' \<notin> set p)"

lemma last_cut_SomeD: "last_cut c s = Some (a, b) \<Longrightarrow> s = a @ c # b \<and> c \<notin> set b"
  unfolding last_cut_def
  by (auto dest!: cut_SomeD) (metis append.assoc append_Cons append_Nil rev.simps(2) rev_append rev_rev_ident)

lemma split_host_port_colon: "split_host_port s = Inr (h, p) \<Longrightarrow> CHR '':'' \<notin> set p"
  by (auto simp: split_host_port_def dest!: last_cut_SomeD split: option.splits if_splits)

text \<open>What \<open>SplitHostPort\<close> promises about its parts.\<close>

lemma split_host_port_parts:
  assumes "split_host_port s = Inr (h, p)"
  shows "CHR '':'' \<notin> set p" "CHR ''['' \<notin> set h" "CHR '']'' \<notin> set h" "CHR ''['' \<notin> set p" "CHR '']'' \<notin> set p"
proof -
  obtain h' where l3: "last_cut CHR '':'' s = Some (h', p)"
    using assms by (auto simp: split_host_port_def split: option.splits if_splits)
  have l: "s = h' @ CHR '':'' # p" "CHR '':'' \<notin> set p" "last_cut CHR '':'' s = Some (h', p)"
    using last_cut_SomeD [OF l3] l3 by simp_all
  show "CHR '':'' \<notin> set p" by (rule l(2))
  have "CHR ''['' \<notin> set h \<and> CHR '']'' \<notin> set h \<and> CHR ''['' \<notin> set p \<and> CHR '']'' \<notin> set p"
  proof (cases "hd s = CHR ''[''")
    case True
    then obtain a rest where c: "cut CHR '']'' s = Some (a, rest)" "h = tl a" "CHR ''['' \<notin> set (tl s)"
      "CHR '']'' \<notin> set rest" "Suc (length a) = length h'"
      using assms l(3) by (auto simp: split_host_port_def split: option.splits if_splits)
    have s: "s = a @ CHR '']'' # rest" "CHR '']'' \<notin> set a"
      using cut_SomeD [OF c(1)] by auto
    have p: "rest = CHR '':'' # p"
      using l(1) s(1) append_eq_append_conv [of "a @ [CHR '']'']" h' rest "CHR '':'' # p"] c(5) by simp
    have "set (tl a) \<subseteq> set (tl s)" "set p \<subseteq> set (tl s)"
      using s(1) p by (cases a; auto)+
    then show ?thesis
      using c s p by (cases a) auto
  next
    case False
    then show ?thesis
      using assms l by (auto simp: split_host_port_def split: if_splits)
  qed
  then show "CHR ''['' \<notin> set h" "CHR '']'' \<notin> set h" "CHR ''['' \<notin> set p" "CHR '']'' \<notin> set p"
    by auto
qed

lemma split_plain:
  assumes "CHR '':'' \<notin> set p" "CHR ''['' \<notin> set h" "CHR '']'' \<notin> set h" "CHR ''['' \<notin> set p" "CHR '']'' \<notin> set p"
    and "h \<noteq> []"
  shows "split_host_port (h @ CHR '':'' # p) =
     (if CHR '':'' \<in> set h then Inl (addr_error (h @ CHR '':'' # p) ''too many colons in address'') else Inr (h, p))"
  using assms last_cut_append [OF assms(1), of h] by (cases h) (auto simp: split_host_port_def)

lemma normalizeAddress_host_port:
  assumes "normalizeAddress addr propName = Inr a"
  shows "host_port a"
proof -
  obtain s h p where s: "split_host_port s = Inr (h, p)" "a = (if h = [] then ''127.0.0.1'' else h) @ CHR '':'' # p"
    using assms by (auto simp: normalizeAddress_def Let_def split: sum.splits)
  then show ?thesis
    unfolding host_port_def
    by (intro exI [of _ "if h = [] then ''127.0.0.1'' else h"] exI [of _ p]) (simp add: split_host_port_colon)
qed

section \<open>Parsed configurations are finite\<close>

definition finite_config :: "configuration \<Rightarrow> bool" where
  "finite_config c \<longleftrightarrow>
     finite (dom (cf_Tunnels c)) \<and> (\<forall>name t. cf_Tunnels c name = Some t \<longrightarrow> finite (dom (tc_Protocols t)))"

lemma finite_on_tunnel [intro]:
  assumes "finite_config (ps_config st)" "\<forall>t. finite (dom (tc_Protocols t)) \<longrightarrow> finite (dom (tc_Protocols (f t)))"
  shows "finite_config (ps_config (on_tunnel name f st))"
proof -
  have "dom ((cf_Tunnels (ps_config st))(name := map_option f (cf_Tunnels (ps_config st) name))) =
      dom (cf_Tunnels (ps_config st))"
    by (auto simp: domIff)
  then show ?thesis
    using assms unfolding finite_config_def on_tunnel_def on_config_def by (auto split: if_splits)
qed

lemma finite_top: "parse_top e n k v st = Inr st' \<Longrightarrow> finite_config (ps_config st) \<Longrightarrow> finite_config (ps_config st')"
  unfolding parse_top_def Let_def on_config_def finite_config_def by (auto split: if_splits)

lemma finite_name: "parse_tunnel_name e n k st = Inr st' \<Longrightarrow> finite_config (ps_config st) \<Longrightarrow> finite_config (ps_config st')"
  unfolding parse_tunnel_name_def on_config_def finite_config_def by (auto split: if_splits simp: empty_tunnel_def)

lemma finite_option: "parse_tunnel_option e n k v st = Inr st' \<Longrightarrow> finite_config (ps_config st) \<Longrightarrow> finite_config (ps_config st')"
  unfolding parse_tunnel_option_def Let_def by (auto split: if_splits option.splits)

lemma finite_protocol: "parse_protocol n k v st = Inr st' \<Longrightarrow> finite_config (ps_config st) \<Longrightarrow> finite_config (ps_config st')"
  unfolding parse_protocol_def by (auto split: if_splits option.splits)

lemma finite_line: "parse_line e n l st = Inr st' \<Longrightarrow> finite_config (ps_config st) \<Longrightarrow> finite_config (ps_config st')"
  unfolding parse_line_def Let_def
  by (auto split: if_splits option.splits intro: finite_top finite_name finite_option finite_protocol)

lemma finite_lines: "parse_lines e n ls st = Inr st' \<Longrightarrow> finite_config (ps_config st) \<Longrightarrow> finite_config (ps_config st')"
  by (induction e n ls st rule: parse_lines.induct) (auto split: sum.splits dest: finite_line)

lemma finite_empty: "finite_config empty_configuration"
  by (simp add: finite_config_def empty_configuration_def)

lemma finite_parsed: "parseConfiguration e data empty_configuration = Inr c \<Longrightarrow> finite_config c"
  using finite_empty finite_lines
  by (fastforce simp: parseConfiguration_def start_parse_def split: prod.splits sum.splits option.splits)

lemma finite_read: "read_configuration e opts = Inr c \<Longrightarrow> finite_config c"
  using finite_empty unfolding read_configuration_def Let_def
  by (auto simp: finite_config_def split: prod.splits sum.splits option.splits bool.splits if_splits
      dest!: finite_parsed)

section \<open>Validation\<close>

definition valid_protocols :: "(string \<rightharpoonup> string) \<Rightarrow> bool" where
  "valid_protocols ps \<longleftrightarrow>
     ps \<noteq> Map.empty \<and>
     (\<forall>k a. ps k = Some a \<longrightarrow> k \<in> {''http'', ''https'', ''http+https'', ''tcp''} \<and> host_port a)"

definition valid_tunnels :: "(string \<rightharpoonup> tunnelConfiguration) \<Rightarrow> bool" where
  "valid_tunnels ts \<longleftrightarrow> (\<forall>name t. ts name = Some t \<longrightarrow> valid_protocols (tc_Protocols t))"

text \<open>The inspection interface is off, protected by a password, or only reachable locally.\<close>

definition inspect_protected :: "client_env \<Rightarrow> configuration \<Rightarrow> bool" where
  "inspect_protected e c \<longleftrightarrow>
     cf_InspectAddr c = ''disabled'' \<or>
     host_port (cf_InspectAddr c) \<and> (cf_InspectAuth c \<noteq> [] \<or> isLoopbackAddress e (cf_InspectAddr c))"

lemma check_protocols_dom: "check_protocols name ks ps = Inr ps' \<Longrightarrow> dom ps' = dom ps \<union> set ks"
  by (induction ks arbitrary: ps) (auto simp: Let_def split: sum.splits option.splits)

lemma check_protocols_outside: "check_protocols name ks ps = Inr ps' \<Longrightarrow> k \<notin> set ks \<Longrightarrow> ps' k = ps k"
  by (induction ks arbitrary: ps) (auto simp: Let_def split: sum.splits option.splits)

lemma check_protocols_valid:
  "check_protocols name ks ps = Inr ps' \<Longrightarrow> k \<in> set ks \<Longrightarrow> ps' k = Some a \<Longrightarrow>
   k \<in> {''http'', ''https'', ''http+https'', ''tcp''} \<and> host_port a"
proof (induction ks arbitrary: ps)
  case (Cons k' ks)
  then obtain b where b: "host_port b" "k' \<in> {''http'', ''https'', ''http+https'', ''tcp''}"
    "check_protocols name ks (ps(k' \<mapsto> b)) = Inr ps'"
    by (auto simp: Let_def validateProtocol_def split: sum.splits option.splits if_splits
        dest: normalizeAddress_host_port)
  show ?case
  proof (cases "k \<in> set ks")
    case False
    then have "k = k'" using Cons.prems(2) by simp
    then show ?thesis
      using check_protocols_outside [OF b(3) False] Cons.prems(3) b by simp
  qed (use Cons.IH [OF b(3)] Cons.prems in blast)
qed simp

lemma check_tunnel_protocols:
  assumes e: "ranges_ok e" and f: "finite (dom (tc_Protocols t))" and t: "check_tunnel e name t = Inr t'"
  shows "dom (tc_Protocols t') = dom (tc_Protocols t) \<and> valid_protocols (tc_Protocols t')"
proof -
  let ?ks = "ce_range e [''protocols'', name] (dom (tc_Protocols t))"
  obtain ps where ps: "check_protocols name ?ks (tc_Protocols t) = Inr ps" "tc_Protocols t' = ps"
    "tc_Protocols t \<noteq> Map.empty"
    using t by (auto simp: check_tunnel_def Let_def split: if_splits sum.splits)
  have ks: "set ?ks = dom (tc_Protocols t)"
    using e f by (simp add: ranges_ok_def)
  have d: "dom ps = dom (tc_Protocols t)"
    using check_protocols_dom [OF ps(1)] ks by simp
  then have "ps \<noteq> Map.empty" using ps(3) by (metis dom_eq_empty_conv)
  moreover have "k \<in> {''http'', ''https'', ''http+https'', ''tcp''} \<and> host_port a" if "ps k = Some a" for k a
  proof (rule check_protocols_valid [OF ps(1) _ that])
    have "k \<in> dom ps" using that by (rule domI)
    then show "k \<in> set ?ks" unfolding ks d .
  qed
  ultimately show ?thesis
    unfolding valid_protocols_def ps(2) using d by blast
qed

lemma check_tunnels_outside: "check_tunnels e names ts = Inr ts' \<Longrightarrow> k \<notin> set names \<Longrightarrow> ts' k = ts k"
  by (induction names arbitrary: ts) (auto split: sum.splits)

lemma check_tunnels_dom: "check_tunnels e names ts = Inr ts' \<Longrightarrow> dom ts' = dom ts \<union> set names"
  by (induction names arbitrary: ts) (auto split: sum.splits)

lemma check_tunnels_valid:
  assumes e: "ranges_ok e"
  shows "check_tunnels e names ts = Inr ts' \<Longrightarrow> k \<in> set names \<Longrightarrow> set names \<subseteq> dom ts \<Longrightarrow>
    \<forall>name t. ts name = Some t \<longrightarrow> finite (dom (tc_Protocols t)) \<Longrightarrow> ts' k = Some t \<Longrightarrow>
    valid_protocols (tc_Protocols t)"
proof (induction names arbitrary: ts)
  case (Cons name names)
  then obtain t0 t1 where t: "ts name = Some t0" "check_tunnel e name t0 = Inr t1"
    "check_tunnels e names (ts(name \<mapsto> t1)) = Inr ts'"
    by (auto split: sum.splits)
  have v: "valid_protocols (tc_Protocols t1)" and "dom (tc_Protocols t1) = dom (tc_Protocols t0)"
    using check_tunnel_protocols [OF e _ t(2)] t(1) Cons.prems(4) by blast+
  then have f: "\<forall>n t. (ts(name \<mapsto> t1)) n = Some t \<longrightarrow> finite (dom (tc_Protocols t))"
    using Cons.prems(4) t(1) by auto
  show ?case
  proof (cases "k \<in> set names")
    case True
    have "set names \<subseteq> dom (ts(name \<mapsto> t1))" using Cons.prems(3) by auto
    from Cons.IH [OF t(3) True this f Cons.prems(5)] show ?thesis .
  next
    case False
    then have "ts' k = Some t1"
      using check_tunnels_outside [OF t(3) False] Cons.prems(2) by simp
    then show ?thesis using v Cons.prems(5) by simp
  qed
qed simp

lemma validatedE:
  assumes "validated e opts = Inr c"
  obtains c0 c1 c2 ts where "read_configuration e opts = Inr c0"
    "check_inspect e opts (config_defaults e c0) = Inr c1" "check_server c1 = Inr c2" "check_proxy e c2 = None"
    "check_tunnels e (ce_range e [''tunnels''] (dom (cf_Tunnels c2))) (cf_Tunnels c2) = Inr ts"
    "c = (let c = c2\<lparr>cf_Tunnels := ts, cf_LogTo := co_logto opts,
                    cf_Path := (if co_config opts = [] then defaultPath e else co_config opts)\<rparr> in
          if co_authtoken opts \<noteq> [] then c\<lparr>cf_AuthToken := co_authtoken opts\<rparr> else c)"
  using assms unfolding validated_def Let_def by (auto split: sum.splits option.splits)

lemma validated_tunnels:
  assumes e: "ranges_ok e" and v: "validated e opts = Inr c"
  shows "valid_tunnels (cf_Tunnels c)"
  using v
proof (rule validatedE)
  fix c0 c1 c2 ts
  assume r: "read_configuration e opts = Inr c0" "check_inspect e opts (config_defaults e c0) = Inr c1"
    "check_server c1 = Inr c2"
    "check_tunnels e (ce_range e [''tunnels''] (dom (cf_Tunnels c2))) (cf_Tunnels c2) = Inr ts"
    "c = (let c = c2\<lparr>cf_Tunnels := ts, cf_LogTo := co_logto opts,
                    cf_Path := (if co_config opts = [] then defaultPath e else co_config opts)\<rparr> in
          if co_authtoken opts \<noteq> [] then c\<lparr>cf_AuthToken := co_authtoken opts\<rparr> else c)"
  have "cf_Tunnels c2 = cf_Tunnels c0" 
    using r(2,3) by (auto simp: check_inspect_def check_server_def config_defaults_def Let_def split: if_splits sum.splits)
  then have f: "finite_config c2"
    using finite_read [OF r(1)] by (simp add: finite_config_def)
  then have k: "set (ce_range e [''tunnels''] (dom (cf_Tunnels c2))) = dom (cf_Tunnels c2)"
    using e by (simp add: ranges_ok_def finite_config_def)
  have "cf_Tunnels c = ts"
    using r(5) by (simp add: Let_def)
  moreover have "dom ts = dom (cf_Tunnels c2)"
    using check_tunnels_dom [OF r(4)] k by simp
  ultimately show ?thesis
    unfolding valid_tunnels_def using check_tunnels_valid [OF e r(4)] f unfolding k finite_config_def
    by (metis domI subset_refl)
qed

lemma validated_inspect:
  assumes v: "validated e opts = Inr c"
  shows "inspect_protected e c \<and> host_port (cf_ServerAddr c)"
  using v
proof (rule validatedE)
  fix c0 c1 c2 ts
  assume r: "check_inspect e opts (config_defaults e c0) = Inr c1" "check_server c1 = Inr c2"
    "c = (let c = c2\<lparr>cf_Tunnels := ts, cf_LogTo := co_logto opts,
                    cf_Path := (if co_config opts = [] then defaultPath e else co_config opts)\<rparr> in
          if co_authtoken opts \<noteq> [] then c\<lparr>cf_AuthToken := co_authtoken opts\<rparr> else c)"
  have "inspect_protected e c1"
    using r(1) unfolding check_inspect_def inspect_protected_def
    by (auto simp: Let_def dest: normalizeAddress_host_port split: if_splits sum.splits)
  moreover have "cf_InspectAddr c = cf_InspectAddr c1" "cf_InspectAuth c = cf_InspectAuth c1" "host_port (cf_ServerAddr c)"
    using r(2,3) by (auto simp: check_server_def Let_def dest: normalizeAddress_host_port split: sum.splits)
  ultimately show ?thesis
    by (simp add: inspect_protected_def)
qed

section \<open>The commands\<close>

lemma default_protocols_valid:
  assumes "\<forall>k a. tc_Protocols t k = Some a \<longrightarrow> k \<in> {''http'', ''https'', ''http+https'', ''tcp''} \<and> host_port a"
    and "default_protocols args protos t = Inl t'" and "protos \<noteq> [] \<or> tc_Protocols t \<noteq> Map.empty"
  shows "valid_protocols (tc_Protocols t')"
  using assms
proof (induction protos arbitrary: t)
  case Nil
  then show ?case by (simp add: valid_protocols_def)
next
  case (Cons proto protos)
  then obtain a where a: "proto \<in> {''http'', ''https'', ''http+https'', ''tcp''}" "host_port a"
    "default_protocols args protos (t\<lparr>tc_Protocols := (tc_Protocols t)(proto \<mapsto> a)\<rparr>) = Inl t'"
    by (auto simp: validateProtocol_def split: option.splits if_splits sum.splits dest: normalizeAddress_host_port)
  show ?case
  proof (rule Cons.IH [OF _ a(3)])
    show "protos \<noteq> [] \<or> tc_Protocols (t\<lparr>tc_Protocols := (tc_Protocols t)(proto \<mapsto> a)\<rparr>) \<noteq> Map.empty"
      unfolding map_fields by (metis map_upd_nonempty)
  qed (use a(1,2) Cons.prems(1) in \<open>auto split: if_splits\<close>)
qed

lemma default_protocols_fails:
  "args \<noteq> [] \<Longrightarrow> default_protocols args protos t = Inr out \<Longrightarrow> \<exists>msg. out = LoadFails msg"
  by (induction protos arbitrary: t) (auto split: option.splits sum.splits)

lemma default_protocols_ends:
  "default_protocols args protos t = Inr out \<Longrightarrow> out = LoadPanics \<or> (\<exists>msg. out = LoadFails msg)"
  by (induction protos arbitrary: t) (auto split: option.splits sum.splits if_splits)

lemma run_command_Loaded:
  assumes "run_command e opts c = Loaded c'"
  obtains (one) t where
      "default_protocols (co_args opts) (split_on CHR ''+'' (co_protocol opts)) (default_tunnel opts) = Inl t"
      "c' = c\<lparr>cf_Tunnels := [''default'' \<mapsto> t]\<rparr>"
  | (some) "c' = c\<lparr>cf_Tunnels := cf_Tunnels c |` set (co_args opts)\<rparr>"
  | (all) "c' = c"
proof (cases "co_command opts = ''default''")
  case True
  then show ?thesis
    using assms one by (auto simp: run_command_def split: sum.splits dest: default_protocols_ends)
next
  case False
  then show ?thesis
    using assms some all by (auto simp: run_command_def split: if_splits option.splits)
qed

lemma run_command_tunnels:
  assumes "run_command e opts c = Loaded c'" "valid_tunnels (cf_Tunnels c)"
  obtains ts where "c' = c\<lparr>cf_Tunnels := ts\<rparr>" "valid_tunnels ts"
  using assms(1)
proof (cases rule: run_command_Loaded)
  case (one t)
  have "valid_protocols (tc_Protocols t)"
    by (rule default_protocols_valid [OF _ one(1)]) (simp_all add: default_tunnel_def empty_tunnel_def split_on_nonempty)
  then have "valid_tunnels [''default'' \<mapsto> t]"
    by (auto simp: valid_tunnels_def split: if_splits)
  with one(2) show ?thesis by (rule that)
next
  case some
  then show ?thesis by (rule that) (use assms(2) in \<open>auto simp: valid_tunnels_def restrict_map_def\<close>)
next
  case all
  then have "c' = c\<lparr>cf_Tunnels := cf_Tunnels c\<rparr>" by simp
  then show ?thesis using assms(2) by (rule that)
qed

text \<open>The command line \<open>ngrok 8080\<close> without a configuration file.\<close>

definition opts_8080 :: client_options where
  "opts_8080 = default_client_options\<lparr>co_command := ''default'', co_args := [''8080'']\<rparr>"

definition config_8080 :: configuration where
  "config_8080 = empty_configuration\<lparr>cf_ServerAddr := ''ngrokd.ngrok.com:443'', cf_InspectAddr := ''127.0.0.1:4040'',
     cf_LogTo := ''none'', cf_Path := ''/root/.ngrok''\<rparr>"

lemma opts_8080_fields [simp]:
  "co_config opts_8080 = []" "co_logto opts_8080 = ''none''" "co_authtoken opts_8080 = []"
  "co_inspectauth opts_8080 = []" "co_httpauth opts_8080 = []" "co_hostname opts_8080 = []"
  "co_protocol opts_8080 = ''http+https''" "co_subdomain opts_8080 = []" "co_command opts_8080 = ''default''"
  "co_args opts_8080 = [''8080'']"
  by (simp_all add: opts_8080_def default_client_options_def)

lemma parse_8080: "ParseArgs [] [''8080''] = Parsed opts_8080"
  by (simp add: ParseArgs_def opts_8080_def default_client_options_def)

lemma normalize_8080:
  "normalizeAddress ''127.0.0.1:4040'' p = Inr ''127.0.0.1:4040''"
  "normalizeAddress ''ngrokd.ngrok.com:443'' p = Inr ''ngrokd.ngrok.com:443''"
  "normalizeAddress ''8080'' p = Inr ''127.0.0.1:8080''"
  by (simp_all add: normalizeAddress_def atoi_def parse_digits_def is_digit_def digit_val_def split_host_port_def last_cut_def)

lemma loopback_8080: "isLoopbackAddress e ''127.0.0.1:4040''"
  by (simp add: isLoopbackAddress_def split_host_port_def last_cut_def ip_is_loopback_def parse_ipv4_def
      ipv4_field_def parse_digits_def is_digit_def digit_val_def)

lemma read_8080: "read_configuration sample_client_env opts_8080 = Inr empty_configuration"
  by (simp add: read_configuration_def sample_client_env_def
      parseConfiguration_def scan_lines_def raw_lines_def start_parse_def legacy_token_def)

lemma validated_8080: "validated sample_client_env opts_8080 = Inr config_8080"
proof -
  have "config_defaults sample_client_env empty_configuration =
      empty_configuration\<lparr>cf_ServerAddr := ''ngrokd.ngrok.com:443'', cf_InspectAddr := ''127.0.0.1:4040''\<rparr>"
    by (simp add: config_defaults_def empty_configuration_def defaultServerAddr_def defaultInspectAddr_def
        sample_client_env_def)
  moreover have "ce_range sample_client_env [''tunnels''] {} = []" "defaultPath sample_client_env = ''/root/.ngrok''"
    by (simp_all add: sample_client_env_def defaultPath_def)
  ultimately show ?thesis
    by (simp add: validated_def read_8080 check_inspect_def check_server_def check_proxy_def normalize_8080
        loopback_8080 Let_def)
      (simp add: empty_configuration_def config_8080_def loopback_8080)?
qed

definition tunnel_8080 :: tunnelConfiguration where
  "tunnel_8080 = empty_tunnel\<lparr>tc_Protocols := [''http'' \<mapsto> ''127.0.0.1:8080'', ''https'' \<mapsto> ''127.0.0.1:8080'']\<rparr>"

lemma loaded_8080:
  "LoadConfiguration sample_client_env opts_8080 = Loaded (config_8080\<lparr>cf_Tunnels := [''default'' \<mapsto> tunnel_8080]\<rparr>)"
proof -
  have "default_protocols [''8080''] [''http'', ''https''] empty_tunnel = Inl tunnel_8080"
    by (simp add: validateProtocol_def normalize_8080 tunnel_8080_def empty_tunnel_def)
  moreover have "default_tunnel opts_8080 = empty_tunnel" "split_on CHR ''+'' ''http+https'' = [''http'', ''https'']"
    by (simp_all add: default_tunnel_def empty_tunnel_def)
  ultimately show ?thesis
    by (simp only: LoadConfiguration_def validated_8080 run_command_def opts_8080_fields sum.case simp_thms if_True)
qed

lemma loaded_configuration_facts:
  assumes "ranges_ok e" "LoadConfiguration e opts = Loaded c"
  shows "inspect_protected e c \<and> host_port (cf_ServerAddr c) \<and> valid_tunnels (cf_Tunnels c)"
proof -
  obtain c0 where c0: "validated e opts = Inr c0" "run_command e opts c0 = Loaded c"
    using assms(2) by (auto simp: LoadConfiguration_def split: sum.splits)
  obtain ts where ts: "c = c0\<lparr>cf_Tunnels := ts\<rparr>" "valid_tunnels ts"
    by (rule run_command_tunnels [OF c0(2) validated_tunnels [OF assms(1) c0(1)]])
  have "inspect_protected e c" "host_port (cf_ServerAddr c)"
    using validated_inspect [OF c0(1)] by (simp_all add: ts inspect_protected_def)
  with ts show ?thesis by simp
qed

text \<open>
  C15: A configuration the client accepts is safe and complete: its inspection interface is
  switched off, protected by a password or bound to a loopback address; the server address has a
  host and a port; and every tunnel has at least one protocol, only known protocols, and for each
  of them a local address with a host and a port.
\<close>
theorem loaded_configuration_safe:
  assumes "ranges_ok e" "LoadConfiguration e opts = Loaded c"
  shows "inspect_protected e c \<and> host_port (cf_ServerAddr c) \<and> valid_tunnels (cf_Tunnels c)"
  using assms by (rule loaded_configuration_facts)

theorem loaded_configuration_safe_witness:
  "\<exists>c. LoadConfiguration sample_client_env opts_8080 = Loaded c \<and> cf_Tunnels c = [''default'' \<mapsto> tunnel_8080] \<and>
     inspect_protected sample_client_env c \<and> host_port (cf_ServerAddr c) \<and> valid_tunnels (cf_Tunnels c)"
  using loaded_configuration_safe [OF sample_ranges loaded_8080] loaded_8080
  by (intro exI [of _ "config_8080\<lparr>cf_Tunnels := [''default'' \<mapsto> tunnel_8080]\<rparr>"]) simp

lemma default_protocols_result:
  assumes "default_protocols args protos t = Inl t'"
  shows "dom (tc_Protocols t') = dom (tc_Protocols t) \<union> set protos"
    and "k \<in> set protos \<Longrightarrow> \<exists>a. tc_Protocols t' k = Some a \<and> normalizeAddress (args ! 0) [] = Inr a"
    and "tc_Subdomain t' = tc_Subdomain t \<and> tc_Hostname t' = tc_Hostname t \<and> tc_HttpAuth t' = tc_HttpAuth t"
proof -
  have stay: "default_protocols args protos t = Inl t' \<Longrightarrow> normalizeAddress (args ! 0) [] = Inr a \<Longrightarrow>
      tc_Protocols t k = Some a \<Longrightarrow> tc_Protocols t' k = Some a" for t a k and protos
    by (induction protos arbitrary: t) (auto split: option.splits sum.splits if_splits)
  show "dom (tc_Protocols t') = dom (tc_Protocols t) \<union> set protos"
    using assms by (induction protos arbitrary: t) (auto split: option.splits sum.splits if_splits)
  show "k \<in> set protos \<Longrightarrow> \<exists>a. tc_Protocols t' k = Some a \<and> normalizeAddress (args ! 0) [] = Inr a"
    using assms by (induction protos arbitrary: t) (auto split: option.splits sum.splits if_splits intro: stay)
  show "tc_Subdomain t' = tc_Subdomain t \<and> tc_Hostname t' = tc_Hostname t \<and> tc_HttpAuth t' = tc_HttpAuth t"
    using assms by (induction protos arbitrary: t) (auto split: option.splits sum.splits if_splits)
qed

text \<open>What a command starts from the validated configuration \<open>c\<close>.\<close>

definition starts :: "client_options \<Rightarrow> configuration \<Rightarrow> (string \<rightharpoonup> tunnelConfiguration) \<Rightarrow> bool" where
  "starts opts c ts \<longleftrightarrow>
     (if co_command opts = ''default'' then
        (\<exists>t. ts = [''default'' \<mapsto> t] \<and> tc_Subdomain t = co_subdomain opts \<and> tc_Hostname t = co_hostname opts \<and>
           tc_HttpAuth t = co_httpauth opts \<and>
           dom (tc_Protocols t) = set (split_on CHR ''+'' (co_protocol opts)) \<and>
           (\<forall>a \<in> ran (tc_Protocols t). normalizeAddress (hd (co_args opts)) [] = Inr a))
      else if co_command opts = ''start'' then
        co_args opts \<noteq> [] \<and> dom ts = set (co_args opts) \<and> ts \<subseteq>\<^sub>m cf_Tunnels c
      else ts = cf_Tunnels c)"

lemma default_starts:
  assumes "co_command opts = ''default''" "co_args opts \<noteq> []" "run_command e opts c = Loaded c'"
  shows "starts opts c (cf_Tunnels c')"
proof -
  obtain t where t: "default_protocols (co_args opts) (split_on CHR ''+'' (co_protocol opts)) (default_tunnel opts) = Inl t"
    "cf_Tunnels c' = [''default'' \<mapsto> t]"
    using assms by (auto simp: run_command_def split: sum.splits dest: default_protocols_fails)
  note r = default_protocols_result [OF t(1)]
  have d: "dom (tc_Protocols t) = set (split_on CHR ''+'' (co_protocol opts))"
    using r(1) by (simp add: default_tunnel_def empty_tunnel_def)
  then have "normalizeAddress (hd (co_args opts)) [] = Inr a" if "a \<in> ran (tc_Protocols t)" for a
    using that r(2) assms(2) by (force simp: ran_def hd_conv_nth)
  then show ?thesis
    using assms(1) t(2) d r(3) unfolding starts_def
    by (simp add: default_tunnel_def) (intro exI [of _ t], simp)
qed

lemma undefined_tunnel_None: "undefined_tunnel args c = None \<longleftrightarrow> set args \<subseteq> dom (cf_Tunnels c)"
  by (auto simp: undefined_tunnel_def find_None_iff)

lemma start_starts:
  assumes "co_command opts = ''start''" "run_command e opts c = Loaded c'"
  shows "starts opts c (cf_Tunnels c')"
proof -
  have "co_args opts \<noteq> []" "set (co_args opts) \<subseteq> dom (cf_Tunnels c)"
    "cf_Tunnels c' = cf_Tunnels c |` set (co_args opts)"
    using assms undefined_tunnel_None [of "co_args opts" c]
    by (auto simp: run_command_def split: if_splits option.splits)
  then show ?thesis
    using assms(1) by (auto simp: starts_def map_le_def)
qed

text \<open>
  What a parsed command line starts. The client never panics on it. If it starts, the command
  \<open>default\<close> gives exactly one tunnel, with the options of the command line and one address for
  every protocol of \<open>-proto\<close>; the command \<open>start\<close> gives exactly the requested tunnels as the file
  defines them; \<open>start-all\<close> gives all of them; and \<open>list\<close> starts none but prints all names.
\<close>
theorem command_starts:
  assumes "ranges_ok e" "ParseArgs flags args = Parsed opts"
  shows "case LoadConfiguration e opts of
      Loaded c' \<Rightarrow> \<exists>c. validated e opts = Inr c \<and> co_command opts \<noteq> ''list'' \<and> starts opts c (cf_Tunnels c')
    | ListsTunnels names \<Rightarrow> \<exists>c. validated e opts = Inr c \<and> co_command opts = ''list'' \<and>
        (finite (dom (cf_Tunnels c)) \<longrightarrow> set names = dom (cf_Tunnels c))
    | LoadFails msg \<Rightarrow> True
    | LoadPanics \<Rightarrow> False"
proof -
  have w: "wellformed_options opts" by (rule parsed_wellformed [OF assms(2)])
  show ?thesis
  proof (cases "validated e opts")
    case (Inr c)
    consider "co_command opts = ''default''" | "co_command opts = ''list''" | "co_command opts = ''start''"
      | "co_command opts = ''start-all''"
      using w by (auto simp: wellformed_options_def)
    then show ?thesis
    proof cases
      case 1
      then have "co_args opts \<noteq> []" using w by (auto simp: wellformed_options_def)
      then show ?thesis
        using 1 Inr default_starts [OF 1, of e c]
        by (auto simp: LoadConfiguration_def run_command_def split: loaded.splits sum.splits
            dest: default_protocols_fails)
    next
      case 2
      then show ?thesis
        using Inr assms(1) by (simp add: LoadConfiguration_def run_command_def ranges_ok_def)
    next
      case 3
      then show ?thesis
        using Inr start_starts [OF 3, of e c]
        by (auto simp: LoadConfiguration_def run_command_def split: loaded.splits option.splits if_splits)
    next
      case 4
      then show ?thesis using Inr by (simp add: LoadConfiguration_def run_command_def starts_def)
    qed
  qed (simp add: LoadConfiguration_def)
qed

theorem command_starts_witness:
  "\<exists>c c'. LoadConfiguration sample_client_env opts_8080 = Loaded c' \<and> validated sample_client_env opts_8080 = Inr c \<and>
     starts opts_8080 c (cf_Tunnels c')"
  using command_starts [OF sample_ranges parse_8080] by (auto simp: loaded_8080)

section \<open>Files that are refused\<close>

lemma token_char_code:
  "token_char c \<Longrightarrow> 32 < (of_char c :: int) \<and> (of_char c :: int) < 128 \<and> c \<noteq> CHR '':'' \<and> c \<noteq> CHR ''#''"
  by (auto simp: token_char_def is_digit_def is_lower_def is_upper_def)

lemma stripComment_no_hash: "CHR ''#'' \<notin> set l \<Longrightarrow> stripComment l = l"
  by (rule stripComment_id)

text \<open>A line without a colon is blank or an error; a line with a token character is not blank.\<close>

lemma no_colon_line:
  assumes "CHR '':'' \<notin> set l" "CHR ''#'' \<notin> set l"
  shows "parse_line e n l st = (if trim_space l = [] then Inr st else Inl (at_line n ''expected key: value''))"
proof -
  have "CHR '':'' \<notin> set (trim_space l)"
    using assms(1) trim_space_subset by blast
  then have "splitKeyValue (trim_space l) = None"
    using cut_None [of "CHR '':''" "trim_space l"] by (simp add: splitKeyValue_def numeral_2_eq_2)
  then show ?thesis
    using stripComment_id [OF assms(2)] by (simp add: parse_line_def Let_def)
qed

lemma no_colon_lines:
  assumes "\<forall>l \<in> set ls. CHR '':'' \<notin> set l \<and> CHR ''#'' \<notin> set l" "l \<in> set ls" "trim_space l \<noteq> []"
  shows "\<exists>msg. parse_lines e n ls st = Inl msg"
  using assms by (induction ls arbitrary: n st) (auto simp: no_colon_line)

text \<open>A character other than newline and carriage return is in some line, or the file has a long line.\<close>

lemma char_in_lines:
  assumes "c \<in> set s" "c \<noteq> newline" "c \<noteq> CHR 0x0D" "scan_lines s = (ls, None)"
  shows "\<exists>l \<in> set ls. c \<in> set l"
proof -
  let ?ls = "raw_lines s"
  obtain l where l: "l \<in> set (split_on newline s)" "c \<in> set l"
    using split_on_chars [OF assms(1), of newline] assms(2) by blast
  have "l \<in> set ?ls"
  proof (cases "last (split_on newline s) = []")
    case True
    have "split_on newline s = butlast (split_on newline s) @ [[]]"
      using True append_butlast_last_id [OF split_on_nonempty, of newline s] by simp
    then have "set (split_on newline s) = insert [] (set (butlast (split_on newline s)))"
      by (metis list.set(2) list.set(1) set_append Un_insert_right sup_bot_right)
    then show ?thesis using l True by (auto simp: raw_lines_def)
  qed (use l in \<open>simp add: raw_lines_def\<close>)
  moreover have "length (takeWhile (\<lambda>l. length l < max_token) ?ls) = length ?ls" "ls = map drop_cr (takeWhile (\<lambda>l. length l < max_token) ?ls)"
    using assms(4) by (auto simp: scan_lines_def Let_def split: if_splits)
  then have "ls = map drop_cr ?ls"
    by (metis takeWhile_eq_take take_all order_refl)
  moreover have "c \<in> set (drop_cr l)"
    using l(2) assms(3) append_butlast_last_id [of l]
    by (cases l rule: rev_cases) (auto simp: drop_cr_def)
  ultimately show ?thesis by auto
qed

lemma scan_subset: "scan_lines s = (ls, err) \<Longrightarrow> l \<in> set ls \<Longrightarrow> set l \<subseteq> set s"
proof -
  assume s: "scan_lines s = (ls, err)" "l \<in> set ls"
  then obtain r where r: "r \<in> set (raw_lines s)" "l = drop_cr r"
    by (auto simp: scan_lines_def Let_def) (blast dest: set_takeWhileD)
  then have "r \<in> set (split_on newline s)"
    by (auto simp: raw_lines_def Let_def split: if_splits dest: in_set_butlastD)
  then have "set r \<subseteq> set (join [newline] (split_on newline s))"
  proof (induction "split_on newline s" arbitrary: s)
    case (Cons x xs)
    then show ?case
    proof -
      have "set r \<subseteq> set (join [newline] ls)" if "r \<in> set ls" for ls
        using that by (induction "[newline]" ls rule: join.induct) auto
      then show ?thesis using Cons.prems by blast
    qed
  qed simp
  then show "set l \<subseteq> set s"
    using r(2) by (auto simp: join_split_on drop_cr_def split: if_splits dest: in_set_butlastD)
qed

text \<open>
  The old single-token format of \<open>.ngrok\<close> can no longer be read, although \<open>LoadConfiguration\<close>
  has code for it: whenever a file matches the pattern of that format, \<open>parseConfiguration\<close> has
  failed on it before the pattern is tried, so that the client refuses to start.
\<close>
theorem legacy_file_refused:
  assumes "ce_readFile e (if co_config opts = [] then defaultPath e else co_config opts) = (content, None)"
    and "legacy_token (trim_space content)"
  shows "\<exists>msg. LoadConfiguration e opts = LoadFails msg"
proof -
  obtain c where c: "c \<in> set (trim_space content)" "token_char c"
    using assms(2) by (cases "trim_space content") (auto simp: legacy_token_def)
  have tok: "x \<noteq> CHR '':'' \<and> x \<noteq> CHR ''#''" if "x \<in> set content" for x
  proof (cases "x \<in> space_bytes")
    case False
    then have "x \<in> set (trim_space content)" using that trim_space_keeps by blast
    then show ?thesis using assms(2) token_char_code by (auto simp: legacy_token_def list_all_iff)
  qed (use space_bytes_ascii [of "CHR '':''"] space_bytes_ascii [of "CHR ''#''"] in auto)
  have c': "c \<in> set content" "c \<noteq> newline" "c \<noteq> CHR 0x0D"
    using c trim_space_subset token_char_code [OF c(2)] by (auto simp: newline_def)
  have nosp: "c \<notin> space_bytes"
    using token_char_code [OF c(2)] by (intro space_bytes_ascii) simp_all
  obtain ls err where s: "scan_lines content = (ls, err)" by fastforce
  have "\<exists>msg. parseConfiguration e content empty_configuration = Inl msg"
  proof (cases err)
    case None
    then obtain l where l: "l \<in> set ls" "c \<in> set l"
      using char_in_lines [OF c'] s by blast
    have "trim_space l \<noteq> []"
      using trim_space_keeps [OF nosp l(2)] by auto
    moreover have "\<forall>l \<in> set ls. CHR '':'' \<notin> set l \<and> CHR ''#'' \<notin> set l"
      using scan_subset [OF s] tok by blast
    ultimately obtain msg where "parse_lines e 1 ls (start_parse empty_configuration) = Inl msg"
      using no_colon_lines [OF _ l(1)] by blast
    then show ?thesis
      using s by (simp add: parseConfiguration_def)
  next
    case (Some m)
    then show ?thesis using s by (simp add: parseConfiguration_def split: sum.splits)
  qed
  then show ?thesis
    using assms(1) by (auto simp: LoadConfiguration_def validated_def read_configuration_def Let_def)
qed

theorem legacy_file_refused_witness:
  "\<exists>msg. LoadConfiguration (sample_client_env\<lparr>ce_readFile := \<lambda>_. (''aB3-x'', None)\<rparr>) opts_8080 = LoadFails msg"
proof (rule legacy_file_refused)
  show "ce_readFile (sample_client_env\<lparr>ce_readFile := \<lambda>_. (''aB3-x'', None)\<rparr>)
    (if co_config opts_8080 = [] then defaultPath (sample_client_env\<lparr>ce_readFile := \<lambda>_. (''aB3-x'', None)\<rparr>)
     else co_config opts_8080) = (''aB3-x'', None)"
    by simp
  have "trim_space ''aB3-x'' = ''aB3-x''"
    by (rule trim_space_id) (simp_all add: solid_ascii)
  then show "legacy_token (trim_space ''aB3-x'')"
    by (simp add: legacy_token_def token_char_def is_digit_def is_lower_def is_upper_def)
qed

text \<open>
  The brackets of an IPv6 address are lost: the normalized text is no address any more, so that
  even the loopback address counts as public.
\<close>

lemma ipv6_brackets_lost:
  "normalizeAddress ''[::1]:4040'' p = Inr ''::1:4040''" "\<not> isLoopbackAddress e ''::1:4040''"
  "split_host_port ''::1:4040'' = Inl ''address ::1:4040: too many colons in address''"
  by (simp_all add: normalizeAddress_def atoi_def parse_digits_def is_digit_def digit_val_def
      split_host_port_def last_cut_def isLoopbackAddress_def addr_error_def)

end
