(* ===== verification/Logger.thy ===== *)
theory Logger
  imports Go_Text
begin

text \<open>
  The logger, \<open>src/ngrok/log/logger.go\<close>: the root logger with its level and its target, and the
  loggers with a prefix that every connection and component has. The text of a formatted message
  is what \<open>fmt.Errorf\<close> gives; what is printed is appended to the target.
\<close>

section \<open>Levels\<close>

datatype level = levelDebug | levelInfo | levelWarning | levelError | levelDisabled

fun level_int :: "level \<Rightarrow> int" where
  "level_int levelDebug = 0"
| "level_int levelInfo = 1"
| "level_int levelWarning = 2"
| "level_int levelError = 3"
| "level_int levelDisabled = 4"

lemma level_int_inj: "level_int a = level_int b \<longleftrightarrow> a = b"
  by (cases a; cases b; simp)

instantiation level :: linorder
begin

definition less_eq_level :: "level \<Rightarrow> level \<Rightarrow> bool" where
  "less_eq_level a b \<longleftrightarrow> level_int a \<le> level_int b"

definition less_level :: "level \<Rightarrow> level \<Rightarrow> bool" where
  "less_level a b \<longleftrightarrow> level_int a < level_int b"

instance
  by standard (auto simp: less_eq_level_def less_level_def level_int_inj)

end

definition parseLevel :: "string \<Rightarrow> level" where
  "parseLevel levelName =
     (if levelName \<in> {''FINEST'', ''FINE'', ''DEBUG'', ''TRACE''} then levelDebug
      else if levelName = ''INFO'' then levelInfo
      else if levelName = ''WARNING'' then levelWarning
      else if levelName \<in> {''ERROR'', ''CRITICAL''} then levelError
      else levelInfo)"

section \<open>The root logger\<close>

datatype log_target = Discard | Stdout | Stderr | LogFile string

record root_logger =
  lg_level :: level
  lg_target :: log_target

definition initial_root :: root_logger where
  "initial_root = \<lparr>lg_level = levelDisabled, lg_target = Discard\<rparr>"

text \<open>A line printed by the standard logger: where it goes and its text without the time.\<close>

type_synonym log_line = "log_target \<times> string"

text \<open>\<open>logLocked\<close> returns the message as an error, whether or not it prints it.\<close>

definition logLocked :: "root_logger \<Rightarrow> level \<Rightarrow> string \<Rightarrow> string \<Rightarrow> string \<times> log_line list" where
  "logLocked r l label msg =
     (msg,
      if lg_level r = levelDisabled \<or> l < lg_level r then []
      else [(lg_target r, label @ '' '' @ msg)])"

text \<open>\<open>open_err\<close> is the error of \<open>os.OpenFile\<close> on the target.\<close>

definition LogTo :: "(string \<Rightarrow> string option) \<Rightarrow> string \<Rightarrow> string \<Rightarrow> root_logger \<Rightarrow> root_logger \<times> log_line list" where
  "LogTo open_err target levelName r =
     (let r = r\<lparr>lg_level := parseLevel levelName\<rparr> in
      if target = ''stdout'' then (r\<lparr>lg_target := Stdout\<rparr>, [])
      else if target = ''none'' then (r\<lparr>lg_level := levelDisabled, lg_target := Discard\<rparr>, [])
      else (case open_err target of
              Some err \<Rightarrow>
                let r = r\<lparr>lg_target := Stderr\<rparr> in
                (r, snd (logLocked r levelError ''ERROR''
                      (''Failed to open log file '' @ target @ '': '' @ err)))
            | None \<Rightarrow> (r\<lparr>lg_target := LogFile target\<rparr>, [])))"

definition log_Debug :: "root_logger \<Rightarrow> string \<Rightarrow> log_line list" where
  "log_Debug r msg = snd (logLocked r levelDebug ''DEBUG'' msg)"

definition log_Info :: "root_logger \<Rightarrow> string \<Rightarrow> log_line list" where
  "log_Info r msg = snd (logLocked r levelInfo ''INFO'' msg)"

definition log_Warn :: "root_logger \<Rightarrow> string \<Rightarrow> string \<times> log_line list" where
  "log_Warn r msg = logLocked r levelWarning ''WARNING'' msg"

definition log_Error :: "root_logger \<Rightarrow> string \<Rightarrow> string \<times> log_line list" where
  "log_Error r msg = logLocked r levelError ''ERROR'' msg"

section \<open>Loggers with a prefix\<close>

text \<open>The field \<open>prefix\<close> is the whole state of a \<open>PrefixLogger\<close>.\<close>

type_synonym prefix_logger = string

definition AddLogPrefix :: "string \<Rightarrow> prefix_logger \<Rightarrow> prefix_logger" where
  "AddLogPrefix p pl = (if 0 < length pl then pl @ '' '' else pl) @ ''['' @ p @ '']''"

definition ClearLogPrefixes :: "prefix_logger \<Rightarrow> prefix_logger" where
  "ClearLogPrefixes pl = []"

definition NewPrefixLogger :: "string list \<Rightarrow> prefix_logger" where
  "NewPrefixLogger ps = foldl (\<lambda>pl p. AddLogPrefix p pl) [] ps"

definition pfx :: "prefix_logger \<Rightarrow> string \<Rightarrow> string" where
  "pfx pl fmtstr = pl @ '' '' @ fmtstr"

text \<open>
  The prefix becomes part of the format string: \<open>sprintf\<close> is \<open>fmt.Errorf\<close> with its arguments.
\<close>

definition pl_Debug :: "(string \<Rightarrow> string) \<Rightarrow> root_logger \<Rightarrow> prefix_logger \<Rightarrow> string \<Rightarrow> log_line list" where
  "pl_Debug sprintf r pl arg0 = log_Debug r (sprintf (pfx pl arg0))"

definition pl_Info :: "(string \<Rightarrow> string) \<Rightarrow> root_logger \<Rightarrow> prefix_logger \<Rightarrow> string \<Rightarrow> log_line list" where
  "pl_Info sprintf r pl arg0 = log_Info r (sprintf (pfx pl arg0))"

definition pl_Warn :: "(string \<Rightarrow> string) \<Rightarrow> root_logger \<Rightarrow> prefix_logger \<Rightarrow> string \<Rightarrow> string \<times> log_line list" where
  "pl_Warn sprintf r pl arg0 = log_Warn r (sprintf (pfx pl arg0))"

definition pl_Error :: "(string \<Rightarrow> string) \<Rightarrow> root_logger \<Rightarrow> prefix_logger \<Rightarrow> string \<Rightarrow> string \<times> log_line list" where
  "pl_Error sprintf r pl arg0 = log_Error r (sprintf (pfx pl arg0))"

section \<open>What is logged\<close>

lemma AddLogPrefix_nonempty [simp]: "AddLogPrefix p pl \<noteq> []"
  by (simp add: AddLogPrefix_def)

lemma foldl_AddLogPrefix:
  "pl \<noteq> [] \<Longrightarrow> foldl (\<lambda>pl p. AddLogPrefix p pl) pl ps = pl @ concat (map (\<lambda>p. '' ['' @ p @ '']'') ps)"
  by (induction ps arbitrary: pl) (simp_all add: AddLogPrefix_def)

lemma NewPrefixLogger_text:
  "NewPrefixLogger ps = join '' '' (map (\<lambda>p. ''['' @ p @ '']'') ps)"
proof (cases ps)
  case (Cons p qs)
  have j: "join '' '' (x # map f ys) = x @ concat (map (\<lambda>y. CHR '' '' # f y) ys)"
    for x and f :: "'a \<Rightarrow> string" and ys
    by (induction ys arbitrary: x) simp_all
  have "AddLogPrefix p [] = ''['' @ p @ '']''" by (simp add: AddLogPrefix_def)
  then show ?thesis
    using foldl_AddLogPrefix [of "AddLogPrefix p []" qs]
    by (simp add: NewPrefixLogger_def Cons j)
qed (simp add: NewPrefixLogger_def)

lemma log_filter_facts:
  assumes "LogTo open_err target levelName r = (r', out)" "target \<noteq> ''none''"
  shows "logLocked r' l label msg =
     (msg, if parseLevel levelName \<le> l then [(lg_target r', label @ '' '' @ msg)] else [])"
    and "lg_target r' = (if target = ''stdout'' then Stdout
           else if open_err target = None then LogFile target else Stderr)"
proof -
  have p: "parseLevel levelName \<noteq> levelDisabled"
    by (simp add: parseLevel_def)
  have r: "lg_level r' = parseLevel levelName" "lg_target r' = (if target = ''stdout'' then Stdout
           else if open_err target = None then LogFile target else Stderr)"
    using assms by (auto simp: LogTo_def Let_def split: if_splits option.splits)
  show "logLocked r' l label msg =
     (msg, if parseLevel levelName \<le> l then [(lg_target r', label @ '' '' @ msg)] else [])"
    using p by (auto simp: logLocked_def r(1) not_le)
  show "lg_target r' = (if target = ''stdout'' then Stdout
           else if open_err target = None then LogFile target else Stderr)"
    by (rule r(2))
qed

text \<open>
  The level filters: after \<open>LogTo\<close> with a target other than \<open>none\<close> a message is printed exactly if
  its level is at least the configured one, on exactly one target; the caller gets the message as
  an error in any case.
\<close>
theorem log_filter:
  assumes "LogTo open_err target levelName r = (r', out)" "target \<noteq> ''none''"
  shows "logLocked r' l label msg =
     (msg, if parseLevel levelName \<le> l then [(lg_target r', label @ '' '' @ msg)] else []) \<and>
    lg_target r' = (if target = ''stdout'' then Stdout
           else if open_err target = None then LogFile target else Stderr)"
  using log_filter_facts(1) [OF assms] log_filter_facts(2) [OF assms]
  by blast

theorem log_filter_witness:
  "logLocked (fst (LogTo (\<lambda>_. None) ''stdout'' ''WARNING'' initial_root)) levelError ''ERROR'' ''lost'' =
     (''lost'', [(Stdout, ''ERROR lost'')]) \<and>
   logLocked (fst (LogTo (\<lambda>_. None) ''stdout'' ''WARNING'' initial_root)) levelInfo ''INFO'' ''new'' = (''new'', [])"
  using log_filter [THEN conjunct1, rule_format, of "\<lambda>_. None" "''stdout''" "''WARNING''" initial_root _ "[]"]
    log_filter [THEN conjunct2, rule_format, of "\<lambda>_. None" "''stdout''" "''WARNING''" initial_root _ "[]"]
  by (simp add: LogTo_def parseLevel_def less_eq_level_def)

text \<open>Nothing is logged before \<open>LogTo\<close>, nor with the target \<open>none\<close>, whose messages still reach the caller.\<close>

lemma log_silent:
  "logLocked initial_root l label msg = (msg, [])"
  "LogTo open_err ''none'' levelName r = (r', out) \<Longrightarrow> out = [] \<and> logLocked r' l label msg = (msg, [])"
  by (auto simp: logLocked_def initial_root_def LogTo_def Let_def)

text \<open>
  A connection that gets a new type logs with the new prefix alone.
\<close>

lemma renamed_prefix: "AddLogPrefix p (ClearLogPrefixes pl) = ''['' @ p @ '']''"
  by (simp add: AddLogPrefix_def ClearLogPrefixes_def)

end
