(* ===== verification/Msg_Codec.thy ===== *)
theory Msg_Codec
  imports Messages Go_Text
begin

text \<open>
  How messages travel: the frames of \<open>src/ngrok/msg/conn.go\<close> (a little-endian length and a text)
  and the envelopes of \<open>src/ngrok/msg/pack.go\<close>. Package \<open>json\<close> is modelled from the syntax tree up:
  which fields an object fills and what null does; printing and parsing the text of a syntax tree
  are parameters.
\<close>

section \<open>Syntax trees\<close>

text \<open>A number keeps its literal, an array does not matter here beyond being one.\<close>

datatype json =
  JNull | JBool bool | JNum string | JStr string | JArr "json list" | JObj "(string \<times> json) list"

text \<open>
  The parameters: printing and parsing; lower case beyond ASCII, for the comparison of keys; and
  the text of a type error (the expected Go type and the value found).
\<close>

record json_lib =
  jl_print :: "json \<Rightarrow> string"
  jl_parse :: "string \<Rightarrow> json result"
  jl_lower :: "string \<Rightarrow> string"
  jl_type_error :: "string \<Rightarrow> json \<Rightarrow> string"

text \<open>The field a key fills: the one with that name, else one that differs in case only.\<close>

definition field_named :: "json_lib \<Rightarrow> string list \<Rightarrow> string \<Rightarrow> string option" where
  "field_named lib names k =
     (if k \<in> set names then Some k
      else find (\<lambda>n. to_lower (jl_lower lib) n = to_lower (jl_lower lib) k) names)"

section \<open>Fields of the messages\<close>

text \<open>The object \<open>json.Marshal\<close> prints for a message.\<close>

fun msg_fields :: "msg \<Rightarrow> (string \<times> json) list" where
  "msg_fields (MAuth a) =
     [(''Version'', JStr (au_Version a)), (''MmVersion'', JStr (au_MmVersion a)), (''User'', JStr (au_User a)),
      (''Password'', JStr (au_Password a)), (''OS'', JStr (au_OS a)), (''Arch'', JStr (au_Arch a)),
      (''ClientId'', JStr (au_ClientId a))]"
| "msg_fields (MAuthResp a) =
     [(''Version'', JStr (ar_Version a)), (''MmVersion'', JStr (ar_MmVersion a)),
      (''ClientId'', JStr (ar_ClientId a)), (''Error'', JStr (ar_Error a))]"
| "msg_fields (MReqTunnel r) =
     [(''ReqId'', JStr (rt_ReqId r)), (''Protocol'', JStr (rt_Protocol r)), (''Hostname'', JStr (rt_Hostname r)),
      (''Subdomain'', JStr (rt_Subdomain r)), (''HttpAuth'', JStr (rt_HttpAuth r)),
      (''RemotePort'', JNum (show_int (uint (rt_RemotePort r))))]"
| "msg_fields (MNewTunnel n) =
     [(''ReqId'', JStr (nt_ReqId n)), (''Url'', JStr (nt_Url n)), (''Protocol'', JStr (nt_Protocol n)),
      (''Error'', JStr (nt_Error n))]"
| "msg_fields (MRegProxy r) = [(''ClientId'', JStr (rp_ClientId r))]"
| "msg_fields (MStartProxy p) = [(''Url'', JStr (sp_Url p)), (''ClientAddr'', JStr (sp_ClientAddr p))]"
| "msg_fields MReqProxy = []"
| "msg_fields MPing = []"
| "msg_fields MPong = []"

text \<open>Storing a string into the field of a name.\<close>

fun set_string :: "string \<Rightarrow> string \<Rightarrow> msg \<Rightarrow> msg" where
  "set_string f v (MAuth a) = MAuth
     (if f = ''Version'' then a\<lparr>au_Version := v\<rparr> else if f = ''MmVersion'' then a\<lparr>au_MmVersion := v\<rparr>
      else if f = ''User'' then a\<lparr>au_User := v\<rparr> else if f = ''Password'' then a\<lparr>au_Password := v\<rparr>
      else if f = ''OS'' then a\<lparr>au_OS := v\<rparr> else if f = ''Arch'' then a\<lparr>au_Arch := v\<rparr>
      else if f = ''ClientId'' then a\<lparr>au_ClientId := v\<rparr> else a)"
| "set_string f v (MAuthResp a) = MAuthResp
     (if f = ''Version'' then a\<lparr>ar_Version := v\<rparr> else if f = ''MmVersion'' then a\<lparr>ar_MmVersion := v\<rparr>
      else if f = ''ClientId'' then a\<lparr>ar_ClientId := v\<rparr> else if f = ''Error'' then a\<lparr>ar_Error := v\<rparr> else a)"
| "set_string f v (MReqTunnel r) = MReqTunnel
     (if f = ''ReqId'' then r\<lparr>rt_ReqId := v\<rparr> else if f = ''Protocol'' then r\<lparr>rt_Protocol := v\<rparr>
      else if f = ''Hostname'' then r\<lparr>rt_Hostname := v\<rparr> else if f = ''Subdomain'' then r\<lparr>rt_Subdomain := v\<rparr>
      else if f = ''HttpAuth'' then r\<lparr>rt_HttpAuth := v\<rparr> else r)"
| "set_string f v (MNewTunnel n) = MNewTunnel
     (if f = ''ReqId'' then n\<lparr>nt_ReqId := v\<rparr> else if f = ''Url'' then n\<lparr>nt_Url := v\<rparr>
      else if f = ''Protocol'' then n\<lparr>nt_Protocol := v\<rparr> else if f = ''Error'' then n\<lparr>nt_Error := v\<rparr> else n)"
| "set_string f v (MRegProxy r) = MRegProxy (if f = ''ClientId'' then r\<lparr>rp_ClientId := v\<rparr> else r)"
| "set_string f v (MStartProxy p) = MStartProxy
     (if f = ''Url'' then p\<lparr>sp_Url := v\<rparr> else if f = ''ClientAddr'' then p\<lparr>sp_ClientAddr := v\<rparr> else p)"
| "set_string f v m = m"

fun set_port :: "16 word \<Rightarrow> msg \<Rightarrow> msg" where
  "set_port p (MReqTunnel r) = MReqTunnel (r\<lparr>rt_RemotePort := p\<rparr>)"
| "set_port p m = m"

text \<open>One value into one field: null changes nothing, a value of another type is an error.\<close>

definition set_field :: "json_lib \<Rightarrow> string \<Rightarrow> json \<Rightarrow> msg \<Rightarrow> msg \<times> string option" where
  "set_field lib f v m =
     (if v = JNull then (m, None)
      else if f = ''RemotePort'' then
        (case v of
           JNum s \<Rightarrow>
             (case parse_uint16 s of
                Some p \<Rightarrow> (set_port (word_of_int p) m, None)
              | None \<Rightarrow> (m, Some (jl_type_error lib ''uint16'' v)))
         | _ \<Rightarrow> (m, Some (jl_type_error lib ''uint16'' v)))
      else (case v of
              JStr s \<Rightarrow> (set_string f s m, None)
            | _ \<Rightarrow> (m, Some (jl_type_error lib ''string'' v))))"

text \<open>The members of an object in order; the first error is reported after all of them.\<close>

fun decode_members :: "json_lib \<Rightarrow> string list \<Rightarrow> (string \<times> json) list \<Rightarrow> msg \<Rightarrow> msg \<times> string option" where
  "decode_members lib names [] m = (m, None)"
| "decode_members lib names ((k, v) # kvs) m =
     (case field_named lib names k of
        None \<Rightarrow> decode_members lib names kvs m
      | Some f \<Rightarrow>
          let (m1, err) = set_field lib f v m; (m2, err') = decode_members lib names kvs m1 in
          (m2, if err = None then err' else err))"

text \<open>
  \<open>json.Unmarshal(payload, &msg)\<close> for an interface that holds a pointer to a struct: null sets the
  interface to nil.
\<close>

definition decode_payload :: "json_lib \<Rightarrow> json \<Rightarrow> msg \<Rightarrow> msg option \<times> string option" where
  "decode_payload lib v m =
     (case v of
        JNull \<Rightarrow> (None, None)
      | JObj kvs \<Rightarrow> (let (m', err) = decode_members lib (map fst (msg_fields m)) kvs m in (Some m', err))
      | _ \<Rightarrow> (Some m, Some (jl_type_error lib (''msg.'' @ type_name m) v)))"

section \<open>Envelopes\<close>

text \<open>The struct \<open>Envelope\<close>; \<open>Payload\<close> is absent if no member filled it.\<close>

record envelope =
  ev_Type :: string
  ev_Payload :: "json option"

fun decode_envelope :: "json_lib \<Rightarrow> (string \<times> json) list \<Rightarrow> envelope \<Rightarrow> envelope \<times> string option" where
  "decode_envelope lib [] env = (env, None)"
| "decode_envelope lib ((k, v) # kvs) env =
     (case field_named lib [''Type'', ''Payload''] k of
        None \<Rightarrow> decode_envelope lib kvs env
      | Some f \<Rightarrow>
          if f = ''Payload'' then decode_envelope lib kvs (env\<lparr>ev_Payload := Some v\<rparr>)
          else (case v of
                  JStr s \<Rightarrow> decode_envelope lib kvs (env\<lparr>ev_Type := s\<rparr>)
                | JNull \<Rightarrow> decode_envelope lib kvs env
                | _ \<Rightarrow> (let (env', _) = decode_envelope lib kvs env in
                         (env', Some (jl_type_error lib ''string'' v)))))"

definition empty_envelope :: envelope where
  "empty_envelope = \<lparr>ev_Type = [], ev_Payload = None\<rparr>"

definition unmarshal_envelope :: "json_lib \<Rightarrow> json \<Rightarrow> envelope \<times> string option" where
  "unmarshal_envelope lib v =
     (case v of
        JNull \<Rightarrow> (empty_envelope, None)
      | JObj kvs \<Rightarrow> decode_envelope lib kvs empty_envelope
      | _ \<Rightarrow> (empty_envelope, Some (jl_type_error lib ''msg.Envelope'' v)))"

definition Pack :: "json_lib \<Rightarrow> msg \<Rightarrow> string" where
  "Pack lib m = jl_print lib (JObj [(''Type'', JStr (type_name m)), (''Payload'', JObj (msg_fields m))])"

text \<open>
  The message (\<open>None\<close> for a nil interface) and the error. \<open>msgIn\<close> is the message to fill, if the
  caller gives one.
\<close>

definition unpack :: "json_lib \<Rightarrow> string \<Rightarrow> msg option \<Rightarrow> msg option \<times> string option" where
  "unpack lib buffer msgIn =
     (case jl_parse lib buffer of
        Inl err \<Rightarrow> (None, Some err)
      | Inr v \<Rightarrow>
          let (env, err) = unmarshal_envelope lib v in
          if err \<noteq> None then (None, err)
          else
            (case (case msgIn of None \<Rightarrow> TypeMap (ev_Type env) | Some m \<Rightarrow> Some m) of
               None \<Rightarrow> (None, Some (''Unsupported message type '' @ ev_Type env))
             | Some m \<Rightarrow>
                 (case ev_Payload env of
                    None \<Rightarrow> (Some m, Some ''unexpected end of JSON input'')
                  | Some p \<Rightarrow> decode_payload lib p m)))"

definition Unpack :: "json_lib \<Rightarrow> string \<Rightarrow> msg option \<times> string option" where
  "Unpack lib buffer = unpack lib buffer None"

text \<open>The caller's message after the call: a null payload leaves it as it was.\<close>

definition UnpackInto :: "json_lib \<Rightarrow> string \<Rightarrow> msg \<Rightarrow> msg \<times> string option" where
  "UnpackInto lib buffer m =
     (let (m', err) = unpack lib buffer (Some m) in (case m' of None \<Rightarrow> m | Some m'' \<Rightarrow> m'', err))"

section \<open>Frames\<close>

text \<open>What a connection will still deliver, and the error once that is used up.\<close>

record byte_stream =
  bs_data :: string
  bs_end :: string

text \<open>\<open>io.ReadFull\<close>.\<close>

definition read_full :: "nat \<Rightarrow> byte_stream \<Rightarrow> string result \<times> byte_stream" where
  "read_full n s =
     (if n \<le> length (bs_data s) then (Inr (take n (bs_data s)), s\<lparr>bs_data := drop n (bs_data s)\<rparr>)
      else (Inl (if bs_end s = ''EOF'' \<and> bs_data s \<noteq> [] then ''unexpected EOF'' else bs_end s),
            s\<lparr>bs_data := []\<rparr>))"

text \<open>Little-endian bytes.\<close>

fun le_bytes :: "nat \<Rightarrow> nat \<Rightarrow> string" where
  "le_bytes 0 n = []"
| "le_bytes (Suc k) n = char_of (n mod 256) # le_bytes k (n div 256)"

fun le_val :: "string \<Rightarrow> nat" where
  "le_val [] = 0"
| "le_val (c # cs) = of_char c + 256 * le_val cs"

definition maxMsgSize :: int where "maxMsgSize = 64 * 1024"

definition readMsgShared :: "byte_stream \<Rightarrow> string result \<times> byte_stream" where
  "readMsgShared s =
     (case read_full 8 s of
        (Inl err, s) \<Rightarrow> (Inl err, s)
      | (Inr header, s) \<Rightarrow>
          let sz = sint (word_of_nat (le_val header) :: 64 word) in
          if sz \<le> 0 then (Inl (''invalid message length: '' @ show_int sz), s)
          else if sz > maxMsgSize
            then (Inl (''message length '' @ show_int sz @ '' exceeds maximum '' @ show_int maxMsgSize), s)
          else read_full (nat sz) s)"

definition ReadMsg :: "json_lib \<Rightarrow> byte_stream \<Rightarrow> (msg option \<times> string option) \<times> byte_stream" where
  "ReadMsg lib s =
     (case readMsgShared s of
        (Inl err, s) \<Rightarrow> ((None, Some err), s)
      | (Inr buffer, s) \<Rightarrow> (Unpack lib buffer, s))"

definition ReadMsgInto :: "json_lib \<Rightarrow> byte_stream \<Rightarrow> msg \<Rightarrow> (msg \<times> string option) \<times> byte_stream" where
  "ReadMsgInto lib s m =
     (case readMsgShared s of
        (Inl err, s) \<Rightarrow> ((m, Some err), s)
      | (Inr buffer, s) \<Rightarrow> (UnpackInto lib buffer m, s))"

text \<open>
  The bytes that go out and the error; \<open>wr\<close> is the connection's \<open>Write\<close>: how many bytes of a buffer
  it takes, and its error. A length is an \<open>int64\<close>.
\<close>

definition WriteMsg :: "json_lib \<Rightarrow> (string \<Rightarrow> nat \<times> string option) \<Rightarrow> msg \<Rightarrow> string \<times> string option" where
  "WriteMsg lib wr m =
     (let buffer = Pack lib m;
          header = le_bytes 8 (unat (word_of_nat (length buffer) :: 64 word));
          (n, err) = wr header in
      if err \<noteq> None then (take n header, err)
      else (let (n', err') = wr buffer in (take n header @ take n' buffer, err')))"

section \<open>The header\<close>

lemma length_le_bytes [simp]: "length (le_bytes k n) = k"
  by (induction k arbitrary: n) simp_all

lemma le_val_bytes: "le_val (le_bytes k n) = n mod 256 ^ k"
proof (induction k arbitrary: n)
  case (Suc k)
  have "n mod 256 + 256 * (n div 256 mod 256 ^ k) = n mod (256 * 256 ^ k)"
    by (simp add: mod_mult2_eq)
  then show ?case
    using Suc by (simp add: of_char_mod_256)
qed simp

lemma sz_of_header:
  assumes "n < 2 ^ 63"
  shows "sint (word_of_nat (le_val (le_bytes 8 (unat (word_of_nat n :: 64 word)))) :: 64 word) = int n"
proof -
  have u: "unat (word_of_nat n :: 64 word) = n"
    using assms by (simp add: unat_of_nat)
  have "le_val (le_bytes 8 n) = n"
    using assms by (simp add: le_val_bytes)
  moreover have "sint (word_of_nat n :: 64 word) = int n"
    using assms by (simp add: sint_uint signed_take_bit_int_eq_self uint_nat u)
  ultimately show ?thesis by (simp add: u)
qed

section \<open>Messages survive the way\<close>

definition msg_tree :: "msg \<Rightarrow> json" where
  "msg_tree m = JObj [(''Type'', JStr (type_name m)), (''Payload'', JObj (msg_fields m))]"

text \<open>The text of the message is read back as its tree, which package \<open>json\<close> promises for valid UTF-8.\<close>

definition text_ok :: "json_lib \<Rightarrow> msg \<Rightarrow> bool" where
  "text_ok lib m \<longleftrightarrow> jl_parse lib (Pack lib m) = Inr (msg_tree m) \<and> Pack lib m \<noteq> []"

lemma port_back: "parse_uint16 (show_int (uint p)) = Some (uint p)" for p :: "16 word"
  using uint_lt2p [of p] parse_digits_show [of "uint p"]
  by (simp add: parse_uint16_def show_int_def)

lemma zero_message: "\<exists>z. TypeMap (type_name m) = Some z \<and> map fst (msg_fields z) = map fst (msg_fields m) \<and>
    decode_members lib (map fst (msg_fields m)) (msg_fields m) z = (m, None)"
  by (cases m) (simp_all add: TypeMap_def field_named_def set_field_def port_back)

lemma envelope_of_tree:
  "unmarshal_envelope lib (msg_tree m) = (\<lparr>ev_Type = type_name m, ev_Payload = Some (JObj (msg_fields m))\<rparr>, None)"
  by (simp add: msg_tree_def unmarshal_envelope_def field_named_def empty_envelope_def)

lemma unpack_packed: "text_ok lib m \<Longrightarrow> Unpack lib (Pack lib m) = (Some m, None)"
  using zero_message [of m lib]
  by (auto simp: Unpack_def unpack_def text_ok_def envelope_of_tree decode_payload_def)

text \<open>A connection that takes every byte.\<close>

definition takes_all :: "string \<Rightarrow> nat \<times> string option" where
  "takes_all b = (length b, None)"

definition frame :: "json_lib \<Rightarrow> msg \<Rightarrow> string" where
  "frame lib m = fst (WriteMsg lib takes_all m)"

lemma frame_text: "length (Pack lib m) < 2 ^ 63 \<Longrightarrow> \<exists>h. frame lib m = h @ Pack lib m \<and> length h = 8 \<and>
    sint (word_of_nat (le_val h) :: 64 word) = int (length (Pack lib m))"
  using sz_of_header [of "length (Pack lib m)"]
  by (simp add: frame_def WriteMsg_def takes_all_def Let_def)

lemma read_full_append: "length a = n \<Longrightarrow> read_full n \<lparr>bs_data = a @ b, bs_end = e\<rparr> = (Inr a, \<lparr>bs_data = b, bs_end = e\<rparr>)"
  by (simp add: read_full_def)

lemma readMsgShared_header:
  assumes "length h = 8" "sint (word_of_nat (le_val h) :: 64 word) = sz"
  shows "readMsgShared \<lparr>bs_data = h @ b, bs_end = e\<rparr> =
     (let s = \<lparr>bs_data = b, bs_end = e\<rparr> in
      if sz \<le> 0 then (Inl (''invalid message length: '' @ show_int sz), s)
      else if sz > maxMsgSize
        then (Inl (''message length '' @ show_int sz @ '' exceeds maximum '' @ show_int maxMsgSize), s)
      else read_full (nat sz) s)"
  using assms by (simp add: readMsgShared_def read_full_append Let_def)

lemma ReadMsg_frame:
  assumes "text_ok lib m" "int (length (Pack lib m)) \<le> maxMsgSize"
  shows "ReadMsg lib \<lparr>bs_data = frame lib m @ rest, bs_end = e\<rparr> = ((Some m, None), \<lparr>bs_data = rest, bs_end = e\<rparr>)"
proof -
  have "length (Pack lib m) < 2 ^ 63"
    using assms(2) by (simp add: maxMsgSize_def)
  then obtain h where h: "frame lib m = h @ Pack lib m" "length h = 8"
    "sint (word_of_nat (le_val h) :: 64 word) = int (length (Pack lib m))"
    using frame_text by blast
  have "Pack lib m \<noteq> []" using assms(1) by (simp add: text_ok_def)
  then have "readMsgShared \<lparr>bs_data = frame lib m @ rest, bs_end = e\<rparr> = (Inr (Pack lib m), \<lparr>bs_data = rest, bs_end = e\<rparr>)"
    using assms(2) readMsgShared_header [OF h(2,3), of "Pack lib m @ rest" e]
    by (simp add: h(1) Let_def read_full_append)
  then show ?thesis
    using unpack_packed [OF assms(1)] by (simp add: ReadMsg_def)
qed

fun read_msgs :: "json_lib \<Rightarrow> nat \<Rightarrow> byte_stream \<Rightarrow> (msg option \<times> string option) list \<times> byte_stream" where
  "read_msgs lib 0 s = ([], s)"
| "read_msgs lib (Suc n) s =
     (let (r, s1) = ReadMsg lib s; (rs, s2) = read_msgs lib n s1 in (r # rs, s2))"

text \<open>An instance of the parameters for the witnesses: the text names one ping.\<close>

definition ping_lib :: json_lib where
  "ping_lib = \<lparr>jl_print = (\<lambda>_. ''{ping}''),
     jl_parse = (\<lambda>t. if t = ''{ping}'' then Inr (msg_tree MPing) else Inl ''invalid character''),
     jl_lower = (\<lambda>s. s), jl_type_error = (\<lambda>t _. ''json: cannot unmarshal into '' @ t)\<rparr>"

lemma ping_text: "text_ok ping_lib MPing" "length (Pack ping_lib MPing) = 6"
  by (simp_all add: text_ok_def ping_lib_def Pack_def)

text \<open>
  C17: Messages survive the connection: whatever sequence of messages one side writes, the other
  side reads exactly these messages in this order, each complete, whatever follows on the
  connection, as long as every text has at most 64 KiB.
\<close>
theorem messages_roundtrip:
  assumes "\<forall>m \<in> set ms. text_ok lib m \<and> int (length (Pack lib m)) \<le> maxMsgSize"
  shows "read_msgs lib (length ms) \<lparr>bs_data = concat (map (\<lambda>m. fst (WriteMsg lib takes_all m)) ms) @ rest, bs_end = e\<rparr>
    = (map (\<lambda>m. (Some m, None)) ms, \<lparr>bs_data = rest, bs_end = e\<rparr>)"
  using assms ReadMsg_frame [of lib _ _ e] by (induction ms) (simp_all add: frame_def)

theorem messages_roundtrip_witness:
  "read_msgs ping_lib 2 \<lparr>bs_data = fst (WriteMsg ping_lib takes_all MPing) @
       fst (WriteMsg ping_lib takes_all MPing) @ ''x'', bs_end = ''EOF''\<rparr>
   = ([(Some MPing, None), (Some MPing, None)], \<lparr>bs_data = ''x'', bs_end = ''EOF''\<rparr>)"
  using messages_roundtrip [of "[MPing, MPing]" ping_lib "''x''" "''EOF''"] ping_text
  by (simp add: maxMsgSize_def numeral_2_eq_2)

lemma oversized_message_facts:
  assumes "maxMsgSize < int (length (Pack lib m))" "length (Pack lib m) < 2 ^ 63"
  shows "snd (WriteMsg lib takes_all m) = None"
    and "ReadMsg lib \<lparr>bs_data = fst (WriteMsg lib takes_all m) @ rest, bs_end = e\<rparr> =
      ((None, Some (''message length '' @ show_int (int (length (Pack lib m))) @ '' exceeds maximum '' @
         show_int maxMsgSize)), \<lparr>bs_data = Pack lib m @ rest, bs_end = e\<rparr>)"
proof -
  show "snd (WriteMsg lib takes_all m) = None"
    by (simp add: WriteMsg_def takes_all_def Let_def)
  obtain h where h: "frame lib m = h @ Pack lib m" "length h = 8"
    "sint (word_of_nat (le_val h) :: 64 word) = int (length (Pack lib m))"
    using frame_text [OF assms(2)] by blast
  have nonempty: "Pack lib m \<noteq> []"
    using assms(1) by (auto simp: maxMsgSize_def)
  show "ReadMsg lib \<lparr>bs_data = fst (WriteMsg lib takes_all m) @ rest, bs_end = e\<rparr> =
      ((None, Some (''message length '' @ show_int (int (length (Pack lib m))) @ '' exceeds maximum '' @
         show_int maxMsgSize)), \<lparr>bs_data = Pack lib m @ rest, bs_end = e\<rparr>)"
    using assms(1) readMsgShared_header [OF h(2,3), of "Pack lib m @ rest" e] nonempty
    unfolding frame_def [symmetric] h(1) by (simp add: ReadMsg_def Let_def)
qed

text \<open>
  A message whose text is longer than 64 KiB is written without an error but never read: the
  other side refuses it after the header, and the whole text stays in front of everything that
  follows on the connection.
\<close>
theorem oversized_message:
  assumes "maxMsgSize < int (length (Pack lib m))" "length (Pack lib m) < 2 ^ 63"
  shows "snd (WriteMsg lib takes_all m) = None \<and>
    ReadMsg lib \<lparr>bs_data = fst (WriteMsg lib takes_all m) @ rest, bs_end = e\<rparr> =
      ((None, Some (''message length '' @ show_int (int (length (Pack lib m))) @ '' exceeds maximum '' @
         show_int maxMsgSize)), \<lparr>bs_data = Pack lib m @ rest, bs_end = e\<rparr>)"
  using oversized_message_facts(1) [OF assms] oversized_message_facts(2) [OF assms]
  by blast

theorem oversized_message_witness:
  "\<exists>lib. snd (WriteMsg lib takes_all MPing) = None \<and>
     snd (fst (ReadMsg lib \<lparr>bs_data = fst (WriteMsg lib takes_all MPing), bs_end = ''EOF''\<rparr>)) \<noteq> None"
proof -
  let ?lib = "ping_lib\<lparr>jl_print := \<lambda>_. replicate 70000 CHR ''x''\<rparr>"
  have l: "maxMsgSize < int (length (Pack ?lib MPing))" "length (Pack ?lib MPing) < 2 ^ 63"
    by (simp_all add: Pack_def maxMsgSize_def)
  show ?thesis
    using oversized_message [THEN conjunct1, rule_format, OF l] oversized_message [THEN conjunct2, rule_format, OF l, of "[]" "''EOF''"]
    by (intro exI [of _ ?lib]) simp
qed

text \<open>
  Reading a message is bounded whatever the other side sends: a buffer has between one byte
  and 64 KiB, and a call takes exactly the header and the buffer from the connection, or fails.
\<close>
theorem read_is_bounded:
  "case readMsgShared s of
     (Inr buffer, s') \<Rightarrow> 1 \<le> length buffer \<and> int (length buffer) \<le> maxMsgSize \<and> bs_end s' = bs_end s \<and>
       (\<exists>h. length h = 8 \<and> bs_data s = h @ buffer @ bs_data s' \<and>
         sint (word_of_nat (le_val h) :: 64 word) = int (length buffer))
   | (Inl _, s') \<Rightarrow> length (bs_data s') \<le> length (bs_data s)"
proof (cases "8 \<le> length (bs_data s)")
  case True
  define h b where "h = take 8 (bs_data s)" and "b = drop 8 (bs_data s)"
  define sz where "sz = sint (word_of_nat (le_val h) :: 64 word)"
  have hb: "length h = 8" "bs_data s = h @ b"
    using True by (simp_all add: h_def b_def)
  have s: "s = \<lparr>bs_data = h @ b, bs_end = bs_end s\<rparr>" using hb(2) by simp
  have r: "readMsgShared s = (let s' = \<lparr>bs_data = b, bs_end = bs_end s\<rparr> in
      if sz \<le> 0 then (Inl (''invalid message length: '' @ show_int sz), s')
      else if sz > maxMsgSize
        then (Inl (''message length '' @ show_int sz @ '' exceeds maximum '' @ show_int maxMsgSize), s')
      else read_full (nat sz) s')"
    by (subst s) (rule readMsgShared_header [OF hb(1) sz_def [symmetric]])
  show ?thesis
  proof (cases "0 < sz \<and> sz \<le> maxMsgSize \<and> nat sz \<le> length b")
    case ok: True
    then have "readMsgShared s = (Inr (take (nat sz) b), \<lparr>bs_data = drop (nat sz) b, bs_end = bs_end s\<rparr>)"
      using r by (simp add: read_full_def Let_def)
    moreover have "length (take (nat sz) b) = nat sz" "int (nat sz) = sz" "1 \<le> nat sz" "bs_data s = h @ take (nat sz) b @ drop (nat sz) b"
      using ok hb by auto
    ultimately show ?thesis
      using ok hb(1) unfolding sz_def [symmetric] by (simp only: prod.case sum.case) (intro conjI exI [of _ h]; simp add: sz_def)
  next
    case False
    then have "\<exists>e d. readMsgShared s = (Inl e, \<lparr>bs_data = d, bs_end = bs_end s\<rparr>) \<and> length d \<le> length b"
      using r by (auto simp: read_full_def Let_def)
    then show ?thesis using hb by auto
  qed
qed (simp add: readMsgShared_def read_full_def)

end
