(* ===== verification/Conn.thy ===== *)
theory Conn
  imports Logger
begin

text \<open>
  Connections, \<open>src/ngrok/conn/conn.go\<close> and \<open>tee.go\<close>: their names and prefixes, the backlog of a
  listener, dialling through an HTTP proxy, joining two connections, and the copies a \<open>Tee\<close> makes
  for inspection. The network is a parameter.
\<close>

section \<open>Connections with a name\<close>

text \<open>The random number is an \<open>int32\<close> that is not negative; \<open>lc_tls\<close> tells whether TLS was started.\<close>

record loggedConn =
  lc_id :: "32 word"
  lc_typ :: string
  lc_prefix :: prefix_logger
  lc_tls :: bool
  lc_closed :: bool

definition conn_Id :: "loggedConn \<Rightarrow> string" where
  "conn_Id c = lc_typ c @ '':'' @ show_hex (uint (lc_id c))"

datatype net_conn = Logged loggedConn | TCPConn | OtherConn

text \<open>\<open>None\<close> is nil; \<open>rnd\<close> is what \<open>rand.Int31\<close> gives.\<close>

definition wrapConn :: "32 word \<Rightarrow> net_conn \<Rightarrow> string \<Rightarrow> loggedConn option" where
  "wrapConn rnd conn typ =
     (case conn of
        Logged c \<Rightarrow> Some c
      | TCPConn \<Rightarrow>
          let c = \<lparr>lc_id = rnd, lc_typ = typ, lc_prefix = NewPrefixLogger [], lc_tls = False, lc_closed = False\<rparr> in
          Some (c\<lparr>lc_prefix := AddLogPrefix (conn_Id c) (lc_prefix c)\<rparr>)
      | OtherConn \<Rightarrow> None)"

definition StartTLS :: "loggedConn \<Rightarrow> loggedConn" where
  "StartTLS c = c\<lparr>lc_tls := True\<rparr>"

definition SetType :: "string \<Rightarrow> loggedConn \<Rightarrow> loggedConn" where
  "SetType typ c =
     (let c = c\<lparr>lc_typ := typ\<rparr> in
      c\<lparr>lc_prefix := AddLogPrefix (conn_Id c) (ClearLogPrefixes (lc_prefix c))\<rparr>)"

text \<open>\<open>Close\<close> never returns the error: the inner \<open>err\<close> shadows the result.\<close>

definition conn_Close :: "string option \<Rightarrow> loggedConn \<Rightarrow> string option \<times> loggedConn" where
  "conn_Close close_err c = (None, c\<lparr>lc_closed := True\<rparr>)"

section \<open>Listening\<close>

definition listenerBacklog :: nat where "listenerBacklog = 128"

text \<open>The channel of accepted connections, and the connections that were closed at once.\<close>

record listener =
  ls_conns :: "loggedConn list"
  ls_dropped :: "loggedConn list"

definition Listen :: "string option \<Rightarrow> listener result" where
  "Listen listen_err =
     (case listen_err of Some e \<Rightarrow> Inl e | None \<Rightarrow> Inr \<lparr>ls_conns = [], ls_dropped = []\<rparr>)"

datatype listen_event = AcceptError string | AcceptConn "32 word" | TakeConn

text \<open>One turn of the accepting goroutine, or the receiver takes a connection.\<close>

fun listen_step :: "bool \<Rightarrow> string \<Rightarrow> listener \<Rightarrow> listen_event \<Rightarrow> listener" where
  "listen_step tls typ l (AcceptError e) = l"
| "listen_step tls typ l (AcceptConn rnd) =
     (case wrapConn rnd TCPConn typ of
        None \<Rightarrow> l
      | Some c \<Rightarrow>
          let c = (if tls then c\<lparr>lc_tls := True\<rparr> else c) in
          if length (ls_conns l) < listenerBacklog then l\<lparr>ls_conns := ls_conns l @ [c]\<rparr>
          else l\<lparr>ls_dropped := ls_dropped l @ [snd (conn_Close None c)]\<rparr>)"
| "listen_step tls typ l TakeConn = l\<lparr>ls_conns := tl (ls_conns l)\<rparr>"

section \<open>Dialling\<close>

definition Dial :: "32 word \<Rightarrow> string option \<Rightarrow> string \<Rightarrow> bool \<Rightarrow> loggedConn result" where
  "Dial rnd dial_err typ tls =
     (case dial_err of
        Some e \<Rightarrow> Inl e
      | None \<Rightarrow>
          (case wrapConn rnd TCPConn typ of
             None \<Rightarrow> Inl ''nil''
           | Some c \<Rightarrow> Inr (if tls then StartTLS c else c)))"

text \<open>
  What the proxy URL says, and how the network behaves: dialling, building the request, and the
  status of the proxy's response.
\<close>

record proxy_url =
  pu_scheme :: string
  pu_user :: "string option"
  pu_host :: string

record proxy_world =
  pw_dial :: "string \<Rightarrow> bool \<Rightarrow> string option"
  pw_request :: "string \<Rightarrow> string option"
  pw_response :: "(int \<times> string) result"

text \<open>
  The connection (\<open>None\<close> is nil) with the error; the value of the header \<open>Proxy-Authorization\<close> that was sent,
  if any, is the last component.
\<close>

definition DialHttpProxy ::
  "proxy_world \<Rightarrow> 32 word \<Rightarrow> proxy_url result \<Rightarrow> string \<Rightarrow> string \<Rightarrow>
   loggedConn option \<times> string option \<times> string option" where
  "DialHttpProxy w rnd proxyUrl addr typ =
     (case proxyUrl of
        Inl err \<Rightarrow> (None, Some err, None)
      | Inr u \<Rightarrow>
          let auth = (case pu_user u of None \<Rightarrow> None | Some user \<Rightarrow> Some (''Basic '' @ base64 user)) in
          if pu_scheme u \<noteq> ''http'' \<and> pu_scheme u \<noteq> ''https'' then
            (None, Some (''Proxy URL scheme must be http or https, got: '' @ pu_scheme u), None)
          else
            let tls = (pu_scheme u = ''https'') in
            (case Dial rnd (pw_dial w (pu_host u) tls) typ tls of
               Inl err \<Rightarrow> (None, Some err, None)
             | Inr c \<Rightarrow>
                 (case pw_request w (''https://'' @ addr) of
                    Some err \<Rightarrow> (Some c, Some err, None)
                  | None \<Rightarrow>
                      (case pw_response w of
                         Inl err \<Rightarrow> (Some c, Some err, auth)
                       | Inr (code, status) \<Rightarrow>
                           if code \<noteq> 200
                           then (Some c, Some (''Non-200 response from proxy server: '' @ status), auth)
                           else (Some (StartTLS c), None, auth)))))"

section \<open>Joining\<close>

text \<open>
  The two copying goroutines: what was copied each way, which of them still run, and whether the
  connections are closed. A goroutine that ends closes both connections.
\<close>

datatype direction = ToFirst | ToSecond

record joined =
  jn_toFirst :: "string list"
  jn_toSecond :: "string list"
  jn_running :: "direction set"
  jn_closed :: bool

definition join_start :: joined where
  "join_start = \<lparr>jn_toFirst = [], jn_toSecond = [], jn_running = {ToFirst, ToSecond}, jn_closed = False\<rparr>"

datatype join_event = Chunk direction string | EndOf direction

fun join_step :: "joined \<Rightarrow> join_event \<Rightarrow> joined" where
  "join_step j (Chunk d b) =
     (if d \<in> jn_running j \<and> \<not> jn_closed j then
        (case d of
           ToFirst \<Rightarrow> j\<lparr>jn_toFirst := jn_toFirst j @ [b]\<rparr>
         | ToSecond \<Rightarrow> j\<lparr>jn_toSecond := jn_toSecond j @ [b]\<rparr>)
      else j)"
| "join_step j (EndOf d) =
     (if d \<in> jn_running j then j\<lparr>jn_running := jn_running j - {d}, jn_closed := True\<rparr> else j)"

text \<open>The counts \<open>Join\<close> returns once both goroutines are finished.\<close>

definition Join :: "joined \<Rightarrow> (nat \<times> nat) option" where
  "Join j =
     (if jn_running j = {} then Some (length (concat (jn_toFirst j)), length (concat (jn_toSecond j))) else None)"

section \<open>Copies for inspection\<close>

definition teeBufferSize :: nat where "teeBufferSize = 32"

text \<open>
  An \<open>asyncPipeWriter\<close>: the channel and whether it is closed, whether the copying goroutine runs,
  and what it has written to the pipe.
\<close>

record asyncPipeWriter =
  ap_ch :: "string list"
  ap_closed :: bool
  ap_running :: bool
  ap_piped :: "string list"

definition newAsyncPipeWriter :: asyncPipeWriter where
  "newAsyncPipeWriter = \<lparr>ap_ch = [], ap_closed = False, ap_running = True, ap_piped = []\<rparr>"

text \<open>\<open>None\<close> is the panic of a send on a closed channel.\<close>

definition ap_Write :: "string \<Rightarrow> asyncPipeWriter \<Rightarrow> asyncPipeWriter option" where
  "ap_Write b w =
     (if ap_closed w then None
      else if length (ap_ch w) < teeBufferSize then Some (w\<lparr>ap_ch := ap_ch w @ [b]\<rparr>)
      else Some w)"

definition ap_Close :: "asyncPipeWriter \<Rightarrow> asyncPipeWriter" where
  "ap_Close w = w\<lparr>ap_closed := True\<rparr>"

text \<open>
  One turn of the goroutine: the pipe takes the next copy, or its write fails and the goroutine
  ends. The write always fails once \<open>Close\<close> has closed the pipe.
\<close>

definition ap_copy :: "bool \<Rightarrow> asyncPipeWriter \<Rightarrow> asyncPipeWriter" where
  "ap_copy pipe_ok w =
     (if \<not> ap_running w then w
      else (case ap_ch w of
              [] \<Rightarrow> if ap_closed w then w\<lparr>ap_running := False\<rparr> else w
            | b # bs \<Rightarrow>
                if pipe_ok \<and> \<not> ap_closed w then w\<lparr>ap_ch := bs, ap_piped := ap_piped w @ [b]\<rparr>
                else w\<lparr>ap_ch := bs, ap_running := False\<rparr>))"

text \<open>
  \<open>Tee.Read\<close> and \<open>Tee.Write\<close>: what the connection did (the bytes moved and the error) is returned
  as it is, and copied.
\<close>

definition tee_io :: "string \<times> string option \<Rightarrow> asyncPipeWriter \<Rightarrow> ((string \<times> string option) \<times> asyncPipeWriter) option" where
  "tee_io r w =
     (let (b, err) = r in
      case (if b \<noteq> [] then ap_Write b w else Some w) of
        None \<Rightarrow> None
      | Some w' \<Rightarrow> Some (r, if err \<noteq> None then ap_Close w' else w'))"

record tee =
  te_readPipe :: asyncPipeWriter
  te_writePipe :: asyncPipeWriter

definition NewTee :: tee where
  "NewTee = \<lparr>te_readPipe = newAsyncPipeWriter, te_writePipe = newAsyncPipeWriter\<rparr>"

definition tee_Read :: "string \<times> string option \<Rightarrow> tee \<Rightarrow> ((string \<times> string option) \<times> tee) option" where
  "tee_Read r t = map_option (\<lambda>(r, w). (r, t\<lparr>te_readPipe := w\<rparr>)) (tee_io r (te_readPipe t))"

definition tee_Write :: "string \<times> string option \<Rightarrow> tee \<Rightarrow> ((string \<times> string option) \<times> tee) option" where
  "tee_Write r t = map_option (\<lambda>(r, w). (r, t\<lparr>te_writePipe := w\<rparr>)) (tee_io r (te_writePipe t))"

section \<open>What the connections keep\<close>

lemma SetType_name:
  "conn_Id (SetType typ c) = typ @ '':'' @ show_hex (uint (lc_id c))"
  "lc_prefix (SetType typ c) = ''['' @ conn_Id (SetType typ c) @ '']''"
  by (simp_all add: SetType_def conn_Id_def AddLogPrefix_def ClearLogPrefixes_def Let_def)

definition backlog_ok :: "listener \<Rightarrow> bool" where
  "backlog_ok l \<longleftrightarrow> length (ls_conns l) \<le> listenerBacklog \<and> (\<forall>c \<in> set (ls_dropped l). lc_closed c)"

lemma backlog_step: "backlog_ok l \<Longrightarrow> backlog_ok (listen_step tls typ l e)"
  by (cases e) (auto simp: backlog_ok_def wrapConn_def conn_Close_def Let_def)

interpretation backlog: machine_invariant "listen_step tls typ" backlog_ok
  by unfold_locales (rule backlog_step)

lemma backlog_run: "Listen None = Inr l \<Longrightarrow> backlog_ok (run (listen_step tls typ) l es)"
  by (rule backlog.run_inv) (auto simp: Listen_def backlog_ok_def)

text \<open>
  Dialling through a proxy succeeds exactly if the URL is an http or https URL, the proxy is
  reached and answers the CONNECT request with status 200; then the connection speaks TLS and the
  credentials of the URL were sent. If it fails after the proxy was reached, the connection is
  returned together with the error, still open.
\<close>
theorem proxy_dial:
  "case DialHttpProxy w rnd proxyUrl addr typ of
     (conn, err, auth) \<Rightarrow>
       (err = None \<longleftrightarrow>
          (\<exists>u status. proxyUrl = Inr u \<and> pu_scheme u \<in> {''http'', ''https''} \<and>
             pw_dial w (pu_host u) (pu_scheme u = ''https'') = None \<and> pw_request w (''https://'' @ addr) = None \<and>
             pw_response w = Inr (200, status) \<and> auth = map_option (\<lambda>user. ''Basic '' @ base64 user) (pu_user u) \<and>
             (\<exists>c. conn = Some c \<and> lc_tls c))) \<and>
       (conn \<noteq> None \<longleftrightarrow> (\<exists>u. proxyUrl = Inr u \<and> pu_scheme u \<in> {''http'', ''https''} \<and>
             pw_dial w (pu_host u) (pu_scheme u = ''https'') = None)) \<and>
       (\<nexists>c. conn = Some c \<and> lc_closed c)"
  by (auto simp: DialHttpProxy_def Dial_def wrapConn_def StartTLS_def Let_def split: sum.splits option.splits)

subsection \<open>Copies\<close>

datatype tee_event = TeeIO "string \<times> string option" | TeeCopy bool

text \<open>A run of a writer: what the reader of the connection got, and the writer; \<open>None\<close> is a panic.\<close>

fun tee_run :: "asyncPipeWriter \<Rightarrow> tee_event list \<Rightarrow> ((string \<times> string option) list \<times> asyncPipeWriter) option" where
  "tee_run w [] = Some ([], w)"
| "tee_run w (TeeCopy ok # es) = tee_run (ap_copy ok w) es"
| "tee_run w (TeeIO r # es) =
     (case tee_io r w of
        None \<Rightarrow> None
      | Some (r', w') \<Rightarrow> (case tee_run w' es of None \<Rightarrow> None | Some (rs, w'') \<Rightarrow> Some (r' # rs, w'')))"

fun ios :: "tee_event list \<Rightarrow> (string \<times> string option) list" where
  "ios [] = []"
| "ios (TeeIO r # es) = r # ios es"
| "ios (TeeCopy ok # es) = ios es"

text \<open>The bytes moved before the first error, and the one with it.\<close>

definition chunks :: "(string \<times> string option) list \<Rightarrow> string list" where
  "chunks rs = filter (\<lambda>b. b \<noteq> []) (map fst rs)"

text \<open>After an error nothing more is moved.\<close>

fun errors_last :: "(string \<times> string option) list \<Rightarrow> bool" where
  "errors_last [] = True"
| "errors_last (r # rs) = (if snd r = None then errors_last rs else list_all (\<lambda>(b, _). b = []) rs)"

lemma tee_run_closed:
  "ap_closed w \<Longrightarrow> list_all (\<lambda>(b, _). b = []) (ios es) \<Longrightarrow>
   \<exists>w'. tee_run w es = Some (ios es, w') \<and> subseq (ap_piped w' @ ap_ch w') (ap_piped w @ ap_ch w)"
proof (induction es arbitrary: w)
  case (Cons e es)
  show ?case
  proof (cases e)
    case (TeeIO r)
    then have "tee_io r w = Some (r, w\<lparr>ap_closed := True\<rparr>)"
      using Cons.prems by (cases r) (simp add: tee_io_def ap_Close_def)
    then show ?thesis
      using Cons.IH [of "w\<lparr>ap_closed := True\<rparr>"] Cons.prems TeeIO by auto
  next
    case (TeeCopy ok)
    have "ap_closed (ap_copy ok w)" "subseq (ap_piped (ap_copy ok w) @ ap_ch (ap_copy ok w)) (ap_piped w @ ap_ch w)"
      using Cons.prems by (auto simp: ap_copy_def subseq_append_iff split: list.splits intro: list_emb_append2)
    then show ?thesis
      using Cons.IH [of "ap_copy ok w"] Cons.prems TeeCopy by (auto intro: subseq_order.trans)
  qed
qed simp

lemma ap_copy_subseq: "subseq (ap_piped (ap_copy ok w) @ ap_ch (ap_copy ok w)) (ap_piped w @ ap_ch w)"
  by (auto simp: ap_copy_def subseq_append_iff split: list.splits intro: list_emb_append2)

lemma ap_copy_closed [simp]: "ap_closed (ap_copy ok w) = ap_closed w"
  by (simp add: ap_copy_def split: list.splits)

lemma ap_Write_subseq:
  "ap_Write b w = Some w' \<Longrightarrow> ap_piped w' = ap_piped w \<and> ap_closed w' = ap_closed w \<and> subseq (ap_ch w') (ap_ch w @ [b])"
  by (auto simp: ap_Write_def split: if_splits)

lemma tee_run_open:
  "\<not> ap_closed w \<Longrightarrow> errors_last (ios es) \<Longrightarrow>
   \<exists>w'. tee_run w es = Some (ios es, w') \<and>
     subseq (ap_piped w' @ ap_ch w') (ap_piped w @ ap_ch w @ chunks (ios es))"
proof (induction es arbitrary: w)
  case Nil
  then show ?case by (simp add: chunks_def)
next
  case (Cons e es)
  show ?case
  proof (cases e)
    case (TeeCopy ok)
    then obtain w' where w': "tee_run (ap_copy ok w) es = Some (ios es, w')"
      "subseq (ap_piped w' @ ap_ch w') (ap_piped (ap_copy ok w) @ ap_ch (ap_copy ok w) @ chunks (ios es))"
      using Cons.IH [of "ap_copy ok w"] Cons.prems by auto
    have "subseq (ap_piped (ap_copy ok w) @ ap_ch (ap_copy ok w) @ chunks (ios es)) (ap_piped w @ ap_ch w @ chunks (ios es))"
      using list_emb_append_mono [OF ap_copy_subseq [of ok w], of "chunks (ios es)" "chunks (ios es)"] by simp
    with w' TeeCopy show ?thesis by (auto intro: subseq_order.trans)
  next
    case (TeeIO r)
    obtain b err where r: "r = (b, err)" by (cases r)
    define w1 where "w1 = (if b \<noteq> [] \<and> length (ap_ch w) < teeBufferSize then w\<lparr>ap_ch := ap_ch w @ [b]\<rparr> else w)"
    have io: "tee_io r w = Some (r, if err \<noteq> None then ap_Close w1 else w1)"
      using Cons.prems(1) by (simp add: tee_io_def r w1_def ap_Write_def)
    have c: "chunks (r # ios es) = (if b \<noteq> [] then [b] else []) @ chunks (ios es)"
      by (simp add: chunks_def r)
    have sub: "subseq (ap_piped w1 @ ap_ch w1) (ap_piped w @ ap_ch w @ (if b \<noteq> [] then [b] else []))"
      using subseq_rev_drop_many [OF subseq_order.order_refl, of "ap_piped w @ ap_ch w" "[b]"] by (auto simp: w1_def)
    show ?thesis
    proof (cases err)
      case None
      have "\<not> ap_closed w1" using Cons.prems(1) by (simp add: w1_def)
      then obtain w' where w': "tee_run w1 es = Some (ios es, w')"
        "subseq (ap_piped w' @ ap_ch w') (ap_piped w1 @ ap_ch w1 @ chunks (ios es))"
        using Cons.IH [of w1] Cons.prems(2) TeeIO r None by auto
      have "subseq (ap_piped w1 @ ap_ch w1 @ chunks (ios es)) (ap_piped w @ ap_ch w @ chunks (r # ios es))"
        using list_emb_append_mono [OF sub, of "chunks (ios es)" "chunks (ios es)"] by (simp add: c)
      with w' io None TeeIO show ?thesis by (auto intro: subseq_order.trans)
    next
      case (Some m)
      have q: "list_all (\<lambda>(b, _). b = []) (ios es)"
        using Cons.prems(2) TeeIO r Some by simp
      then have "chunks (ios es) = []"
        by (induction "ios es" arbitrary: es) (auto simp: chunks_def list_all_iff filter_empty_conv)
      moreover obtain w' where "tee_run (ap_Close w1) es = Some (ios es, w')"
        "subseq (ap_piped w' @ ap_ch w') (ap_piped w1 @ ap_ch w1)"
        using tee_run_closed [OF _ q, of "ap_Close w1"] by (auto simp: ap_Close_def)
      ultimately show ?thesis
        using io Some TeeIO sub c by (auto intro: subseq_order.trans)
    qed
  qed
qed

text \<open>If there are never more copies than the buffer holds, nothing is dropped before an error.\<close>

lemma tee_run_keeps:
  "\<not> ap_closed w \<Longrightarrow> ap_running w \<Longrightarrow> \<forall>r \<in> set (ios es). snd r = None \<Longrightarrow> TeeCopy False \<notin> set es \<Longrightarrow>
   length (ap_ch w) + length (chunks (ios es)) \<le> teeBufferSize \<Longrightarrow>
   \<exists>w'. tee_run w es = Some (ios es, w') \<and> ap_piped w' @ ap_ch w' = ap_piped w @ ap_ch w @ chunks (ios es)"
proof (induction es arbitrary: w)
  case Nil
  then show ?case by (simp add: chunks_def)
next
  case (Cons e es)
  show ?case
  proof (cases e)
    case (TeeCopy ok)
    then have ok: "ok" using Cons.prems(4) by (cases ok) auto
    have "ap_running (ap_copy ok w)" "ap_piped (ap_copy ok w) @ ap_ch (ap_copy ok w) = ap_piped w @ ap_ch w"
      "length (ap_ch (ap_copy ok w)) \<le> length (ap_ch w)"
      using Cons.prems(1,2) ok by (auto simp: ap_copy_def split: list.splits)
    then show ?thesis
      using Cons.IH [of "ap_copy ok w"] Cons.prems TeeCopy by (auto simp flip: append_assoc)
  next
    case (TeeIO r)
    obtain b where r: "r = (b, None)" using Cons.prems(3) TeeIO by (cases r) auto
    define w1 where "w1 = (if b = [] then w else w\<lparr>ap_ch := ap_ch w @ [b]\<rparr>)"
    have c: "chunks (r # ios es) = (if b = [] then [] else [b]) @ chunks (ios es)"
      by (simp add: chunks_def r)
    have io: "tee_io r w = Some (r, w1)"
      using Cons.prems(1,5) TeeIO c by (auto simp: tee_io_def r w1_def ap_Write_def)
    have "\<not> ap_closed w1" "ap_running w1" "length (ap_ch w1) + length (chunks (ios es)) \<le> teeBufferSize"
      "ap_piped w1 @ ap_ch w1 = ap_piped w @ ap_ch w @ (if b = [] then [] else [b])"
      using Cons.prems TeeIO c by (auto simp: w1_def)
    then show ?thesis
      using Cons.IH [of w1] Cons.prems(3,4) TeeIO io c by (auto simp flip: append_assoc)
  qed
qed

lemma tee_transparent_facts:
  assumes "errors_last (ios es)"
  shows "\<exists>w. tee_run newAsyncPipeWriter es = Some (ios es, w) \<and> subseq (ap_piped w @ ap_ch w) (chunks (ios es)) \<and>
      ((\<forall>r \<in> set (ios es). snd r = None) \<and> TeeCopy False \<notin> set es \<and> length (chunks (ios es)) \<le> teeBufferSize \<longrightarrow>
        ap_piped w @ ap_ch w = chunks (ios es))"
    and "b \<noteq> [] \<Longrightarrow> tee_run newAsyncPipeWriter [TeeIO (a, Some err), TeeIO (b, err')] = None"
proof -
  obtain w where w: "tee_run newAsyncPipeWriter es = Some (ios es, w)" "subseq (ap_piped w @ ap_ch w) (chunks (ios es))"
    using tee_run_open [of newAsyncPipeWriter es] assms by (auto simp: newAsyncPipeWriter_def)
  then show "\<exists>w. tee_run newAsyncPipeWriter es = Some (ios es, w) \<and> subseq (ap_piped w @ ap_ch w) (chunks (ios es)) \<and>
      ((\<forall>r \<in> set (ios es). snd r = None) \<and> TeeCopy False \<notin> set es \<and> length (chunks (ios es)) \<le> teeBufferSize \<longrightarrow>
        ap_piped w @ ap_ch w = chunks (ios es))"
    using tee_run_keeps [of newAsyncPipeWriter es] by (auto simp: newAsyncPipeWriter_def)
  show "b \<noteq> [] \<Longrightarrow> tee_run newAsyncPipeWriter [TeeIO (a, Some err), TeeIO (b, err')] = None"
    by (simp add: tee_io_def ap_Write_def newAsyncPipeWriter_def ap_Close_def teeBufferSize_def)
qed

text \<open>
  A \<open>Tee\<close> never disturbs the connection and never invents data: the caller gets exactly what
  the connection did, in order and with its errors, and the pipe of the inspector gets a
  subsequence of the pieces that were moved, whatever the inspector does. If the connection moves
  at most 32 pieces without an error, none of them is lost. But a connection that moves data again
  after it reported an error makes the \<open>Tee\<close> panic, on a send to its closed channel.
\<close>
theorem tee_transparent:
  assumes "errors_last (ios es)"
  shows "(\<exists>w. tee_run newAsyncPipeWriter es = Some (ios es, w) \<and> subseq (ap_piped w @ ap_ch w) (chunks (ios es)) \<and>
      ((\<forall>r \<in> set (ios es). snd r = None) \<and> TeeCopy False \<notin> set es \<and> length (chunks (ios es)) \<le> teeBufferSize \<longrightarrow>
        ap_piped w @ ap_ch w = chunks (ios es))) \<and>
    (b \<noteq> [] \<longrightarrow> tee_run newAsyncPipeWriter [TeeIO (a, Some err), TeeIO (b, err')] = None)"
  using tee_transparent_facts(1) [OF assms] tee_transparent_facts(2) [OF assms]
  by blast

theorem tee_transparent_witness:
  "(\<exists>w. tee_run newAsyncPipeWriter [TeeIO (''GET'', None), TeeCopy True, TeeIO (''/'', None)] =
      Some ([(''GET'', None), (''/'', None)], w) \<and> ap_piped w @ ap_ch w = [''GET'', ''/'']) \<and>
   tee_run newAsyncPipeWriter [TeeIO ([], Some ''timeout''), TeeIO (''x'', None)] = None"
  using tee_transparent [THEN conjunct1, rule_format, of "[TeeIO (''GET'', None), TeeCopy True, TeeIO (''/'', None)]"]
    tee_transparent [THEN conjunct2, rule_format, of "[TeeIO (''GET'', None)]" "''x''" "[]" "''timeout''" None]
  by (simp add: chunks_def teeBufferSize_def) auto

subsection \<open>Joined connections\<close>

text \<open>Once one side has ended nothing is copied any more, either way.\<close>

lemma join_stops:
  "jn_closed j \<Longrightarrow> jn_toFirst (run join_step j es) = jn_toFirst j \<and> jn_toSecond (run join_step j es) = jn_toSecond j"
proof (induction es arbitrary: j)
  case (Cons e es)
  have "jn_closed (join_step j e) \<and> jn_toFirst (join_step j e) = jn_toFirst j \<and> jn_toSecond (join_step j e) = jn_toSecond j"
    using Cons.prems by (cases e) simp_all
  with Cons.IH [of "join_step j e"] show ?case by simp
qed simp

lemma join_end_closes: "jn_running j \<noteq> {ToFirst, ToSecond} \<Longrightarrow> jn_running j \<subseteq> {ToFirst, ToSecond} \<Longrightarrow>
    (jn_running j \<noteq> {ToFirst, ToSecond} \<longrightarrow> jn_closed j) \<Longrightarrow> jn_closed (run join_step j es)"
proof (induction es arbitrary: j)
  case (Cons e es)
  have "jn_closed (join_step j e) \<and> jn_running (join_step j e) \<subseteq> jn_running j"
    using Cons.prems by (cases e) auto
  then show ?case
    using Cons.IH [of "join_step j e"] Cons.prems by auto
qed simp

end
