(* ===== verification/Client_Model.thy ===== *)
theory Client_Model
  imports Client_Config Messages Metrics
begin

text \<open>
  The model of the client, \<open>src/ngrok/client/model.go\<close> (with \<open>metrics.go\<close>, \<open>tls.go\<close>, \<open>debug.go\<close>,
  \<open>release.go\<close> and the types of \<open>mvc\<close>): the control connection with its requests and its message
  loop, a proxy connection, the heartbeat and the reconnection delays. The network, the clock and
  the random identifiers are parameters; a panic in \<open>control\<close> is recovered there, so that it is one
  of the ends a run can have.
\<close>

section \<open>State\<close>

datatype update_status = UpdateNone | UpdateInstalling | UpdateReady | UpdateAvailable

datatype conn_status = ConnConnecting | ConnReconnecting | ConnOnline

text \<open>
  The protocol objects, known by \<open>GetName()\<close>: the names \<open>http\<close> and \<open>https\<close> share one object.
  \<open>None\<close> is the nil of a missing entry.
\<close>

definition protoMap :: "string \<rightharpoonup> string" where
  "protoMap = [''http'' \<mapsto> ''http'', ''https'' \<mapsto> ''http'', ''tcp'' \<mapsto> ''tcp'']"

record mvc_tunnel =
  mv_PublicUrl :: string
  mv_Protocol :: "string option"
  mv_LocalAddr :: string

record ClientMetrics =
  cm_connGauge :: gauge
  cm_connMeter :: meter
  cm_connTimer :: timer
  cm_proxySetupTimer :: timer
  cm_bytesIn :: histogram
  cm_bytesOut :: histogram
  cm_bytesInCount :: counter
  cm_bytesOutCount :: counter

definition NewClientMetrics :: "int \<Rightarrow> ClientMetrics" where
  "NewClientMetrics now =
     \<lparr>cm_connGauge = NewGauge, cm_connMeter = NewMeter now, cm_connTimer = NewTimer,
      cm_proxySetupTimer = NewTimer, cm_bytesIn = NewHistogram, cm_bytesOut = NewHistogram,
      cm_bytesInCount = NewCounter, cm_bytesOutCount = NewCounter\<rparr>"

text \<open>The TLS configuration: the trusted roots (\<open>None\<close>: those of the host), the server name, and
  whether the server's certificate is checked at all.\<close>

record tls_config =
  tl_RootCAs :: "string list option"
  tl_ServerName :: string
  tl_InsecureSkipVerify :: bool

record client_model =
  md_id :: string
  md_tunnels :: "string \<rightharpoonup> mvc_tunnel"
  md_serverVersion :: string
  md_metrics :: ClientMetrics
  md_updateStatus :: update_status
  md_connStatus :: conn_status
  md_serverAddr :: string
  md_proxyUrl :: string
  md_authToken :: string
  md_tlsConfig :: tls_config
  md_tunnelConfig :: "string \<rightharpoonup> tunnelConfiguration"
  md_configPath :: string

section \<open>Root certificates\<close>

text \<open>Two builds: a debug build trusts one more authority and skips verification.\<close>

definition rootCrtPaths :: "bool \<Rightarrow> string list" where
  "rootCrtPaths release =
     (if release then [''assets/client/tls/ngrokroot.crt'']
      else [''assets/client/tls/ngrokroot.crt'', ''assets/client/tls/snakeoilca.crt''])"

definition useInsecureSkipVerify :: "bool \<Rightarrow> bool" where
  "useInsecureSkipVerify release \<longleftrightarrow> \<not> release"

text \<open>
  The embedded files, \<open>pem.Decode\<close> (\<open>None\<close>: no block) and \<open>x509.ParseCertificates\<close>.
\<close>

record cert_world =
  cw_asset :: "string \<Rightarrow> string result"
  cw_pem :: "string \<Rightarrow> string option"
  cw_certs :: "string \<Rightarrow> string list result"

text \<open>The pool; the outer \<open>None\<close> is the panic of \<open>certs[0]\<close> without a certificate.\<close>

fun client_LoadTLSConfig :: "cert_world \<Rightarrow> string list \<Rightarrow> string list \<Rightarrow> string list result option" where
  "client_LoadTLSConfig w [] pool = Some (Inr pool)"
| "client_LoadTLSConfig w (p # ps) pool =
     (case cw_asset w p of
        Inl err \<Rightarrow> Some (Inl err)
      | Inr crt \<Rightarrow>
          (case cw_pem w crt of
             None \<Rightarrow> Some (Inl ''Bad PEM data'')
           | Some block \<Rightarrow>
               (case cw_certs w block of
                  Inl err \<Rightarrow> Some (Inl err)
                | Inr [] \<Rightarrow> None
                | Inr (c # _) \<Rightarrow> client_LoadTLSConfig w ps (pool @ [c]))))"

text \<open>\<open>None\<close> is the panic with the error of \<open>SplitHostPort\<close>.\<close>

definition serverName :: "string \<Rightarrow> string option" where
  "serverName addr = (case split_host_port addr of Inl _ \<Rightarrow> None | Inr (host, _) \<Rightarrow> Some host)"

text \<open>\<open>None\<close> is a panic, which nothing recovers here.\<close>

definition newClientModel :: "cert_world \<Rightarrow> bool \<Rightarrow> int \<Rightarrow> configuration \<Rightarrow> client_model option" where
  "newClientModel w release now c =
     (case (if cf_TrustHostRootCerts c then Some (Inr None)
            else (case client_LoadTLSConfig w (rootCrtPaths release) [] of
                    None \<Rightarrow> None
                  | Some (Inl err) \<Rightarrow> Some (Inl err)
                  | Some (Inr pool) \<Rightarrow> Some (Inr (Some pool)))) of
        None \<Rightarrow> None
      | Some (Inl err) \<Rightarrow> None
      | Some (Inr roots) \<Rightarrow>
          (case serverName (cf_ServerAddr c) of
             None \<Rightarrow> None
           | Some name \<Rightarrow>
               Some \<lparr>md_id = [], md_tunnels = Map.empty, md_serverVersion = [],
                 md_metrics = NewClientMetrics now, md_updateStatus = UpdateNone, md_connStatus = ConnConnecting,
                 md_serverAddr = cf_ServerAddr c, md_proxyUrl = cf_HttpProxy c, md_authToken = cf_AuthToken c,
                 md_tlsConfig = \<lparr>tl_RootCAs = roots, tl_ServerName = name,
                   tl_InsecureSkipVerify = useInsecureSkipVerify release\<rparr>,
                 md_tunnelConfig = cf_Tunnels c, md_configPath = cf_Path c\<rparr>))"

text \<open>
  \<open>SetUpdateStatus\<close> has a value receiver: it changes and publishes a copy. The result is the model
  afterwards and the copy that the controller is told.
\<close>

definition SetUpdateStatus :: "update_status \<Rightarrow> client_model \<Rightarrow> client_model \<times> client_model" where
  "SetUpdateStatus u m = (m, m\<lparr>md_updateStatus := u\<rparr>)"

section \<open>The control connection\<close>

text \<open>What a run of \<open>control\<close> does to the world, in order.\<close>

datatype client_action =
  Wrote msg
| Published
| SavedToken string
| StartedHeartbeat
| StartedProxy
| AskedShutdown string
| StoredPong
| ClosedControl
| Recovered string

text \<open>
  The network during one run: the error of dialling (directly or through the proxy), of the n-th
  write, the answer to the authentication, the random request identifiers, the order in which the
  loop ranges over the tunnels and over the protocols of one, and what is read afterwards.
\<close>

record control_world =
  kw_dial :: "string option"
  kw_write :: "nat \<Rightarrow> string option"
  kw_authResp :: "AuthResp result"
  kw_ids :: "nat \<Rightarrow> string"
  kw_names :: "string list"
  kw_protocols :: "string \<Rightarrow> string list"
  kw_messages :: "msg option result list"

definition client_auth :: "string \<Rightarrow> string \<Rightarrow> client_model \<Rightarrow> Auth" where
  "client_auth os arch m =
     \<lparr>au_Version = version_Proto, au_MmVersion = version_MajorMinor, au_User = md_authToken m,
      au_Password = [], au_OS = os, au_Arch = arch, au_ClientId = md_id m\<rparr>"

definition request_of :: "string \<Rightarrow> string list \<Rightarrow> tunnelConfiguration \<Rightarrow> ReqTunnel" where
  "request_of reqId protocols t =
     \<lparr>rt_ReqId = reqId, rt_Protocol = join ''+'' protocols, rt_Hostname = tc_Hostname t,
      rt_Subdomain = tc_Subdomain t, rt_HttpAuth = tc_HttpAuth t, rt_RemotePort = tc_RemotePort t\<rparr>"

text \<open>
  Requests for the tunnels \<open>names\<close>, the first of them being the \<open>i\<close>-th write: what was written, and
  \<open>reqIdToTunnelConfig\<close> or the error that panics.
\<close>

fun request_tunnels ::
  "control_world \<Rightarrow> (string \<rightharpoonup> tunnelConfiguration) \<Rightarrow> string list \<Rightarrow> nat \<Rightarrow> (string \<rightharpoonup> tunnelConfiguration) \<Rightarrow>
   client_action list \<times> (string \<rightharpoonup> tunnelConfiguration) result" where
  "request_tunnels w cfg [] i reqs = ([], Inr reqs)"
| "request_tunnels w cfg (name # names) i reqs =
     (let t = the (cfg name);
          req = request_of (kw_ids w i) (kw_protocols w name) t in
      case kw_write w i of
        Some err \<Rightarrow> ([], Inl err)
      | None \<Rightarrow>
          let (acts, r) = request_tunnels w cfg names (Suc i) (reqs(rt_ReqId req \<mapsto> t)) in
          (Wrote (MReqTunnel req) # acts, r))"

definition nil_dereference :: string where
  "nil_dereference = ''runtime error: invalid memory address or nil pointer dereference''"

text \<open>One message of the loop: what it does, the model, and the panic if there is one.\<close>

definition control_message ::
  "(string \<rightharpoonup> tunnelConfiguration) \<Rightarrow> msg option \<Rightarrow> client_model \<Rightarrow> client_action list \<times> client_model \<times> string option" where
  "control_message reqs raw m =
     (case raw of
        Some MReqProxy \<Rightarrow> ([StartedProxy], m, None)
      | Some MPong \<Rightarrow> ([StoredPong], m, None)
      | Some (MNewTunnel n) \<Rightarrow>
          if nt_Error n \<noteq> [] then
            ([AskedShutdown (''Server failed to allocate tunnel: '' @ nt_Error n)], m, None)
          else (case reqs (nt_ReqId n) of
                  None \<Rightarrow> ([], m, Some nil_dereference)
                | Some t \<Rightarrow>
                    let tunnel = \<lparr>mv_PublicUrl = nt_Url n, mv_Protocol = protoMap (nt_Protocol n),
                                  mv_LocalAddr = (case tc_Protocols t (nt_Protocol n) of Some a \<Rightarrow> a | None \<Rightarrow> [])\<rparr> in
                    ([Published],
                     m\<lparr>md_tunnels := (md_tunnels m)(mv_PublicUrl tunnel \<mapsto> tunnel), md_connStatus := ConnOnline\<rparr>,
                     None))
      | _ \<Rightarrow> ([], m, None))"

text \<open>The loop; it ends with a read error or a panic, and still runs when the messages are used up.\<close>

fun control_loop ::
  "(string \<rightharpoonup> tunnelConfiguration) \<Rightarrow> msg option result list \<Rightarrow> client_model \<Rightarrow>
   client_action list \<times> client_model \<times> string option" where
  "control_loop reqs [] m = ([], m, None)"
| "control_loop reqs (Inl err # raws) m = ([], m, Some err)"
| "control_loop reqs (Inr raw # raws) m =
     (case control_message reqs raw m of
        (acts, m1, Some err) \<Rightarrow> (acts, m1, Some err)
      | (acts, m1, None) \<Rightarrow>
          let (acts', m2, e) = control_loop reqs raws m1 in (acts @ acts', m2, e))"

definition authenticated :: "AuthResp \<Rightarrow> client_model \<Rightarrow> client_model" where
  "authenticated resp m = m\<lparr>md_id := ar_ClientId resp, md_serverVersion := ar_MmVersion resp\<rparr>"

text \<open>How a run of \<open>control\<close> ended: it returned, or it recovered from a panic, or it still runs.\<close>

datatype control_end = Returned | Panicked string | StillRunning

definition recovered :: "client_action list \<Rightarrow> string \<Rightarrow> client_action list" where
  "recovered closing err = closing @ [Recovered err]"

definition client_control ::
  "string \<Rightarrow> string \<Rightarrow> control_world \<Rightarrow> client_model \<Rightarrow> client_action list \<times> client_model \<times> control_end" where
  "client_control os arch w m =
     (case kw_dial w of
        Some err \<Rightarrow> ([Recovered err], m, Panicked err)
      | None \<Rightarrow>
     (case kw_write w 0 of
        Some err \<Rightarrow> (recovered [ClosedControl] err, m, Panicked err)
      | None \<Rightarrow>
          let acts = [Wrote (MAuth (client_auth os arch m))] in
     (case kw_authResp w of
        Inl err \<Rightarrow> (acts @ recovered [ClosedControl] err, m, Panicked err)
      | Inr resp \<Rightarrow>
          if ar_Error resp \<noteq> [] then
            (acts @ [AskedShutdown (''Failed to authenticate to server: '' @ ar_Error resp), ClosedControl], m, Returned)
          else
            let m = authenticated resp m;
                acts = acts @ [Published, SavedToken (md_authToken m)];
                (acts1, r) = request_tunnels w (md_tunnelConfig m) (kw_names w) 1 Map.empty in
            (case r of
               Inl err \<Rightarrow> (acts @ acts1 @ recovered [ClosedControl] err, m, Panicked err)
             | Inr reqs \<Rightarrow>
                 let (acts2, m2, e) = control_loop reqs (kw_messages w) m in
                 (case e of
                    Some err \<Rightarrow>
                      (acts @ acts1 @ [StartedHeartbeat] @ acts2 @ recovered [ClosedControl] err, m2, Panicked err)
                  | None \<Rightarrow> (acts @ acts1 @ [StartedHeartbeat] @ acts2, m2, StillRunning))))))"

section \<open>Reconnecting\<close>

text \<open>Durations are in nanoseconds; \<open>math.Min\<close> on float64 is exact below \<open>2 ^ 53\<close>.\<close>

definition second :: int where "second = 1000000000"

definition maxWait :: int where "maxWait = 30 * second"

text \<open>
  One turn of \<open>Run\<close> after \<open>control\<close> returned: the delay it sleeps, the next delay, and the model.
\<close>

definition run_turn :: "int \<Rightarrow> client_model \<Rightarrow> int \<times> int \<times> client_model" where
  "run_turn wait m =
     (let wait = (if md_connStatus m = ConnOnline then 1 * second else wait) in
      (wait, min (2 * wait) maxWait, m\<lparr>md_connStatus := ConnReconnecting\<rparr>))"

text \<open>The delays of a run of the client in which \<open>online\<close> tells which connections went online.\<close>

fun run_delays :: "int \<Rightarrow> client_model \<Rightarrow> bool list \<Rightarrow> int list" where
  "run_delays wait m [] = []"
| "run_delays wait m (online # rest) =
     (let m = (if online then m\<lparr>md_connStatus := ConnOnline\<rparr> else m);
          (delay, wait, m) = run_turn wait m in
      delay # run_delays wait m rest)"

section \<open>Proxy connections\<close>

text \<open>
  The network of one proxy connection: dialling the server, writing \<open>RegProxy\<close>, reading \<open>StartProxy\<close>,
  dialling the local address, what \<open>Join\<close> copied, and the three moments at which time is read.
\<close>

record pxy_world =
  pw_dialServer :: "string option"
  pw_writeErr :: "string option"
  pw_startPxy :: "StartProxy result"
  pw_dialLocal :: "string \<Rightarrow> string option"
  pw_joined :: "int64 \<times> int64"
  pw_setup :: int64
  pw_duration :: int64

datatype proxy_action =
  P_Wrote msg
| P_WroteText string
| P_Published
| P_Joined string string
| P_CloseRemote
| P_CloseLocal
| P_Log string

definition nl_char :: string where "nl_char = [newline]"

definition BadGateway :: "string \<Rightarrow> string \<Rightarrow> string \<Rightarrow> string" where
  "BadGateway a b c =
     ''<html>'' @ nl_char @
     ''<body style='' @ [CHR 0x22] @ ''background-color: #97a8b9'' @ [CHR 0x22] @ ''>'' @ nl_char @
     ''    <div style='' @ [CHR 0x22] @
     ''margin:auto; width:400px;padding: 20px 60px; background-color: #D3D3D3; border: 5px solid maroon;'' @
     [CHR 0x22] @ ''>'' @ nl_char @
     ''        <h2>Tunnel '' @ a @ '' unavailable</h2>'' @ nl_char @
     ''        <p>Unable to initiate connection to <strong>'' @ b @
     ''</strong>. A web server must be running on port <strong>'' @ c @
     ''</strong> to complete the tunnel.</p>'' @ nl_char"

definition bad_gateway_head :: "string \<Rightarrow> string" where
  "bad_gateway_head body =
     ''HTTP/1.0 502 Bad Gateway'' @ nl_char @ ''Content-Type: text/html'' @ nl_char @
     ''Content-Length: '' @ show_int (int (length body)) @ nl_char @ nl_char"

definition count_join :: "pxy_world \<Rightarrow> ClientMetrics \<Rightarrow> ClientMetrics" where
  "count_join w c =
     (let (bytesIn, bytesOut) = pw_joined w in
      c\<lparr>cm_bytesIn := histogram_Update bytesIn (cm_bytesIn c),
        cm_bytesOut := histogram_Update bytesOut (cm_bytesOut c),
        cm_bytesInCount := counter_Inc bytesIn (cm_bytesInCount c),
        cm_bytesOutCount := counter_Inc bytesOut (cm_bytesOutCount c),
        cm_connTimer := timer_Update (pw_duration w) (cm_connTimer c)\<rparr>)"

text \<open>
  What a proxy connection does, the model afterwards, and the panic if there is one: a tunnel whose
  protocol is nil panics in \<open>GetName\<close> or \<open>WrapConn\<close>.
\<close>

definition client_proxy :: "pxy_world \<Rightarrow> client_model \<Rightarrow> proxy_action list \<times> client_model \<times> string option" where
  "client_proxy w m =
     (case pw_dialServer w of
        Some err \<Rightarrow> ([P_Log (''Failed to establish proxy connection: '' @ err)], m, None)
      | None \<Rightarrow>
     (case pw_writeErr w of
        Some err \<Rightarrow> ([P_Log (''Failed to write RegProxy: '' @ err), P_CloseRemote], m, None)
      | None \<Rightarrow>
          let reg = P_Wrote (MRegProxy \<lparr>rp_ClientId = md_id m\<rparr>) in
     (case pw_startPxy w of
        Inl err \<Rightarrow> ([reg, P_Log (''Server failed to write StartProxy: '' @ err), P_CloseRemote], m, None)
      | Inr startPxy \<Rightarrow>
     (case md_tunnels m (sp_Url startPxy) of
        None \<Rightarrow> ([reg, P_Log (''Couldn'' @ sq @ ''t find tunnel for proxy: '' @ sp_Url startPxy), P_CloseRemote], m, None)
      | Some t \<Rightarrow>
     (case pw_dialLocal w (mv_LocalAddr t) of
        Some err \<Rightarrow>
          let warn = P_Log (''Failed to open private leg '' @ mv_LocalAddr t @ '': '' @ err) in
          (case mv_Protocol t of
             None \<Rightarrow> ([reg, warn, P_CloseRemote], m, Some nil_dereference)
           | Some name \<Rightarrow>
               if name = ''http'' then
                 let body = BadGateway (mv_PublicUrl t) (mv_LocalAddr t) (mv_LocalAddr t) in
                 ([reg, warn, P_WroteText (bad_gateway_head body @ body), P_CloseRemote], m, None)
               else ([reg, warn, P_CloseRemote], m, None))
      | None \<Rightarrow>
          let met = md_metrics m;
              met = met\<lparr>cm_proxySetupTimer := timer_Update (pw_setup w) (cm_proxySetupTimer met),
                        cm_connMeter := meter_Mark 1 (cm_connMeter met)\<rparr>;
              m1 = m\<lparr>md_metrics := met\<rparr> in
          (case mv_Protocol t of
             None \<Rightarrow>
               ([reg, P_Published, P_CloseLocal, P_CloseRemote],
                m1\<lparr>md_metrics := met\<lparr>cm_connTimer := timer_Update (pw_duration w) (cm_connTimer met)\<rparr>\<rparr>,
                Some nil_dereference)
           | Some name \<Rightarrow>
               ([reg, P_Published, P_Joined (mv_LocalAddr t) name, P_Published, P_CloseLocal, P_CloseRemote],
                m1\<lparr>md_metrics := count_join w (md_metrics m1)\<rparr>, None)))))))"

section \<open>The heartbeat\<close>

definition pingInterval :: int where "pingInterval = 20 * second"

definition maxPongLatency :: int where "maxPongLatency = 15 * second"

text \<open>\<open>Time.Sub\<close> saturates at the bounds of an \<open>int64\<close>; instants are in nanoseconds.\<close>

definition time_sub :: "int \<Rightarrow> int \<Rightarrow> int" where
  "time_sub a b = max (- (2 ^ 63)) (min (2 ^ 63 - 1) (a - b))"

text \<open>
  The first \<open>lastPing\<close> is \<open>time.Unix(lastPong-1, 0)\<close>, which takes the nanoseconds for seconds.
\<close>

definition first_lastPing :: "int \<Rightarrow> int" where
  "first_lastPing lastPong = (lastPong - 1) * second"

text \<open>
  The variables: \<open>lastPing\<close>, the shared \<open>lastPong\<close>, whether the loop has returned and closed the
  connection, and how many pings were written.
\<close>

record heart =
  hb_lastPing :: int
  hb_lastPong :: int
  hb_stopped :: bool
  hb_pings :: nat

definition heartbeat_start :: "int \<Rightarrow> heart" where
  "heartbeat_start now = \<lparr>hb_lastPing = first_lastPing now, hb_lastPong = now, hb_stopped = False, hb_pings = 0\<rparr>"

text \<open>At a time: the ticker of the check, the ticker of the pings with the error of the write, a pong.\<close>

datatype heart_event = PongCheck int | PingTick int "string option" | PongStored int

fun heart_step :: "heart \<Rightarrow> heart_event \<Rightarrow> heart" where
  "heart_step h (PongCheck now) =
     (if hb_stopped h then h
      else if time_sub (hb_lastPong h) (hb_lastPing h) < 0 \<and> time_sub now (hb_lastPing h) > maxPongLatency
        then h\<lparr>hb_stopped := True\<rparr>
      else h)"
| "heart_step h (PingTick now err) =
     (if hb_stopped h then h
      else (case err of
              Some _ \<Rightarrow> h\<lparr>hb_stopped := True\<rparr>
            | None \<Rightarrow> h\<lparr>hb_lastPing := now, hb_pings := Suc (hb_pings h)\<rparr>))"
| "heart_step h (PongStored now) = h\<lparr>hb_lastPong := now\<rparr>"

end
