(* ===== verification/Client_Session.thy ===== *)
theory Client_Session
  imports Client_Model Config_Load
begin

text \<open>
  What the model of the client guarantees: the tunnels it routes, the delays between its sessions,
  its heartbeat, its proxy connections, and the server addresses it cannot use.
\<close>

section \<open>Routing\<close>

definition address_of :: "tunnelConfiguration \<Rightarrow> string \<Rightarrow> string" where
  "address_of t proto = (case tc_Protocols t proto of Some a \<Rightarrow> a | None \<Rightarrow> [])"

text \<open>A tunnel that leads where the configuration says, for a protocol that a configured tunnel has.\<close>

definition configured :: "(string \<rightharpoonup> tunnelConfiguration) \<Rightarrow> mvc_tunnel \<Rightarrow> bool" where
  "configured cfg tun \<longleftrightarrow>
     (\<exists>name t proto. cfg name = Some t \<and> tc_Protocols t proto = Some (mv_LocalAddr tun) \<and> mv_Protocol tun = protoMap proto)"

text \<open>
  A tunnel that answers a request: the server sent its URL and a protocol for a request that was made
  in this session for a configured tunnel; it leads to the address of that tunnel for that protocol, and
  to the empty address if that tunnel does not have the protocol.
\<close>

definition answers_request :: "(string \<rightharpoonup> tunnelConfiguration) \<Rightarrow> client_action list \<Rightarrow> msg option result list \<Rightarrow> mvc_tunnel \<Rightarrow> bool" where
  "answers_request cfg acts raws tun \<longleftrightarrow>
     (\<exists>n name protos t. Inr (Some (MNewTunnel n)) \<in> set raws \<and> nt_Error n = [] \<and> cfg name = Some t \<and>
        Wrote (MReqTunnel (request_of (nt_ReqId n) protos t)) \<in> set acts \<and>
        mv_PublicUrl tun = nt_Url n \<and> mv_Protocol tun = protoMap (nt_Protocol n) \<and>
        (case tc_Protocols t (nt_Protocol n) of Some a \<Rightarrow> mv_LocalAddr tun = a | None \<Rightarrow> mv_LocalAddr tun = []))"

lemma answers_configured: "answers_request cfg acts raws tun \<Longrightarrow> mv_LocalAddr tun \<noteq> [] \<Longrightarrow> configured cfg tun"
  by (fastforce simp: answers_request_def configured_def split: option.splits)

text \<open>The requests that were written, by their identifiers.\<close>

definition requested :: "(string \<rightharpoonup> tunnelConfiguration) \<Rightarrow> client_action list \<Rightarrow> (string \<rightharpoonup> tunnelConfiguration) \<Rightarrow> bool" where
  "requested cfg acts reqs \<longleftrightarrow>
     (\<forall>i t. reqs i = Some t \<longrightarrow> (\<exists>name protos. cfg name = Some t \<and> Wrote (MReqTunnel (request_of i protos t)) \<in> set acts))"

lemma requested_mono: "requested cfg acts reqs \<Longrightarrow> set acts \<subseteq> set acts' \<Longrightarrow> requested cfg acts' reqs"
  unfolding requested_def by blast

lemma request_tunnels_requested:
  "request_tunnels w cfg ns i reqs = (acts, Inr reqs') \<Longrightarrow> set ns \<subseteq> dom cfg \<Longrightarrow> requested cfg acts0 reqs \<Longrightarrow>
   requested cfg (acts0 @ acts) reqs'"
proof (induction ns arbitrary: i reqs acts acts0)
  case (Cons n ns)
  define t where "t = the (cfg n)"
  have t: "cfg n = Some t" using Cons.prems(2) by (auto simp: t_def)
  let ?req = "request_of (kw_ids w i) (kw_protocols w n) t"
  obtain acts' where r: "request_tunnels w cfg ns (Suc i) (reqs(kw_ids w i \<mapsto> t)) = (acts', Inr reqs')"
    and acts: "acts = Wrote (MReqTunnel ?req) # acts'"
    using Cons.prems(1) by (auto simp: Let_def request_of_def t_def split: option.splits prod.splits)
  have "requested cfg (acts0 @ [Wrote (MReqTunnel ?req)]) (reqs(kw_ids w i \<mapsto> t))"
    using requested_mono [OF Cons.prems(3)] t by (auto simp: requested_def) blast+
  then have "requested cfg ((acts0 @ [Wrote (MReqTunnel ?req)]) @ acts') reqs'"
    by (intro Cons.IH [OF r]) (use Cons.prems(2) in \<open>simp_all del: fun_upd_apply\<close>)
  then show ?case by (simp add: acts)
qed simp

lemma control_message_tunnels:
  assumes "control_message reqs raw m = (acts', m', e)" "requested cfg acts reqs"
  shows "md_tunnels m' = md_tunnels m \<or>
     (\<exists>tun. md_tunnels m' = (md_tunnels m)(mv_PublicUrl tun \<mapsto> tun) \<and> answers_request cfg acts (Inr raw # raws) tun)"
proof (cases "\<exists>n. raw = Some (MNewTunnel n) \<and> nt_Error n = [] \<and> reqs (nt_ReqId n) \<noteq> None")
  case True
  then obtain n t where n: "raw = Some (MNewTunnel n)" "nt_Error n = []" "reqs (nt_ReqId n) = Some t" by auto
  let ?tun = "\<lparr>mv_PublicUrl = nt_Url n, mv_Protocol = protoMap (nt_Protocol n), mv_LocalAddr = address_of t (nt_Protocol n)\<rparr>"
  have "md_tunnels m' = (md_tunnels m)(nt_Url n \<mapsto> ?tun)"
    using assms(1) n by (auto simp: control_message_def address_of_def Let_def)
  moreover obtain name protos where "cfg name = Some t" "Wrote (MReqTunnel (request_of (nt_ReqId n) protos t)) \<in> set acts"
    using assms(2) n(3) unfolding requested_def by blast
  then have "answers_request cfg acts (Inr raw # raws) ?tun"
    unfolding answers_request_def n(1)
    by (intro exI [of _ n] exI [of _ name] exI [of _ protos] exI [of _ t]) (simp add: n(2) address_of_def split: option.split)
  ultimately show ?thesis
    by (intro disjI2 exI [of _ ?tun]) simp
next
  case False
  then have "m' = m"
    using assms(1) by (auto simp: control_message_def Let_def split: option.splits msg.splits if_splits)
  then show ?thesis by simp
qed

lemma answers_later: "answers_request cfg acts raws tun \<Longrightarrow> set acts \<subseteq> set acts' \<Longrightarrow> set raws \<subseteq> set raws' \<Longrightarrow> answers_request cfg acts' raws' tun"
  unfolding answers_request_def by blast

lemma control_loop_tunnels:
  "control_loop reqs raws m = (acts', m', e) \<Longrightarrow> requested cfg acts reqs \<Longrightarrow> md_tunnels m' url = Some tun \<Longrightarrow>
   md_tunnels m url = Some tun \<or> mv_PublicUrl tun = url \<and> answers_request cfg acts raws tun"
proof (induction reqs raws m arbitrary: acts' rule: control_loop.induct)
  case (3 reqs raw raws m)
  obtain acts1 m1 e1 where c: "control_message reqs raw m = (acts1, m1, e1)" by (cases "control_message reqs raw m")
  note step = control_message_tunnels [OF c "3.prems"(2), of raws]
  show ?case
  proof (cases e1)
    case None
    obtain acts2 where "control_loop reqs raws m1 = (acts2, m', e)"
      using "3.prems"(1) c None by (auto split: prod.splits)
    then have "md_tunnels m1 url = Some tun \<or> mv_PublicUrl tun = url \<and> answers_request cfg acts raws tun"
      using "3.IH" [OF c [symmetric]] None "3.prems"(2,3) by auto
    then show ?thesis
      using step answers_later [of cfg acts raws tun acts "Inr raw # raws"] by (auto split: if_splits)
  next
    case (Some err)
    then have "m' = m1" using "3.prems"(1) c by simp
    then show ?thesis using step "3.prems"(3) by (auto split: if_splits)
  qed
qed auto

lemma client_control_loop:
  assumes "client_control os arch w m = (acts, m', e)" "set (kw_names w) \<subseteq> dom (md_tunnelConfig m)"
  shows "md_tunnels m' = md_tunnels m \<or>
     (\<exists>reqs m0 acts2 e2. requested (md_tunnelConfig m) acts reqs \<and> md_tunnels m0 = md_tunnels m \<and>
        control_loop reqs (kw_messages w) m0 = (acts2, m', e2))"
proof -
  have r: "requested (md_tunnelConfig m) (acts0 @ acts1) reqs"
    if "request_tunnels w (md_tunnelConfig m) (kw_names w) i Map.empty = (acts1, Inr reqs)" for i acts0 acts1 reqs
    by (rule request_tunnels_requested [OF that assms(2)]) (simp add: requested_def)
  define P where "P \<longleftrightarrow> md_tunnels m' = md_tunnels m \<or>
     (\<exists>reqs m0 acts2 e2. requested (md_tunnelConfig m) acts reqs \<and> md_tunnels m0 = md_tunnels m \<and>
        control_loop reqs (kw_messages w) m0 = (acts2, m', e2))"
  have t: "md_tunnels (authenticated resp m) = md_tunnels m" "md_tunnelConfig (authenticated resp m) = md_tunnelConfig m" for resp
    by (simp_all add: authenticated_def)
  have found: P
    if "request_tunnels w (md_tunnelConfig m) (kw_names w) i Map.empty = (acts1, Inr reqs)"
      "control_loop reqs (kw_messages w) (authenticated resp m) = (acts2, m', e2)" "set acts1 \<subseteq> set acts" for i acts1 reqs resp acts2 e2
    using requested_mono [OF r [OF that(1), of "[]"]] that(2,3) t(1) unfolding P_def by auto
  have same: "md_tunnels m' = md_tunnels m \<Longrightarrow> P" unfolding P_def by simp
  have P
    using assms(1) unfolding client_control_def Let_def t
    by (auto simp: t simp del: One_nat_def split: option.splits sum.splits prod.splits if_splits intro: same) (erule found; auto)+
  then show ?thesis unfolding P_def .
qed

lemma client_routes_facts:
  assumes "client_control os arch w m = (acts, m', e)"
  shows "set (kw_names w) \<subseteq> dom (md_tunnelConfig m) \<Longrightarrow> md_tunnels m' url = Some tun \<Longrightarrow>
      md_tunnels m url = Some tun \<or> mv_PublicUrl tun = url \<and> answers_request (md_tunnelConfig m) acts (kw_messages w) tun"
    and "(\<nexists>resp. kw_authResp w = Inr resp \<and> ar_Error resp = []) \<Longrightarrow>
           m' = m \<and> e \<noteq> StillRunning \<and> (\<nexists>r. Wrote (MReqTunnel r) \<in> set acts) \<and>
           (kw_dial w = None \<longrightarrow> ClosedControl \<in> set acts)"
proof -
  show "md_tunnels m url = Some tun \<or> mv_PublicUrl tun = url \<and> answers_request (md_tunnelConfig m) acts (kw_messages w) tun"
    if "set (kw_names w) \<subseteq> dom (md_tunnelConfig m)" "md_tunnels m' url = Some tun"
    using client_control_loop [OF assms that(1)] that(2) control_loop_tunnels by metis
  show "(\<nexists>resp. kw_authResp w = Inr resp \<and> ar_Error resp = []) \<Longrightarrow>
           m' = m \<and> e \<noteq> StillRunning \<and> (\<nexists>r. Wrote (MReqTunnel r) \<in> set acts) \<and>
           (kw_dial w = None \<longrightarrow> ClosedControl \<in> set acts)"
    using assms unfolding client_control_def Let_def recovered_def
    by (auto split: option.splits sum.splits if_splits)
qed


text \<open>
  C9: The client routes only where it was told. \<open>kw_names\<close> being the order in which the loop ranges over the
  configured tunnels, after a run of the control connection every public URL with a new tunnel was sent
  by the server as the answer to a request that the client made in that session for one of them, and leads
  to the address that this one has for the protocol of the answer. If it has no such protocol the
  address is empty and nothing can be connected to it; so every tunnel with an address leads to a
  configured one. A session the server does not authenticate requests no tunnel, changes no tunnel, and
  closes its connection.
\<close>
theorem client_routes:
  assumes "client_control os arch w m = (acts, m', e)" "set (kw_names w) = dom (md_tunnelConfig m)"
  shows "(\<forall>url tun. md_tunnels m' url = Some tun \<and> md_tunnels m url \<noteq> Some tun \<longrightarrow>
           mv_PublicUrl tun = url \<and> answers_request (md_tunnelConfig m) acts (kw_messages w) tun \<and>
           (mv_LocalAddr tun \<noteq> [] \<longrightarrow> configured (md_tunnelConfig m) tun)) \<and>
    ((\<nexists>resp. kw_authResp w = Inr resp \<and> ar_Error resp = []) \<longrightarrow> m' = m \<and> e \<noteq> StillRunning \<and> (\<nexists>r. Wrote (MReqTunnel r) \<in> set acts) \<and>
           (kw_dial w = None \<longrightarrow> ClosedControl \<in> set acts))"
  using client_routes_facts(1) [OF assms(1)] client_routes_facts(2) [OF assms(1)] assms(2) answers_configured
  by blast

subsection \<open>A session for the witnesses\<close>

definition sample_model :: client_model where
  "sample_model =
     \<lparr>md_id = [], md_tunnels = Map.empty, md_serverVersion = [], md_metrics = NewClientMetrics 0,
      md_updateStatus = UpdateNone, md_connStatus = ConnConnecting, md_serverAddr = ''h:1'', md_proxyUrl = [],
      md_authToken = ''t0k'', md_tlsConfig = \<lparr>tl_RootCAs = None, tl_ServerName = ''h'', tl_InsecureSkipVerify = False\<rparr>,
      md_tunnelConfig = [''default'' \<mapsto> tunnel_8080], md_configPath = ''/root/.ngrok''\<rparr>"

definition sample_control :: control_world where
  "sample_control =
     \<lparr>kw_dial = None, kw_write = (\<lambda>_. None),
      kw_authResp = Inr \<lparr>ar_Version = ''2'', ar_MmVersion = ''1.7'', ar_ClientId = ''c1'', ar_Error = []\<rparr>,
      kw_ids = (\<lambda>_. ''r1''), kw_names = [''default''], kw_protocols = (\<lambda>_. [''http'', ''https'']),
      kw_messages = [Inr (Some (MNewTunnel \<lparr>nt_ReqId = ''r1'', nt_Url = ''https://x.h'', nt_Protocol = ''https'', nt_Error = []\<rparr>)),
        Inl ''EOF'']\<rparr>"

lemma sample_session:
  "\<exists>acts m. client_control ''linux'' ''amd64'' sample_control sample_model = (acts, m, Panicked ''EOF'') \<and>
     md_tunnels m ''https://x.h'' = Some \<lparr>mv_PublicUrl = ''https://x.h'', mv_Protocol = Some ''http'', mv_LocalAddr = ''127.0.0.1:8080''\<rparr>"
  by (simp add: client_control_def authenticated_def sample_control_def sample_model_def request_of_def control_message_def
      tunnel_8080_def protoMap_def Let_def empty_tunnel_def)

theorem client_routes_witness:
  "(\<exists>acts m e. client_control ''linux'' ''amd64'' sample_control sample_model = (acts, m, e) \<and>
     md_tunnels m ''https://x.h'' \<noteq> None \<and>
     answers_request [''default'' \<mapsto> tunnel_8080] acts (kw_messages sample_control) (the (md_tunnels m ''https://x.h'')) \<and>
     configured [''default'' \<mapsto> tunnel_8080] (the (md_tunnels m ''https://x.h''))) \<and>
   (\<exists>acts. client_control ''linux'' ''amd64''
       (sample_control\<lparr>kw_authResp := Inr \<lparr>ar_Version = [], ar_MmVersion = [], ar_ClientId = [], ar_Error = ''no''\<rparr>\<rparr>)
       sample_model = (acts, sample_model, Returned) \<and> ClosedControl \<in> set acts)"
proof -
  obtain acts m where c: "client_control ''linux'' ''amd64'' sample_control sample_model = (acts, m, Panicked ''EOF'')"
    "md_tunnels m ''https://x.h'' = Some \<lparr>mv_PublicUrl = ''https://x.h'', mv_Protocol = Some ''http'', mv_LocalAddr = ''127.0.0.1:8080''\<rparr>"
    using sample_session by blast
  have "md_tunnels sample_model ''https://x.h'' = None" "md_tunnelConfig sample_model = [''default'' \<mapsto> tunnel_8080]"
    by (simp_all add: sample_model_def)
  moreover have n: "set (kw_names sample_control) = dom (md_tunnelConfig sample_model)"
    by (simp add: sample_model_def sample_control_def)
  ultimately have one: "answers_request [''default'' \<mapsto> tunnel_8080] acts (kw_messages sample_control) (the (md_tunnels m ''https://x.h''))"
    "configured [''default'' \<mapsto> tunnel_8080] (the (md_tunnels m ''https://x.h''))"
    using client_routes [OF c(1) n, THEN conjunct1, rule_format, of "''https://x.h''"] c(2) by simp_all
  let ?w = "sample_control\<lparr>kw_authResp := Inr \<lparr>ar_Version = [], ar_MmVersion = [], ar_ClientId = [], ar_Error = ''no''\<rparr>\<rparr>"
  obtain acts' m' e' where d: "client_control ''linux'' ''amd64'' ?w sample_model = (acts', m', e')"
    by (cases "client_control ''linux'' ''amd64'' ?w sample_model")
  have "e' = Returned"
    using d by (simp add: client_control_def sample_control_def Let_def)
  moreover have "m' = sample_model \<and> ClosedControl \<in> set acts'"
    using client_routes [OF d, THEN conjunct2, rule_format] n by (simp add: sample_control_def)
  ultimately show ?thesis
    using one c d by auto
qed

subsection \<open>The protocols of a request\<close>

lemma answer_finds_address_facts:
  assumes "protos \<noteq> []" "set protos = dom (tc_Protocols t)"
    and "reqs (rt_ReqId (request_of rid protos t)) = Some t"
    and "proto \<in> set (split_on CHR ''+'' (rt_Protocol (request_of rid protos t)))"
    and "control_message reqs (Some (MNewTunnel \<lparr>nt_ReqId = rid, nt_Url = url, nt_Protocol = proto, nt_Error = []\<rparr>)) m = (acts, m', e)"
  shows "(\<forall>p \<in> set protos. CHR ''+'' \<notin> set p) \<Longrightarrow>
      \<exists>tun. e = None \<and> md_tunnels m' url = Some tun \<and> tc_Protocols t proto = Some (mv_LocalAddr tun)"
    and "protos = [''http+https''] \<Longrightarrow>
      \<exists>tun. e = None \<and> md_tunnels m' url = Some tun \<and> proto \<in> {''http'', ''https''} \<and> mv_LocalAddr tun = []"
proof -
  let ?tun = "\<lparr>mv_PublicUrl = url, mv_Protocol = protoMap proto, mv_LocalAddr = address_of t proto\<rparr>"
  have m: "e = None" "md_tunnels m' url = Some ?tun"
    using assms(3,5) by (auto simp: control_message_def request_of_def address_of_def Let_def)
  have ns: "proto \<in> set (split_on CHR ''+'' (join ''+'' protos))"
    using assms(4) by (simp add: request_of_def)
  show "\<exists>tun. e = None \<and> md_tunnels m' url = Some tun \<and> tc_Protocols t proto = Some (mv_LocalAddr tun)"
    if "\<forall>p \<in> set protos. CHR ''+'' \<notin> set p"
  proof -
    have "proto \<in> dom (tc_Protocols t)"
      using ns split_on_join [OF assms(1) that] assms(2) by simp
    then show ?thesis
      using m by (auto simp: address_of_def)
  qed
  show "\<exists>tun. e = None \<and> md_tunnels m' url = Some tun \<and> proto \<in> {''http'', ''https''} \<and> mv_LocalAddr tun = []"
    if "protos = [''http+https'']"
  proof -
    have "proto \<in> {''http'', ''https''}"
      using ns that by auto
    moreover have "proto \<notin> dom (tc_Protocols t)"
      unfolding assms(2) [symmetric] that using calculation by auto
    ultimately show ?thesis
      using m by (auto simp: address_of_def domIff)
  qed
qed

text \<open>
  C23: Every protocol the server opens for a request has its local address on the client: the names
  in the request are those of the configuration, so that the answer for each of them finds its
  address. The exception is the protocol name \<open>http+https\<close>, which a configuration may contain: the
  server takes it for two protocols, and the client routes both tunnels to the empty address.
\<close>
theorem answer_finds_address:
  assumes "protos \<noteq> []" "set protos = dom (tc_Protocols t)"
    and "reqs (rt_ReqId (request_of rid protos t)) = Some t"
    and "proto \<in> set (split_on CHR ''+'' (rt_Protocol (request_of rid protos t)))"
    and "control_message reqs (Some (MNewTunnel \<lparr>nt_ReqId = rid, nt_Url = url, nt_Protocol = proto, nt_Error = []\<rparr>)) m = (acts, m', e)"
  shows "((\<forall>p \<in> set protos. CHR ''+'' \<notin> set p) \<longrightarrow> (\<exists>tun. e = None \<and> md_tunnels m' url = Some tun \<and> tc_Protocols t proto = Some (mv_LocalAddr tun))) \<and>
    (protos = [''http+https''] \<longrightarrow> (\<exists>tun. e = None \<and> md_tunnels m' url = Some tun \<and> proto \<in> {''http'', ''https''} \<and> mv_LocalAddr tun = []))"
  using answer_finds_address_facts(1) [OF assms] answer_finds_address_facts(2) [OF assms]
  by blast

definition combined_tunnel :: tunnelConfiguration where
  "combined_tunnel = empty_tunnel\<lparr>tc_Protocols := [''http+https'' \<mapsto> ''127.0.0.1:80'']\<rparr>"

lemma combined_is_valid: "valid_protocols (tc_Protocols combined_tunnel)"
proof -
  have "host_port ''127.0.0.1:80''"
    unfolding host_port_def by (intro exI [of _ "''127.0.0.1''"] exI [of _ "''80''"]) simp
  then show ?thesis
    by (simp add: valid_protocols_def combined_tunnel_def)
qed

theorem answer_finds_address_witness:
  "(\<exists>acts m' e tun. control_message [''r1'' \<mapsto> tunnel_8080] (Some (MNewTunnel \<lparr>nt_ReqId = ''r1'', nt_Url = ''u'',
       nt_Protocol = ''https'', nt_Error = []\<rparr>)) sample_model = (acts, m', e) \<and> md_tunnels m' ''u'' = Some tun \<and>
     mv_LocalAddr tun = ''127.0.0.1:8080'') \<and>
   (\<exists>acts m' e tun. control_message [''r1'' \<mapsto> combined_tunnel] (Some (MNewTunnel \<lparr>nt_ReqId = ''r1'', nt_Url = ''u'',
       nt_Protocol = ''https'', nt_Error = []\<rparr>)) sample_model = (acts, m', e) \<and> md_tunnels m' ''u'' = Some tun \<and>
     mv_LocalAddr tun = [])"
proof -
  let ?n = "Some (MNewTunnel \<lparr>nt_ReqId = ''r1'', nt_Url = ''u'', nt_Protocol = ''https'', nt_Error = []\<rparr>)"
  obtain acts m' e where c: "control_message [''r1'' \<mapsto> tunnel_8080] ?n sample_model = (acts, m', e)"
    by (cases "control_message [''r1'' \<mapsto> tunnel_8080] ?n sample_model")
  obtain acts2 m2 e2 where d: "control_message [''r1'' \<mapsto> combined_tunnel] ?n sample_model = (acts2, m2, e2)"
    by (cases "control_message [''r1'' \<mapsto> combined_tunnel] ?n sample_model")
  let ?ps = "[''http'', ''https'']" and ?qs = "[''http+https'']"
  have p: "?ps \<noteq> []" "set ?ps = dom (tc_Protocols tunnel_8080)"
    "[''r1'' \<mapsto> tunnel_8080] (rt_ReqId (request_of ''r1'' ?ps tunnel_8080)) = Some tunnel_8080"
    "''https'' \<in> set (split_on CHR ''+'' (rt_Protocol (request_of ''r1'' ?ps tunnel_8080)))"
    by (auto simp: tunnel_8080_def empty_tunnel_def request_of_def)
  have "\<forall>p \<in> set ?ps. CHR ''+'' \<notin> set p" by simp
  from answer_finds_address [OF p c, THEN conjunct1, THEN mp, OF this] obtain tun where
    "md_tunnels m' ''u'' = Some tun" "tc_Protocols tunnel_8080 ''https'' = Some (mv_LocalAddr tun)" by blast
  then have one: "\<exists>tun. md_tunnels m' ''u'' = Some tun \<and> mv_LocalAddr tun = ''127.0.0.1:8080''"
    by (simp add: tunnel_8080_def)
  have q: "?qs \<noteq> []" "set ?qs = dom (tc_Protocols combined_tunnel)"
    "[''r1'' \<mapsto> combined_tunnel] (rt_ReqId (request_of ''r1'' ?qs combined_tunnel)) = Some combined_tunnel"
    "''https'' \<in> set (split_on CHR ''+'' (rt_Protocol (request_of ''r1'' ?qs combined_tunnel)))"
    by (auto simp: combined_tunnel_def empty_tunnel_def request_of_def)
  from answer_finds_address [OF q d, THEN conjunct2, rule_format, OF refl] obtain tun where
    "md_tunnels m2 ''u'' = Some tun" "mv_LocalAddr tun = []" by blast
  with one c d show ?thesis by blast
qed

section \<open>Server addresses\<close>

lemma server_name_facts:
  assumes "normalizeAddress addr propName = Inr a"
  shows "\<exists>host port. a = host @ CHR '':'' # port \<and> host \<noteq> [] \<and>
      serverName a = (if CHR '':'' \<in> set host then None else Some host)"
    and "\<exists>host port. a = host @ CHR '':'' # port \<and> CHR '':'' \<in> set host \<and> CHR '':'' \<notin> set port \<Longrightarrow>
      cf_ServerAddr c = a \<Longrightarrow> newClientModel w release now c = None"
proof -
  obtain s h p where s: "split_host_port s = Inr (h, p)" "a = (if h = [] then ''127.0.0.1'' else h) @ CHR '':'' # p"
    using assms by (auto simp: normalizeAddress_def Let_def split: sum.splits)
  define h' where "h' = (if h = [] then ''127.0.0.1'' else h)"
  note b = split_host_port_parts [OF s(1)]
  have n: "serverName a = (if CHR '':'' \<in> set h' then None else Some h')" "h' \<noteq> []" "a = h' @ CHR '':'' # p"
    using split_plain [of p h'] b s(2) by (auto simp: serverName_def h'_def)
  then show "\<exists>host port. a = host @ CHR '':'' # port \<and> host \<noteq> [] \<and>
      serverName a = (if CHR '':'' \<in> set host then None else Some host)"
    by blast
  assume "\<exists>host port. a = host @ CHR '':'' # port \<and> CHR '':'' \<in> set host \<and> CHR '':'' \<notin> set port" and c: "cf_ServerAddr c = a"
  then have "CHR '':'' \<in> set h'"
    using n(3) b(1) append_sep_eq by metis
  then have "serverName (cf_ServerAddr c) = None"
    using n c by simp
  then show "newClientModel w release now c = None"
    by (auto simp: newClientModel_def split: option.splits sum.splits)
qed

text \<open>
  The server name for TLS is the host of the server address, which the configuration has
  normalized, unless that host has a colon: normalizing drops the brackets of an IPv6 address, so
  that \<open>serverName\<close>, whose comment says that it never panics, panics on every one, and with it the
  creation of the model.
\<close>
theorem server_name:
  assumes "normalizeAddress addr propName = Inr a"
  shows "(\<exists>host port. a = host @ CHR '':'' # port \<and> host \<noteq> [] \<and>
      serverName a = (if CHR '':'' \<in> set host then None else Some host)) \<and>
    ((\<exists>host port. a = host @ CHR '':'' # port \<and> CHR '':'' \<in> set host \<and> CHR '':'' \<notin> set port) \<longrightarrow> cf_ServerAddr c = a \<longrightarrow> newClientModel w release now c = None)"
  using server_name_facts(1) [OF assms] server_name_facts(2) [OF assms]
  by blast

theorem server_name_witness:
  "serverName ''127.0.0.1:443'' = Some ''127.0.0.1'' \<and>
   normalizeAddress ''[::1]:443'' ''server_addr'' = Inr ''::1:443'' \<and>
   (\<nexists>w release now. newClientModel w release now (empty_configuration\<lparr>cf_ServerAddr := ''::1:443''\<rparr>) \<noteq> None)"
proof -
  have a: "normalizeAddress ''443'' ''server_addr'' = Inr ''127.0.0.1:443''"
    "normalizeAddress ''[::1]:443'' ''server_addr'' = Inr ''::1:443''"
    by (simp_all add: normalizeAddress_def atoi_def parse_digits_def is_digit_def digit_val_def
        split_host_port_def last_cut_def)
  obtain host port where h: "''127.0.0.1:443'' = host @ CHR '':'' # port"
    "serverName ''127.0.0.1:443'' = (if CHR '':'' \<in> set host then None else Some host)"
    using server_name [OF a(1), THEN conjunct1, rule_format] by blast
  have "CHR '':'' \<notin> set ''443''" "''127.0.0.1:443'' = ''127.0.0.1'' @ CHR '':'' # ''443''" by simp_all
  moreover have "CHR '':'' \<notin> set port"
  proof
    assume "CHR '':'' \<in> set port"
    then have "count_list port CHR '':'' \<noteq> 0"
      by (simp add: count_list_0_iff)
    then have "2 \<le> count_list (host @ CHR '':'' # port) CHR '':''"
      by simp
    then show False unfolding h(1) [symmetric] by simp
  qed
  ultimately have "host = ''127.0.0.1''"
    using append_sep_eq [of "CHR '':''" port "''443''" host "''127.0.0.1''"] h(1) by simp
  then have "serverName ''127.0.0.1:443'' = Some ''127.0.0.1''" using h(2) by simp
  moreover have "\<exists>host port. ''::1:443'' = host @ CHR '':'' # port \<and> CHR '':'' \<in> set host \<and> CHR '':'' \<notin> set port"
    by (intro exI [of _ "''::1''"] exI [of _ "''443''"]) simp
  ultimately show ?thesis
    using a(2) server_name [OF a(2), THEN conjunct2, rule_format, of "empty_configuration\<lparr>cf_ServerAddr := ''::1:443''\<rparr>"]
    by simp
qed

section \<open>Delays\<close>

lemma run_delays_bounds:
  "second \<le> wait \<Longrightarrow> wait \<le> maxWait \<Longrightarrow> d \<in> set (run_delays wait m onlines) \<Longrightarrow> second \<le> d \<and> d \<le> maxWait"
proof (induction onlines arbitrary: wait m)
  case (Cons o' onlines)
  define w where "w = (if o' \<or> md_connStatus m = ConnOnline then second else wait)"
  have w: "second \<le> w" "w \<le> maxWait"
    using Cons.prems by (auto simp: w_def maxWait_def second_def)
  let ?m = "(if o' then m\<lparr>md_connStatus := ConnOnline\<rparr> else m)\<lparr>md_connStatus := ConnReconnecting\<rparr>"
  have "run_delays wait m (o' # onlines) = w # run_delays (min (2 * w) maxWait) ?m onlines"
    by (cases o') (simp_all add: w_def run_turn_def Let_def)
  then consider "d = w" | "d \<in> set (run_delays (min (2 * w) maxWait) ?m onlines)"
    using Cons.prems(3) by (metis set_ConsD)
  then show ?case
  proof cases
    case 2
    have "second \<le> min (2 * w) maxWait" "min (2 * w) maxWait \<le> maxWait"
      using w by (auto simp: second_def maxWait_def)
    then show ?thesis using 2 by (rule Cons.IH)
  qed (use w in simp)
qed simp

lemma run_delays_failing:
  "md_connStatus m \<noteq> ConnOnline \<Longrightarrow> wait = min (2 ^ k * second) maxWait \<Longrightarrow>
   run_delays wait m (replicate n False) = map (\<lambda>i. min (2 ^ (k + i) * second) maxWait) [0..<n]"
proof (induction n arbitrary: wait m k)
  case (Suc n)
  have "min (2 * wait) maxWait = min (2 ^ Suc k * second) maxWait"
    using Suc.prems(2) by (simp add: maxWait_def second_def min_def)
  then have "run_delays (min (2 * wait) maxWait) (m\<lparr>md_connStatus := ConnReconnecting\<rparr>) (replicate n False) =
      map (\<lambda>i. min (2 ^ (Suc k + i) * second) maxWait) [0..<n]"
    by (intro Suc.IH) simp_all
  moreover have "[0..<Suc n] = 0 # map Suc [0..<n]"
    by (simp add: upt_conv_Cons map_Suc_upt del: upt_Suc)
  ultimately show ?case
    using Suc.prems by (simp add: run_turn_def Let_def comp_def)
qed simp

lemma run_delays_length: "length (run_delays wait m onlines) = length onlines"
  by (induction onlines arbitrary: wait m) (simp_all add: Let_def run_turn_def)

lemma run_delays_online: "i < length onlines \<Longrightarrow> onlines ! i \<Longrightarrow> run_delays wait m onlines ! i = second"
proof (induction onlines arbitrary: wait m i)
  case (Cons o' onlines)
  then show ?case by (cases i) (simp_all add: Let_def run_turn_def)
qed simp

lemma reconnect_delays_facts:
  assumes "md_connStatus m = ConnConnecting"
  shows "\<forall>d \<in> set (run_delays second m onlines). second \<le> d \<and> d \<le> 30 * second"
    and "i < length onlines \<Longrightarrow> onlines ! i \<Longrightarrow> run_delays second m onlines ! i = second"
    and "run_delays second m (replicate n False) = map (\<lambda>i. min (2 ^ i * second) (30 * second)) [0..<n]"
  using run_delays_bounds [of second] run_delays_online run_delays_failing [of m second 0 n] assms
  by (simp_all add: maxWait_def second_def)

text \<open>
  The client reconnects with bounded delays: every delay is at least one second and at most
  thirty; a session that was online is followed by the delay of one second; and a client that never
  gets online waits 1, 2, 4, 8, 16 and then always 30 seconds.
\<close>
theorem reconnect_delays:
  assumes "md_connStatus m = ConnConnecting"
  shows "(\<forall>d \<in> set (run_delays second m onlines). second \<le> d \<and> d \<le> 30 * second) \<and>
    (i < length onlines \<longrightarrow> onlines ! i \<longrightarrow> run_delays second m onlines ! i = second) \<and>
    run_delays second m (replicate n False) = map (\<lambda>i. min (2 ^ i * second) (30 * second)) [0..<n]"
  using reconnect_delays_facts(1) [OF assms] reconnect_delays_facts(2) [OF assms] reconnect_delays_facts(3) [OF assms]
  by blast

theorem reconnect_delays_witness:
  "run_delays second sample_model (replicate 7 False) =
     [1 * second, 2 * second, 4 * second, 8 * second, 16 * second, 30 * second, 30 * second] \<and>
   run_delays second sample_model [False, False, True] ! 2 = second \<and>
   list_all (\<lambda>d. second \<le> d \<and> d \<le> 30 * second) (run_delays second sample_model [False, False, True])"
proof -
  have m: "md_connStatus sample_model = ConnConnecting" by (simp add: sample_model_def)
  show ?thesis
    using reconnect_delays [OF m, of "[False, False, True]" 2 7] by (simp add: upt_rec second_def min_def list_all_iff)
qed

section \<open>The heartbeat\<close>

lemma heartbeat_detects_facts:
  assumes "\<not> hb_stopped h"
  shows "hb_lastPing h \<le> hb_lastPong h \<Longrightarrow> heart_step h (PongCheck now) = h"
    and "hb_lastPong h < hb_lastPing h \<Longrightarrow> hb_lastPing h + maxPongLatency < now \<Longrightarrow>
      hb_stopped (heart_step h (PongCheck now))"
    and "h = heartbeat_start start \<Longrightarrow> 2 \<le> start \<Longrightarrow> now \<le> (start - 1) * second + maxPongLatency \<Longrightarrow>
      heart_step h (PongCheck now) = h"
  using assms
  by (auto simp: time_sub_def maxPongLatency_def second_def heartbeat_start_def first_lastPing_def)

text \<open>
  The heartbeat notices a dead server and only that. While the pongs keep up with the pings
  the check never closes the connection. When a ping was written and no pong has come since, the
  first check more than 15 seconds later closes it. And before the first ping it never does,
  because the first \<open>lastPing\<close>, nanoseconds taken for seconds, lies beyond every later check.
\<close>
theorem heartbeat_detects:
  assumes "\<not> hb_stopped h"
  shows "(hb_lastPing h \<le> hb_lastPong h \<longrightarrow> heart_step h (PongCheck now) = h) \<and>
    (hb_lastPong h < hb_lastPing h \<longrightarrow> hb_lastPing h + maxPongLatency < now \<longrightarrow> hb_stopped (heart_step h (PongCheck now))) \<and>
    (h = heartbeat_start start \<longrightarrow> 2 \<le> start \<longrightarrow> now \<le> (start - 1) * second + maxPongLatency \<longrightarrow> heart_step h (PongCheck now) = h)"
  using heartbeat_detects_facts(1) [OF assms] heartbeat_detects_facts(2) [OF assms] heartbeat_detects_facts(3) [OF assms]
  by blast

theorem heartbeat_detects_witness:
  "\<not> hb_stopped (run heart_step (heartbeat_start 1700000000000000000)
      [PongCheck 1700000019000000000, PingTick 1700000020000000000 None, PongStored 1700000020100000000,
       PongCheck 1700000039000000000]) \<and>
   hb_stopped (run heart_step (heartbeat_start 1700000000000000000)
      [PongCheck 1700000019000000000, PingTick 1700000020000000000 None, PongCheck 1700000036000000000])"
proof -
  let ?h0 = "heartbeat_start 1700000000000000000"
  let ?h1 = "heart_step ?h0 (PingTick 1700000020000000000 None)"
  let ?h2 = "heart_step ?h1 (PongStored 1700000020100000000)"
  have s: "\<not> hb_stopped ?h0" "\<not> hb_stopped ?h1" "\<not> hb_stopped ?h2"
    by (simp_all add: heartbeat_start_def)
  have "heart_step ?h0 (PongCheck 1700000019000000000) = ?h0"
    by (rule heartbeat_detects [OF s(1), THEN conjunct2, THEN conjunct2, rule_format, OF refl]) (simp_all add: second_def maxPongLatency_def)
  moreover have "heart_step ?h2 (PongCheck 1700000039000000000) = ?h2"
    by (rule heartbeat_detects [OF s(3), THEN conjunct1, rule_format]) (simp add: heartbeat_start_def)
  moreover have "hb_stopped (heart_step ?h1 (PongCheck 1700000036000000000))"
    by (rule heartbeat_detects [OF s(2), THEN conjunct2, THEN conjunct1, rule_format]) (simp_all add: heartbeat_start_def second_def maxPongLatency_def)
  ultimately show ?thesis
    using s(3) by (simp only: run.simps simp_thms)
qed

section \<open>Proxy connections\<close>

text \<open>The tunnel of the URL that the server names, if the connection gets as far as that.\<close>

definition pxy_target :: "pxy_world \<Rightarrow> client_model \<Rightarrow> mvc_tunnel option" where
  "pxy_target w m =
     (if pw_dialServer w \<noteq> None \<or> pw_writeErr w \<noteq> None then None
      else case pw_startPxy w of Inl _ \<Rightarrow> None | Inr startPxy \<Rightarrow> md_tunnels m (sp_Url startPxy))"

definition bad_gateway :: "mvc_tunnel \<Rightarrow> string" where
  "bad_gateway tun =
     (let body = BadGateway (mv_PublicUrl tun) (mv_LocalAddr tun) (mv_LocalAddr tun)
      in ''HTTP/1.0 502 Bad Gateway'' @ nl_char @ ''Content-Type: text/html'' @ nl_char @
         ''Content-Length: '' @ show_int (int (length body)) @ nl_char @ nl_char @ body)"

text \<open>The texts and the joins among the actions, in their order.\<close>

definition written_texts :: "proxy_action list \<Rightarrow> string list" where
  "written_texts acts = concat (map (\<lambda>a. case a of P_WroteText t \<Rightarrow> [t] | _ \<Rightarrow> []) acts)"

definition joins :: "proxy_action list \<Rightarrow> (string \<times> string) list" where
  "joins acts = concat (map (\<lambda>a. case a of P_Joined addr name \<Rightarrow> [(addr, name)] | _ \<Rightarrow> []) acts)"

text \<open>
  C35: A proxy connection is served by the tunnel the server names, or not at all. If the client gets
  as far as that tunnel and knows its protocol, then: if the local address can be reached, it joins the
  connection exactly once, with that address and the protocol, and writes nothing of its own; if not, it
  joins nothing, and answers exactly for an HTTP tunnel, with one 502 that names the tunnel and the
  address and has the exact \<open>Content-Length\<close>. It panics if the tunnel has a protocol it does not know. In every
  other case it neither joins nor writes a text. The remote connection is always closed at the end.
\<close>
theorem proxy_outcome:
  "case client_proxy w m of (acts, m', e) \<Rightarrow>
     (case pxy_target w m of
        None \<Rightarrow> joins acts = [] \<and> written_texts acts = [] \<and> e = None
      | Some tun \<Rightarrow>
          (case mv_Protocol tun of
             None \<Rightarrow> joins acts = [] \<and> written_texts acts = [] \<and> e \<noteq> None
           | Some name \<Rightarrow> e = None \<and>
               (if pw_dialLocal w (mv_LocalAddr tun) = None
                then joins acts = [(mv_LocalAddr tun, name)] \<and> written_texts acts = []
                else joins acts = [] \<and> written_texts acts = (if name = ''http'' then [bad_gateway tun] else [])))) \<and>
     (pw_dialServer w = None \<longleftrightarrow> acts \<noteq> [] \<and> last acts = P_CloseRemote) \<and>
     md_tunnels m' = md_tunnels m"
proof -
  note acts_defs = joins_def written_texts_def
  show ?thesis
  proof (cases "pw_dialServer w = None \<and> pw_writeErr w = None")
    case True
    show ?thesis
    proof (cases "pw_startPxy w")
      case (Inr sp)
      show ?thesis
      proof (cases "md_tunnels m (sp_Url sp)")
        case (Some t)
        show ?thesis
          using True by (cases "pw_dialLocal w (mv_LocalAddr t)"; cases "mv_Protocol t")
            (auto simp: client_proxy_def pxy_target_def Inr Some acts_defs bad_gateway_def bad_gateway_head_def nil_dereference_def Let_def)
      qed (use True in \<open>simp add: client_proxy_def pxy_target_def Inr acts_defs Let_def\<close>)
    qed (use True in \<open>simp add: client_proxy_def pxy_target_def acts_defs Let_def\<close>)
  qed (auto simp: client_proxy_def pxy_target_def acts_defs Let_def split: option.split)
qed

end
