(* ===== verification/Client_Controller.thy ===== *)
theory Client_Controller
  imports Client_Model "HOL-Library.Multiset"
begin

text \<open>
  The controller of the client, \<open>src/ngrok/client/controller.go\<close>: the views it sets up, its command
  loop with the published state, and its shutdown. A branch of the \<open>select\<close> is one step; the
  goroutine that a quit command starts is in \<open>ct_quitting\<close> until its shutdown is complete.
\<close>

datatype view = WebView | TermView | TermHttpView | WebHttpView

text \<open>The views in the order in which \<open>Run\<close> adds them; one protocol object is the http one.\<close>

definition controller_views :: "configuration \<Rightarrow> view list" where
  "controller_views c =
     (let web = (cf_InspectAddr c \<noteq> ''disabled''); trm = (cf_LogTo c \<noteq> ''stdout'') in
      (if web then [WebView] else []) @ (if trm then [TermView] else []) @
      (if trm then [TermHttpView] else []) @ (if web then [WebHttpView] else []))"

datatype command = CmdQuit string | CmdPlayRequest mvc_tunnel string

text \<open>What \<open>doShutdown\<close> shuts down, each in a goroutine of its own.\<close>

datatype shutdown_target = ViewShutdown view | ModelShutdown

text \<open>
  The goroutine of one quit command, with its call of \<open>doShutdown\<close>: the goroutines that have not run yet,
  whether one of them panicked, so that its \<open>wg.Done\<close> was never called and \<open>wg.Wait\<close> never returns, and
  whether the message was printed.
\<close>

record quitting =
  qt_message :: string
  qt_pending :: "shutdown_target list"
  qt_lost :: bool
  qt_printed :: bool

record controller =
  ct_views :: "view list"
  ct_state :: client_model
  ct_closed :: "view set"
  ct_quits :: "quitting list"
  ct_playing :: "(mvc_tunnel \<times> string) list"
  ct_printed :: "string list"
  ct_returned :: bool

definition controller_start :: "configuration \<Rightarrow> client_model \<Rightarrow> controller" where
  "controller_start c m =
     \<lparr>ct_views = controller_views c, ct_state = m, ct_closed = {}, ct_quits = [], ct_playing = [], ct_printed = [],
      ct_returned = False\<rparr>"

definition doShutdown :: "controller \<Rightarrow> string \<Rightarrow> quitting" where
  "doShutdown c msg =
     \<lparr>qt_message = msg, qt_pending = map ViewShutdown (ct_views c) @ [ModelShutdown], qt_lost = False, qt_printed = False\<rparr>"

text \<open>
  \<open>Shutdown\<close> of a view or the model: the views of the terminal close a channel, and closing it a
  second time panics. The result is whether it panics, and the closed views.
\<close>

fun run_shutdown :: "shutdown_target \<Rightarrow> view set \<Rightarrow> bool \<times> view set" where
  "run_shutdown (ViewShutdown TermView) closed = (TermView \<in> closed, insert TermView closed)"
| "run_shutdown (ViewShutdown TermHttpView) closed = (TermHttpView \<in> closed, insert TermHttpView closed)"
| "run_shutdown (ViewShutdown v) closed = (False, closed)"
| "run_shutdown ModelShutdown closed = (False, closed)"

datatype controller_event =
  GotCommand command
| GotUpdate client_model
| StateRead
| RunsShutdown nat shutdown_target
| PrintsMessage nat
| SendsDone nat

text \<open>
  One branch of the \<open>select\<close>; or a goroutine of the n-th \<open>doShutdown\<close> runs; or the n-th one is
  complete and prints its message; or, in a later step, sends on \<open>done\<close>, which the loop receives: the
  message may be printed at any time, also while the loop returns. A command nobody
  receives any more leaves the state as it is. The quit command of a panicking goroutine is
  another event, once the loop receives it.
\<close>

fun controller_step :: "controller \<Rightarrow> controller_event \<Rightarrow> controller" where
  "controller_step c (GotCommand (CmdQuit m)) =
     (if ct_returned c then c else c\<lparr>ct_quits := ct_quits c @ [doShutdown c m]\<rparr>)"
| "controller_step c (GotCommand (CmdPlayRequest t p)) =
     (if ct_returned c then c else c\<lparr>ct_playing := ct_playing c @ [(t, p)]\<rparr>)"
| "controller_step c (GotUpdate m) = (if ct_returned c then c else c\<lparr>ct_state := m\<rparr>)"
| "controller_step c StateRead = c"
| "controller_step c (RunsShutdown n t) =
     (if n < length (ct_quits c) \<and> t \<in> set (qt_pending (ct_quits c ! n)) then
        (let q = ct_quits c ! n; (panics, closed) = run_shutdown t (ct_closed c) in
         c\<lparr>ct_closed := closed,
           ct_quits := (ct_quits c)[n := q\<lparr>qt_pending := remove1 t (qt_pending q), qt_lost := qt_lost q \<or> panics\<rparr>]\<rparr>)
      else c)"
| "controller_step c (PrintsMessage n) =
     (if n < length (ct_quits c) \<and> qt_pending (ct_quits c ! n) = [] \<and> \<not> qt_lost (ct_quits c ! n) \<and>
        \<not> qt_printed (ct_quits c ! n)
      then c\<lparr>ct_printed := ct_printed c @ [qt_message (ct_quits c ! n)],
             ct_quits := (ct_quits c)[n := (ct_quits c ! n)\<lparr>qt_printed := True\<rparr>]\<rparr>
      else c)"
| "controller_step c (SendsDone n) =
     (if \<not> ct_returned c \<and> n < length (ct_quits c) \<and> qt_printed (ct_quits c ! n)
      then c\<lparr>ct_returned := True\<rparr>
      else c)"

text \<open>What \<open>State()\<close> receives; \<open>None\<close>: the loop has returned and the receive blocks forever.\<close>

definition controller_State :: "controller \<Rightarrow> client_model option" where
  "controller_State c = (if ct_returned c then None else Some (ct_state c))"

text \<open>\<open>Go\<close>: a function that panics with a trace makes the controller quit with it.\<close>

definition ctl_Go :: "string option \<Rightarrow> controller_event list" where
  "ctl_Go panic_trace = (case panic_trace of None \<Rightarrow> [] | Some trace \<Rightarrow> [GotCommand (CmdQuit trace)])"

section \<open>Playing a request\<close>

text \<open>
  \<open>PlayRequest\<close> of the model: nothing if the local address cannot be reached, else the payload is
  written to a connection wrapped by the protocol of the tunnel; the answer is read to the end.
  \<open>None\<close> is the panic of a nil protocol.
\<close>

definition PlayRequest :: "(string \<Rightarrow> string option) \<Rightarrow> mvc_tunnel \<Rightarrow> string \<Rightarrow> (string \<times> string \<times> string) option option" where
  "PlayRequest dial t payload =
     (case dial (mv_LocalAddr t) of
        Some _ \<Rightarrow> Some None
      | None \<Rightarrow>
          (case mv_Protocol t of
             None \<Rightarrow> None
           | Some proto \<Rightarrow> Some (Some (mv_LocalAddr t, proto, payload))))"

section \<open>Quitting\<close>

text \<open>The messages of the quit commands, in their order, and those whose goroutines have printed.\<close>

fun asked_by :: "controller_event list \<Rightarrow> string list" where
  "asked_by [] = []"
| "asked_by (GotCommand (CmdQuit m) # es) = m # asked_by es"
| "asked_by (_ # es) = asked_by es"

definition printed_by :: "quitting list \<Rightarrow> string multiset" where
  "printed_by qs = image_mset qt_message (filter_mset qt_printed (mset qs))"

lemma printed_by_append [simp]: "printed_by (qs @ [q]) = printed_by qs + (if qt_printed q then {#qt_message q#} else {#})"
  by (simp add: printed_by_def)

lemma printed_by_update:
  assumes "n < length qs" "\<not> qt_printed (qs ! n)"
  shows "printed_by (qs[n := q]) = printed_by qs + (if qt_printed q then {#qt_message q#} else {#})"
  using assms by (simp add: printed_by_def mset_update filter_diff_mset)

definition quit_inv :: "string list \<Rightarrow> controller \<Rightarrow> bool" where
  "quit_inv asked c \<longleftrightarrow>
     mset (ct_printed c) = printed_by (ct_quits c) \<and> mset (map qt_message (ct_quits c)) \<subseteq># mset asked \<and>
     (\<forall>q \<in> set (ct_quits c). qt_printed q \<longrightarrow> qt_pending q = []) \<and> (ct_returned c \<longrightarrow> ct_printed c \<noteq> [])"

lemma printed_by_asked: "printed_by qs \<subseteq># mset (map qt_message qs)"
  unfolding printed_by_def mset_map by (intro image_mset_subseteq_mono multiset_filter_subset)

lemma messages_update: "n < length qs \<Longrightarrow> qt_message q = qt_message (qs ! n) \<Longrightarrow> map qt_message (qs[n := q]) = map qt_message qs"
  by (simp add: map_update) (metis length_map list_update_id nth_map)

lemma quit_inv_step:
  assumes "quit_inv as c"
  shows "quit_inv (as @ asked_by [e]) (controller_step c e)"
proof (cases "(c, e)" rule: controller_step.cases)
  case (1 c' m)
  then show ?thesis
    using assms subset_mset.order_trans [of _ "mset as" "mset (as @ [m])"]
    by (auto simp: quit_inv_def doShutdown_def)
next
  case (5 c' n t)
  show ?thesis
  proof (cases "n < length (ct_quits c) \<and> t \<in> set (qt_pending (ct_quits c ! n))")
    case True
    then have "\<not> qt_printed (ct_quits c ! n)" using assms by (force simp: quit_inv_def)
    then show ?thesis
      using 5 True assms
      by (auto simp: quit_inv_def Let_def printed_by_update messages_update simp del: mset_map split: prod.splits
          dest!: subsetD [OF set_update_subset_insert])
  qed (use 5 assms in auto)
next
  case (6 c' n)
  then show ?thesis
    using assms
    by (auto simp: quit_inv_def printed_by_update messages_update simp del: mset_map dest!: subsetD [OF set_update_subset_insert])
next
  case (7 c' n)
  have "\<forall>q \<in> set (ct_quits c). qt_printed q \<longrightarrow> printed_by (ct_quits c) \<noteq> {#}"
    by (auto simp: printed_by_def)
  then show ?thesis using 7 assms by (force simp: quit_inv_def)
qed (use assms in \<open>auto simp: quit_inv_def\<close>)

lemma asked_by_append [simp]: "asked_by (es @ es') = asked_by es @ asked_by es'"
  by (induction es rule: asked_by.induct) auto

lemma quit_inv_run: "quit_inv as c \<Longrightarrow> quit_inv (as @ asked_by es) (run controller_step c es)"
proof (induction es arbitrary: c as)
  case (Cons e es)
  have "(as @ asked_by [e]) @ asked_by es = as @ asked_by (e # es)"
    using asked_by_append [of "[e]" es] by simp
  then show ?case
    using Cons.IH [OF quit_inv_step [OF Cons.prems, of e]] by simp
qed simp

text \<open>
  A controller that can never return: the terminal view is closed, and every shutdown either lost a
  goroutine or still has to close that view again.
\<close>

definition doomed :: "controller \<Rightarrow> bool" where
  "doomed c \<longleftrightarrow>
     \<not> ct_returned c \<and> TermView \<in> set (ct_views c) \<and> TermView \<in> ct_closed c \<and>
     (\<forall>q \<in> set (ct_quits c). \<not> qt_printed q \<and> (qt_lost q \<or> ViewShutdown TermView \<in> set (qt_pending q)))"

lemma doomed_step: "doomed c \<Longrightarrow> doomed (controller_step c e)"
proof (cases "(c, e)" rule: controller_step.cases)
  case (5 c' n t)
  assume d: "doomed c"
  have closed: "ViewShutdown TermView \<noteq> t \<or> fst (run_shutdown t (ct_closed c))"
    "TermView \<in> snd (run_shutdown t (ct_closed c))"
    using d by (cases "(t, ct_closed c)" rule: run_shutdown.cases; auto simp: doomed_def)+
  show ?thesis
  proof (cases "n < length (ct_quits c) \<and> t \<in> set (qt_pending (ct_quits c ! n))")
    case True
    then have "qt_lost (ct_quits c ! n) \<or> ViewShutdown TermView \<in> set (qt_pending (ct_quits c ! n))"
      using d by (auto simp: doomed_def)
    then show ?thesis
      using 5 d closed by (auto simp: doomed_def Let_def split: prod.splits dest!: subsetD [OF set_update_subset_insert])
  qed (use 5 d in auto)
qed (auto simp: doomed_def doShutdown_def)

interpretation doomed: machine_invariant controller_step doomed
  by unfold_locales (rule doomed_step)

lemma doomed_never: "doomed (run controller_step c xs) \<Longrightarrow> \<not> ct_returned (run controller_step c (xs @ ys))"
  using doomed.run_inv [of "run controller_step c xs" ys] by (simp add: doomed_def)

text \<open>A shutdown that is alone loses no goroutine, and its goroutines can all run.\<close>

lemma run_shutdown_first:
  "run_shutdown t cl = (panics, cl') \<Longrightarrow> \<forall>v \<in> cl. t \<noteq> ViewShutdown v \<Longrightarrow>
   \<not> panics \<and> cl' \<subseteq> cl \<union> {v. t = ViewShutdown v}"
  by (cases "(t, cl)" rule: run_shutdown.cases) auto

lemma shutdown_alone:
  assumes "ct_quits c = [q]" "\<not> qt_lost q \<and> \<not> qt_printed q" "distinct (qt_pending q)" "\<not> ct_returned c"
    and "\<forall>v \<in> ct_closed c. ViewShutdown v \<notin> set (qt_pending q)"
  shows "\<exists>es. ct_returned (run controller_step c es) \<and> ct_printed (run controller_step c es) = ct_printed c @ [qt_message q]"
  using assms
proof (induction "qt_pending q" arbitrary: c q)
  case Nil
  then show ?case by (intro exI [of _ "[PrintsMessage 0, SendsDone 0]"]) simp
next
  case (Cons t ts)
  obtain panics closed where r: "run_shutdown t (ct_closed c) = (panics, closed)" by (cases "run_shutdown t (ct_closed c)")
  have p: "\<not> panics" "closed \<subseteq> ct_closed c \<union> {v. t = ViewShutdown v}"
    using run_shutdown_first [OF r] Cons.prems(5) by (auto simp flip: Cons.hyps(2))
  let ?q = "q\<lparr>qt_pending := ts\<rparr>"
  let ?c = "c\<lparr>ct_closed := closed, ct_quits := [?q]\<rparr>"
  have step: "controller_step c (RunsShutdown 0 t) = ?c"
    using Cons.prems(1,2) p(1) r by (simp add: Let_def flip: Cons.hyps(2)) (cases q; simp)?
  have "\<exists>es. ct_returned (run controller_step ?c es) \<and> ct_printed (run controller_step ?c es) = ct_printed ?c @ [qt_message ?q]"
  proof (rule Cons.hyps(1))
    show "\<forall>v \<in> ct_closed ?c. ViewShutdown v \<notin> set (qt_pending ?q)"
      using p(2) Cons.prems(3,5) by (auto simp flip: Cons.hyps(2))
  qed (use Cons.prems in \<open>simp_all flip: Cons.hyps(2)\<close>)
  then obtain es where "ct_returned (run controller_step ?c es)" "ct_printed (run controller_step ?c es) = ct_printed c @ [qt_message q]"
    by auto
  then show ?case
    by (intro exI [of _ "RunsShutdown 0 t # es"]) (simp only: run.simps step simp_thms)
qed

lemma controller_ends_facts:
  shows "c = run controller_step (controller_start cfg m) es \<Longrightarrow>
      mset (ct_printed c) \<subseteq># mset (asked_by es) \<and> (ct_returned c \<longrightarrow> ct_printed c \<noteq> [])"
    and "\<exists>es. ct_returned (run controller_step (controller_start cfg m) (GotCommand (CmdQuit a) # es)) \<and>
      ct_printed (run controller_step (controller_start cfg m) (GotCommand (CmdQuit a) # es)) = [a]"
    and "cf_LogTo cfg \<noteq> ''stdout'' \<Longrightarrow>
      \<exists>es. \<forall>es'. \<not> ct_returned (run controller_step (controller_start cfg m)
        ([GotCommand (CmdQuit a), GotCommand (CmdQuit b)] @ es @ es'))"
    and "cf_LogTo cfg = ''stdout'' \<Longrightarrow>
      \<exists>es. ct_returned (run controller_step (controller_start cfg m) ([GotCommand (CmdQuit a), GotCommand (CmdQuit b)] @ es)) \<and>
        ct_printed (run controller_step (controller_start cfg m) ([GotCommand (CmdQuit a), GotCommand (CmdQuit b)] @ es)) = [a, b]"
proof -
  have "quit_inv [] (controller_start cfg m)"
    by (simp add: quit_inv_def controller_start_def printed_by_def)
  then have "quit_inv ([] @ asked_by es) (run controller_step (controller_start cfg m) es)"
    by (rule quit_inv_run)
  then show "c = run controller_step (controller_start cfg m) es \<Longrightarrow>
      mset (ct_printed c) \<subseteq># mset (asked_by es) \<and> (ct_returned c \<longrightarrow> ct_printed c \<noteq> [])"
    using subset_mset.order_trans [OF printed_by_asked] by (auto simp: quit_inv_def)
  show "\<exists>es. ct_returned (run controller_step (controller_start cfg m) (GotCommand (CmdQuit a) # es)) \<and>
      ct_printed (run controller_step (controller_start cfg m) (GotCommand (CmdQuit a) # es)) = [a]"
  proof -
    let ?c = "controller_step (controller_start cfg m) (GotCommand (CmdQuit a))"
    have "\<exists>es. ct_returned (run controller_step ?c es) \<and>
        ct_printed (run controller_step ?c es) = ct_printed ?c @ [qt_message (doShutdown (controller_start cfg m) a)]"
      by (rule shutdown_alone)
        (auto simp: controller_start_def doShutdown_def controller_views_def Let_def)
    then show ?thesis
      by (simp add: controller_start_def doShutdown_def)
  qed
  show "\<exists>es. \<forall>es'. \<not> ct_returned (run controller_step (controller_start cfg m)
        ([GotCommand (CmdQuit a), GotCommand (CmdQuit b)] @ es @ es'))"
    if "cf_LogTo cfg \<noteq> ''stdout''"
  proof -
    let ?es = "[RunsShutdown 0 (ViewShutdown TermView), RunsShutdown 1 (ViewShutdown TermHttpView),
      RunsShutdown 0 (ViewShutdown TermHttpView)]"
    have "doomed (run controller_step (controller_start cfg m) ([GotCommand (CmdQuit a), GotCommand (CmdQuit b)] @ ?es))"
      using that by (simp add: controller_start_def doShutdown_def controller_views_def doomed_def Let_def)
    from doomed_never [OF this] show ?thesis
      by (intro exI [of _ ?es] allI) (simp only: append.assoc not_False_eq_True)
  qed
  show "\<exists>es. ct_returned (run controller_step (controller_start cfg m) ([GotCommand (CmdQuit a), GotCommand (CmdQuit b)] @ es)) \<and>
      ct_printed (run controller_step (controller_start cfg m) ([GotCommand (CmdQuit a), GotCommand (CmdQuit b)] @ es)) = [a, b]"
    if "cf_LogTo cfg = ''stdout''"
    using that
    by (intro exI [of _ "map (RunsShutdown 0) [ViewShutdown WebView, ViewShutdown WebHttpView, ModelShutdown] @
          map (RunsShutdown 1) [ViewShutdown WebView, ViewShutdown WebHttpView, ModelShutdown] @
          [PrintsMessage 0, PrintsMessage 1, SendsDone 0]"], cases "cf_InspectAddr cfg = ''disabled''")
      (simp_all add: controller_start_def doShutdown_def controller_views_def Let_def)
qed

text \<open>
  C12: The client ends on demand, but two demands can keep it from ending. The loop returns only
  after some goroutine of a quit command printed its message, and every command prints its message at
  most once; a first quit command can always be carried through, and then its message is all that
  is printed. With a second one before the first shutdown is complete, for example because the server
  refused two tunnels, it depends on the views: with a terminal view the two can each panic on a view the
  other has closed, and from then on the client never returns, whatever happens; without one (the log
  goes to the standard output) both messages can be printed before the client returns.
\<close>
theorem controller_ends:
  assumes "c = run controller_step (controller_start cfg m) es"
  shows "mset (ct_printed c) \<subseteq># mset (asked_by es) \<and> (ct_returned c \<longrightarrow> ct_printed c \<noteq> []) \<and>
    (\<exists>es. ct_returned (run controller_step (controller_start cfg m) (GotCommand (CmdQuit a) # es)) \<and>
      ct_printed (run controller_step (controller_start cfg m) (GotCommand (CmdQuit a) # es)) = [a]) \<and>
    (if cf_LogTo cfg \<noteq> ''stdout''
     then \<exists>es. \<forall>es'. \<not> ct_returned (run controller_step (controller_start cfg m)
        ([GotCommand (CmdQuit a), GotCommand (CmdQuit b)] @ es @ es'))
     else \<exists>es. ct_returned (run controller_step (controller_start cfg m) ([GotCommand (CmdQuit a), GotCommand (CmdQuit b)] @ es)) \<and>
        ct_printed (run controller_step (controller_start cfg m) ([GotCommand (CmdQuit a), GotCommand (CmdQuit b)] @ es)) = [a, b])"
  using controller_ends_facts(1) [OF assms] controller_ends_facts(2) [of cfg m a] controller_ends_facts(3,4) [of cfg m a b]
  by simp

definition quiet_model :: client_model where
  "quiet_model =
     \<lparr>md_id = [], md_tunnels = Map.empty, md_serverVersion = [], md_metrics = NewClientMetrics 0,
      md_updateStatus = UpdateNone, md_connStatus = ConnConnecting, md_serverAddr = ''h:1'', md_proxyUrl = [],
      md_authToken = [], md_tlsConfig = \<lparr>tl_RootCAs = None, tl_ServerName = ''h'', tl_InsecureSkipVerify = False\<rparr>,
      md_tunnelConfig = Map.empty, md_configPath = []\<rparr>"

theorem controller_ends_witness:
  "(\<exists>es. ct_returned (run controller_step (controller_start empty_configuration quiet_model) (GotCommand (CmdQuit ''bye'') # es)) \<and>
      ct_printed (run controller_step (controller_start empty_configuration quiet_model) (GotCommand (CmdQuit ''bye'') # es)) = [''bye'']) \<and>
   (\<exists>es. \<not> ct_returned (run controller_step (controller_start empty_configuration quiet_model)
      ([GotCommand (CmdQuit ''bye''), GotCommand (CmdQuit ''no'')] @ es @ [SendsDone 0, SendsDone 1])))"
proof -
  have d: "cf_LogTo empty_configuration \<noteq> ''stdout''"
    by (simp add: empty_configuration_def)
  note t = controller_ends [OF refl, of empty_configuration quiet_model "[]" "''bye''" "''no''", THEN conjunct2, THEN conjunct2, unfolded if_P [OF d]]
  obtain es where two: "\<forall>es'. \<not> ct_returned (run controller_step (controller_start empty_configuration quiet_model)
      ([GotCommand (CmdQuit ''bye''), GotCommand (CmdQuit ''no'')] @ es @ es'))"
    by (rule exE [OF t [THEN conjunct2]])
  show ?thesis
    by (rule conjI [OF t [THEN conjunct1] exI [of _ es]]) (rule two [rule_format])
qed

end
