(* ===== verification/Client_Main.thy ===== *)
theory Client_Main
  imports Client_Session Client_Controller Logger
begin







subsection \<open>The command line \<open>ngrok 8080\<close>\<close>









end
