(* ===== verification/Admin_Config.thy ===== *)
theory Admin_Config
  imports Go_Strings
begin

text \<open>
  The settings of the server as the administration tool keeps them, \<open>src/ngrok/admin/main.go\<close>: the
  record \<open>serverConfig\<close> with its defaults and its validation, and the environment file that holds
  it. The Unicode part of \<open>strconv.Quote\<close> and \<open>Unquote\<close> is the parameter \<open>al_quote\<close>, \<open>al_unquote\<close>,
  that of \<open>strings.ToLower\<close> is \<open>al_lower\<close>.
\<close>

record admin_lib =
  al_lower :: "string \<Rightarrow> string"
  al_quote :: "string \<Rightarrow> string"
  al_unquote :: "string \<Rightarrow> string option"

record serverConfig =
  sc_Domain :: string
  sc_ControlHost :: string
  sc_TLSCrt :: string
  sc_TLSKey :: string
  sc_AuthToken :: string
  sc_HTTPAddr :: string
  sc_HTTPSAddr :: string
  sc_TunnelAddr :: string
  sc_LogLevel :: string
  sc_MaxConnections :: string
  sc_ExtraArgs :: string
  sc_VHost :: string

definition first_of :: "string \<Rightarrow> string \<Rightarrow> string" where
  "first_of value fallback = (if value \<noteq> [] then value else fallback)"

lemma first_of_simps [simp]:
  "value \<noteq> [] \<Longrightarrow> first_of value fallback = value" "first_of [] fallback = fallback" "first_of value [] = value"
  by (simp_all add: first_of_def)

definition defaultServerConfig :: serverConfig where
  "defaultServerConfig =
     \<lparr>sc_Domain = ''example.com'', sc_ControlHost = ''ngrok.example.com'',
      sc_TLSCrt = ''/etc/ngrok/tls/fullchain.pem'', sc_TLSKey = ''/etc/ngrok/tls/privkey.pem'',
      sc_AuthToken = [], sc_HTTPAddr = ''127.0.0.1:8080'', sc_HTTPSAddr = [],
      sc_TunnelAddr = ''0.0.0.0:4443'', sc_LogLevel = ''INFO'', sc_MaxConnections = ''1024'',
      sc_ExtraArgs = [], sc_VHost = []\<rparr>"

definition defaultLikeControlHost :: "string \<Rightarrow> bool" where
  "defaultLikeControlHost host \<longleftrightarrow> host = [] \<or> has_prefix host ''ngrok.example.''"

definition defaultLikeDomain :: "string \<Rightarrow> bool" where
  "defaultLikeDomain domain \<longleftrightarrow> domain = [] \<or> domain = ''example.com''"

definition applyDefaults :: "serverConfig \<Rightarrow> serverConfig" where
  "applyDefaults c =
     (let domain = first_of (sc_Domain c) ''example.com'' in
      c\<lparr>sc_Domain := domain,
        sc_ControlHost :=
          (if sc_ControlHost c = [] \<or> has_prefix (sc_ControlHost c) ''ngrok.example.''
           then ''ngrok.'' @ domain else sc_ControlHost c),
        sc_TLSCrt := first_of (sc_TLSCrt c) ''/etc/ngrok/tls/fullchain.pem'',
        sc_TLSKey := first_of (sc_TLSKey c) ''/etc/ngrok/tls/privkey.pem'',
        sc_HTTPAddr := first_of (sc_HTTPAddr c) ''127.0.0.1:8080'',
        sc_TunnelAddr := first_of (sc_TunnelAddr c) ''0.0.0.0:4443'',
        sc_LogLevel := first_of (sc_LogLevel c) ''INFO'',
        sc_MaxConnections := first_of (sc_MaxConnections c) ''1024''\<rparr>)"

definition default_token :: string where "default_token = ''change-me-long-random-token''"

text \<open>\<open>Some\<close> is the error.\<close>

definition validate_config :: "serverConfig \<Rightarrow> string option" where
  "validate_config c =
     (if sc_Domain c = [] then Some ''domain is required''
      else if contains_any (sc_Domain c) '' /'' then Some ''domain is invalid''
      else if sc_ControlHost c = [] then Some ''control host is required''
      else if sc_TLSCrt c = [] \<or> sc_TLSKey c = [] then Some ''certificate and key paths are required''
      else if sc_AuthToken c = [] \<or> sc_AuthToken c = default_token then Some ''auth token is required''
      else if atoi (sc_MaxConnections c) = None then Some ''max connections must be a number''
      else None)"

section \<open>The environment file\<close>

text \<open>The variables of the file: Go's map, whose missing keys read as the empty string.\<close>

type_synonym env_map = "string \<rightharpoonup> string"

definition env_get :: "env_map \<Rightarrow> string \<Rightarrow> string" where
  "env_get m key = (case m key of None \<Rightarrow> [] | Some v \<Rightarrow> v)"

definition read_env_line :: "admin_lib \<Rightarrow> env_map \<Rightarrow> string \<Rightarrow> env_map" where
  "read_env_line lib m line =
     (let line = trim_space line in
      if line = [] \<or> has_prefix line ''#'' then m
      else (case split_n 2 CHR ''='' line of
              [k, v] \<Rightarrow>
                let key = trim_space k; value = trim_space v
                in m(key \<mapsto> (case unquote (al_unquote lib) value of Some unquoted \<Rightarrow> unquoted | None \<Rightarrow> value))
            | _ \<Rightarrow> m))"

text \<open>\<open>None\<close> is a file that cannot be read.\<close>

definition readEnvFile :: "admin_lib \<Rightarrow> string option \<Rightarrow> env_map" where
  "readEnvFile lib file =
     (case file of None \<Rightarrow> Map.empty
      | Some b \<Rightarrow> foldl (read_env_line lib) Map.empty (split_on newline b))"

definition env_char :: "char \<Rightarrow> bool" where
  "env_char r \<longleftrightarrow> r \<in> set ''/:.-_,=*@+'' \<or> is_lower r \<or> is_upper r \<or> is_digit r"

definition envValue :: "admin_lib \<Rightarrow> string \<Rightarrow> string" where
  "envValue lib value =
     (if value = [] then []
      else if list_all env_char value then value
      else quote (al_quote lib) value)"

definition writeEnv :: "admin_lib \<Rightarrow> string \<Rightarrow> string \<Rightarrow> string" where
  "writeEnv lib key value = key @ ''='' @ envValue lib value @ [newline]"

definition config_entries :: "serverConfig \<Rightarrow> (string \<times> string) list" where
  "config_entries cfg =
     [(''NGROKD_DOMAIN'', sc_Domain cfg), (''NGROKD_CONTROL_HOST'', sc_ControlHost cfg),
      (''NGROKD_TLS_CRT'', sc_TLSCrt cfg), (''NGROKD_TLS_KEY'', sc_TLSKey cfg),
      (''NGROKD_AUTH_TOKEN'', sc_AuthToken cfg), (''NGROKD_HTTP_ADDR'', sc_HTTPAddr cfg),
      (''NGROKD_HTTPS_ADDR'', sc_HTTPSAddr cfg), (''NGROKD_TUNNEL_ADDR'', sc_TunnelAddr cfg),
      (''NGROKD_LOG_LEVEL'', sc_LogLevel cfg), (''NGROKD_MAX_CONNECTIONS'', sc_MaxConnections cfg),
      (''NGROKD_EXTRA_ARGS'', sc_ExtraArgs cfg)] @
     (if sc_VHost cfg \<noteq> [] then [(''VHOST'', sc_VHost cfg)] else [])"

text \<open>The text that \<open>writeServerConfig\<close> writes.\<close>

definition server_config_text :: "admin_lib \<Rightarrow> serverConfig \<Rightarrow> string" where
  "server_config_text lib cfg =
     ''# Managed by ngrok-admin.'' @ [newline] @
     concat (map (\<lambda>(key, value). writeEnv lib key value) (config_entries (applyDefaults cfg)))"

definition readServerConfig :: "admin_lib \<Rightarrow> string option \<Rightarrow> serverConfig" where
  "readServerConfig lib file =
     (let cfg = defaultServerConfig; values = readEnvFile lib file in
      applyDefaults
        \<lparr>sc_Domain = first_of (env_get values ''NGROKD_DOMAIN'') (sc_Domain cfg),
         sc_ControlHost = first_of (env_get values ''NGROKD_CONTROL_HOST'') (sc_ControlHost cfg),
         sc_TLSCrt = first_of (env_get values ''NGROKD_TLS_CRT'') (sc_TLSCrt cfg),
         sc_TLSKey = first_of (env_get values ''NGROKD_TLS_KEY'') (sc_TLSKey cfg),
         sc_AuthToken = first_of (env_get values ''NGROKD_AUTH_TOKEN'') (sc_AuthToken cfg),
         sc_HTTPAddr = first_of (env_get values ''NGROKD_HTTP_ADDR'') (sc_HTTPAddr cfg),
         sc_HTTPSAddr = first_of (env_get values ''NGROKD_HTTPS_ADDR'') (sc_HTTPSAddr cfg),
         sc_TunnelAddr = first_of (env_get values ''NGROKD_TUNNEL_ADDR'') (sc_TunnelAddr cfg),
         sc_LogLevel = first_of (env_get values ''NGROKD_LOG_LEVEL'') (sc_LogLevel cfg),
         sc_MaxConnections = first_of (env_get values ''NGROKD_MAX_CONNECTIONS'') (sc_MaxConnections cfg),
         sc_ExtraArgs = first_of (env_get values ''NGROKD_EXTRA_ARGS'') (sc_ExtraArgs cfg),
         sc_VHost = env_get values ''VHOST''\<rparr>)"

section \<open>Defaults\<close>

definition complete_config :: "serverConfig \<Rightarrow> bool" where
  "complete_config c \<longleftrightarrow>
     sc_Domain c \<noteq> [] \<and> sc_ControlHost c \<noteq> [] \<and> sc_TLSCrt c \<noteq> [] \<and> sc_TLSKey c \<noteq> [] \<and> sc_HTTPAddr c \<noteq> [] \<and>
     sc_TunnelAddr c \<noteq> [] \<and> sc_LogLevel c \<noteq> [] \<and> sc_MaxConnections c \<noteq> [] \<and>
     (has_prefix (sc_ControlHost c) ''ngrok.example.'' \<longrightarrow> sc_ControlHost c = ''ngrok.'' @ sc_Domain c)"

lemma applyDefaults_complete: "complete_config (applyDefaults c)"
  by (simp add: complete_config_def applyDefaults_def first_of_def Let_def)

lemma applyDefaults_id: "complete_config c \<Longrightarrow> applyDefaults c = c"
  by (simp add: complete_config_def applyDefaults_def first_of_def Let_def)

lemma applyDefaults_idem [simp]: "applyDefaults (applyDefaults c) = applyDefaults c"
  by (simp add: applyDefaults_id applyDefaults_complete)

lemma applyDefaults_keeps [simp]:
  "sc_AuthToken (applyDefaults c) = sc_AuthToken c" "sc_HTTPSAddr (applyDefaults c) = sc_HTTPSAddr c"
  "sc_ExtraArgs (applyDefaults c) = sc_ExtraArgs c" "sc_VHost (applyDefaults c) = sc_VHost c"
  by (simp_all add: applyDefaults_def Let_def)

section \<open>Reading back what was written\<close>

lemma unhex_hex_char: "0 \<le> d \<Longrightarrow> d < 16 \<Longrightarrow> unhex (hex_char d) = Some d"
  by (auto simp: unhex_def hex_char_def digit_val_def is_digit_def)

lemma hex_char_ascii: "0 \<le> d \<Longrightarrow> d < 16 \<Longrightarrow> is_ascii (hex_char d) \<and> hex_char d \<noteq> newline"
  using of_char_hex [of d] arg_cong [of "hex_char d" newline "of_char :: char \<Rightarrow> int"]
  by (auto simp: is_ascii_def newline_def split: if_splits)

lemma zero_le_of_char: "(0 :: int) \<le> of_char c"
  by (metis of_char_mod_256 pos_mod_sign zero_less_numeral)

lemma quote_char_unquotes:
  assumes "is_ascii c"
  shows "unquote_char dquote (quote_char c @ s) = Some ([c], s)"
proof (cases "c \<in> {CHR 0x22, CHR 0x5C, CHR 0x07, CHR 0x08, CHR 0x0C, CHR 0x0A, CHR 0x0D, CHR 0x09, CHR 0x0B}")
  case True
  then show ?thesis
    by (elim insertE emptyE)
      (simp_all add: quote_char_def dquote_def newline_def backslash_def unquote_escape_def simple_escape_def octal_val_def is_digit_def)
next
  case False
  show ?thesis
  proof (cases "(of_char c :: int) < 32 \<or> (of_char c :: int) = 127")
    case True
    let ?h = "of_char c div 16 :: int" and ?l = "of_char c mod 16 :: int"
    have q: "quote_char c = [CHR 0x5C, CHR ''x'', hex_char ?h, hex_char ?l]"
      using False True by (simp add: quote_char_def)
    have "0 \<le> ?h" "?h < 16" "0 \<le> ?l" "?l < 16" "16 * ?h + ?l = of_char c"
      using True zero_le_of_char [of c] by (auto simp: is_ascii_def)
    then show ?thesis
      unfolding q
      by (simp add: dquote_def newline_def backslash_def unquote_escape_def simple_escape_def numeral_2_eq_2 unhex_hex_char)
  next
    case F2: False
    then show ?thesis
      using False by (simp add: quote_char_def dquote_def newline_def backslash_def)
  qed
qed

lemma quote_char_text:
  assumes "is_ascii c"
  shows "newline \<notin> set (quote_char c) \<and> list_all is_ascii (quote_char c)"
proof -
  have h: "0 \<le> (of_char c :: int) div 16" "(of_char c :: int) < 128 \<Longrightarrow> (of_char c :: int) div 16 < 16"
    using zero_le_of_char [of c] by auto
  show ?thesis
    using assms h hex_char_ascii [of "of_char c div 16"] hex_char_ascii [of "of_char c mod 16"]
    by (auto simp: quote_char_def is_ascii_def newline_def)
qed

lemma unquote_chars_quoted: "list_all is_ascii s \<Longrightarrow> unquote_chars dquote (concat (map quote_char s)) = Some s"
proof (induction s)
  case (Cons c s)
  then have c: "unquote_char dquote (quote_char c @ concat (map quote_char s)) = Some ([c], concat (map quote_char s))"
    by (intro quote_char_unquotes) simp
  then have "quote_char c @ concat (map quote_char s) \<noteq> []"
    by (metis option.distinct(1) unquote_char.simps(1))
  then show ?case
    using Cons c by (subst unquote_chars.simps) simp
qed (simp add: unquote_chars.simps)

lemma concat_quote_char:
  assumes "list_all is_ascii s"
  shows "newline \<notin> set (concat (map quote_char s))" "list_all is_ascii (concat (map quote_char s))"
  using assms quote_char_text by (auto simp: list_all_iff)

text \<open>
  What \<open>Quote\<close> and \<open>Unquote\<close> promise about text that is not ASCII: quoted text is on one line, and
  \<open>Unquote\<close> gives back what was quoted.
\<close>

definition quoting_ok :: "admin_lib \<Rightarrow> bool" where
  "quoting_ok lib \<longleftrightarrow>
     (\<forall>s. \<not> list_all is_ascii s \<longrightarrow>
        newline \<notin> set (al_quote lib s) \<and> unquote (al_unquote lib) (quote (al_quote lib) s) = Some s)"

lemma unquote_quote:
  assumes "quoting_ok lib"
  shows "unquote (al_unquote lib) (quote (al_quote lib) s) = Some s"
proof (cases "list_all is_ascii s")
  case True
  then show ?thesis
    using concat_quote_char [OF True] unquote_chars_quoted [OF True]
    by (simp add: quote_def unquote_def Let_def dquote_def backquote_def is_ascii_def butlast_append)
qed (use assms in \<open>simp add: quoting_ok_def\<close>)

lemma quote_line: "quoting_ok lib \<Longrightarrow> newline \<notin> set (quote (al_quote lib) s)"
  using concat_quote_char(1) [of s] by (auto simp: quoting_ok_def quote_def newline_def)

subsection \<open>One line of the file\<close>

lemma env_char_solid:
  assumes "env_char c"
  shows "solid c" "c \<noteq> newline" "c \<noteq> dquote" "c \<noteq> squote" "c \<noteq> backquote"
proof -
  have b: "42 \<le> (of_char c :: int) \<and> (of_char c :: int) \<le> 122 \<and> (of_char c :: int) \<noteq> 96"
    using assms by (auto simp: env_char_def is_lower_def is_upper_def is_digit_def)
  then show "solid c" by (intro solid_ascii) auto
  show "c \<noteq> newline" "c \<noteq> dquote" "c \<noteq> squote" "c \<noteq> backquote"
    using b by (auto simp: newline_def dquote_def squote_def backquote_def)
qed

lemma solid_dquote: "solid CHR 0x22"
  by (rule solid_ascii) simp_all

lemma quote_ends: "hd (quote uq s) = CHR 0x22" "last (quote uq s) = CHR 0x22" "quote uq s \<noteq> []"
  by (simp_all add: quote_def)

lemma envValue_solid: "envValue lib v \<noteq> [] \<Longrightarrow> solid (hd (envValue lib v)) \<and> solid (last (envValue lib v))"
  using solid_dquote quote_ends env_char_solid(1)
  by (auto simp: envValue_def list_all_iff)

lemma envValue_line: "quoting_ok lib \<Longrightarrow> newline \<notin> set (envValue lib v)"
  using quote_line [of lib v] env_char_solid(2) by (auto simp: envValue_def list_all_iff)

text \<open>A value comes back from its line, quoted or not.\<close>

lemma envValue_back:
  assumes "quoting_ok lib"
  shows "(case unquote (al_unquote lib) (envValue lib v) of Some u \<Rightarrow> u | None \<Rightarrow> envValue lib v) = v"
proof (cases "v = [] \<or> list_all env_char v")
  case True
  then have e: "envValue lib v = v" by (auto simp: envValue_def)
  have "unquote (al_unquote lib) v = None" if "\<not> length v < 2"
  proof -
    have "env_char (hd v)" using True that by (cases v) auto
    then show ?thesis using env_char_solid by (simp add: unquote_def Let_def)
  qed
  then show ?thesis by (cases "length v < 2") (simp_all add: e unquote_def)
next
  case False
  then have "envValue lib v = quote (al_quote lib) v" by (simp add: envValue_def)
  then show ?thesis using unquote_quote [OF assms] by simp
qed

definition env_key :: "string \<Rightarrow> bool" where
  "env_key k \<longleftrightarrow> k \<noteq> [] \<and> list_all (\<lambda>c. is_upper c \<or> c = CHR ''_'') k"

lemma env_key_char: "is_upper c \<or> c = CHR ''_'' \<Longrightarrow> solid c \<and> c \<noteq> CHR ''='' \<and> c \<noteq> CHR ''#'' \<and> c \<noteq> newline"
proof -
  assume a: "is_upper c \<or> c = CHR ''_''"
  then have "65 \<le> (of_char c :: int) \<and> (of_char c :: int) \<le> 95"
    by (auto simp: is_upper_def)
  then show ?thesis
    by (auto intro!: solid_ascii simp: newline_def)
qed

lemma read_env_entry:
  assumes "quoting_ok lib" "env_key k"
  shows "read_env_line lib m (k @ ''='' @ envValue lib v) = m(k \<mapsto> v)"
proof -
  let ?line = "k @ ''='' @ envValue lib v"
  have k: "k \<noteq> []" "\<forall>c \<in> set k. solid c \<and> c \<noteq> CHR ''='' \<and> c \<noteq> CHR ''#'' \<and> c \<noteq> newline"
    using assms(2) env_key_char by (auto simp: env_key_def list_all_iff)
  have "solid CHR ''=''" by (rule solid_ascii) simp_all
  then have "solid (last ?line)"
    using envValue_solid [of lib v] by (cases "envValue lib v = []") auto
  then have l: "trim_space ?line = ?line"
    using k by (intro trim_space_id) auto
  have "cut CHR ''='' ?line = Some (k, envValue lib v)"
    using k cut_append [of "CHR ''=''" k "envValue lib v"] by auto
  then have s: "split_n 2 CHR ''='' ?line = [k, envValue lib v]"
    by (simp add: numeral_2_eq_2)
  have tk: "trim_space k = k" using k by (intro trim_space_id) auto
  have tv: "trim_space (envValue lib v) = envValue lib v"
    using envValue_solid [of lib v] trim_space_id [of "envValue lib v"] by (cases "envValue lib v = []") auto
  have h: "\<not> has_prefix ?line ''#''" "?line \<noteq> []"
  proof -
    obtain a k' where a: "k = a # k'" using k(1) by (cases k) simp_all
    then have "a \<noteq> CHR ''#''" using k(2) by simp
    then show "\<not> has_prefix ?line ''#''" "?line \<noteq> []" by (simp_all add: a has_prefix_def)
  qed
  have "read_env_line lib m ?line =
      m(k \<mapsto> (case unquote (al_unquote lib) (envValue lib v) of Some u \<Rightarrow> u | None \<Rightarrow> envValue lib v))"
    unfolding read_env_line_def l Let_def s using h by (simp only: simp_thms if_False list.case tk tv)
  then show ?thesis
    unfolding envValue_back [OF assms(1)] .
qed

lemma read_env_entries:
  assumes "quoting_ok lib" "\<forall>(k, v) \<in> set es. env_key k"
  shows "foldl (read_env_line lib) m (map (\<lambda>(k, v). k @ ''='' @ envValue lib v) es) = m ++ map_of (rev es)"
  using assms(2)
proof (induction es arbitrary: m)
  case (Cons e es)
  obtain k v where e: "e = (k, v)" by (cases e)
  have "read_env_line lib m (k @ ''='' @ envValue lib v) = m(k \<mapsto> v)"
    using Cons.prems e by (intro read_env_entry assms(1)) auto
  then show ?case
    using Cons by (simp add: e map_add_assoc del: append.simps)
qed simp

lemma config_keys: "\<forall>(k, v) \<in> set (config_entries cfg). env_key k"
  by (auto simp: config_entries_def env_key_def is_upper_def)

lemma config_text_lines:
  "server_config_text lib cfg =
     unlines (''# Managed by ngrok-admin.'' # map (\<lambda>(k, v). k @ ''='' @ envValue lib v) (config_entries (applyDefaults cfg)))"
  by (simp add: server_config_text_def unlines_def comp_def writeEnv_def split_def)

lemma read_config_text:
  assumes "quoting_ok lib"
  shows "readEnvFile lib (Some (server_config_text lib cfg)) = map_of (rev (config_entries (applyDefaults cfg)))"
proof -
  let ?es = "config_entries (applyDefaults cfg)"
  let ?ls = "map (\<lambda>(k, v). k @ ''='' @ envValue lib v) ?es"
  have n: "newline \<notin> set (k @ ''='' @ envValue lib v)" if "(k, v) \<in> set ?es" for k v
  proof -
    have "env_key k" using config_keys that by blast
    then have "newline \<notin> set k" using env_key_char by (auto simp: env_key_def list_all_iff)
    then show ?thesis using envValue_line [OF assms] by (simp add: newline_def)
  qed
  have "\<forall>l \<in> set (''# Managed by ngrok-admin.'' # ?ls). newline \<notin> set l"
  proof -
    have "newline \<notin> set ''# Managed by ngrok-admin.''" by (simp add: newline_def)
    then show ?thesis using n by auto
  qed
  then have s: "split_on newline (server_config_text lib cfg) = (''# Managed by ngrok-admin.'' # ?ls) @ [[]]"
    unfolding config_text_lines by (rule split_on_unlines)
  have c: "read_env_line lib m ''# Managed by ngrok-admin.'' = m" for m
    using trim_space_id [of "''# Managed by ngrok-admin.''"] by (simp add: read_env_line_def has_prefix_def solid_ascii)
  have e: "read_env_line lib m [] = m" for m
    by (simp add: read_env_line_def)
  show ?thesis
    unfolding readEnvFile_def option.case s foldl_append list.map foldl.simps c
      read_env_entries [OF assms config_keys] e by simp
qed

lemma config_values:
  "env_get (map_of (rev (config_entries c))) ''NGROKD_DOMAIN'' = sc_Domain c"
  "env_get (map_of (rev (config_entries c))) ''NGROKD_CONTROL_HOST'' = sc_ControlHost c"
  "env_get (map_of (rev (config_entries c))) ''NGROKD_TLS_CRT'' = sc_TLSCrt c"
  "env_get (map_of (rev (config_entries c))) ''NGROKD_TLS_KEY'' = sc_TLSKey c"
  "env_get (map_of (rev (config_entries c))) ''NGROKD_AUTH_TOKEN'' = sc_AuthToken c"
  "env_get (map_of (rev (config_entries c))) ''NGROKD_HTTP_ADDR'' = sc_HTTPAddr c"
  "env_get (map_of (rev (config_entries c))) ''NGROKD_HTTPS_ADDR'' = sc_HTTPSAddr c"
  "env_get (map_of (rev (config_entries c))) ''NGROKD_TUNNEL_ADDR'' = sc_TunnelAddr c"
  "env_get (map_of (rev (config_entries c))) ''NGROKD_LOG_LEVEL'' = sc_LogLevel c"
  "env_get (map_of (rev (config_entries c))) ''NGROKD_MAX_CONNECTIONS'' = sc_MaxConnections c"
  "env_get (map_of (rev (config_entries c))) ''NGROKD_EXTRA_ARGS'' = sc_ExtraArgs c"
  "env_get (map_of (rev (config_entries c))) ''VHOST'' = sc_VHost c"
  by (simp_all add: config_entries_def env_get_def)

lemma config_reads_back:
  assumes "quoting_ok lib"
  shows "readServerConfig lib (Some (server_config_text lib cfg)) = applyDefaults cfg"
proof -
  define c where "c = applyDefaults cfg"
  have c: "complete_config c" unfolding c_def by (rule applyDefaults_complete)
  have "readServerConfig lib (Some (server_config_text lib cfg)) = applyDefaults c"
    unfolding readServerConfig_def read_config_text [OF assms] Let_def c_def [symmetric] config_values
    using c by (cases c) (simp add: complete_config_def defaultServerConfig_def)
  then show ?thesis by (simp add: c_def)
qed

text \<open>
  C18: The environment file keeps the settings: whatever text the fields hold, the file that
  \<open>writeServerConfig\<close> writes reads back as the same settings with their defaults, and saving what
  was read writes the same file again.
\<close>
theorem admin_config_roundtrip:
  assumes "quoting_ok lib"
  shows "readServerConfig lib (Some (server_config_text lib cfg)) = applyDefaults cfg \<and>
     server_config_text lib (readServerConfig lib (Some (server_config_text lib cfg))) = server_config_text lib cfg"
  using config_reads_back [OF assms] by (simp add: server_config_text_def)

subsection \<open>A library for the witnesses\<close>

text \<open>\<open>Quote\<close> may write every byte that is not ASCII as an escape.\<close>

definition hex_escape :: "char \<Rightarrow> string" where
  "hex_escape c = [backslash, CHR ''x'', hex_char (of_char c div 16), hex_char (of_char c mod 16)]"

definition sample_lib :: admin_lib where
  "sample_lib = \<lparr>al_lower = (\<lambda>s. s), al_quote = (\<lambda>s. concat (map hex_escape s)), al_unquote = (\<lambda>_. None)\<rparr>"

lemma hex_digit_range: "0 \<le> (of_char c :: int) div 16" "(of_char c :: int) div 16 < 16"
proof -
  have "(of_char c :: int) mod 256 < 256" by (rule pos_mod_bound) simp
  then show "(of_char c :: int) div 16 < 16" by simp
  show "0 \<le> (of_char c :: int) div 16" using zero_le_of_char [of c] by simp
qed

lemma hex_escape_text: "newline \<notin> set (hex_escape c) \<and> list_all is_ascii (hex_escape c)"
  using hex_digit_range [of c] hex_char_ascii [of "of_char c div 16"] hex_char_ascii [of "of_char c mod 16"]
  by (auto simp: hex_escape_def backslash_def newline_def is_ascii_def)

lemma hex_escape_unquotes: "unquote_char dquote (hex_escape c @ s) = Some ([c], s)"
proof -
  have "16 * ((of_char c :: int) div 16) + of_char c mod 16 = of_char c" by simp
  then show ?thesis
    using hex_digit_range [of c]
    by (simp add: hex_escape_def dquote_def newline_def backslash_def unquote_escape_def simple_escape_def
        numeral_2_eq_2 unhex_hex_char)
qed

lemma unquote_chars_escaped: "unquote_chars dquote (concat (map hex_escape s)) = Some s"
proof (induction s)
  case (Cons c s)
  then show ?case
    by (subst unquote_chars.simps) (simp add: hex_escape_unquotes, simp add: hex_escape_def)
qed (simp add: unquote_chars.simps)

lemma sample_lib_quotes: "quoting_ok sample_lib"
proof -
  have "newline \<notin> set (concat (map hex_escape s))" "list_all is_ascii (concat (map hex_escape s))" for s
    using hex_escape_text by (auto simp: list_all_iff)
  then show ?thesis
    by (auto simp: quoting_ok_def sample_lib_def quote_def unquote_def Let_def dquote_def backquote_def is_ascii_def
        butlast_append unquote_chars_escaped [unfolded dquote_def])
qed

theorem admin_config_roundtrip_witness:
  "readServerConfig sample_lib (Some (server_config_text sample_lib
     (defaultServerConfig\<lparr>sc_Domain := ''x.org'', sc_ExtraArgs := ''-a '' @ [dquote, newline, CHR 0xC3, CHR 0xA4]\<rparr>))) =
   defaultServerConfig\<lparr>sc_Domain := ''x.org'', sc_ControlHost := ''ngrok.x.org'',
     sc_ExtraArgs := ''-a '' @ [dquote, newline, CHR 0xC3, CHR 0xA4]\<rparr>"
  unfolding admin_config_roundtrip [OF sample_lib_quotes, THEN conjunct1]
  by (simp add: applyDefaults_def defaultServerConfig_def has_prefix_def Let_def)

end
