(* ===== verification/Admin_Domains.thy ===== *)
theory Admin_Domains
  imports Admin_Config Hosts
begin

text \<open>
  The domains of the administration tool, \<open>src/ngrok/admin/main.go\<close>: normalising and validating a
  name, the list of domains the settings name, and the records to enter at the DNS provider.
\<close>

section \<open>Names\<close>

definition stripPort :: "string \<Rightarrow> string" where
  "stripPort host = (case split_host_port host of Inr (h, _) \<Rightarrow> h | Inl _ \<Rightarrow> host)"

definition normalizeDomain :: "admin_lib \<Rightarrow> string \<Rightarrow> string" where
  "normalizeDomain lib domain =
     (let domain = to_lower (al_lower lib) (trim_space domain);
          domain = trim_prefix domain ''*.'';
          domain = trim_suffix domain ''.''
      in stripPort domain)"

definition domain_char :: "char \<Rightarrow> bool" where
  "domain_char r \<longleftrightarrow> is_lower r \<or> is_digit r \<or> r = CHR ''-''"

definition valid_label :: "string \<Rightarrow> bool" where
  "valid_label label =
     (if label = [] \<or> length label > 63 \<or> has_prefix label ''-'' \<or> has_suffix label ''-'' then False
      else list_all domain_char label)"

definition validDomainName :: "string \<Rightarrow> bool" where
  "validDomainName domain =
     (if length domain < 3 \<or> length domain > 253 \<or> str_contains domain ''..'' then False
      else let labels = split_on CHR ''.'' domain in
           if length labels < 2 then False else list_all valid_label labels)"

section \<open>Lists of domains\<close>

text \<open>
  The loops that collect domains skip what is empty, seen, or not valid; \<open>seen\<close> always holds the
  names that are in the result.
\<close>

definition add_input :: "admin_lib \<Rightarrow> string list \<Rightarrow> string \<Rightarrow> string list" where
  "add_input lib result field =
     (let domain = normalizeDomain lib field in
      if domain = [] \<or> domain \<in> set result \<or> \<not> validDomainName domain then result
      else result @ [domain])"

definition input_sep :: "char \<Rightarrow> bool" where
  "input_sep r \<longleftrightarrow> r = CHR '','' \<or> r = newline \<or> r = CHR 0x0D \<or> r = CHR 0x09 \<or> r = CHR '' ''"

definition parseDomainInput :: "admin_lib \<Rightarrow> string \<Rightarrow> string list" where
  "parseDomainInput lib input = foldl (add_input lib) [] (fields_func input_sep input)"

definition add_configured :: "admin_lib \<Rightarrow> string list \<Rightarrow> string \<Rightarrow> string list" where
  "add_configured lib result domain =
     (let domain = normalizeDomain lib domain in
      if domain = [] \<or> domain \<in> set result \<or> defaultLikeDomain domain \<or> \<not> validDomainName domain then result
      else result @ [domain])"

definition configuredDomainList :: "admin_lib \<Rightarrow> string option \<Rightarrow> serverConfig \<Rightarrow> string list" where
  "configuredDomainList lib envFile cfg =
     (let cfg = applyDefaults cfg;
          result = add_configured lib [] (sc_Domain cfg);
          vhost = (if sc_VHost cfg = [] then env_get (readEnvFile lib envFile) ''VHOST'' else sc_VHost cfg)
      in foldl (add_configured lib) result (split_on CHR '','' vhost))"

definition appendDomain :: "admin_lib \<Rightarrow> string list \<Rightarrow> string \<Rightarrow> string list" where
  "appendDomain lib domains domain =
     (let domain = normalizeDomain lib domain in
      if domain = [] \<or> \<not> validDomainName domain then domains
      else if domain \<in> set domains then domains
      else domains @ [domain])"

section \<open>Records for the DNS provider\<close>

definition normalizeDNSRecordHost :: "admin_lib \<Rightarrow> string \<Rightarrow> string" where
  "normalizeDNSRecordHost lib host =
     (let host = to_lower (al_lower lib) (trim_space host);
          wildcard = has_prefix host ''*.'';
          host = trim_prefix host ''*.'';
          host = trim_suffix (stripPort host) ''.''
      in if host = [] then [] else if wildcard then ''*.'' @ host else host)"

text \<open>The state of the loop: the names seen so far, which are the names of the records.\<close>

definition add_record :: "admin_lib \<Rightarrow> string list \<Rightarrow> string \<Rightarrow> string list" where
  "add_record lib hosts host =
     (let host = normalizeDNSRecordHost lib host; base = trim_prefix host ''*.'' in
      if host = [] \<or> host \<in> set hosts \<or> defaultLikeDomain base then hosts else hosts @ [host])"

definition dns_hosts :: "admin_lib \<Rightarrow> string option \<Rightarrow> serverConfig \<Rightarrow> string list" where
  "dns_hosts lib envFile cfg =
     foldl (\<lambda>hosts domain. add_record lib (add_record lib hosts domain) (''*.'' @ domain))
       (add_record lib [] (sc_ControlHost cfg)) (configuredDomainList lib envFile cfg)"

definition dnsRecordText :: "admin_lib \<Rightarrow> string option \<Rightarrow> serverConfig \<Rightarrow> string \<Rightarrow> string" where
  "dnsRecordText lib envFile cfg serverIP =
     (let cfg = applyDefaults cfg;
          serverIP = (if serverIP = [] then ''<server-ip>'' else serverIP)
      in if defaultLikeDomain (sc_Domain cfg)
         then ''example.com A/AAAA '' @ serverIP @ [newline] @ ''*.example.com A/AAAA '' @ serverIP
         else join [newline] (map (\<lambda>host. host @ '' A/AAAA '' @ serverIP) (dns_hosts lib envFile cfg)))"

section \<open>The address of the server\<close>

text \<open>
  \<open>net.ParseIP\<close> with the tests of \<open>publicIPString\<close> for an IPv4 text; for an IPv6 text the result is
  the parameter \<open>ip6\<close>: the text of the address if it passes them, and empty otherwise.
\<close>

definition public_ipv4 :: "int \<times> int \<times> int \<times> int \<Rightarrow> bool" where
  "public_ipv4 ip =
     (case ip of (a, b, c, d) \<Rightarrow>
        a \<noteq> 127 \<and> ip \<noteq> (0, 0, 0, 0) \<and>
        \<not> (a = 10 \<or> (a = 172 \<and> 16 \<le> b \<and> b \<le> 31) \<or> (a = 192 \<and> b = 168)) \<and>
        ip \<noteq> (255, 255, 255, 255) \<and> \<not> (224 \<le> a \<and> a \<le> 239) \<and> \<not> (a = 169 \<and> b = 254))"

definition publicIPString :: "(string \<Rightarrow> string) \<Rightarrow> string \<Rightarrow> string" where
  "publicIPString ip6 value =
     (let s = trim_space value in
      case dropWhile (\<lambda>c. c \<notin> set ''.:%'') s of
        [] \<Rightarrow> []
      | sep # _ \<Rightarrow>
          if sep = CHR ''.'' then
            (case parse_ipv4 s of
               Some (a, b, c, d) \<Rightarrow>
                 if public_ipv4 (a, b, c, d) then join ''.'' (map show_int [a, b, c, d]) else []
             | None \<Rightarrow> [])
          else if sep = CHR '':'' then ip6 s
          else [])"

fun first_public :: "(string \<Rightarrow> string) \<Rightarrow> string list \<Rightarrow> string option" where
  "first_public ip6 [] = None"
| "first_public ip6 (addr # addrs) =
     (let ip = publicIPString ip6 addr in if ip \<noteq> [] then Some ip else first_public ip6 addrs)"

text \<open>\<open>lookup\<close> is \<open>net.LookupHost\<close>.\<close>

definition displayServerIP ::
  "(string \<Rightarrow> string) \<Rightarrow> (string \<Rightarrow> string list result) \<Rightarrow> string \<Rightarrow> string \<Rightarrow> string"
where
  "displayServerIP ip6 lookup request_host override =
     (let ip = publicIPString ip6 override in
      if ip \<noteq> [] then ip
      else let host = trim_space request_host;
               host = (case split_host_port host of Inr (h, _) \<Rightarrow> h | Inl _ \<Rightarrow> host);
               host = trim_set ''[]'' host;
               ip = publicIPString ip6 host
           in if ip \<noteq> [] then ip
              else case (if host \<noteq> [] then lookup host else Inl []) of
                     Inl _ \<Rightarrow> ''<server-ip>''
                   | Inr addrs \<Rightarrow> (case first_public ip6 addrs of Some ip \<Rightarrow> ip | None \<Rightarrow> ''<server-ip>''))"

section \<open>Valid names\<close>

lemma has_suffix_one: "has_suffix s [c] \<longleftrightarrow> s \<noteq> [] \<and> last s = c"
  by (cases s rule: rev_cases) (auto simp: has_suffix_iff)

lemma has_prefix_one: "has_prefix s [c] \<longleftrightarrow> s \<noteq> [] \<and> hd s = c"
  by (cases s) (auto simp: has_prefix_def)

lemma valid_label_agrees: "valid_label l = validHostnameLabel l"
  by (simp add: valid_label_def validHostnameLabel_def domain_char_def [abs_def] label_char_def [abs_def]
      has_prefix_one has_suffix_one)

lemma str_contains_iff: "str_contains s t \<longleftrightarrow> (\<exists>a b. s = a @ t @ b)"
proof (induction s)
  case (Cons c s)
  have "(\<exists>a b. c # s = a @ t @ b) \<longleftrightarrow> (\<exists>b. c # s = t @ b) \<or> (\<exists>a b. s = a @ t @ b)"
    by (metis append_Cons append_Nil list.exhaust list.inject)
  then show ?case
    using Cons by (simp add: has_prefix_iff)
qed auto

lemma length_split_on: "length (split_on c s) = Suc (count_list s c)"
  by (induction c s rule: split_on.induct) auto

lemma split_on_dots: "str_contains s ''..'' \<Longrightarrow> [] \<in> set (split_on CHR ''.'' s)"
proof -
  assume "str_contains s ''..''"
  then obtain a b where s: "s = a @ CHR ''.'' # CHR ''.'' # b" by (auto simp: str_contains_iff)
  show ?thesis
    unfolding s split_on_sep by simp
qed

text \<open>
  C38: The tool and the server agree on names: a domain is valid for the tool exactly if it is a host
  name that the server accepts, with at least two labels.
\<close>
theorem valid_domain_agrees:
  "validDomainName d \<longleftrightarrow> validHostname d \<and> CHR ''.'' \<in> set d"
proof -
  have l: "valid_label = validHostnameLabel" by (rule ext) (rule valid_label_agrees)
  have dots: "\<not> list_all validHostnameLabel (split_on CHR ''.'' d)" if "str_contains d ''..''"
    using split_on_dots [OF that] by (auto simp: list_all_iff validHostnameLabel_def)
  have long: "3 \<le> length d" if v: "list_all validHostnameLabel (split_on CHR ''.'' d)" and dot: "CHR ''.'' \<in> set d"
  proof -
    obtain a b where d: "d = a @ CHR ''.'' # b" using dot by (meson split_list)
    have "split_on CHR ''.'' x \<noteq> [[]]" if "x = a \<or> x = b" for x
      using v that unfolding d split_on_sep
      by (auto simp: validHostnameLabel_def)
    then have "a \<noteq> []" "b \<noteq> []" by fastforce+
    then show ?thesis unfolding d by (cases a; cases b) auto
  qed
  have "length (split_on CHR ''.'' d) < 2 \<longleftrightarrow> CHR ''.'' \<notin> set d"
    by (simp add: length_split_on count_list_0_iff)
  then show ?thesis
    using dots long by (auto simp: validDomainName_def validHostname_def Let_def l)
qed

section \<open>Normal names\<close>

lemma valid_hostname: "validDomainName d \<Longrightarrow> validHostname d"
proof -
  assume v: "validDomainName d"
  have "valid_label = validHostnameLabel" by (rule ext) (rule valid_label_agrees)
  then show ?thesis
    using v by (auto simp: validDomainName_def validHostname_def Let_def split: if_splits)
qed

lemma valid_domain_facts:
  assumes "validDomainName d"
  shows "d \<noteq> []" "trim_space d = d" "to_lower ul d = d" "\<not> has_prefix d ''*.''" "trim_suffix d ''.'' = d"
    "stripPort d = d" "CHR '','' \<notin> set d" "CHR '':'' \<notin> set d"
proof -
  note v = valid_hostname [OF assms]
  have ch: "\<forall>c \<in> set d. host_char c" using validHostname_chars [OF v] by blast
  show ne: "d \<noteq> []" by (rule validHostname_nonempty [OF v])
  show "trim_space d = d" "to_lower ul d = d" by (rule valid_hostname_chars_normal [OF v])+
  show "trim_suffix d ''.'' = d" by (rule validHostname_no_dot_end [OF v])
  show "\<not> has_prefix d ''*.''" using validHostname_no_star [OF v] by (auto simp: has_prefix_iff)
  show nc: "CHR '','' \<notin> set d" "CHR '':'' \<notin> set d" using ch host_char_facts by blast+
  show "stripPort d = d"
    using stripHostPort_plain [OF nc(2)] by (simp add: stripPort_def stripHostPort_def)
qed

lemma normalizeDomain_valid [simp]: "validDomainName d \<Longrightarrow> normalizeDomain lib d = d"
  by (simp add: normalizeDomain_def valid_domain_facts trim_prefix_def)

section \<open>The lists the tool keeps\<close>

definition domains_ok :: "string list \<Rightarrow> bool" where
  "domains_ok ds \<longleftrightarrow> distinct ds \<and> list_all (\<lambda>d. validDomainName d \<and> \<not> defaultLikeDomain d) ds"

lemma domains_ok_Nil [simp]: "domains_ok []"
  by (simp add: domains_ok_def)

lemma domains_okD: "domains_ok ds \<Longrightarrow> d \<in> set ds \<Longrightarrow> validDomainName d \<and> \<not> defaultLikeDomain d"
  by (auto simp: domains_ok_def list_all_iff)

lemma add_configured_ok: "domains_ok ds \<Longrightarrow> domains_ok (add_configured lib ds d)"
  by (simp add: add_configured_def domains_ok_def Let_def)

lemma foldl_add_configured_ok: "domains_ok ds \<Longrightarrow> domains_ok (foldl (add_configured lib) ds vs)"
  by (induction vs arbitrary: ds) (simp_all add: add_configured_ok)

lemma configured_ok: "domains_ok (configuredDomainList lib f cfg)"
  by (simp add: configuredDomainList_def Let_def foldl_add_configured_ok add_configured_ok)

lemma appendDomain_ok: "domains_ok ds \<Longrightarrow> \<not> defaultLikeDomain d \<Longrightarrow> validDomainName d \<Longrightarrow> domains_ok (appendDomain lib ds d)"
  by (simp add: appendDomain_def domains_ok_def Let_def)

lemma add_input_ok:
  "distinct ds \<and> list_all validDomainName ds \<Longrightarrow> distinct (add_input lib ds d) \<and> list_all validDomainName (add_input lib ds d)"
  by (simp add: add_input_def Let_def)

lemma parseDomainInput_ok: "distinct (parseDomainInput lib s) \<and> list_all validDomainName (parseDomainInput lib s)"
proof -
  have "distinct ds \<and> list_all validDomainName ds \<Longrightarrow>
      distinct (foldl (add_input lib) ds fs) \<and> list_all validDomainName (foldl (add_input lib) ds fs)" for ds fs
    by (induction fs arbitrary: ds) (simp_all add: add_input_ok)
  then show ?thesis by (simp add: parseDomainInput_def)
qed

lemma add_configured_mem: "set (add_configured lib ds d) \<supseteq> set ds"
  by (auto simp: add_configured_def Let_def)

lemma foldl_add_fresh:
  "domains_ok (ds @ vs) \<Longrightarrow> foldl (add_configured lib) ds vs = ds @ vs"
proof (induction vs arbitrary: ds)
  case (Cons v vs)
  then have "validDomainName v" "\<not> defaultLikeDomain v" "v \<notin> set ds"
    by (auto simp: domains_ok_def)
  then have "add_configured lib ds v = ds @ [v]"
    by (simp add: add_configured_def Let_def valid_domain_facts)
  then show ?case
    using Cons.IH [of "ds @ [v]"] Cons.prems by simp
qed simp

lemma domains_join: "domains_ok ds \<Longrightarrow> ds \<noteq> [] \<Longrightarrow> split_on CHR '','' (join '','' ds) = ds"
  using valid_domain_facts(7) domains_okD by (intro split_on_join) blast+

lemma applyDefaults_domain [simp]: "sc_Domain c \<noteq> [] \<Longrightarrow> sc_Domain (applyDefaults c) = sc_Domain c"
  by (simp add: applyDefaults_def Let_def)

lemma join_nonempty: "ds \<noteq> [] \<Longrightarrow> hd ds \<noteq> [] \<Longrightarrow> join sep ds \<noteq> []"
  by (cases "(sep, ds)" rule: join.cases) auto

text \<open>What is stored as \<open>VHOST\<close>, with the first domain as \<open>NGROKD_DOMAIN\<close>, is read as the same list.\<close>

lemma configured_saved:
  assumes "domains_ok ds" "ds \<noteq> []" "sc_Domain cfg = hd ds" "sc_VHost cfg = join '','' ds"
  shows "configuredDomainList lib f cfg = ds"
proof -
  obtain d rest where ds: "ds = d # rest" using assms(2) by (cases ds) auto
  have d: "validDomainName d" "\<not> defaultLikeDomain d" "d \<noteq> []"
    using domains_okD [OF assms(1), of d] valid_domain_facts(1) by (auto simp: ds)
  have v: "sc_VHost (applyDefaults cfg) \<noteq> []" using assms(2-4) d(3) by (simp add: ds join_nonempty)
  have "add_configured lib [] d = [d]" using d by (simp add: add_configured_def Let_def)
  moreover have "add_configured lib [d] d = [d]" using d by (simp add: add_configured_def Let_def)
  moreover have "foldl (add_configured lib) [d] rest = d # rest"
    using foldl_add_fresh [of "[d]" rest lib] assms(1) by (simp add: ds)
  ultimately show ?thesis
    using v assms(3,4) domains_join [OF assms(1,2)] d(3)
    by (simp add: configuredDomainList_def Let_def ds)
qed

text \<open>The server reads the same list.\<close>

lemma vhosts_of_domains:
  assumes "domains_ok ds" "ds \<noteq> []"
  shows "publicVhosts ul (join '','' ds) domains protocol port = ds"
proof -
  have j: "join '','' ds \<noteq> []"
    using assms(2) valid_domain_facts(1) domains_okD [OF assms(1), of "hd ds"] by (intro join_nonempty) auto
  have i: "vhost_item ul ('':'' @ p) d = d" if "d \<in> set ds" for d p
  proof -
    have d: "validDomainName d" using domains_okD [OF assms(1) that] by simp
    then have "\<not> has_suffix d ('':'' @ p)"
      using valid_domain_facts(8) [OF d] by (auto simp: has_suffix_iff)
    then show ?thesis
      using d by (simp add: vhost_item_def valid_domain_facts trim_suffix_id)
  qed
  have "map (vhost_item ul ('':'' @ p)) ds = ds" for p
    using i by (intro map_idI) blast
  moreover have "dedup [] ds = ds"
  proof (rule dedup_id)
    show "distinct ds" using assms(1) by (simp add: domains_ok_def)
    show "\<forall>v \<in> set ds. v \<noteq> [] \<and> v \<notin> set []"
      using valid_domain_facts(1) domains_okD [OF assms(1)] by force
  qed
  ultimately show ?thesis
    using j domains_join [OF assms] by (simp add: publicVhosts_def Let_def)
qed

text \<open>
  C39: The list of domains is well-formed and both sides read the same one: whatever the settings
  hold, the configured domains are distinct valid names in normal form and none is the placeholder
  \<open>example.com\<close>; stored as \<open>VHOST\<close> they read back unchanged; and the server takes exactly them for
  its virtual hosts.
\<close>
theorem configured_domains_wellformed:
  "let ds = configuredDomainList lib f cfg in
     distinct ds \<and>
     list_all (\<lambda>d. validDomainName d \<and> normalizeDomain lib d = d \<and> \<not> defaultLikeDomain d) ds \<and>
     (ds = [] \<or>
        configuredDomainList lib g (cfg\<lparr>sc_Domain := hd ds, sc_VHost := join '','' ds\<rparr>) = ds \<and>
        publicVhosts ul (join '','' ds) domains protocol port = ds)"
proof -
  define ds where "ds = configuredDomainList lib f cfg"
  have ok: "domains_ok ds" unfolding ds_def by (rule configured_ok)
  then have "distinct ds" "list_all (\<lambda>d. validDomainName d \<and> normalizeDomain lib d = d \<and> \<not> defaultLikeDomain d) ds"
    by (auto simp: domains_ok_def list_all_iff)
  then show ?thesis
    using configured_saved [OF ok, of "cfg\<lparr>sc_Domain := hd ds, sc_VHost := join '','' ds\<rparr>"] vhosts_of_domains [OF ok]
    by (auto simp: ds_def [symmetric] Let_def)
qed

section \<open>The DNS records\<close>

lemma solid_star: "solid CHR ''*''" "is_ascii CHR ''*''" "lower_char CHR ''*'' = CHR ''*''"
  by (auto intro: solid_ascii simp: lower_char_def char_class_defs)

lemma wildcard_prefix: "has_prefix (''*.'' @ d) ''*.''" "trim_prefix (''*.'' @ d) ''*.'' = d"
  by (simp_all add: has_prefix_def trim_prefix_def)

lemma record_host_domain:
  assumes "validDomainName d"
  shows "normalizeDNSRecordHost lib d = d" "normalizeDNSRecordHost lib (''*.'' @ d) = ''*.'' @ d"
proof -
  show "normalizeDNSRecordHost lib d = d"
    using assms by (simp add: normalizeDNSRecordHost_def valid_domain_facts trim_prefix_def)
  have ch: "\<forall>c \<in> set (''*.'' @ d). solid c \<and> is_ascii c \<and> lower_char c = c"
    using validHostname_chars [OF valid_hostname [OF assms]] host_char_facts solid_star dot_facts by auto
  then have "trim_space (''*.'' @ d) = ''*.'' @ d" "to_lower ul (''*.'' @ d) = ''*.'' @ d" for ul
    using valid_domain_facts(1) [OF assms] by (auto intro!: trim_space_id to_lower_id)
  then show "normalizeDNSRecordHost lib (''*.'' @ d) = ''*.'' @ d"
    using valid_domain_facts [OF assms]
    by (simp only: normalizeDNSRecordHost_def wildcard_prefix Let_def if_True simp_thms if_False)
qed

lemma add_record_keeps: "set hosts \<subseteq> set (add_record lib hosts h)"
  by (auto simp: add_record_def Let_def)

lemma add_record_adds:
  assumes "validDomainName d" "\<not> defaultLikeDomain d"
  shows "{d, ''*.'' @ d} \<subseteq> set (add_record lib (add_record lib hosts d) (''*.'' @ d))"
proof -
  have p: "trim_prefix d ''*.'' = d"
    using valid_domain_facts(4) [OF assms(1)] by (simp add: trim_prefix_def)
  have "d \<in> set (add_record lib hosts d)" for hosts
    using valid_domain_facts(1) [OF assms(1)] assms(2)
    by (simp add: add_record_def record_host_domain [OF assms(1)] p Let_def)
  moreover have "''*.'' @ d \<in> set (add_record lib hosts (''*.'' @ d))" for hosts
    using assms(2)
    by (simp add: add_record_def record_host_domain(2) [OF assms(1)] wildcard_prefix Let_def del: append.simps)
  ultimately show ?thesis using add_record_keeps by blast
qed

text \<open>
  Every configured domain has its record and the record of its wildcard, so that every name of a
  tunnel resolves.
\<close>

lemma dns_records_complete:
  assumes "d \<in> set (configuredDomainList lib f cfg)"
  shows "{d, ''*.'' @ d} \<subseteq> set (dns_hosts lib f cfg)"
proof -
  let ?add = "\<lambda>hosts domain. add_record lib (add_record lib hosts domain) (''*.'' @ domain)"
  have keeps: "set hosts \<subseteq> set (foldl ?add hosts ds)" for hosts ds
  proof (induction ds arbitrary: hosts)
    case (Cons e ds)
    show ?case
      using Cons.IH [of "?add hosts e"] add_record_keeps by (simp only: foldl.simps) (meson subset_trans)
  qed simp
  have "{d, ''*.'' @ d} \<subseteq> set (foldl ?add hosts ds)" if "d \<in> set ds" for hosts ds
    using that
  proof (induction ds arbitrary: hosts)
    case (Cons e ds)
    show ?case
    proof (cases "d = e")
      case True
      have "validDomainName d" "\<not> defaultLikeDomain d"
        using domains_okD [OF configured_ok assms] by auto
      then have "{d, ''*.'' @ d} \<subseteq> set (?add hosts e)" unfolding True by (rule add_record_adds)
      then show ?thesis using keeps [of "?add hosts e" ds] unfolding foldl.simps by (rule subset_trans)
    qed (use Cons in simp)
  qed simp
  then show ?thesis using assms by (simp add: dns_hosts_def del: append.simps)
qed

end
