(* ===== verification/Admin_Certs.thy ===== *)
theory Admin_Certs
  imports Admin_Domains
begin

text \<open>
  Certificates in the administration tool, \<open>src/ngrok/admin/main.go\<close>: the arguments \<open>-domainCert\<close>
  kept in \<open>NGROKD_EXTRA_ARGS\<close>, where the files of a domain lie, removing a domain, and the state of a
  certificate. PEM and X.509 are parameters.
\<close>

section \<open>The arguments of the server\<close>

definition cert_flag :: string where "cert_flag = ''-domainCert''"

definition parseDomainCertValue :: "string \<Rightarrow> string \<Rightarrow> (string \<times> string) option" where
  "parseDomainCertValue value pre =
     (if \<not> has_prefix value pre then None
      else case split_n 2 CHR '':'' (trim_prefix value pre) of
             [crt, key] \<Rightarrow> if crt = [] \<or> key = [] then None else Some (crt, key)
           | _ \<Rightarrow> None)"

fun find_cert_arg :: "string \<Rightarrow> string list \<Rightarrow> (string \<times> string) option" where
  "find_cert_arg pre [] = None"
| "find_cert_arg pre (field # rest) =
     (case rest of
        value # rest' \<Rightarrow>
          if field = cert_flag then
            (case parseDomainCertValue value pre of Some p \<Rightarrow> Some p | None \<Rightarrow> find_cert_arg pre rest')
          else if has_prefix field (cert_flag @ ''='') then
            (case parseDomainCertValue (trim_prefix field (cert_flag @ ''='')) pre of
               Some p \<Rightarrow> Some p | None \<Rightarrow> find_cert_arg pre rest)
          else find_cert_arg pre rest
      | [] \<Rightarrow>
          if has_prefix field (cert_flag @ ''='')
          then parseDomainCertValue (trim_prefix field (cert_flag @ ''='')) pre else None)"

definition domainCertArgPaths :: "string \<Rightarrow> string \<Rightarrow> (string \<times> string) option" where
  "domainCertArgPaths extraArgs domain = find_cert_arg (domain @ '':'') (go_fields extraArgs)"

text \<open>The loop that both \<open>upsertDomainCertArg\<close> and \<open>removeDomainCertArg\<close> contain.\<close>

fun without_cert_arg :: "string \<Rightarrow> string list \<Rightarrow> string list" where
  "without_cert_arg pre [] = []"
| "without_cert_arg pre (field # rest) =
     (case rest of
        value # rest' \<Rightarrow>
          if field = cert_flag then
            (if has_prefix value pre then without_cert_arg pre rest' else field # without_cert_arg pre rest)
          else if has_prefix field (cert_flag @ ''='' @ pre) then without_cert_arg pre rest
          else field # without_cert_arg pre rest
      | [] \<Rightarrow> if has_prefix field (cert_flag @ ''='' @ pre) then [] else [field])"

definition cert_arg :: "string \<Rightarrow> string \<Rightarrow> string \<Rightarrow> string" where
  "cert_arg domain crtPath keyPath = cert_flag @ ''='' @ domain @ '':'' @ crtPath @ '':'' @ keyPath"

definition upsertDomainCertArg :: "string \<Rightarrow> string \<Rightarrow> string \<Rightarrow> string \<Rightarrow> string" where
  "upsertDomainCertArg extraArgs domain crtPath keyPath =
     join '' '' (without_cert_arg (domain @ '':'') (go_fields extraArgs) @ [cert_arg domain crtPath keyPath])"

definition removeDomainCertArg :: "admin_lib \<Rightarrow> string \<Rightarrow> string \<Rightarrow> string" where
  "removeDomainCertArg lib extraArgs domain =
     join '' '' (without_cert_arg (normalizeDomain lib domain @ '':'') (go_fields extraArgs))"

section \<open>The files of a domain\<close>

definition domainCertDir :: "admin_lib \<Rightarrow> string \<Rightarrow> string \<Rightarrow> string" where
  "domainCertDir lib baseDir domain = path_join [baseDir, normalizeDomain lib domain]"

definition certPathsForDomain :: "admin_lib \<Rightarrow> string \<Rightarrow> string \<Rightarrow> serverConfig \<Rightarrow> string \<times> string" where
  "certPathsForDomain lib certDir domain cfg =
     (let cfg = applyDefaults cfg; domain = normalizeDomain lib domain in
      if domain = normalizeDomain lib (sc_Domain cfg) then (sc_TLSCrt cfg, sc_TLSKey cfg)
      else case domainCertArgPaths (sc_ExtraArgs cfg) domain of
             Some (crt, key) \<Rightarrow> (crt, key)
           | None \<Rightarrow>
               let base = domainCertDir lib certDir domain
               in (path_join [base, ''fullchain.pem''], path_join [base, ''privkey.pem'']))"

text \<open>The part of \<open>removeDomainFromConfig\<close> that makes another domain the primary one.\<close>

definition promote_domain :: "admin_lib \<Rightarrow> string \<Rightarrow> string \<Rightarrow> string \<Rightarrow> serverConfig \<Rightarrow> serverConfig" where
  "promote_domain lib certDir domain next cfg =
     (let cfg = cfg\<lparr>sc_Domain := next\<rparr>;
          cfg = (case domainCertArgPaths (sc_ExtraArgs cfg) next of
                   Some (crt, key) \<Rightarrow>
                     cfg\<lparr>sc_TLSCrt := crt, sc_TLSKey := key,
                         sc_ExtraArgs := removeDomainCertArg lib (sc_ExtraArgs cfg) next\<rparr>
                 | None \<Rightarrow>
                     cfg\<lparr>sc_TLSCrt := path_join [domainCertDir lib certDir next, ''fullchain.pem''],
                         sc_TLSKey := path_join [domainCertDir lib certDir next, ''privkey.pem'']\<rparr>);
          controlHost = normalizeDomain lib (sc_ControlHost cfg)
      in if defaultLikeControlHost (sc_ControlHost cfg) \<or> controlHost = domain \<or>
            has_suffix controlHost (CHR ''.'' # domain)
         then cfg\<lparr>sc_ControlHost := ''ngrok.'' @ next\<rparr> else cfg)"

definition removeDomainFromConfig ::
  "admin_lib \<Rightarrow> string option \<Rightarrow> string \<Rightarrow> string \<Rightarrow> serverConfig \<Rightarrow> serverConfig result"
where
  "removeDomainFromConfig lib envFile certDir domain cfg =
     (let domain = normalizeDomain lib domain in
      if domain = [] \<or> \<not> validDomainName domain then Inl ''domain is invalid''
      else let current = configuredDomainList lib envFile cfg;
               remaining = filter (\<lambda>item. item \<noteq> domain) current
           in if domain \<notin> set current then Inl ''domain not found''
      else let cfg = cfg\<lparr>sc_ExtraArgs := removeDomainCertArg lib (sc_ExtraArgs cfg) domain\<rparr> in
      case remaining of
        [] \<Rightarrow>
          Inr (applyDefaults
            (cfg\<lparr>sc_Domain := ''example.com'', sc_ControlHost := ''ngrok.example.com'',
                 sc_TLSCrt := ''/etc/ngrok/tls/fullchain.pem'', sc_TLSKey := ''/etc/ngrok/tls/privkey.pem'',
                 sc_ExtraArgs := [], sc_VHost := []\<rparr>))
      | next # _ \<Rightarrow>
          let cfg =
            (if normalizeDomain lib (sc_Domain cfg) = domain \<or> defaultLikeDomain (sc_Domain cfg)
             then promote_domain lib certDir domain next cfg else cfg)
          in Inr (cfg\<lparr>sc_VHost := join '','' remaining\<rparr>))"

section \<open>Checks\<close>

record checkItem =
  ck_Name :: string
  ck_State :: string
  ck_Detail :: string

text \<open>
  A parsed certificate: its fields, \<open>VerifyHostname\<close> (\<open>None\<close> is success), and the formatted end of
  its validity. \<open>decode\<close> in the functions below is \<open>pem.Decode\<close> (\<open>None\<close> for no block) followed by
  \<open>x509.ParseCertificate\<close>.
\<close>

record x509_cert =
  xc_Subject :: string
  xc_Issuer :: string
  xc_NotAfter :: int
  xc_NotAfterText :: string
  xc_DNSNames :: "string list"
  xc_VerifyHostname :: "string \<Rightarrow> string option"

type_synonym cert_decoder = "string \<Rightarrow> x509_cert result option"

record certStatus =
  cs_Path :: string
  cs_Subject :: string
  cs_Issuer :: string
  cs_NotAfter :: string
  cs_DNSNames :: string
  cs_DomainOK :: string
  cs_WildcardOK :: string
  cs_Error :: string

definition no_status :: "string \<Rightarrow> certStatus" where
  "no_status path = \<lparr>cs_Path = path, cs_Subject = [], cs_Issuer = [], cs_NotAfter = [], cs_DNSNames = [],
     cs_DomainOK = [], cs_WildcardOK = [], cs_Error = []\<rparr>"

definition boolState :: "bool \<Rightarrow> string" where
  "boolState ok = (if ok then ''ok'' else ''fail'')"

text \<open>\<open>read path\<close> is \<open>os.ReadFile\<close>.\<close>

definition readCertStatus :: "cert_decoder \<Rightarrow> (string \<Rightarrow> string result) \<Rightarrow> serverConfig \<Rightarrow> certStatus" where
  "readCertStatus decode read cfg =
     (let cfg = applyDefaults cfg; status = no_status (sc_TLSCrt cfg) in
      case read (sc_TLSCrt cfg) of
        Inl err \<Rightarrow> status\<lparr>cs_Error := err\<rparr>
      | Inr b \<Rightarrow>
          (case decode b of
             None \<Rightarrow> status\<lparr>cs_Error := ''no PEM certificate found''\<rparr>
           | Some (Inl err) \<Rightarrow> status\<lparr>cs_Error := err\<rparr>
           | Some (Inr cert) \<Rightarrow>
               status\<lparr>cs_Subject := xc_Subject cert, cs_Issuer := xc_Issuer cert,
                 cs_NotAfter := xc_NotAfterText cert, cs_DNSNames := join '', '' (xc_DNSNames cert),
                 cs_DomainOK := boolState (xc_VerifyHostname cert (sc_Domain cfg) = None),
                 cs_WildcardOK := boolState (xc_VerifyHostname cert (''test.'' @ sc_Domain cfg) = None)\<rparr>))"

definition certStateForDomain ::
  "cert_decoder \<Rightarrow> (string \<Rightarrow> string result) \<Rightarrow> int \<Rightarrow> string \<Rightarrow> string \<Rightarrow> string \<times> string"
where
  "certStateForDomain decode read now domain certPath =
     (if certPath = [] then (''missing'', [])
      else case read certPath of
             Inl _ \<Rightarrow> (''missing'', certPath)
           | Inr b \<Rightarrow>
               (case decode b of
                  None \<Rightarrow> (''fail'', ''no PEM certificate found'')
                | Some (Inl err) \<Rightarrow> (''fail'', err)
                | Some (Inr cert) \<Rightarrow>
                    if xc_NotAfter cert < now then (''fail'', xc_NotAfterText cert)
                    else case xc_VerifyHostname cert domain of
                           Some err \<Rightarrow> (''fail'', err)
                         | None \<Rightarrow>
                             (case xc_VerifyHostname cert (''test.'' @ domain) of
                                Some err \<Rightarrow> (''fail'', err)
                              | None \<Rightarrow> (''ok'', xc_NotAfterText cert))))"

text \<open>\<open>lookup\<close> is \<open>net.LookupHost\<close>.\<close>

definition dnsCheck :: "(string \<Rightarrow> string list result) \<Rightarrow> string \<Rightarrow> string \<Rightarrow> checkItem" where
  "dnsCheck lookup name host =
     (case lookup host of
        Inl err \<Rightarrow> \<lparr>ck_Name = name, ck_State = ''fail'', ck_Detail = err\<rparr>
      | Inr addrs \<Rightarrow> \<lparr>ck_Name = name, ck_State = ''ok'', ck_Detail = join '', '' addrs\<rparr>)"

text \<open>Times are in nanoseconds; the name of a probe has the seconds.\<close>

definition probe_name :: "int \<Rightarrow> string \<Rightarrow> string" where
  "probe_name now domain = ''probe-'' @ show_int (now div 1000000000) @ ''.'' @ domain"

definition domainDNSChecks :: "(string \<Rightarrow> string list result) \<Rightarrow> int \<Rightarrow> string list \<Rightarrow> checkItem list" where
  "domainDNSChecks lookup now domains =
     concat (map (\<lambda>domain. [dnsCheck lookup domain domain, dnsCheck lookup (''*.'' @ domain) (probe_name now domain)])
       domains)"

fun firstFailedCheck :: "checkItem list \<Rightarrow> checkItem option" where
  "firstFailedCheck [] = None"
| "firstFailedCheck (c # cs) = (if ck_State c \<noteq> ''ok'' then Some c else firstFailedCheck cs)"

record domainCertRow =
  cr_Domain :: string
  cr_RootDNS :: checkItem
  cr_WildcardDNS :: checkItem
  cr_CertState :: string
  cr_CertDetail :: string
  cr_Primary :: bool

definition domainCertRows ::
  "admin_lib \<Rightarrow> cert_decoder \<Rightarrow> (string \<Rightarrow> string result) \<Rightarrow> (string \<Rightarrow> string list result) \<Rightarrow> int \<Rightarrow>
   string \<Rightarrow> string list \<Rightarrow> serverConfig \<Rightarrow> domainCertRow list"
where
  "domainCertRows lib decode read lookup now certDir domains cfg =
     (let cfg = applyDefaults cfg in
      map (\<lambda>domain.
             let (crtPath, _) = certPathsForDomain lib certDir domain cfg;
                 (certState, certDetail) = certStateForDomain decode read now domain crtPath
             in \<lparr>cr_Domain = domain, cr_RootDNS = dnsCheck lookup domain domain,
                 cr_WildcardDNS = dnsCheck lookup (''*.'' @ domain) (probe_name now domain),
                 cr_CertState = certState, cr_CertDetail = certDetail,
                 cr_Primary = (domain = normalizeDomain lib (sc_Domain cfg))\<rparr>)
        domains)"

definition cfgCertificatesIncomplete :: "domainCertRow list \<Rightarrow> bool" where
  "cfgCertificatesIncomplete rows = (rows = [] \<or> list_ex (\<lambda>row. cr_CertState row \<noteq> ''ok'') rows)"

section \<open>Words of a command line\<close>

text \<open>A word: not empty, and no suffix of it begins with white space.\<close>

fun wordy :: "string \<Rightarrow> bool" where
  "wordy [] = True"
| "wordy (c # s) = (leading_seq space_seqs (c # s) = None \<and> wordy s)"

lemma leading_None: "leading_seq ps s = None \<longleftrightarrow> (\<forall>p \<in> set ps. \<not> has_prefix s p)"
  by (induction ps) auto

lemma space_alone: "p \<in> set space_seqs \<Longrightarrow> CHR '' '' \<in> set p \<Longrightarrow> p = '' ''"
  by (auto simp: space_seqs_def utf8_spaces_def char_of_def)

lemma space_seq: "'' '' \<in> set space_seqs"
  by (simp add: space_seqs_def utf8_spaces_def char_of_def)

lemma no_space_append:
  assumes "leading_seq space_seqs (c # s) = None"
  shows "leading_seq space_seqs (c # s @ CHR '' '' # r) = None"
proof -
  have "\<not> has_prefix (c # s @ CHR '' '' # r) p" if p: "p \<in> set space_seqs" for p
  proof
    assume h: "has_prefix (c # s @ CHR '' '' # r) p"
    then obtain q where q: "(c # s) @ CHR '' '' # r = p @ q" by (auto simp: has_prefix_iff)
    have "\<not> has_prefix (c # s) p" using assms p by (auto simp: leading_None)
    then have "\<nexists>q. c # s = p @ q" by (simp add: has_prefix_iff)
    with q obtain u where "p = (c # s) @ CHR '' '' # u"
      by (auto simp: append_eq_append_conv2 Cons_eq_append_conv)
    then have "CHR '' '' \<in> set p" "length p \<noteq> 1" by simp_all
    then show False using space_alone [OF p] by simp
  qed
  then show ?thesis by (auto simp: leading_None)
qed

lemma leading_front: "leading_seq space_seqs (a @ b) = None \<Longrightarrow> leading_seq space_seqs a = None"
  by (auto simp: leading_None has_prefix_iff)

lemma cut_space_wordy: "wordy (fst (cut_space s))"
proof (induction s rule: cut_space.induct)
  case (2 c s)
  show ?case
  proof (cases "leading_seq space_seqs (c # s) = None")
    case True
    then have "leading_seq space_seqs (c # fst (cut_space s)) = None"
      using cut_space_append [of s] leading_front [of "c # fst (cut_space s)" "snd (cut_space s)"] by simp
    then show ?thesis using 2 True by (auto split: prod.splits)
  qed auto
qed simp

lemma go_fields_words: "w \<in> set (go_fields s) \<Longrightarrow> w \<noteq> [] \<and> wordy w"
proof (induction s rule: go_fields.induct)
  case (1 s)
  define t where "t = trim_left_seqs space_seqs s"
  show ?case
  proof (cases "t = []")
    case True
    then show ?thesis using "1.prems" by (subst (asm) go_fields.simps) (simp add: t_def)
  next
    case False
    then have "leading_seq space_seqs t = None"
      unfolding t_def using space_seqs_nonempty by (intro trim_left_stops) auto
    then have "fst (cut_space t) \<noteq> []"
      using False by (cases t) (auto split: prod.splits)
    moreover have "w = fst (cut_space t) \<or> w \<in> set (go_fields (snd (cut_space t)))"
      using "1.prems" False by (subst (asm) go_fields.simps) (simp add: t_def [symmetric] Let_def)
    ultimately show ?thesis
      using "1.IH" [of t] False cut_space_wordy [of t] t_def by metis
  qed
qed

lemma cut_space_word: "wordy w \<Longrightarrow> cut_space w = (w, [])"
  by (induction w rule: wordy.induct) auto

lemma cut_space_next: "wordy w \<Longrightarrow> cut_space (w @ CHR '' '' # r) = (w, CHR '' '' # r)"
proof (induction w rule: wordy.induct)
  case 1
  have "has_prefix (CHR '' '' # r) '' ''" by (simp add: has_prefix_def)
  then have "leading_seq space_seqs (CHR '' '' # r) \<noteq> None"
    using space_seq leading_None by blast
  then show ?case by auto
next
  case (2 c s)
  then show ?case using no_space_append [of c s r] by simp
qed

lemma trim_left_word: "leading_seq space_seqs s = None \<Longrightarrow> trim_left_seqs space_seqs s = s"
  by (subst trim_left_seqs.simps) simp

lemma go_fields_space: "go_fields (CHR '' '' # s) = go_fields s"
  by (subst (1 2) go_fields.simps) (simp add: trim_left_space)

text \<open>Joined words are found again.\<close>

lemma go_fields_join: "\<forall>w \<in> set ws. w \<noteq> [] \<and> wordy w \<Longrightarrow> go_fields (join '' '' ws) = ws"
proof (induction "'' ''" ws rule: join.induct)
  case 1
  have "trim_left_seqs space_seqs [] = []" using trim_left_shorter [of space_seqs "[]"] by simp
  then show ?case by (subst go_fields.simps) simp
next
  case (2 x)
  obtain c s where x: "x = c # s" using 2 by (cases x) auto
  then have "trim_left_seqs space_seqs x = x" using 2 by (intro trim_left_word) simp
  moreover have "trim_left_seqs space_seqs [] = []" using trim_left_shorter [of space_seqs "[]"] by simp
  then have "go_fields [] = []" by (subst go_fields.simps) simp
  ultimately show ?case
    using 2 cut_space_word [of x] by (subst go_fields.simps) (simp add: x Let_def)
next
  case (3 x y ys)
  obtain c s where x: "x = c # s" using 3 by (cases x) auto
  let ?t = "x @ CHR '' '' # join '' '' (y # ys)"
  have "leading_seq space_seqs ?t = None"
    using 3(2) no_space_append [of c s "join '' '' (y # ys)"] x by simp
  then have "trim_left_seqs space_seqs ?t = ?t" by (rule trim_left_word)
  moreover have "cut_space ?t = (x, CHR '' '' # join '' '' (y # ys))"
    using 3(2) by (intro cut_space_next) simp
  ultimately have "go_fields ?t = x # go_fields (join '' '' (y # ys))"
    by (subst go_fields.simps) (simp add: x Let_def go_fields_space)
  then show ?case using 3 by simp
qed

lemma solid_wordy: "list_all solid w \<Longrightarrow> wordy w"
proof (induction w rule: wordy.induct)
  case (2 c s)
  have "leading_seq space_seqs (c # s) = None"
    using 2(2) space_seqs_nonempty by (intro leading_seq_None) (auto simp: solid_def list_all_iff)
  then show ?case using 2 by simp
qed simp

section \<open>Storing the certificate of a domain\<close>

text \<open>
  Arguments in which every flag \<open>-domainCert\<close> that stands alone is followed by its value.
\<close>

fun flags_ok :: "string list \<Rightarrow> bool" where
  "flags_ok [] = True"
| "flags_ok [f] = (f \<noteq> cert_flag)"
| "flags_ok (f # v # fs) = (if f = cert_flag then \<not> has_prefix v ''-'' \<and> flags_ok fs else flags_ok (v # fs))"

lemma cert_flag_facts: "has_prefix (cert_flag @ s) ''-''" "cert_flag \<noteq> cert_flag @ CHR ''='' # s"
  by (simp_all add: cert_flag_def has_prefix_def)

lemma flag_value:
  assumes "\<not> has_prefix v ''-''"
  shows "v \<noteq> cert_flag" "\<not> has_prefix v (cert_flag @ s)"
  using assms by (auto simp: cert_flag_def has_prefix_iff)

lemma find_value: "\<not> has_prefix v ''-'' \<Longrightarrow> find_cert_arg pre (v # fs) = find_cert_arg pre fs"
  using flag_value [of v] by (cases fs) simp_all

lemma without_value: "\<not> has_prefix v ''-'' \<Longrightarrow> without_cert_arg pre (v # fs) = v # without_cert_arg pre fs"
  using flag_value [of v] by (cases fs) simp_all

lemma find_flag:
  "find_cert_arg pre (cert_flag # v # fs) =
     (case parseDomainCertValue v pre of Some p \<Rightarrow> Some p | None \<Rightarrow> find_cert_arg pre fs)"
  by simp

lemma find_other:
  "f \<noteq> cert_flag \<Longrightarrow> find_cert_arg pre (f # fs) =
     (if has_prefix f (cert_flag @ ''='') then
        (case parseDomainCertValue (trim_prefix f (cert_flag @ ''='')) pre of
           Some p \<Rightarrow> Some p | None \<Rightarrow> find_cert_arg pre fs)
      else find_cert_arg pre fs)"
  by (cases fs) (simp_all split: option.splits)

lemma without_other:
  "f \<noteq> cert_flag \<Longrightarrow> without_cert_arg pre (f # fs) =
     (if has_prefix f (cert_flag @ ''='' @ pre) then without_cert_arg pre fs else f # without_cert_arg pre fs)"
  by (cases fs) simp_all

lemma without_flag:
  "\<not> has_prefix v ''-'' \<Longrightarrow> without_cert_arg pre (cert_flag # v # fs) =
     (if has_prefix v pre then without_cert_arg pre fs else cert_flag # v # without_cert_arg pre fs)"
  using without_value [of v pre fs] by simp

lemmas cert_arg_walks = find_flag find_other without_flag without_other

lemma flags_ok_flag: "flags_ok (cert_flag # v # fs) \<longleftrightarrow> \<not> has_prefix v ''-'' \<and> flags_ok fs"
  by simp

lemma flags_ok_other: "f \<noteq> cert_flag \<Longrightarrow> flags_ok (f # fs) \<longleftrightarrow> flags_ok fs"
  by (cases fs) simp_all

declare find_cert_arg.simps(2) [simp del] without_cert_arg.simps(2) [simp del]

text \<open>An induction along the pairs of such arguments.\<close>

lemma flags_induct [consumes 1, case_names Nil Flag Other]:
  assumes "flags_ok fs"
    and "P []"
    and "\<And>v fs. \<lbrakk>\<not> has_prefix v ''-''; flags_ok fs; P fs\<rbrakk> \<Longrightarrow> P (cert_flag # v # fs)"
    and "\<And>f fs. \<lbrakk>f \<noteq> cert_flag; flags_ok fs; P fs\<rbrakk> \<Longrightarrow> P (f # fs)"
  shows "P fs"
  using assms(1)
proof (induction fs rule: flags_ok.induct)
  case (2 f)
  then show ?case using assms(2) assms(4) [of f "[]"] by simp
next
  case (3 f v fs)
  then show ?case using assms(3) [of v fs] assms(4) [of f "v # fs"] by (cases "f = cert_flag") simp_all
qed (rule assms(2))

declare flags_ok.simps(3) [simp del]

lemma trim_prefix_append [simp]: "trim_prefix (p @ s) p = s"
  by (simp add: trim_prefix_def has_prefix_iff)

lemma prefix_parts: "has_prefix f (a @ b) \<longleftrightarrow> has_prefix f a \<and> has_prefix (trim_prefix f a) b"
  by (auto simp: has_prefix_iff)

lemma parse_needs_prefix: "\<not> has_prefix v pre \<Longrightarrow> parseDomainCertValue v pre = None"
  by (simp add: parseDomainCertValue_def)

lemma without_ok: "flags_ok fs \<Longrightarrow> flags_ok (without_cert_arg pre fs)"
proof (induction fs rule: flags_induct)
  case (Flag v fs)
  then show ?case by (simp add: without_flag flags_ok_flag)
next
  case (Other f fs)
  then show ?case by (simp add: without_other flags_ok_other)
qed simp

lemma without_not_found: "flags_ok fs \<Longrightarrow> find_cert_arg pre (without_cert_arg pre fs) = None"
proof (induction fs rule: flags_induct)
  case (Flag v fs)
  then show ?case by (simp add: without_flag find_flag parse_needs_prefix)
next
  case (Other f fs)
  then show ?case
    using prefix_parts [of f "cert_flag @ ''=''" pre]
    by (auto simp: without_other find_other parse_needs_prefix)
qed simp

text \<open>The values of two domains differ before their first colon.\<close>

lemma other_domain:
  assumes "CHR '':'' \<notin> set d" "CHR '':'' \<notin> set e" "d \<noteq> e" "has_prefix v (d @ '':'')"
  shows "parseDomainCertValue v (e @ '':'') = None"
proof -
  have "\<not> has_prefix v (e @ '':'')"
    using assms append_sep_eq
    by (auto simp: has_prefix_iff) (metis cut_append option.inject prod.inject)
  then show ?thesis by (rule parse_needs_prefix)
qed

lemma without_keeps_others:
  assumes "flags_ok fs" "CHR '':'' \<notin> set d" "CHR '':'' \<notin> set e" "d \<noteq> e"
  shows "find_cert_arg (e @ '':'') (without_cert_arg (d @ '':'') fs) = find_cert_arg (e @ '':'') fs"
  using assms(1)
proof (induction fs rule: flags_induct)
  case (Flag v fs)
  then show ?case
    using other_domain [OF assms(2-4), of v] by (auto simp: without_flag find_flag split: option.splits)
next
  case (Other f fs)
  then show ?case
    using other_domain [OF assms(2-4)] prefix_parts [of f "cert_flag @ ''=''" "d @ '':''"]
    by (auto simp: without_other find_other split: option.splits)
qed simp

lemma find_append: "flags_ok fs \<Longrightarrow> find_cert_arg pre (fs @ gs) =
    (case find_cert_arg pre fs of Some p \<Rightarrow> Some p | None \<Rightarrow> find_cert_arg pre gs)"
proof (induction fs rule: flags_induct)
  case (Flag v fs)
  then show ?case by (simp add: find_flag split: option.splits)
next
  case (Other f fs)
  then show ?case by (simp add: find_other split: option.splits)
qed simp

lemma flags_ok_append: "flags_ok fs \<Longrightarrow> flags_ok gs \<Longrightarrow> flags_ok (fs @ gs)"
proof (induction fs rule: flags_induct)
  case (Flag v fs)
  then show ?case by (simp add: flags_ok_flag)
next
  case (Other f fs)
  then show ?case by (simp add: flags_ok_other)
qed simp

lemma without_subset: "set (without_cert_arg pre fs) \<subseteq> set fs"
proof (induction fs rule: length_induct)
  case (1 fs)
  show ?case
  proof (cases fs)
    case f: (Cons f rest)
    show ?thesis
    proof (cases rest)
      case r: (Cons v rest')
      have "set (without_cert_arg pre rest') \<subseteq> set rest'" "set (without_cert_arg pre rest) \<subseteq> set rest"
        using 1 f r by (simp, force)
      then show ?thesis
        unfolding f without_cert_arg.simps(2) [of pre f rest] unfolding r list.case by auto
    qed (simp add: f without_cert_arg.simps(2))
  qed simp
qed

lemma stored_fields:
  "go_fields (join '' '' (without_cert_arg pre (go_fields s))) = without_cert_arg pre (go_fields s)"
  using go_fields_words without_subset by (intro go_fields_join) blast

lemma cert_arg_value: "trim_prefix (cert_arg d crt key) (cert_flag @ ''='') = d @ '':'' @ crt @ '':'' @ key"
proof -
  have "cert_arg d crt key = (cert_flag @ ''='') @ d @ '':'' @ crt @ '':'' @ key"
    by (simp add: cert_arg_def)
  then show ?thesis by (simp only: trim_prefix_append)
qed

lemma parse_stored:
  assumes "crt \<noteq> []" "CHR '':'' \<notin> set crt" "key \<noteq> []"
  shows "parseDomainCertValue (d @ '':'' @ crt @ '':'' @ key) (d @ '':'') = Some (crt, key)"
proof -
  have "trim_prefix ((d @ '':'') @ crt @ '':'' @ key) (d @ '':'') = crt @ '':'' @ key"
    by (rule trim_prefix_append)
  moreover have "cut CHR '':'' (crt @ CHR '':'' # key) = Some (crt, key)"
    using assms(2) by (rule cut_append)
  ultimately show ?thesis
    using assms(1,3) by (simp add: parseDomainCertValue_def has_prefix_iff numeral_2_eq_2)
qed

text \<open>What every path in the arguments must be: not empty, without white space, and the first without a colon.\<close>

definition storable :: "string \<Rightarrow> string \<Rightarrow> bool" where
  "storable crt key \<longleftrightarrow>
     crt \<noteq> [] \<and> CHR '':'' \<notin> set crt \<and> key \<noteq> [] \<and> list_all solid crt \<and> list_all solid key"

lemma cert_arg_word:
  assumes "validDomainName d" "storable crt key"
  shows "cert_arg d crt key \<noteq> [] \<and> wordy (cert_arg d crt key)"
proof -
  have "list_all solid cert_flag" "list_all solid ''=''" "list_all solid '':''"
    by (simp_all add: cert_flag_def solid_ascii)
  moreover have "list_all solid d"
    using validHostname_chars [OF valid_hostname [OF assms(1)]] host_char_facts(1) by (simp add: list_all_iff)
  ultimately have "list_all solid (cert_arg d crt key)"
    using assms(2) unfolding storable_def cert_arg_def list_all_append by blast
  moreover have "cert_arg d crt key \<noteq> []" by (simp add: cert_arg_def)
  ultimately show ?thesis using solid_wordy by blast
qed

lemma cert_arg_other: "cert_arg d crt key \<noteq> cert_flag" "has_prefix (cert_arg d crt key) (cert_flag @ ''='')"
  by (simp_all add: cert_arg_def cert_flag_def has_prefix_def)

lemma upsert_fields:
  assumes "validDomainName d" "storable crt key"
  shows "go_fields (upsertDomainCertArg extra d crt key) =
    without_cert_arg (d @ '':'') (go_fields extra) @ [cert_arg d crt key]"
proof -
  have "w \<noteq> [] \<and> wordy w" if "w \<in> set (without_cert_arg (d @ '':'') (go_fields extra) @ [cert_arg d crt key])" for w
    using that go_fields_words [of w extra] without_subset cert_arg_word [OF assms] by fastforce
  then show ?thesis unfolding upsertDomainCertArg_def by (intro go_fields_join) blast
qed

text \<open>
  Storing a certificate for a domain: with arguments in which every \<open>-domainCert\<close> has its value,
  the paths that are stored for a domain are the ones found for it, and the server reads the same
  domain and paths from the new argument; after the domain is removed none are found; and neither
  step changes what is found for another domain.
\<close>
theorem cert_args_stored:
  assumes "flags_ok (go_fields extra)" "validDomainName d" "validDomainName e" "e \<noteq> d" "storable crt key"
  shows "let args = upsertDomainCertArg extra d crt key; gone = removeDomainCertArg lib args d in
     domainCertArgPaths args d = Some (crt, key) \<and>
     domainCertArgPaths gone d = None \<and>
     domainCertArgPaths args e = domainCertArgPaths extra e \<and>
     domainCertArgPaths gone e = domainCertArgPaths extra e \<and>
     flags_ok (go_fields args) \<and> flags_ok (go_fields gone) \<and>
     parseDomainTLSConfigs ul [trim_prefix (cert_arg d crt key) (cert_flag @ ''='')] =
       Inr [\<lparr>dt_Domain = d, dt_CrtPath = crt, dt_KeyPath = key\<rparr>]"
proof -
  define kept where "kept = without_cert_arg (d @ '':'') (go_fields extra)"
  define args where "args = upsertDomainCertArg extra d crt key"
  note s = assms(5) [unfolded storable_def]
  have f: "go_fields args = kept @ [cert_arg d crt key]"
    unfolding args_def kept_def by (rule upsert_fields [OF assms(2,5)])
  have k: "flags_ok kept" "find_cert_arg (d @ '':'') kept = None"
    "find_cert_arg (e @ '':'') kept = find_cert_arg (e @ '':'') (go_fields extra)"
    unfolding kept_def using assms(1-4) valid_domain_facts(8)
    by (auto intro: without_ok without_not_found without_keeps_others)
  have one: "flags_ok [cert_arg d crt key]" by (simp add: cert_arg_other)
  have ok: "flags_ok (go_fields args)" unfolding f by (rule flags_ok_append [OF k(1) one])
  have gone: "go_fields (removeDomainCertArg lib args d) = without_cert_arg (d @ '':'') (go_fields args)"
    using assms(2) by (simp add: removeDomainCertArg_def stored_fields)
  have own: "find_cert_arg (d @ '':'') [cert_arg d crt key] = Some (crt, key)"
    using parse_stored [of crt key d] s cert_arg_value [of d crt key] cert_arg_other
    by (simp add: find_other)
  have "has_prefix (d @ '':'' @ crt @ '':'' @ key) (d @ '':'')" by (simp add: has_prefix_iff)
  then have no_e: "find_cert_arg (e @ '':'') [cert_arg d crt key] = None"
    using other_domain [of d e] assms(2-4) valid_domain_facts(8) cert_arg_value [of d crt key] cert_arg_other
    by (simp add: find_other)
  have dom: "split_n 3 CHR '':'' (d @ '':'' @ crt @ '':'' @ key) = [d, crt, key]"
    using cut_append [OF valid_domain_facts(8) [OF assms(2)]] cut_append [of "CHR '':''" crt key] s
    by (simp add: numeral_3_eq_3)
  have "parseDomainTLSConfigs ul [d @ '':'' @ crt @ '':'' @ key] =
      Inr [\<lparr>dt_Domain = d, dt_CrtPath = crt, dt_KeyPath = key\<rparr>]"
    using valid_hostname [OF assms(2)] valid_domain_facts(2,3) [OF assms(2)]
    by (simp add: dom [simplified] Let_def)
  then show ?thesis
    using k own no_e ok without_not_found [OF ok] without_ok [OF ok]
      without_keeps_others [OF ok, of d e] assms(2-4) valid_domain_facts(8)
    unfolding Let_def args_def [symmetric] domainCertArgPaths_def gone cert_arg_value f
    by (simp add: find_append split: option.split)
qed

theorem cert_args_stored_witness:
  "domainCertArgPaths (upsertDomainCertArg ''-x -domainCert a.org:/c:/k'' ''b.org'' ''/crt'' ''/key'') ''b.org'' = Some (''/crt'', ''/key'') \<and>
   domainCertArgPaths (upsertDomainCertArg ''-x -domainCert a.org:/c:/k'' ''b.org'' ''/crt'' ''/key'') ''a.org'' = Some (''/c'', ''/k'')"
proof -
  have w: "flags_ok (go_fields ''-x -domainCert a.org:/c:/k'')"
    "domainCertArgPaths ''-x -domainCert a.org:/c:/k'' ''a.org'' = Some (''/c'', ''/k'')"
    by code_simp+
  have d: "validDomainName ''a.org''" "validDomainName ''b.org''" "storable ''/crt'' ''/key''"
    by code_simp+
  show ?thesis
    using cert_args_stored [OF w(1) d(2,1) _ d(3), of sample_lib id] w(2) by (simp add: Let_def)
qed

section \<open>Removing a domain\<close>

text \<open>
  The first domain of the list is the domain of the settings, if that one can be in the list.
\<close>

lemma configured_head:
  "configuredDomainList lib f cfg =
     foldl (add_configured lib) (add_configured lib [] (sc_Domain (applyDefaults cfg)))
       (split_on CHR '','' (if sc_VHost cfg = [] then env_get (readEnvFile lib f) ''VHOST'' else sc_VHost cfg))"
  by (simp add: configuredDomainList_def Let_def)

lemma add_configured_cases: "add_configured lib ds d = ds \<or> add_configured lib ds d = ds @ [normalizeDomain lib d]"
  by (simp add: add_configured_def Let_def)

lemma foldl_add_front: "\<exists>vs'. foldl (add_configured lib) ds vs = ds @ vs'"
proof (induction vs arbitrary: ds)
  case (Cons v vs)
  obtain ws where "foldl (add_configured lib) (add_configured lib ds v) vs = add_configured lib ds v @ ws"
    using Cons by blast
  then show ?case
    using add_configured_cases [of lib ds v] by auto
qed simp

text \<open>What the settings keep of a list \<open>ds\<close> is the list itself, if their domain is its first one or no domain of a list.\<close>

lemma configured_kept:
  assumes "domains_ok ds" "ds \<noteq> []" "sc_VHost cfg = join '','' ds"
    and "add_configured lib [] (sc_Domain (applyDefaults cfg)) \<in> {[], [hd ds]}"
  shows "configuredDomainList lib f cfg = ds"
proof -
  obtain d rest where ds: "ds = d # rest" using assms(2) by (cases ds) auto
  have d: "validDomainName d" "\<not> defaultLikeDomain d" "d \<noteq> []"
    using domains_okD [OF assms(1), of d] valid_domain_facts(1) by (auto simp: ds)
  have v: "sc_VHost cfg \<noteq> []" using assms(2,3) d(3) by (simp add: ds join_nonempty)
  have one: "add_configured lib [] d = [d]" "add_configured lib [d] d = [d]"
    using d by (simp_all add: add_configured_def Let_def)
  have "foldl (add_configured lib) [d] rest = ds"
    using foldl_add_fresh [of "[d]" rest lib] assms(1) by (simp add: ds)
  then show ?thesis
    using v one assms(4) domains_join [OF assms(1,2)] by (auto simp: configured_head assms(3) ds)
qed

lemma default_config_list:
  assumes "sc_Domain cfg = ''example.com''" "sc_VHost cfg = []" "env_get (readEnvFile lib g) ''VHOST'' = []"
  shows "configuredDomainList lib g cfg = []"
proof -
  have "to_lower (al_lower lib) (trim_space []) = []" by (simp add: to_lower_def)
  then have "normalizeDomain lib [] = []"
    by (simp add: normalizeDomain_def Let_def trim_prefix_def trim_suffix_def has_prefix_def has_suffix_def
        stripPort_def split_host_port_def last_cut_def)
  then have e: "add_configured lib ds [] = ds" for ds by (simp add: add_configured_def)
  have "validDomainName ''example.com''" by code_simp
  then have "add_configured lib [] ''example.com'' = []"
    by (simp add: add_configured_def defaultLikeDomain_def)
  then show ?thesis
    using assms e by (simp add: configured_head)
qed

lemma promote_facts:
  "sc_Domain (promote_domain lib certDir d nxt c) = nxt"
  "sc_ExtraArgs (promote_domain lib certDir d nxt c) \<in> {sc_ExtraArgs c, removeDomainCertArg lib (sc_ExtraArgs c) nxt}"
  by (auto simp: promote_domain_def Let_def split: option.splits)

text \<open>
  Removing a domain removes exactly it: afterwards the list has every other domain in the same
  order, whichever domain was the primary one, so that the server serves the others and no longer
  that one, and no certificate argument of it is left.
\<close>
theorem domain_removed:
  assumes "removeDomainFromConfig lib f certDir d cfg = Inr cfg'" "flags_ok (go_fields (sc_ExtraArgs cfg))"
    and "env_get (readEnvFile lib g) ''VHOST'' = sc_VHost cfg'"
  shows "normalizeDomain lib d \<in> set (configuredDomainList lib f cfg) \<and>
    configuredDomainList lib g cfg' = filter (\<lambda>x. x \<noteq> normalizeDomain lib d) (configuredDomainList lib f cfg) \<and>
    domainCertArgPaths (sc_ExtraArgs cfg') (normalizeDomain lib d) = None"
proof -
  define n where "n = normalizeDomain lib d"
  define current where "current = configuredDomainList lib f cfg"
  define args where "args = removeDomainCertArg lib (sc_ExtraArgs cfg) n"
  have r: "validDomainName n" "n \<in> set current"
    using assms(1) by (auto simp: removeDomainFromConfig_def n_def current_def Let_def split: if_splits)
  have ne: "n \<noteq> []" by (rule valid_domain_facts(1) [OF r(1)])
  have ok: "domains_ok (filter (\<lambda>x. x \<noteq> n) current)"
    using configured_ok [of lib f cfg] by (auto simp: current_def domains_ok_def list_all_iff)
  have gone: "flags_ok (go_fields args)" "find_cert_arg (n @ '':'') (go_fields args) = None"
    using without_ok [OF assms(2)] without_not_found [OF assms(2)] r(1)
    by (simp_all add: args_def removeDomainCertArg_def stored_fields)
  have "configuredDomainList lib g cfg' = filter (\<lambda>x. x \<noteq> n) current \<and> domainCertArgPaths (sc_ExtraArgs cfg') n = None"
  proof (cases "filter (\<lambda>x. x \<noteq> n) current")
    case Nil
    have c: "sc_Domain cfg' = ''example.com''" "sc_VHost cfg' = []" "sc_ExtraArgs cfg' = []"
      using assms(1) r ne Nil by (auto simp: removeDomainFromConfig_def n_def [symmetric] current_def [symmetric] Let_def applyDefaults_def)
    have "go_fields [] = []" using go_fields_join [of "[]"] by simp
    then show ?thesis
      using default_config_list [of cfg' lib g] c assms(3) Nil by (simp add: domainCertArgPaths_def)
  next
    case (Cons nxt rest)
    have nxt: "validDomainName nxt" "\<not> defaultLikeDomain nxt" "nxt \<noteq> n" "nxt \<in> set current"
    proof -
      have m: "nxt \<in> set (filter (\<lambda>x. x \<noteq> n) current)" unfolding Cons by simp
      then show "validDomainName nxt" "\<not> defaultLikeDomain nxt" "nxt \<noteq> n" "nxt \<in> set current"
        using domains_okD [OF ok m] by simp_all
    qed
    let ?c = "cfg\<lparr>sc_ExtraArgs := args\<rparr>"
    define promoted where "promoted \<longleftrightarrow> normalizeDomain lib (sc_Domain cfg) = n \<or> defaultLikeDomain (sc_Domain cfg)"
    define c where "c = (if promoted then promote_domain lib certDir n nxt ?c else ?c)"
    have c': "cfg' = c\<lparr>sc_VHost := join '','' (nxt # rest)\<rparr>"
      using assms(1) r ne Cons
      by (simp add: removeDomainFromConfig_def n_def [symmetric] current_def [symmetric] Let_def c_def args_def promoted_def cong: if_cong)
    have "sc_ExtraArgs c \<in> {args, removeDomainCertArg lib args nxt}"
      using promote_facts(2) [of lib certDir n nxt ?c] by (simp add: c_def)
    then have "domainCertArgPaths (sc_ExtraArgs cfg') n = None"
      using gone without_keeps_others [OF gone(1), of nxt n] nxt r(1) valid_domain_facts(8)
      by (auto simp: c' domainCertArgPaths_def removeDomainCertArg_def stored_fields)
    moreover have "add_configured lib [] (sc_Domain (applyDefaults cfg')) \<in> {[], [nxt]}"
    proof (cases promoted)
      case True
      then have "sc_Domain cfg' = nxt" by (simp add: c' c_def promote_facts)
      then show ?thesis using nxt valid_domain_facts(1) by (simp add: add_configured_def)
    next
      case False
      let ?d = "sc_Domain cfg"
      have d: "sc_Domain cfg' = ?d" "?d \<noteq> []" "normalizeDomain lib ?d \<noteq> n"
        using False by (simp_all add: c' c_def promoted_def defaultLikeDomain_def)
      consider "add_configured lib [] ?d = []" | "add_configured lib [] ?d = [normalizeDomain lib ?d]"
        using add_configured_cases [of lib "[]" ?d] by auto
      then show ?thesis
      proof cases
        case 2
        then obtain vs where "current = normalizeDomain lib ?d # vs"
          using foldl_add_front [of lib "[normalizeDomain lib ?d]"] d(2)
          by (auto simp: current_def configured_head)
        then have "nxt = normalizeDomain lib ?d" using Cons d(3) by simp
        then show ?thesis using 2 d by simp
      qed (use d in simp)
    qed
    then have "configuredDomainList lib g cfg' = nxt # rest"
      using ok Cons by (intro configured_kept) (simp_all add: c')
    ultimately show ?thesis using Cons by simp
  qed
  then show ?thesis using r(2) by (simp add: n_def current_def)
qed

lemma written_vhost:
  "quoting_ok lib \<Longrightarrow>
   env_get (readEnvFile lib (Some (server_config_text lib cfg))) ''VHOST'' = sc_VHost cfg"
  by (simp add: read_config_text config_values)

definition two_domains :: serverConfig where
  "two_domains = defaultServerConfig
     \<lparr>sc_Domain := ''one.example'', sc_ControlHost := ''ngrok.one.example'', sc_VHost := ''one.example,two.example'',
      sc_ExtraArgs := ''-domainCert=two.example:/c/f.pem:/c/p.pem''\<rparr>"

theorem domain_removed_witness:
  "\<exists>cfg'. removeDomainFromConfig sample_lib None ''/certs'' ''one.example'' two_domains = Inr cfg' \<and>
     configuredDomainList sample_lib (Some (server_config_text sample_lib cfg')) cfg' = [''two.example'']"
proof -
  have v: "validDomainName ''one.example''" "validDomainName ''two.example''"
    "flags_ok (go_fields ''-domainCert=two.example:/c/f.pem:/c/p.pem'')"
    by code_simp+
  have f: "sc_Domain two_domains = ''one.example''" "sc_VHost two_domains = join '','' [''one.example'', ''two.example'']"
    "sc_ExtraArgs two_domains = ''-domainCert=two.example:/c/f.pem:/c/p.pem''"
    by (simp_all add: two_domains_def)
  have "configuredDomainList sample_lib None two_domains = [''one.example'', ''two.example'']"
    using v f by (intro configured_saved) (simp_all add: domains_ok_def defaultLikeDomain_def)
  note l = this normalizeDomain_valid [OF v(1)] v(3) [folded f(3)] v(1)
  have "is_ok (removeDomainFromConfig sample_lib None ''/certs'' ''one.example'' two_domains)"
    by (simp add: removeDomainFromConfig_def l Let_def)
  then obtain cfg' where r: "removeDomainFromConfig sample_lib None ''/certs'' ''one.example'' two_domains = Inr cfg'"
    by (auto simp: is_ok_iff)
  show ?thesis
    using domain_removed [OF r l(3) written_vhost [OF sample_lib_quotes]] l(1,2) r by simp
qed

section \<open>Where certificates lie\<close>

lemma split_slash_domain: "validDomainName d \<Longrightarrow> slash \<notin> set d \<and> d \<noteq> [] \<and> d \<noteq> ''.'' \<and> d \<noteq> ''..''"
proof -
  assume v: "validDomainName d"
  then have "slash \<notin> set d"
    using validHostname_chars [OF valid_hostname, of d slash]
    by (auto simp: slash_def host_char_def label_char_def is_lower_def is_digit_def)
  moreover have "d \<noteq> ''..''" "d \<noteq> ''.''" "d \<noteq> []"
    using v by (auto simp: validDomainName_def)
  ultimately show ?thesis by simp
qed

text \<open>
  The certificates of a domain lie in a directory of that name directly below the base directory,
  whatever text the domain was entered as: no valid name leads out of it.
\<close>

lemma cert_dir_inside:
  assumes "path_clean base = base" "base \<noteq> ''/''" "base \<noteq> ''.''" "validDomainName (normalizeDomain lib d)"
  shows "domainCertDir lib base d = base @ ''/'' @ normalizeDomain lib d"
proof -
  let ?n = "normalizeDomain lib d"
  note n = split_slash_domain [OF assms(4)]
  have b: "base \<noteq> []"
    using assms(1,3) by (auto simp: path_clean_def has_prefix_def Let_def clean_element_def)
  define els where "els = rev (foldl (clean_element (has_prefix base [slash])) [] (split_on slash base))"
  have c: "base = (if has_prefix base [slash] then slash # join [slash] els else if join [slash] els = [] then ''.'' else join [slash] els)"
    using assms(1) [unfolded path_clean_def Let_def] unfolding els_def by (rule sym)
  have els: "els \<noteq> []"
  proof
    assume "els = []"
    then show False using c assms(2,3) by (auto simp: slash_def split: if_splits)
  qed
  have j: "join [slash] (els @ [x]) = join [slash] els @ slash # x" for x
    using els by (induction "[slash]" els rule: join.induct) auto
  have p: "has_prefix (base @ slash # ?n) [slash] = has_prefix base [slash]"
    using b by (cases base) (simp_all add: has_prefix_def)
  have s: "split_on slash (base @ slash # ?n) = split_on slash base @ [?n]"
    using n by (simp add: split_on_sep split_on_notin)
  have e: "rev (foldl (clean_element (has_prefix base [slash])) [] (split_on slash (base @ slash # ?n))) = els @ [?n]"
    using n by (simp add: s els_def clean_element_def)
  have "path_clean (base @ slash # ?n) = base @ slash # ?n"
    using c els n assms(3) unfolding path_clean_def p e j Let_def by (auto split: if_splits)
  then show ?thesis
    using b n by (simp add: domainCertDir_def path_join_def slash_def)
qed

end
