(* ===== verification/Admin_Auth.thy ===== *)
theory Admin_Auth
  imports Admin_Config
begin

text \<open>
  The administrator of \<open>src/ngrok/admin/main.go\<close>: the account and its password hash, the sessions, and
  the handlers \<open>/setup\<close>, \<open>/login\<close> and \<open>/logout\<close> as state transitions. \<open>hmac key message\<close> is
  HMAC-SHA-256; random bytes, the clock and the encoding of the state file are parameters.
\<close>

section \<open>The password hash\<close>

definition xor_char :: "char \<Rightarrow> char \<Rightarrow> char" where
  "xor_char a b = char_of (xor (of_char a) (of_char b :: nat))"

definition be32 :: "int \<Rightarrow> string" where
  "be32 n = [char_of (n div 16777216), char_of (n div 65536), char_of (n div 256), char_of n]"

text \<open>The inner loop, for the remaining number of iterations; \<open>u\<close> and \<open>t\<close> are the variables of the code.\<close>

fun pbkdf2_loop :: "(string \<Rightarrow> string \<Rightarrow> string) \<Rightarrow> string \<Rightarrow> nat \<Rightarrow> string \<Rightarrow> string \<Rightarrow> string" where
  "pbkdf2_loop hmac password 0 u t = t"
| "pbkdf2_loop hmac password (Suc n) u t =
     (let u' = hmac password u in pbkdf2_loop hmac password n u' (map2 xor_char t u'))"

definition pbkdf2_block :: "(string \<Rightarrow> string \<Rightarrow> string) \<Rightarrow> string \<Rightarrow> string \<Rightarrow> int \<Rightarrow> int \<Rightarrow> string" where
  "pbkdf2_block hmac password salt iter block =
     (let u = hmac password (salt @ be32 block) in pbkdf2_loop hmac password (nat (iter - 1)) u u)"

definition pbkdf2SHA256 :: "(string \<Rightarrow> string \<Rightarrow> string) \<Rightarrow> string \<Rightarrow> string \<Rightarrow> int \<Rightarrow> nat \<Rightarrow> string" where
  "pbkdf2SHA256 hmac password salt iter keyLen =
     (let hLen = 32; numBlocks = (keyLen + hLen - 1) div hLen
      in take keyLen (concat (map (\<lambda>block. pbkdf2_block hmac password salt iter (int block)) [1..<numBlocks + 1])))"

section \<open>The account\<close>

record adminState =
  as_Username :: string
  as_Salt :: string
  as_PasswordHash :: string
  as_Iterations :: int
  as_CreatedAt :: string

definition no_admin :: adminState where
  "no_admin = \<lparr>as_Username = [], as_Salt = [], as_PasswordHash = [], as_Iterations = 0, as_CreatedAt = []\<rparr>"

definition passwordIterations :: int where "passwordIterations = 210000"

text \<open>\<open>salt\<close> are the 16 bytes of \<open>rand.Read\<close>, \<open>now\<close> the formatted time.\<close>

definition newAdminState :: "(string \<Rightarrow> string \<Rightarrow> string) \<Rightarrow> string \<Rightarrow> string \<Rightarrow> string \<Rightarrow> string \<Rightarrow> adminState" where
  "newAdminState hmac salt now username password =
     \<lparr>as_Username = username, as_Salt = base64 salt,
      as_PasswordHash = base64 (pbkdf2SHA256 hmac password salt passwordIterations 32),
      as_Iterations = passwordIterations, as_CreatedAt = now\<rparr>"

definition checkPassword :: "(string \<Rightarrow> string \<Rightarrow> string) \<Rightarrow> adminState \<Rightarrow> string \<Rightarrow> string \<Rightarrow> bool" where
  "checkPassword hmac state username password =
     (if username \<noteq> as_Username state \<or> as_Username state = [] then False
      else case base64_decode (as_Salt state) of
             None \<Rightarrow> False
           | Some salt \<Rightarrow>
               (case base64_decode (as_PasswordHash state) of
                  None \<Rightarrow> False
                | Some want \<Rightarrow>
                    ConstantTimeCompare (pbkdf2SHA256 hmac password salt (as_Iterations state) (length want)) want = 1))"

text \<open>
  The state file: \<open>None\<close> for a file that does not exist, \<open>Inl\<close> for another error; \<open>unmarshal\<close> is
  \<open>json.Unmarshal\<close> into the record.
\<close>

definition loadAdminState ::
  "(string \<Rightarrow> adminState result) \<Rightarrow> string result option \<Rightarrow> adminState result"
where
  "loadAdminState unmarshal file =
     (case file of
        None \<Rightarrow> Inr no_admin
      | Some (Inl err) \<Rightarrow> Inl err
      | Some (Inr b) \<Rightarrow> if trim_space b = [] then Inr no_admin else unmarshal b)"

section \<open>Keys\<close>

definition hex_text :: "string \<Rightarrow> string" where
  "hex_text b = concat (map (\<lambda>c. [hex_char (of_char c div 16), hex_char (of_char c mod 16)]) b)"

text \<open>\<open>randomKey\<close> and \<open>randomSessionID\<close>, \<open>randomToken\<close> for the bytes that \<open>rand.Read\<close> gave: 12 and 32.\<close>

definition randomKey :: "string \<Rightarrow> string" where
  "randomKey b =
     (let hexed = hex_text b
      in take 4 hexed @ ''-'' @ take 4 (drop 4 hexed) @ ''-'' @ take 4 (drop 8 hexed) @ ''-'' @ drop 12 hexed)"

definition randomSessionID :: "string \<Rightarrow> string" where
  "randomSessionID b = base64_raw_url b"

definition randomToken :: "string \<Rightarrow> string" where
  "randomToken b = base64_raw_url b"

section \<open>The application and its sessions\<close>

record admin_app =
  aa_state :: adminState
  aa_setupKey :: string
  aa_sessions :: "string \<rightharpoonup> int"

text \<open>\<open>newApp\<close>: a setup key is made only if there is no administrator; \<open>key\<close> is what \<open>randomKey\<close> returns.\<close>

definition newApp :: "adminState result \<Rightarrow> string result \<Rightarrow> admin_app result" where
  "newApp state key =
     (case state of
        Inl err \<Rightarrow> Inl err
      | Inr state \<Rightarrow>
          if as_Username state = [] then
            (case key of
               Inl err \<Rightarrow> Inl err
             | Inr k \<Rightarrow> Inr \<lparr>aa_state = state, aa_setupKey = k, aa_sessions = Map.empty\<rparr>)
          else Inr \<lparr>aa_state = state, aa_setupKey = [], aa_sessions = Map.empty\<rparr>)"

definition hasAdmin :: "admin_app \<Rightarrow> bool" where
  "hasAdmin a \<longleftrightarrow> as_Username (aa_state a) \<noteq> []"

text \<open>\<open>cookie\<close> is the value of the session cookie, \<open>None\<close> without one; times are in nanoseconds.\<close>

definition currentUser :: "int \<Rightarrow> string option \<Rightarrow> admin_app \<Rightarrow> string \<times> admin_app" where
  "currentUser now cookie a =
     (case cookie of
        None \<Rightarrow> ([], a)
      | Some v \<Rightarrow>
          if v = [] then ([], a)
          else case aa_sessions a v of
                 Some exp \<Rightarrow>
                   if exp < now then ([], a\<lparr>aa_sessions := (aa_sessions a)(v := None)\<rparr>)
                   else (as_Username (aa_state a), a)
               | None \<Rightarrow> ([], a\<lparr>aa_sessions := (aa_sessions a)(v := None)\<rparr>))"

definition session_life :: int where "session_life = 12 * 3600 * 1000000000"

text \<open>\<open>id\<close> is what \<open>randomSessionID\<close> returns; without one no session is made and no cookie set.\<close>

definition setSession :: "int \<Rightarrow> string result \<Rightarrow> admin_app \<Rightarrow> string option \<times> admin_app" where
  "setSession now sid a =
     (case sid of
        Inl _ \<Rightarrow> (None, a)
      | Inr v \<Rightarrow> (Some v, a\<lparr>aa_sessions := (aa_sessions a)(v \<mapsto> now + session_life)\<rparr>))"

definition clearSession :: "string option \<Rightarrow> admin_app \<Rightarrow> admin_app" where
  "clearSession cookie a =
     (case cookie of None \<Rightarrow> a | Some v \<Rightarrow> a\<lparr>aa_sessions := (aa_sessions a)(v := None)\<rparr>)"

datatype auth_outcome = ToSetup | ToLogin | Allowed

definition requireAuth :: "int \<Rightarrow> string option \<Rightarrow> admin_app \<Rightarrow> auth_outcome \<times> admin_app" where
  "requireAuth now cookie a =
     (if \<not> hasAdmin a then (ToSetup, a)
      else case currentUser now cookie a of
             (user, a') \<Rightarrow> (if user = [] then ToLogin else Allowed, a'))"

section \<open>Setup, login and logout\<close>

text \<open>
  What a request for these pages carries, and what the world gives while it is handled: the new
  state of \<open>newAdminState\<close> (\<open>Inl\<close> for an error of \<open>rand.Read\<close>), the result of \<open>saveAdminState\<close>
  (\<open>Some\<close> is the error), and the identifier of a new session.
\<close>

record auth_request =
  ar_post :: bool
  ar_parse :: "string option"
  ar_form :: "string \<Rightarrow> string"
  ar_cookie :: "string option"

record auth_world =
  au_hmac :: "string \<Rightarrow> string \<Rightarrow> string"
  au_salt :: "string result"
  au_nowText :: string
  au_save :: "adminState \<Rightarrow> string option"
  au_session :: "string result"
  au_now :: int

datatype auth_answer =
    AuthRedirect string "string option"
  | AuthPage string "string option"


text \<open>
  \<open>handleSetup\<close> after its test of \<open>hasAdmin\<close>, for a request that no other one interrupts (the
  goroutines of several requests are in the section on sessions): \<open>AuthPage\<close> is the
  page with an error, \<open>AuthRedirect\<close> the address with the cookie that was set; next comes the state that was to be saved. Showing a page asks
  \<open>currentUser\<close> who is there, which drops a session that has ended.
\<close>

definition show_page :: "auth_world \<Rightarrow> auth_request \<Rightarrow> admin_app \<Rightarrow> admin_app" where
  "show_page w r a = snd (currentUser (au_now w) (ar_cookie r) a)"

definition setup_post :: "auth_world \<Rightarrow> auth_request \<Rightarrow> admin_app \<Rightarrow> auth_answer \<times> adminState option \<times> admin_app" where
  "setup_post w r a =
     (let fail = (\<lambda>err. (AuthPage ''setup'' (Some err), None, show_page w r a)) in
      if \<not> ar_post r then (AuthPage ''setup'' None, None, show_page w r a)
      else case ar_parse r of Some err \<Rightarrow> fail err | None \<Rightarrow>
      if ar_form r ''setup_key'' \<noteq> aa_setupKey a then fail ''invalid setup key''
      else let username = trim_space (ar_form r ''username''); password = ar_form r ''password'' in
      if username = [] \<or> password = [] then fail ''username and password are required''
      else if length password < 10 then fail ''password is too short''
      else case au_salt w of Inl err \<Rightarrow> fail err | Inr salt \<Rightarrow>
      let state = newAdminState (au_hmac w) salt (au_nowText w) username password in
      case au_save w state of Some err \<Rightarrow> (AuthPage ''setup'' (Some err), Some state, show_page w r a) | None \<Rightarrow>
      let a = a\<lparr>aa_state := state, aa_setupKey := []\<rparr>; (cookie, a) = setSession (au_now w) (au_session w) a
      in (AuthRedirect ''/?msg=admin_ready'' cookie, Some state, a))"

definition handleSetup :: "auth_world \<Rightarrow> auth_request \<Rightarrow> admin_app \<Rightarrow> auth_answer \<times> adminState option \<times> admin_app" where
  "handleSetup w r a =
     (if hasAdmin a then (AuthRedirect ''/login'' None, None, a) else setup_post w r a)"

definition handleLogin :: "auth_world \<Rightarrow> auth_request \<Rightarrow> admin_app \<Rightarrow> auth_answer \<times> admin_app" where
  "handleLogin w r a =
     (if \<not> hasAdmin a then (AuthRedirect ''/setup'' None, a)
      else if \<not> ar_post r then (AuthPage ''login'' None, show_page w r a)
      else case ar_parse r of Some err \<Rightarrow> (AuthPage ''login'' (Some err), show_page w r a) | None \<Rightarrow>
      let username = trim_space (ar_form r ''username''); password = ar_form r ''password'' in
      if checkPassword (au_hmac w) (aa_state a) username password
      then case setSession (au_now w) (au_session w) a of (cookie, a) \<Rightarrow> (AuthRedirect ''/'' cookie, a)
      else (AuthPage ''login'' (Some ''login failed''), show_page w r a))"

definition handleLogout :: "auth_request \<Rightarrow> admin_app \<Rightarrow> auth_answer \<times> admin_app" where
  "handleLogout r a = (AuthRedirect ''/login'' (Some []), clearSession (ar_cookie r) a)"

section \<open>The hash is PBKDF2\<close>

text \<open>
  RFC 8018: the byte \<open>i\<close> of the derived key is the exclusive or of the byte \<open>i mod 32\<close> of
  \<open>U_1, ..., U_c\<close> of the block \<open>i div 32 + 1\<close>, where \<open>U_1\<close> is the keyed hash of the salt and the
  block number and each later one that of its predecessor.
\<close>

definition rfc_U :: "(string \<Rightarrow> string \<Rightarrow> string) \<Rightarrow> string \<Rightarrow> string \<Rightarrow> int \<Rightarrow> nat \<Rightarrow> string" where
  "rfc_U hmac password salt block j = (hmac password ^^ (j - 1)) (hmac password (salt @ be32 block))"

definition rfc_byte :: "(string \<Rightarrow> string \<Rightarrow> string) \<Rightarrow> string \<Rightarrow> string \<Rightarrow> nat \<Rightarrow> nat \<Rightarrow> char" where
  "rfc_byte hmac password salt c i =
     (let U = (\<lambda>j. rfc_U hmac password salt (int (i div 32 + 1)) j ! (i mod 32))
      in foldl xor_char (U 1) (map U [2..<c + 1]))"

lemma pbkdf2_loop_length:
  assumes "\<And>m. length (hmac password m) = 32"
  shows "length t = 32 \<Longrightarrow> length (pbkdf2_loop hmac password n u t) = 32"
  by (induction n arbitrary: u t) (simp_all add: assms Let_def)

lemma pbkdf2_loop_nth:
  assumes "\<And>m. length (hmac password m) = 32" "k < 32"
  shows "length t = 32 \<Longrightarrow> pbkdf2_loop hmac password n u t ! k =
    foldl xor_char (t ! k) (map (\<lambda>j. (hmac password ^^ j) u ! k) [1..<n + 1])"
proof (induction n arbitrary: u t)
  case (Suc n)
  let ?f = "hmac password"
  have "[1..<Suc n + 1] = 1 # map Suc [1..<n + 1]"
    by (simp add: upt_conv_Cons map_Suc_upt del: upt_Suc)
  then have "map (\<lambda>j. (?f ^^ j) u ! k) [1..<Suc n + 1] = ?f u ! k # map (\<lambda>j. (?f ^^ j) (?f u) ! k) [1..<n + 1]"
    by (simp add: comp_def funpow_swap1 del: upt_Suc)
  then show ?case
    using Suc.IH [of "map2 xor_char t (?f u)" "?f u"] Suc.prems assms
    by (simp add: Let_def del: upt_Suc)
qed simp

lemma nth_concat_blocks:
  "\<forall>b \<in> set bs. length b = 32 \<Longrightarrow> i < 32 * length bs \<Longrightarrow> concat bs ! i = bs ! (i div 32) ! (i mod 32)"
proof (induction bs arbitrary: i)
  case (Cons b bs)
  show ?case
  proof (cases "i < 32")
    case False
    then have "i div 32 = Suc ((i - 32) div 32)" "i mod 32 = (i - 32) mod 32"
      using le_div_geq [of 32 i] le_mod_geq [of 32 i] by simp_all
    then show ?thesis using Cons False by (simp add: nth_append)
  qed (use Cons in \<open>simp add: nth_append\<close>)
qed simp

lemma length_concat_blocks: "\<forall>b \<in> set bs. length b = 32 \<Longrightarrow> length (concat bs) = 32 * length bs"
  by (induction bs) simp_all

text \<open>
  C20: The loop of the password hash computes PBKDF2: for any keyed hash of 32 bytes, any number of
  iterations from one on and any length, the result has that length and every byte of it is the one
  the RFC defines.
\<close>
theorem pbkdf2_is_rfc8018:
  assumes "\<And>k m. length (hmac k m) = 32" "1 \<le> iter"
  shows "pbkdf2SHA256 hmac password salt iter keyLen = map (rfc_byte hmac password salt (nat iter)) [0..<keyLen]"
proof -
  define bs where "bs = map (\<lambda>block. pbkdf2_block hmac password salt iter (int block)) [1..<(keyLen + 32 - 1) div 32 + 1]"
  have l: "length (pbkdf2_block hmac password salt iter b) = 32" for b
    by (simp add: pbkdf2_block_def Let_def pbkdf2_loop_length assms(1))
  have b32: "\<forall>b \<in> set bs. length b = 32" by (auto simp: bs_def l)
  have n: "keyLen \<le> 32 * length bs" by (simp add: bs_def del: upt_Suc)
  have byte: "concat bs ! i = rfc_byte hmac password salt (nat iter) i" if "i < keyLen" for i
  proof -
    let ?f = "hmac password" and ?k = "i mod 32" and ?blk = "int (i div 32 + 1)"
    have i: "i < 32 * length bs" using that n by simp
    then have d: "i div 32 < length bs" by (simp add: less_mult_imp_div_less mult.commute)
    have "concat bs ! i = pbkdf2_block hmac password salt iter ?blk ! ?k"
      using nth_concat_blocks [OF b32 i] d by (simp add: bs_def nth_upt del: upt_Suc)
    also have "\<dots> = foldl xor_char (?f (salt @ be32 ?blk) ! ?k)
        (map (\<lambda>j. (?f ^^ j) (?f (salt @ be32 ?blk)) ! ?k) [1..<nat (iter - 1) + 1])"
      unfolding pbkdf2_block_def Let_def by (intro pbkdf2_loop_nth) (simp_all add: assms(1))
    also have "map (\<lambda>j. (?f ^^ j) (?f (salt @ be32 ?blk)) ! ?k) [1..<nat (iter - 1) + 1] =
        map (\<lambda>j. rfc_U hmac password salt ?blk j ! ?k) [2..<nat iter + 1]"
    proof -
      have "[2..<nat iter + 1] = map Suc [1..<nat (iter - 1) + 1]"
        using assms(2) by (simp add: map_Suc_upt numeral_2_eq_2 nat_diff_distrib' del: upt_Suc)
      then show ?thesis by (simp add: rfc_U_def comp_def del: upt_Suc)
    qed
    finally show ?thesis by (simp add: rfc_byte_def rfc_U_def Let_def)
  qed
  have len: "length (concat bs) = 32 * length bs" by (rule length_concat_blocks [OF b32])
  have p: "pbkdf2SHA256 hmac password salt iter keyLen = take keyLen (concat bs)"
    by (simp add: pbkdf2SHA256_def bs_def Let_def)
  show ?thesis
    unfolding p using n len byte by (intro nth_equalityI) simp_all
qed

lemma pbkdf2_length:
  assumes "\<And>k m. length (hmac k m) = 32"
  shows "length (pbkdf2SHA256 hmac password salt iter keyLen) = keyLen"
proof -
  define bs where "bs = map (\<lambda>block. pbkdf2_block hmac password salt iter (int block)) [1..<(keyLen + 32 - 1) div 32 + 1]"
  have "\<forall>b \<in> set bs. length b = 32"
    by (auto simp: bs_def pbkdf2_block_def Let_def pbkdf2_loop_length assms)
  then have "length (concat bs) = 32 * length bs" by (rule length_concat_blocks)
  moreover have "keyLen \<le> 32 * length bs" by (simp add: bs_def del: upt_Suc)
  ultimately show ?thesis by (simp add: pbkdf2SHA256_def bs_def Let_def del: upt_Suc)
qed

text \<open>A keyed hash for the witnesses.\<close>

definition sample_hmac :: "string \<Rightarrow> string \<Rightarrow> string" where
  "sample_hmac k m = take 32 (k @ m @ replicate 32 CHR ''.'')"

lemma sample_hmac_length: "length (sample_hmac k m) = 32"
  by (simp add: sample_hmac_def)

theorem pbkdf2_is_rfc8018_witness:
  "pbkdf2SHA256 sample_hmac ''pw'' ''salt'' 3 40 = map (rfc_byte sample_hmac ''pw'' ''salt'' 3) [0..<40]"
  using pbkdf2_is_rfc8018 [of sample_hmac 3 "''pw''" "''salt''" 40] sample_hmac_length by simp

text \<open>
  The password check accepts exactly what was set: for the state that \<open>newAdminState\<close> makes, the
  user name must be the same and not empty, and the password must have the same hash; in particular
  the password itself is accepted.
\<close>
theorem password_check_exact:
  assumes "\<And>k m. length (hmac k m) = 32"
  shows "checkPassword hmac (newAdminState hmac salt now username password) username' password' \<longleftrightarrow>
     username' = username \<and> username \<noteq> [] \<and>
     pbkdf2SHA256 hmac password' salt passwordIterations 32 = pbkdf2SHA256 hmac password salt passwordIterations 32"
  by (simp add: checkPassword_def newAdminState_def ConstantTimeCompare_eq pbkdf2_length [of hmac, OF assms])

theorem password_check_exact_witness:
  "checkPassword sample_hmac (newAdminState sample_hmac ''salt'' ''now'' ''root'' ''correct horse'') ''root'' ''correct horse''"
  using password_check_exact [of sample_hmac "''salt''" "''now''" "''root''" "''correct horse''" "''root''" "''correct horse''"]
    sample_hmac_length by simp

section \<open>Sessions\<close>

text \<open>
  The server runs every request in a goroutine of its own. Between two steps of one request, each of
  which takes the lock at most once, any other request may run: the test of \<open>hasAdmin\<close>, the comparison of
  the setup key, the storing of the administrator, the check of a password and the making of a session
  are separate steps. A flight says what a request does next.
\<close>

datatype auth_call =
    SetupRequest auth_world auth_request
  | LoginRequest auth_world auth_request
  | LogoutRequest auth_request
  | Visit int "string option"

datatype flight =
    Landed
  | SetupTested auth_world auth_request
  | SetupKeyed auth_world auth_request adminState
  | SetupStored auth_world auth_request
  | LoginTested auth_world auth_request
  | LoginChecked auth_world auth_request
  | VisitTested int "string option"
  | ShowsPage auth_world auth_request

record panel =
  pn_app :: admin_app
  pn_flights :: "flight list"

definition new_panel :: "admin_app \<Rightarrow> panel" where
  "new_panel a = \<lparr>pn_app = a, pn_flights = []\<rparr>"

text \<open>The first step of a request: \<open>hasAdmin\<close>, or the whole of \<open>clearSession\<close>.\<close>

fun arrives :: "admin_app \<Rightarrow> auth_call \<Rightarrow> admin_app \<times> flight" where
  "arrives a (SetupRequest w r) = (a, if hasAdmin a then Landed else SetupTested w r)"
| "arrives a (LoginRequest w r) = (a, if hasAdmin a then LoginTested w r else Landed)"
| "arrives a (LogoutRequest r) = (snd (handleLogout r a), Landed)"
| "arrives a (Visit now cookie) = (a, if hasAdmin a then VisitTested now cookie else Landed)"

text \<open>
  \<open>handleSetup\<close> from the method to the saved file: the administrator that is to be stored, or \<open>None\<close> if the page is
  shown. The key is read without the lock.
\<close>

definition setup_checked :: "auth_world \<Rightarrow> auth_request \<Rightarrow> string \<Rightarrow> adminState option" where
  "setup_checked w r key =
     (let username = trim_space (ar_form r ''username''); password = ar_form r ''password'' in
      if \<not> ar_post r \<or> ar_parse r \<noteq> None \<or> ar_form r ''setup_key'' \<noteq> key \<or>
        username = [] \<or> password = [] \<or> length password < 10 then None
      else case au_salt w of Inl err \<Rightarrow> None | Inr salt \<Rightarrow>
      let state = newAdminState (au_hmac w) salt (au_nowText w) username password in
      if au_save w state = None then Some state else None)"

definition login_checked :: "auth_world \<Rightarrow> auth_request \<Rightarrow> adminState \<Rightarrow> bool" where
  "login_checked w r state \<longleftrightarrow>
     ar_post r \<and> ar_parse r = None \<and>
     checkPassword (au_hmac w) state (trim_space (ar_form r ''username'')) (ar_form r ''password'')"

text \<open>The next step of a request that is under way.\<close>

fun proceeds :: "admin_app \<Rightarrow> flight \<Rightarrow> admin_app \<times> flight" where
  "proceeds a Landed = (a, Landed)"
| "proceeds a (SetupTested w r) =
     (a, case setup_checked w r (aa_setupKey a) of None \<Rightarrow> ShowsPage w r | Some state \<Rightarrow> SetupKeyed w r state)"
| "proceeds a (SetupKeyed w r state) = (a\<lparr>aa_state := state, aa_setupKey := []\<rparr>, SetupStored w r)"
| "proceeds a (SetupStored w r) = (snd (setSession (au_now w) (au_session w) a), Landed)"
| "proceeds a (LoginTested w r) = (a, if login_checked w r (aa_state a) then LoginChecked w r else ShowsPage w r)"
| "proceeds a (LoginChecked w r) = (snd (setSession (au_now w) (au_session w) a), Landed)"
| "proceeds a (VisitTested now cookie) = (snd (currentUser now cookie a), Landed)"
| "proceeds a (ShowsPage w r) = (show_page w r a, Landed)"

text \<open>Requests are numbered in the order of their arrival.\<close>

datatype panel_event = Arrives auth_call | Proceeds nat

fun panel_step :: "panel \<Rightarrow> panel_event \<Rightarrow> panel" where
  "panel_step p (Arrives call) =
     (case arrives (pn_app p) call of (a, f) \<Rightarrow> \<lparr>pn_app = a, pn_flights = pn_flights p @ [f]\<rparr>)"
| "panel_step p (Proceeds n) =
     (if n < length (pn_flights p) then
        (case proceeds (pn_app p) (pn_flights p ! n) of (a, f) \<Rightarrow> \<lparr>pn_app = a, pn_flights = (pn_flights p)[n := f]\<rparr>)
      else p)"

text \<open>Request \<open>n\<close> is at the step \<open>f\<close>.\<close>

definition at_step :: "panel \<Rightarrow> nat \<Rightarrow> flight \<Rightarrow> bool" where
  "at_step p n f \<longleftrightarrow> n < length (pn_flights p) \<and> pn_flights p ! n = f"

text \<open>
  A request that no other one interrupts has the effect of its handler: the steps are those of
  \<open>handleSetup\<close>, \<open>handleLogin\<close> and \<open>requireAuth\<close>.
\<close>

fun alone :: "nat \<Rightarrow> auth_call \<Rightarrow> panel_event list" where
  "alone n call = [Arrives call, Proceeds n, Proceeds n, Proceeds n]"

lemma setSession_app: "aa_state (snd (setSession now sid a)) = aa_state a" "aa_setupKey (snd (setSession now sid a)) = aa_setupKey a"
  by (simp_all add: setSession_def split: sum.split)

lemma setup_checked_post:
  "setup_checked w r (aa_setupKey a) = None \<Longrightarrow> snd (snd (setup_post w r a)) = show_page w r a"
  "setup_checked w r (aa_setupKey a) = Some state \<Longrightarrow>
     snd (snd (setup_post w r a)) = snd (setSession (au_now w) (au_session w) (a\<lparr>aa_state := state, aa_setupKey := []\<rparr>))"
  by (auto simp: setup_checked_def setup_post_def Let_def case_prod_beta split: if_splits option.splits sum.splits)

lemma alone_is_handler:
  assumes "n = length (pn_flights p)"
  shows "pn_app (run panel_step p (alone n (SetupRequest w r))) = snd (snd (handleSetup w r (pn_app p)))"
    and "pn_app (run panel_step p (alone n (LoginRequest w r))) = snd (handleLogin w r (pn_app p))"
    and "pn_app (run panel_step p (alone n (LogoutRequest r))) = snd (handleLogout r (pn_app p))"
    and "pn_app (run panel_step p (alone n (Visit now cookie))) = snd (requireAuth now cookie (pn_app p))"
proof -
  show "pn_app (run panel_step p (alone n (SetupRequest w r))) = snd (snd (handleSetup w r (pn_app p)))"
    using assms setup_checked_post [of w r "pn_app p"]
    by (cases "setup_checked w r (aa_setupKey (pn_app p))") (simp_all add: handleSetup_def)
  show "pn_app (run panel_step p (alone n (LoginRequest w r))) = snd (handleLogin w r (pn_app p))"
    using assms by (auto simp: handleLogin_def login_checked_def Let_def case_prod_beta split: option.splits)
  show "pn_app (run panel_step p (alone n (LogoutRequest r))) = snd (handleLogout r (pn_app p))"
    using assms by simp
  show "pn_app (run panel_step p (alone n (Visit now cookie))) = snd (requireAuth now cookie (pn_app p))"
    using assms by (simp add: requireAuth_def case_prod_beta)
qed

text \<open>
  How a request \<open>n\<close> earned the session it makes, in the history \<open>es\<close> of a panel that started as \<open>p\<close>: at
  one of its steps its password was right for the administrator of that moment, or its setup key was
  right, for a panel that started without an administrator. The key at that step is the one of the start,
  or the empty one that a finished setup leaves.
\<close>

definition earned :: "panel \<Rightarrow> panel_event list \<Rightarrow> nat \<Rightarrow> auth_world \<Rightarrow> auth_request \<Rightarrow> bool" where
  "earned p es n w r \<longleftrightarrow>
     (\<exists>es1 es2. es = es1 @ Proceeds n # es2 \<and>
        (let q = run panel_step p es1 in
         at_step q n (LoginTested w r) \<and> login_checked w r (aa_state (pn_app q)) \<or>
         at_step q n (SetupTested w r) \<and> \<not> hasAdmin (pn_app p) \<and>
           (ar_form r ''setup_key'' = aa_setupKey (pn_app p) \<or> ar_form r ''setup_key'' = [] \<and> hasAdmin (pn_app q))))"

lemma earned_later: "earned p es n w r \<Longrightarrow> earned p (es @ es') n w r"
  unfolding earned_def by fastforce

lemma currentUser_sessions:
  "aa_sessions (snd (currentUser now cookie a)) v = Some x \<Longrightarrow> aa_sessions a v = Some x"
  by (auto simp: currentUser_def split: option.splits if_splits)

lemma currentUser_keeps [simp]:
  "aa_state (snd (currentUser now cookie a)) = aa_state a" "aa_setupKey (snd (currentUser now cookie a)) = aa_setupKey a"
  by (simp_all add: currentUser_def split: option.split)

lemma setSession_sessions:
  "aa_sessions (snd (setSession now sid a)) v = Some x \<Longrightarrow>
     aa_sessions a v = Some x \<or> (sid = Inr v \<and> x = now + session_life)"
  by (auto simp: setSession_def split: sum.splits if_splits)

lemma setup_checked_key: "setup_checked w r key = Some state \<Longrightarrow> ar_form r ''setup_key'' = key \<and> as_Username state \<noteq> []"
  by (auto simp: setup_checked_def newAdminState_def Let_def split: if_splits sum.splits)

text \<open>
  What holds at any time of a panel that started as \<open>p\<close>: without an administrator the key is the one of
  the start, and there is an administrator once one was stored; and a request past its check earned it.
\<close>

definition panel_ok :: "panel \<Rightarrow> panel_event list \<Rightarrow> bool" where
  "panel_ok p es \<longleftrightarrow>
     (let q = run panel_step p es in
      (aa_setupKey (pn_app q) = aa_setupKey (pn_app p) \<or> aa_setupKey (pn_app q) = [] \<and> hasAdmin (pn_app q)) \<and>
      (hasAdmin (pn_app p) \<longrightarrow> hasAdmin (pn_app q)) \<and>
      (\<forall>n w r. at_step q n (SetupTested w r) \<longrightarrow> \<not> hasAdmin (pn_app p)) \<and>
      (\<forall>n w r st. at_step q n (SetupKeyed w r st) \<longrightarrow> earned p es n w r \<and> as_Username st \<noteq> []) \<and>
      (\<forall>n w r. at_step q n (SetupStored w r) \<longrightarrow> earned p es n w r) \<and>
      (\<forall>n w r. at_step q n (LoginChecked w r) \<longrightarrow> earned p es n w r))"

lemma panel_ok_D:
  assumes "panel_ok p es"
  shows "aa_setupKey (pn_app (run panel_step p es)) = aa_setupKey (pn_app p) \<or>
      aa_setupKey (pn_app (run panel_step p es)) = [] \<and> hasAdmin (pn_app (run panel_step p es))"
    and "hasAdmin (pn_app p) \<Longrightarrow> hasAdmin (pn_app (run panel_step p es))"
    and "at_step (run panel_step p es) n (SetupTested w r) \<Longrightarrow> \<not> hasAdmin (pn_app p)"
    and "at_step (run panel_step p es) n (SetupKeyed w r st) \<Longrightarrow> earned p es n w r \<and> as_Username st \<noteq> []"
    and "at_step (run panel_step p es) n (SetupStored w r) \<Longrightarrow> earned p es n w r"
    and "at_step (run panel_step p es) n (LoginChecked w r) \<Longrightarrow> earned p es n w r"
  using assms by (auto simp: panel_ok_def Let_def)

lemma at_step_arrives:
  "at_step (panel_step p (Arrives call)) n f \<longleftrightarrow>
     at_step p n f \<or> n = length (pn_flights p) \<and> f = snd (arrives (pn_app p) call)"
  by (auto simp: at_step_def nth_append case_prod_beta less_Suc_eq)

lemma at_step_proceeds:
  "at_step (panel_step p (Proceeds m)) n f \<longleftrightarrow>
     (if n = m then n < length (pn_flights p) \<and> f = snd (proceeds (pn_app p) (pn_flights p ! n)) else at_step p n f)"
  by (auto simp: at_step_def case_prod_beta)

lemma snd_arrives:
  "snd (arrives a call) = SetupTested w r \<longleftrightarrow> call = SetupRequest w r \<and> \<not> hasAdmin a"
  "snd (arrives a call) \<noteq> SetupKeyed w r st" "snd (arrives a call) \<noteq> SetupStored w r" "snd (arrives a call) \<noteq> LoginChecked w r"
  by (cases call; auto)+

lemma snd_proceeds:
  "snd (proceeds a f) \<noteq> SetupTested w r"
  "snd (proceeds a f) = SetupKeyed w r st \<longleftrightarrow> f = SetupTested w r \<and> setup_checked w r (aa_setupKey a) = Some st"
  "snd (proceeds a f) = SetupStored w r \<longleftrightarrow> (\<exists>st. f = SetupKeyed w r st)"
  "snd (proceeds a f) = LoginChecked w r \<longleftrightarrow> f = LoginTested w r \<and> login_checked w r (aa_state a)"
  by (cases f; auto split: option.splits)+

lemma earned_now:
  assumes "at_step (run panel_step p es) n f" "f = LoginTested w r \<and> login_checked w r (aa_state (pn_app (run panel_step p es))) \<or>
      f = SetupTested w r \<and> \<not> hasAdmin (pn_app p) \<and> (ar_form r ''setup_key'' = aa_setupKey (pn_app p) \<or>
        ar_form r ''setup_key'' = [] \<and> hasAdmin (pn_app (run panel_step p es)))"
  shows "earned p (es @ [Proceeds n]) n w r"
  using assms unfolding earned_def Let_def by (intro exI [of _ es] exI [of _ "[]"]) auto

lemma arrives_keeps [simp]:
  "aa_state (fst (arrives a call)) = aa_state a" "aa_setupKey (fst (arrives a call)) = aa_setupKey a"
  by (cases call; simp add: handleLogout_def clearSession_def split: option.split)+

lemma hasAdmin_cong: "aa_state a = aa_state b \<Longrightarrow> hasAdmin a = hasAdmin b"
  by (simp add: hasAdmin_def)

lemma proceeds_keeps:
  "(\<exists>w r st. f = SetupKeyed w r st \<and> aa_state (fst (proceeds a f)) = st \<and> aa_setupKey (fst (proceeds a f)) = []) \<or>
   aa_state (fst (proceeds a f)) = aa_state a \<and> aa_setupKey (fst (proceeds a f)) = aa_setupKey a"
  by (cases f) (auto simp: setSession_app show_page_def)

lemma pn_app_step:
  "pn_app (panel_step p (Arrives call)) = fst (arrives (pn_app p) call)"
  "n < length (pn_flights p) \<Longrightarrow> pn_app (panel_step p (Proceeds n)) = fst (proceeds (pn_app p) (pn_flights p ! n))"
  by (simp_all add: case_prod_beta)

lemma panel_ok_arrives:
  assumes "panel_ok p es"
  shows "panel_ok p (es @ [Arrives call])"
proof -
  let ?q = "run panel_step p es"
  have r: "run panel_step p (es @ [Arrives call]) = panel_step ?q (Arrives call)" by simp
  have "hasAdmin (pn_app (panel_step ?q (Arrives call))) = hasAdmin (pn_app ?q)"
    "aa_setupKey (pn_app (panel_step ?q (Arrives call))) = aa_setupKey (pn_app ?q)"
    by (simp_all add: pn_app_step hasAdmin_def del: panel_step.simps)
  then show ?thesis
    using panel_ok_D [OF assms]
    unfolding panel_ok_def Let_def r at_step_arrives
    by (auto simp: eq_commute [of _ "snd (arrives _ _)"] snd_arrives intro: earned_later simp del: panel_step.simps)
qed

lemma panel_ok_proceeds:
  assumes "panel_ok p es"
  shows "panel_ok p (es @ [Proceeds n])"
proof (cases "n < length (pn_flights (run panel_step p es))")
  case True
  let ?q = "run panel_step p es"
  let ?a = "pn_app ?q" and ?f = "pn_flights ?q ! n"
  note ok = panel_ok_D [OF assms]
  have r: "run panel_step p (es @ [Proceeds n]) = panel_step ?q (Proceeds n)" by simp
  have at: "at_step ?q n ?f" using True by (simp add: at_step_def)
  have key: "aa_setupKey (fst (proceeds ?a ?f)) = aa_setupKey (pn_app p) \<or>
      aa_setupKey (fst (proceeds ?a ?f)) = [] \<and> hasAdmin (fst (proceeds ?a ?f))"
    and adm: "hasAdmin (pn_app p) \<Longrightarrow> hasAdmin (fst (proceeds ?a ?f))"
  proof (atomize (full), rule disjE [OF proceeds_keeps [of ?f ?a]], goal_cases)
    case 1
    then obtain w r st where f: "?f = SetupKeyed w r st" "aa_state (fst (proceeds ?a ?f)) = st" "aa_setupKey (fst (proceeds ?a ?f)) = []"
      by blast
    then have "as_Username st \<noteq> []" using ok(4) [of n w r st] at by simp
    then show ?case by (simp add: hasAdmin_def f(2,3))
  next
    case 2
    then show ?case using ok(1,2) by (simp add: hasAdmin_def)
  qed
  have keyed: "earned p (es @ [Proceeds n]) n w r \<and> as_Username st \<noteq> []"
    if "?f = SetupTested w r" "setup_checked w r (aa_setupKey ?a) = Some st" for w r st
    using setup_checked_key [OF that(2)] ok(1) ok(3) [of n] at that(1) by (auto intro!: earned_now)
  have logged: "earned p (es @ [Proceeds n]) n w r" if "?f = LoginTested w r" "login_checked w r (aa_state ?a)" for w r
    using at that by (auto intro!: earned_now)
  show ?thesis
    using key adm ok(3-6) keyed logged at
    unfolding panel_ok_def Let_def r at_step_proceeds pn_app_step(2) [OF True]
    by (auto simp: True eq_commute [of _ "snd (proceeds _ _)"] snd_proceeds intro: earned_later simp del: panel_step.simps)
next
  case False
  then show ?thesis
    using assms by (auto simp: panel_ok_def Let_def intro: earned_later)
qed

lemma panel_ok_run: "panel_ok (new_panel a) es"
proof (induction es rule: rev_induct)
  case Nil
  then show ?case by (simp add: panel_ok_def new_panel_def at_step_def)
next
  case (snoc e es)
  then show ?case using panel_ok_arrives panel_ok_proceeds by (cases e) auto
qed

lemma arrives_sessions: "aa_sessions (fst (arrives a call)) v = Some x \<Longrightarrow> aa_sessions a v = Some x"
  by (cases call) (auto simp: handleLogout_def clearSession_def split: option.splits if_splits)

lemma logout_ends: "aa_sessions (fst (arrives a (LogoutRequest r))) v = Some x \<Longrightarrow> ar_cookie r \<noteq> Some v"
  by (auto simp: handleLogout_def clearSession_def)

lemma proceeds_sessions:
  "aa_sessions (fst (proceeds a f)) v = Some x \<Longrightarrow>
     aa_sessions a v = Some x \<or>
     (\<exists>w r. f \<in> {SetupStored w r, LoginChecked w r} \<and> au_session w = Inr v \<and> x = au_now w + session_life)"
  by (cases f) (auto dest!: setSession_sessions currentUser_sessions simp: show_page_def)

text \<open>The step of the history \<open>es\<close> that made the session \<open>v\<close>, which ends at \<open>x\<close>, and what became of it.\<close>

definition made_by :: "panel \<Rightarrow> panel_event list \<Rightarrow> string \<Rightarrow> int \<Rightarrow> bool" where
  "made_by p es v x \<longleftrightarrow>
     (\<exists>es1 n es2 w r. es = es1 @ Proceeds n # es2 \<and>
        (at_step (run panel_step p es1) n (SetupStored w r) \<or> at_step (run panel_step p es1) n (LoginChecked w r)) \<and>
        earned p es1 n w r \<and> au_session w = Inr v \<and> x = au_now w + session_life \<and>
        (\<nexists>r'. Arrives (LogoutRequest r') \<in> set es2 \<and> ar_cookie r' = Some v))"

lemma made_by_later:
  assumes "made_by p es v x" "\<nexists>r. e = Arrives (LogoutRequest r) \<and> ar_cookie r = Some v"
  shows "made_by p (es @ [e]) v x"
proof -
  from assms(1) obtain es1 n es2 w r where o: "es = es1 @ Proceeds n # es2"
      "at_step (run panel_step p es1) n (SetupStored w r) \<or> at_step (run panel_step p es1) n (LoginChecked w r)"
      "earned p es1 n w r" "au_session w = Inr v" "x = au_now w + session_life"
      "\<nexists>r'. Arrives (LogoutRequest r') \<in> set es2 \<and> ar_cookie r' = Some v"
    unfolding made_by_def by blast
  then show ?thesis
    unfolding made_by_def using assms(2)
    by (intro exI [of _ es1] exI [of _ n] exI [of _ "es2 @ [e]"] exI [of _ w] exI [of _ r]) auto
qed

lemma session_made:
  assumes "aa_sessions a = Map.empty"
  shows "aa_sessions (pn_app (run panel_step (new_panel a) es)) v = Some x \<Longrightarrow> made_by (new_panel a) es v x"
proof (induction es rule: rev_induct)
  case Nil
  then show ?case using assms by (simp add: new_panel_def)
next
  case (snoc e es)
  let ?q = "run panel_step (new_panel a) es"
  have s: "aa_sessions (pn_app (panel_step ?q e)) v = Some x" using snoc.prems by simp
  note ok = panel_ok_D [OF panel_ok_run, of a es]
  show ?case
  proof (cases e)
    case (Arrives call)
    have "aa_sessions (fst (arrives (pn_app ?q) call)) v = Some x"
      using s by (simp add: Arrives pn_app_step del: panel_step.simps)
    then have "made_by (new_panel a) es v x" "\<nexists>r. call = LogoutRequest r \<and> ar_cookie r = Some v"
      using snoc.IH [OF arrives_sessions] logout_ends by blast+
    then show ?thesis
      using made_by_later [of "new_panel a" es v x "Arrives call"] by (simp add: Arrives)
  next
    case (Proceeds n)
    show ?thesis
    proof (cases "n < length (pn_flights ?q) \<and> aa_sessions (pn_app ?q) v \<noteq> Some x")
      case False
      then have "aa_sessions (pn_app ?q) v = Some x" using s by (auto simp: Proceeds)
      then show ?thesis using made_by_later [OF snoc.IH] unfolding Proceeds by blast
    next
      case True
      let ?f = "pn_flights ?q ! n"
      have "aa_sessions (fst (proceeds (pn_app ?q) ?f)) v = Some x"
        using s True by (simp add: Proceeds pn_app_step del: panel_step.simps)
      then obtain w r where f: "?f \<in> {SetupStored w r, LoginChecked w r}" "au_session w = Inr v" "x = au_now w + session_life"
        using proceeds_sessions True by blast
      then have at: "at_step ?q n (SetupStored w r) \<or> at_step ?q n (LoginChecked w r)" using True by (auto simp: at_step_def)
      then have "earned (new_panel a) es n w r" using ok(5,6) by blast
      with at f(2,3) show ?thesis
        unfolding made_by_def Proceeds by (intro exI [of _ es] exI [of _ n] exI [of _ "[]"] exI [of _ w] exI [of _ r]) simp
    qed
  qed
qed

text \<open>
  C6: Who is let in, with any number of requests under way at the same time: whenever the second step of
  \<open>requireAuth\<close> finds a user, the request has the cookie of a session that no logout has ended and that was
  made at most twelve hours before, by a request that had earned it: a login whose password was right for
  the administrator of the moment when it was checked, or, on a panel that started without an
  administrator, a setup with the setup key of the start. There is one more way, and it is a flaw: a
  setup with an empty key whose comparison came after another setup was finished (theorem
  \<open>setup_takeover\<close>).
\<close>
theorem session_justified:
  assumes "newApp st key = Inr a" "q = run panel_step (new_panel a) es"
    and "at_step q n (VisitTested now cookie)" "fst (currentUser now cookie (pn_app q)) \<noteq> []"
  shows "\<exists>v x. cookie = Some v \<and> v \<noteq> [] \<and> now \<le> x \<and> made_by (new_panel a) es v x"
proof -
  obtain v x where v: "cookie = Some v" "v \<noteq> []" "aa_sessions (pn_app q) v = Some x" "now \<le> x"
    using assms(4) by (auto simp: currentUser_def split: if_splits option.splits)
  have "aa_sessions a = Map.empty"
    using assms(1) by (auto simp: newApp_def split: sum.splits if_splits)
  from session_made [OF this] v show ?thesis unfolding assms(2) by blast
qed

definition login_world :: auth_world where
  "login_world = \<lparr>au_hmac = sample_hmac, au_salt = Inr ''salt'', au_nowText = ''now'', au_save = (\<lambda>_. None),
     au_session = Inr ''s1'', au_now = 5\<rparr>"

definition setup_request :: "string \<Rightarrow> string \<Rightarrow> auth_request" where
  "setup_request key user = \<lparr>ar_post = True, ar_parse = None,
     ar_form = (\<lambda>_. [])(''setup_key'' := key, ''username'' := user, ''password'' := ''correct horse''), ar_cookie = None\<rparr>"

definition fresh_app :: admin_app where
  "fresh_app = \<lparr>aa_state = no_admin, aa_setupKey = ''k-1'', aa_sessions = Map.empty\<rparr>"

lemma fresh_app_new: "newApp (Inr no_admin) (Inr ''k-1'') = Inr fresh_app"
  by (simp add: newApp_def fresh_app_def no_admin_def)

lemma trim_samples: "trim_space ''root'' = ''root''" "trim_space ''eve'' = ''eve''"
  by (rule trim_space_id; simp add: solid_ascii)+

definition admin_of :: "string \<Rightarrow> adminState" where
  "admin_of user = newAdminState sample_hmac ''salt'' ''now'' user ''correct horse''"

lemma setup_checked_samples:
  "user \<in> {''root'', ''eve''} \<Longrightarrow> setup_checked login_world (setup_request key user) key = Some (admin_of user)"
  using trim_samples by (auto simp: setup_checked_def setup_request_def login_world_def admin_of_def Let_def)

lemma fresh_app_facts: "\<not> hasAdmin fresh_app" "aa_setupKey fresh_app = ''k-1''" "aa_sessions fresh_app = Map.empty"
  by (simp_all add: fresh_app_def hasAdmin_def no_admin_def)

lemma hasAdmin_admin_of: "hasAdmin (a\<lparr>aa_state := admin_of user, aa_setupKey := k, aa_sessions := ss\<rparr>) \<longleftrightarrow> user \<noteq> []"
  by (simp add: hasAdmin_def admin_of_def newAdminState_def)

lemma setSession_login_world:
  "setSession (au_now login_world) (au_session login_world) a = (Some ''s1'', a\<lparr>aa_sessions := (aa_sessions a)(''s1'' \<mapsto> 5 + session_life)\<rparr>)"
  by (simp add: setSession_def login_world_def)

theorem session_justified_witness:
  "\<exists>q es v x. newApp (Inr no_admin) (Inr ''k-1'') = Inr fresh_app \<and> q = run panel_step (new_panel fresh_app) es \<and>
     at_step q 1 (VisitTested 7 (Some ''s1'')) \<and> fst (currentUser 7 (Some ''s1'') (pn_app q)) = ''root'' \<and>
     Some ''s1'' = Some v \<and> v \<noteq> [] \<and> 7 \<le> x \<and> made_by (new_panel fresh_app) es v x"
proof -
  let ?es = "alone 0 (SetupRequest login_world (setup_request ''k-1'' ''root'')) @ [Arrives (Visit 7 (Some ''s1''))]"
  let ?q = "run panel_step (new_panel fresh_app) ?es"
  have q: "?q = \<lparr>pn_app = fresh_app\<lparr>aa_state := admin_of ''root'', aa_setupKey := [], aa_sessions := [''s1'' \<mapsto> 5 + session_life]\<rparr>,
      pn_flights = [Landed, VisitTested 7 (Some ''s1'')]\<rparr>"
    using setup_checked_samples [of "''root''" "''k-1''"]
    by (simp add: new_panel_def fresh_app_facts setSession_login_world hasAdmin_admin_of)
  have at: "at_step ?q 1 (VisitTested 7 (Some ''s1''))" unfolding q by (simp add: at_step_def)
  have user: "fst (currentUser 7 (Some ''s1'') (pn_app ?q)) = ''root''"
    unfolding q by (simp add: currentUser_def session_life_def admin_of_def newAdminState_def)
  then have "fst (currentUser 7 (Some ''s1'') (pn_app ?q)) \<noteq> []" by simp
  from session_justified [OF fresh_app_new refl at this] show ?thesis
    using fresh_app_new at user by blast
qed

section \<open>The race of two setups\<close>

text \<open>
  Setting up needs the key, but only of a request that no other one interrupts: such a setup
  leaves the administrator and the key as they are, or there was no administrator, the request had the
  setup key, and then there is one. Two at the same time are different: a request that was past the test
  of \<open>hasAdmin\<close> when another one with the key finished replaces its administrator, although it has an
  empty key, and gets a session.
\<close>
theorem setup_takeover:
  assumes "\<not> hasAdmin a" "setup_checked w1 r1 (aa_setupKey a) = Some st1" "setup_checked w2 r2 [] = Some st2"
    "au_session w2 = Inr v"
    and "q = run panel_step (new_panel a) ([Arrives (SetupRequest w1 r1), Arrives (SetupRequest w2 r2)] @
      replicate 3 (Proceeds 0) @ replicate 3 (Proceeds 1))"
    and "p' = run panel_step p (alone (length (pn_flights p)) (SetupRequest w r))"
  shows "aa_state (pn_app q) = st2 \<and> ar_form r2 ''setup_key'' = [] \<and> aa_sessions (pn_app q) v = Some (au_now w2 + session_life) \<and>
    (aa_state (pn_app p') = aa_state (pn_app p) \<and> aa_setupKey (pn_app p') = aa_setupKey (pn_app p) \<or>
     \<not> hasAdmin (pn_app p) \<and> ar_form r ''setup_key'' = aa_setupKey (pn_app p) \<and> hasAdmin (pn_app p'))"
proof -
  have "pn_app p' = snd (snd (handleSetup w r (pn_app p)))"
    unfolding assms(6) by (rule alone_is_handler) simp
  moreover have "aa_state (snd (snd (handleSetup w r b))) = aa_state b \<and> aa_setupKey (snd (snd (handleSetup w r b))) = aa_setupKey b \<or>
      \<not> hasAdmin b \<and> ar_form r ''setup_key'' = aa_setupKey b \<and> hasAdmin (snd (snd (handleSetup w r b)))" for b
    by (auto simp: handleSetup_def setup_post_def Let_def hasAdmin_def newAdminState_def setSession_app case_prod_beta show_page_def
        split: option.splits sum.splits)
  moreover have "aa_state (pn_app q) = st2" "aa_sessions (pn_app q) v = Some (au_now w2 + session_life)"
    using assms(1-4) unfolding assms(5)
    by (simp_all add: new_panel_def numeral_3_eq_3 setSession_app) (simp_all add: setSession_def)
  ultimately show ?thesis using setup_checked_key [OF assms(3)] by auto
qed

theorem setup_takeover_witness:
  "\<exists>q. q = run panel_step (new_panel fresh_app) ([Arrives (SetupRequest login_world (setup_request ''k-1'' ''root'')),
       Arrives (SetupRequest login_world (setup_request [] ''eve''))] @ replicate 3 (Proceeds 0) @ replicate 3 (Proceeds 1)) \<and>
     aa_state (pn_app q) = admin_of ''eve''"
proof -
  have c: "setup_checked login_world (setup_request ''k-1'' ''root'') (aa_setupKey fresh_app) = Some (admin_of ''root'')"
    "setup_checked login_world (setup_request [] ''eve'') [] = Some (admin_of ''eve'')"
    by (simp_all add: fresh_app_facts setup_checked_samples)
  have "au_session login_world = Inr ''s1''" by (simp add: login_world_def)
  from setup_takeover [OF fresh_app_facts(1) c this refl refl] show ?thesis by blast
qed

end
