(* ===== verification/Admin_Output.thy ===== *)
theory Admin_Output
  imports Admin_Certs Config_Load
begin

text \<open>
  The texts that the administration tool of \<open>src/ngrok/admin/main.go\<close> generates: the configuration of
  a client, that of nginx, the systemd unit of the server; and the small functions that choose a
  language and a message. The translations are a parameter.
\<close>

record admin_options =
  op_addr :: string
  op_statePath :: string
  op_envPath :: string
  op_clientPath :: string
  op_nginxPath :: string
  op_workDir :: string
  op_certDir :: string
  op_publicIP :: string
  op_serviceName :: string
  op_serverBin :: string
  op_timeout :: int

section \<open>The configuration of a client\<close>

definition tunnelPort :: "string \<Rightarrow> string" where
  "tunnelPort addr =
     (case split_host_port addr of
        Inl _ \<Rightarrow> ''4443''
      | Inr (_, port) \<Rightarrow> if port = [] then ''4443'' else port)"

definition clientConfig :: "serverConfig \<Rightarrow> string" where
  "clientConfig cfg = (let cfg = applyDefaults cfg in unlines
     [''server_addr: '' @ sc_ControlHost cfg @ '':'' @ tunnelPort (sc_TunnelAddr cfg),
      ''auth_token: '' @ sc_AuthToken cfg,
      ''trust_host_root_certs: true'',
      ''inspect_addr: 127.0.0.1:4040'',
      [],
      ''tunnels:'',
      ''  app:'',
      ''    proto:'',
      ''      http: 127.0.0.1:3000'',
      ''    subdomain: app''])"

section \<open>The configuration of nginx\<close>

record nginxDomain =
  nd_Domain :: string
  nd_Cert :: string
  nd_Key :: string

definition nginx_map :: "string list" where
  "nginx_map =
     [''map $http_upgrade $connection_upgrade {'',
      ''    default upgrade;'',
      ''    '' @ [dquote] @ [dquote] @ '' close;'',
      ''}'']"

definition nginx_servers :: "string \<Rightarrow> string \<Rightarrow> string \<Rightarrow> string \<Rightarrow> string list" where
  "nginx_servers httpAddr domain crt key =
     [[],
      ''server {'',
      ''    listen 80;'',
      ''    server_name '' @ domain @ '' *.'' @ domain @ '';'',
      [],
      ''    client_max_body_size 0;'',
      ''    proxy_request_buffering off;'',
      ''    proxy_buffering off;'',
      ''    proxy_http_version 1.1;'',
      [],
      ''    location / {'',
      ''        proxy_set_header Host $host;'',
      ''        proxy_set_header X-Forwarded-For $proxy_add_x_forwarded_for;'',
      ''        proxy_set_header X-Forwarded-Proto http;'',
      ''        proxy_set_header Upgrade $http_upgrade;'',
      ''        proxy_set_header Connection $connection_upgrade;'',
      ''        proxy_pass http://'' @ httpAddr @ '';'',
      ''    }'',
      ''}'',
      [],
      ''server {'',
      ''    listen 443 ssl;'',
      ''    http2 on;'',
      ''    server_name '' @ domain @ '' *.'' @ domain @ '';'',
      [],
      ''    ssl_certificate '' @ crt @ '';'',
      ''    ssl_certificate_key '' @ key @ '';'',
      [],
      ''    client_max_body_size 0;'',
      ''    proxy_request_buffering off;'',
      ''    proxy_buffering off;'',
      ''    proxy_http_version 1.1;'',
      [],
      ''    location / {'',
      ''        proxy_set_header Host $host;'',
      ''        proxy_set_header X-Forwarded-For $proxy_add_x_forwarded_for;'',
      ''        proxy_set_header X-Forwarded-Proto https;'',
      ''        proxy_set_header Upgrade $http_upgrade;'',
      ''        proxy_set_header Connection $connection_upgrade;'',
      ''        proxy_pass http://'' @ httpAddr @ '';'',
      ''    }'',
      ''}'']"

definition nginxConfig :: "admin_lib \<Rightarrow> serverConfig \<Rightarrow> nginxDomain list \<Rightarrow> string" where
  "nginxConfig lib cfg domains =
     (let cfg = applyDefaults cfg in
      unlines nginx_map @
      concat (map (\<lambda>item.
        let domain = normalizeDomain lib (nd_Domain item) in
        if domain = [] then []
        else unlines (nginx_servers (sc_HTTPAddr cfg) domain (nd_Cert item) (nd_Key item))) domains))"

definition nginxDomains :: "admin_lib \<Rightarrow> string option \<Rightarrow> string \<Rightarrow> serverConfig \<Rightarrow> nginxDomain list" where
  "nginxDomains lib env certDir cfg =
     (let cfg = applyDefaults cfg; ds = configuredDomainList lib env cfg;
          ds = (if ds = [] then [sc_Domain cfg] else ds)
      in map (\<lambda>domain. let (crt, key) = certPathsForDomain lib certDir domain cfg
                in \<lparr>nd_Domain = domain, nd_Cert = crt, nd_Key = key\<rparr>) ds)"

text \<open>\<open>env\<close> is the content of the file \<open>op_envPath\<close>.\<close>

definition desiredNginxConfig :: "admin_lib \<Rightarrow> string option \<Rightarrow> admin_options \<Rightarrow> serverConfig \<Rightarrow> string" where
  "desiredNginxConfig lib env opts cfg = nginxConfig lib cfg (nginxDomains lib env (op_certDir opts) cfg)"

section \<open>The systemd unit\<close>

definition systemdArg :: "admin_lib \<Rightarrow> string \<Rightarrow> string" where
  "systemdArg lib v =
     (let v = trim_space v in
      if v = [] then [dquote, dquote]
      else if contains_any v [CHR '' '', CHR 0x09, newline, dquote, squote] then quote (al_quote lib) v
      else v)"

definition defaultServiceName :: string where "defaultServiceName = ''ngrokd''"

definition serviceUnitPath :: "string \<Rightarrow> string" where
  "serviceUnitPath service =
     (let service = trim_space service;
          service = (if service = [] then defaultServiceName else service);
          service = (if has_suffix service ''.service'' then service else service @ ''.service'')
      in path_join [''/etc/systemd/system'', service])"

definition systemdServiceUnit :: "admin_lib \<Rightarrow> admin_options \<Rightarrow> string" where
  "systemdServiceUnit lib opts = unlines
     [''[Unit]'',
      ''Description=ngrokd tunnel server'',
      ''After=network-online.target'',
      ''Wants=network-online.target'',
      [],
      ''[Service]'',
      ''Type=simple'',
      ''WorkingDirectory='' @ systemdArg lib (op_workDir opts),
      ''EnvironmentFile='' @ systemdArg lib (op_envPath opts),
      ''ExecStart='' @ systemdArg lib (op_serverBin opts) @ '' '' @ [backslash],
      ''  -domain=${NGROKD_DOMAIN} '' @ [backslash],
      ''  -tlsCrt=${NGROKD_TLS_CRT} '' @ [backslash],
      ''  -tlsKey=${NGROKD_TLS_KEY} '' @ [backslash],
      ''  -authToken=${NGROKD_AUTH_TOKEN} '' @ [backslash],
      ''  -httpAddr=${NGROKD_HTTP_ADDR} '' @ [backslash],
      ''  -httpsAddr=${NGROKD_HTTPS_ADDR} '' @ [backslash],
      ''  -tunnelAddr=${NGROKD_TUNNEL_ADDR} '' @ [backslash],
      ''  -log=stdout '' @ [backslash],
      ''  -log-level=${NGROKD_LOG_LEVEL} '' @ [backslash],
      ''  -maxConnections=${NGROKD_MAX_CONNECTIONS} '' @ [backslash],
      ''  ${NGROKD_EXTRA_ARGS}'',
      ''Restart=on-failure'',
      ''RestartSec=3s'',
      ''KillSignal=SIGTERM'',
      ''TimeoutStopSec=20s'',
      ''LimitNOFILE=1048576'',
      [],
      ''[Install]'',
      ''WantedBy=multi-user.target'']"

section \<open>Languages and messages\<close>

definition normalizeLang :: "admin_lib \<Rightarrow> string \<Rightarrow> string" where
  "normalizeLang lib lang =
     (let lang = to_lower (al_lower lib) (trim_space lang) in
      if lang \<in> {''zh'', ''zh-cn'', ''cn''} then ''zh-CN''
      else if lang \<in> {''en'', ''en-us'', ''en-gb''} then ''en''
      else [])"

text \<open>\<open>cookie\<close> is the value of \<open>ngrok_admin_lang\<close>, \<open>header\<close> that of \<open>Accept-Language\<close>.\<close>

definition requestLang :: "admin_lib \<Rightarrow> string option \<Rightarrow> string \<Rightarrow> string" where
  "requestLang lib cookie accept =
     (let lang = (case cookie of None \<Rightarrow> [] | Some v \<Rightarrow> normalizeLang lib v) in
      if lang \<noteq> [] then lang
      else if str_contains (to_lower (al_lower lib) accept) ''zh'' then ''zh-CN''
      else ''en'')"

type_synonym tr_table = "string \<rightharpoonup> string \<rightharpoonup> string"

definition tr :: "tr_table \<Rightarrow> string \<Rightarrow> string \<Rightarrow> string" where
  "tr ts lang key =
     (let lang = (if lang = [] then ''en'' else lang);
          look = (\<lambda>l. case ts l of None \<Rightarrow> None | Some m \<Rightarrow> m key)
      in case look lang of
           Some v \<Rightarrow> v
         | None \<Rightarrow> (case look ''en'' of Some v \<Rightarrow> v | None \<Rightarrow> key))"

definition stateText :: "tr_table \<Rightarrow> string \<Rightarrow> string \<Rightarrow> string" where
  "stateText ts lang state =
     (if state \<in> {''done'', ''ok'', ''active''} then tr ts lang ''state_ok''
      else if state \<in> {''todo'', ''missing'', ''fail'', ''failed'', ''inactive'', ''unavailable''}
      then tr ts lang ''state_todo''
      else if state = ''running'' then tr ts lang ''state_running''
      else if state = [] then tr ts lang ''state_unknown''
      else state)"

definition messageText :: "tr_table \<Rightarrow> string \<Rightarrow> string \<Rightarrow> string" where
  "messageText ts lang code =
     (let code = trim_space code in
      if code = [] then []
      else if contains_any code [CHR '' '', CHR 0x09, newline] then code
      else tr ts lang (''msg_'' @ code))"

fun firstNonEmpty :: "string list \<Rightarrow> string" where
  "firstNonEmpty [] = []"
| "firstNonEmpty (v # vs) = (if trim_space v \<noteq> [] then trim_space v else firstNonEmpty vs)"

definition tail :: "string \<Rightarrow> nat \<Rightarrow> string" where
  "tail s m = (if length s \<le> m then s else drop (length s - m) s)"

section \<open>What the client reads\<close>

definition app_tunnel :: tunnelConfiguration where
  "app_tunnel = empty_tunnel\<lparr>tc_Protocols := [''http'' \<mapsto> ''127.0.0.1:3000''], tc_Subdomain := ''app''\<rparr>"

definition client_settings :: "string \<Rightarrow> string \<Rightarrow> configuration" where
  "client_settings addr tok =
     empty_configuration\<lparr>cf_ServerAddr := addr, cf_AuthToken := tok, cf_TrustHostRootCerts := True,
       cf_InspectAddr := ''127.0.0.1:4040'', cf_Tunnels := [''app'' \<mapsto> app_tunnel]\<rparr>"

definition client_lines :: "string \<Rightarrow> string \<Rightarrow> string list" where
  "client_lines addr tok =
     [entry 0 ''server_addr'' addr, entry 0 ''auth_token'' tok, entry 0 ''trust_host_root_certs'' ''true'',
      entry 0 ''inspect_addr'' ''127.0.0.1:4040'', [], header 0 ''tunnels'', header 2 ''app'', header 4 ''proto'',
      entry 6 ''http'' ''127.0.0.1:3000'', entry 4 ''subdomain'' ''app'']"

definition client_addr :: "serverConfig \<Rightarrow> string" where
  "client_addr cfg = sc_ControlHost (applyDefaults cfg) @ '':'' @ tunnelPort (sc_TunnelAddr (applyDefaults cfg))"

lemma applyDefaults_token: "sc_AuthToken (applyDefaults cfg) = sc_AuthToken cfg"
  by (simp add: applyDefaults_def Let_def)

lemma clientConfig_lines: "clientConfig cfg = unlines (client_lines (client_addr cfg) (sc_AuthToken cfg))"
  by (simp add: clientConfig_def client_lines_def client_addr_def entry_def header_def Let_def applyDefaults_token
      numeral_nat)

lemma clean_client:
  "clean_key ''app''" "clean_value ''127.0.0.1:4040''" "clean_value ''127.0.0.1:3000''" "clean_value ''app''"
  by (simp_all add: clean_value_def clean_key_def solid_ends_def solid_ascii newline_def quote_chars_def)

lemma parses_blank: "parses e [[]] st st"
proof -
  have "trim_space [] = []" using trim_space_subset [of "[]"] by simp
  then show ?thesis by (intro parses_one) (simp add: parse_line_def stripComment_def Let_def)
qed

lemma parses_client:
  assumes "clean_value addr" "clean_value tok"
  shows "\<exists>ip. parses e (client_lines addr tok) (start_parse empty_configuration)
      (in_tunnel (client_settings addr tok) ''app'' app_tunnel ip)"
proof -
  let ?c0 = empty_configuration
  let ?c1 = "?c0\<lparr>cf_ServerAddr := addr\<rparr>"
  let ?c2 = "?c1\<lparr>cf_AuthToken := tok\<rparr>"
  let ?c3 = "?c2\<lparr>cf_TrustHostRootCerts := True\<rparr>"
  let ?c4 = "?c3\<lparr>cf_InspectAddr := ''127.0.0.1:4040''\<rparr>"
  let ?s4 = "(start_parse ?c4)\<lparr>ps_section := ''tunnels''\<rparr>"
  let ?t1 = "empty_tunnel\<lparr>tc_Protocols := [''http'' \<mapsto> ''127.0.0.1:3000'']\<rparr>"
  have keys: "parses e [entry 0 ''server_addr'' addr] (start_parse ?c0) (start_parse ?c1)"
    "parses e [entry 0 ''auth_token'' tok] (start_parse ?c1) (start_parse ?c2)"
    "parses e [entry 0 ''trust_host_root_certs'' ''true''] (start_parse ?c2) (start_parse ?c3)"
    "parses e [entry 0 ''inspect_addr'' ''127.0.0.1:4040''] (start_parse ?c3) (start_parse ?c4)"
    by (rule parses_entry; simp add: clean_keywords clean_true clean_client assms top_defs parseBool_true)+
  have h: "parses e [header 0 ''tunnels''] (start_parse ?c4) ?s4"
    by (rule parses_header) (simp_all add: clean_keywords top_defs)
  have n: "parses e [header 2 ''app''] ?s4 (in_tunnel ?c4 ''app'' empty_tunnel False)"
    by (rule parses_header)
      (simp_all add: clean_client dispatch_def parse_tunnel_name_def on_config_def in_tunnel_def start_parse_def)
  have p: "parses e [header 4 ''proto''] (in_tunnel ?c4 ''app'' empty_tunnel False) (in_tunnel ?c4 ''app'' empty_tunnel True)"
    by (rule parses_header) (simp_all add: clean_keywords tunnel_defs)
  have a: "parses e [entry 6 ''http'' ''127.0.0.1:3000''] (in_tunnel ?c4 ''app'' empty_tunnel True) (in_tunnel ?c4 ''app'' ?t1 True)"
    by (rule parses_entry)
      (simp_all add: clean_samples clean_client dispatch_def parse_protocol_def on_tunnel_in empty_tunnel_def)
  have s: "parses e [entry 4 ''subdomain'' ''app''] (in_tunnel ?c4 ''app'' ?t1 True) (in_tunnel ?c4 ''app'' app_tunnel False)"
    by (rule parses_entry) (simp_all add: clean_keywords clean_client tunnel_defs app_tunnel_def)
  have same: "in_tunnel ?c4 ''app'' app_tunnel False = in_tunnel (client_settings addr tok) ''app'' app_tunnel False"
    by (simp add: in_tunnel_def client_settings_def empty_configuration_def)
  have "parses e ([entry 0 ''server_addr'' addr] @ [entry 0 ''auth_token'' tok] @
      [entry 0 ''trust_host_root_certs'' ''true''] @ [entry 0 ''inspect_addr'' ''127.0.0.1:4040''] @ [[]] @
      [header 0 ''tunnels''] @ [header 2 ''app''] @ [header 4 ''proto''] @ [entry 6 ''http'' ''127.0.0.1:3000''] @
      [entry 4 ''subdomain'' ''app'']) (start_parse ?c0) (in_tunnel ?c4 ''app'' app_tunnel False)"
    by (rule parses_append [OF keys(1)] parses_append [OF keys(2)] parses_append [OF keys(3)] parses_append [OF keys(4)]
        parses_append [OF parses_blank] parses_append [OF h] parses_append [OF n] parses_append [OF p]
        parses_append [OF a s])+
  then show ?thesis
    unfolding same by (intro exI [of _ False]) (simp add: client_lines_def)
qed

lemma client_reads:
  assumes "clean_value (client_addr cfg)" "clean_value (sc_AuthToken cfg)"
  shows "parseConfiguration e (clientConfig cfg) empty_configuration =
    Inr (client_settings (client_addr cfg) (sc_AuthToken cfg))"
proof -
  have "fits l" if "l \<in> set (client_lines (client_addr cfg) (sc_AuthToken cfg))" for l
    using that assms
    by (auto simp: client_lines_def clean_keywords clean_true clean_client clean_samples fits_entry fits_header)
      (simp add: fits_def max_token_def)
  then have "scan_lines (clientConfig cfg) = (client_lines (client_addr cfg) (sc_AuthToken cfg), None)"
    unfolding clientConfig_lines by (intro scan_unlines) (auto simp: fits_def)
  moreover have "ps_config (in_tunnel (client_settings a t) ''app'' app_tunnel ip) = client_settings a t" for a t ip
    by (simp add: in_tunnel_def client_settings_def)
  moreover obtain ip where "parse_lines e 1 (client_lines (client_addr cfg) (sc_AuthToken cfg)) (start_parse empty_configuration) =
      Inr (in_tunnel (client_settings (client_addr cfg) (sc_AuthToken cfg)) ''app'' app_tunnel ip)"
    using parses_client [OF assms, of e] unfolding parses_def by blast
  ultimately show ?thesis
    by (simp add: parseConfiguration_def del: One_nat_def)
qed

lemma digits_val_colon: "CHR '':'' \<in> set s \<Longrightarrow> digits_val n s = None"
  by (induction s arbitrary: n) (auto simp: is_digit_def)

lemma atoi_colon: "CHR '':'' \<in> set s \<Longrightarrow> atoi s = None"
  by (cases s) (auto simp: atoi_def parse_digits_def digits_val_colon split: option.splits)

lemma normalize_plain:
  assumes "set h \<inter> set '':[]'' = {}" "set p \<inter> set '':[]'' = {}" "h \<noteq> []"
  shows "normalizeAddress (h @ '':'' @ p) prop = Inr (h @ '':'' @ p)"
proof -
  have "split_host_port (h @ CHR '':'' # p) = Inr (h, p)"
    using assms by (subst split_plain) auto
  then show ?thesis
    using assms(3) atoi_colon [of "h @ '':'' @ p"] by (simp add: normalizeAddress_def)
qed

lemma tunnelPort_plain: "set (tunnelPort addr) \<inter> set '':[]'' = {}" "tunnelPort addr \<noteq> []"
  using split_host_port_parts [of addr] by (auto simp: tunnelPort_def split: sum.splits)

lemma control_host_nonempty: "sc_ControlHost (applyDefaults cfg) \<noteq> []"
  by (simp add: applyDefaults_def Let_def)

lemma not_legacy: "\<not> legacy_token (trim_space (clientConfig cfg))"
proof -
  have "CHR '':'' \<in> set (clientConfig cfg)"
    by (simp add: clientConfig_def Let_def)
  then have "CHR '':'' \<in> set (trim_space (clientConfig cfg))"
    by (intro trim_space_keeps space_bytes_ascii) simp_all
  moreover have "\<not> token_char CHR '':''"
    by (simp add: token_char_def is_digit_def is_lower_def is_upper_def)
  ultimately show ?thesis
    unfolding legacy_token_def list_all_iff by blast
qed

lemma app_checked:
  "set ks \<subseteq> {''http''} \<Longrightarrow> check_protocols name ks [''http'' \<mapsto> ''127.0.0.1:3000''] = Inr [''http'' \<mapsto> ''127.0.0.1:3000'']"
  by (induction ks)
    (auto simp: validateProtocol_def normalize_plain [of "''127.0.0.1''" "''3000''", simplified])

lemma app_tunnels_checked:
  assumes "ranges_ok e" "ts ''app'' = Some app_tunnel"
  shows "set names \<subseteq> {''app''} \<Longrightarrow> check_tunnels e names ts = Inr ts"
proof (induction names)
  case (Cons n ns)
  have "set (ce_range e tag {''http''}) \<subseteq> {''http''}" for tag
    using assms by (simp add: ranges_ok_def)
  then have "check_tunnel e ''app'' app_tunnel = Inr app_tunnel"
    by (simp add: check_tunnel_def app_tunnel_def app_checked Let_def)
  moreover have "ts(''app'' \<mapsto> app_tunnel) = ts"
    using assms(2) by (rule fun_upd_idem)
  ultimately show ?case
    using Cons assms(2) by simp
qed simp

text \<open>The command \<open>ngrok -config=<path> start app\<close>.\<close>

definition start_app :: "string \<Rightarrow> client_options \<Rightarrow> bool" where
  "start_app path opts \<longleftrightarrow>
     path \<noteq> [] \<and> co_config opts = path \<and> co_command opts = ''start'' \<and> co_args opts = [''app''] \<and>
     co_authtoken opts = [] \<and> co_inspectauth opts = []"

lemma client_starts:
  assumes "ranges_ok e" "ce_readFile e path = (clientConfig cfg, None)" "ce_getenv e ''http_proxy'' = []"
    and "start_app path opts" "clean_value (client_addr cfg)" "clean_value (sc_AuthToken cfg)"
    and host: "set (sc_ControlHost (applyDefaults cfg)) \<inter> set '':[]'' = {}"
  shows "LoadConfiguration e opts = Loaded ((client_settings (client_addr cfg) (sc_AuthToken cfg))
     \<lparr>cf_LogTo := co_logto opts, cf_Path := path\<rparr>)"
proof -
  let ?c = "client_settings (client_addr cfg) (sc_AuthToken cfg)"
  have opts: "path \<noteq> []" "co_config opts = path" "co_command opts = ''start''" "co_args opts = [''app'']"
    "co_authtoken opts = []" "co_inspectauth opts = []"
    using assms(4) by (simp_all add: start_app_def)
  have read: "read_configuration e opts = Inr ?c"
    using client_reads [OF assms(5,6), of e] not_legacy [of cfg]
    by (simp add: read_configuration_def opts assms(2) Let_def)
  have addr: "normalizeAddress (client_addr cfg) pn = Inr (client_addr cfg)" for pn
    unfolding client_addr_def by (rule normalize_plain [OF host tunnelPort_plain(1) control_host_nonempty])
  have c: "cf_ServerAddr ?c = client_addr cfg" "cf_InspectAddr ?c = ''127.0.0.1:4040''" "cf_InspectAuth ?c = []"
    "cf_HttpProxy ?c = []" "cf_Tunnels ?c = [''app'' \<mapsto> app_tunnel]" "cf_AuthToken ?c = sc_AuthToken cfg"
    by (simp_all add: client_settings_def empty_configuration_def)
  have same: "?c\<lparr>cf_InspectAddr := ''127.0.0.1:4040''\<rparr> = ?c" "?c\<lparr>cf_InspectAuth := []\<rparr> = ?c"
    "?c\<lparr>cf_ServerAddr := client_addr cfg\<rparr> = ?c" "?c\<lparr>cf_HttpProxy := []\<rparr> = ?c"
    "?c\<lparr>cf_Tunnels := [''app'' \<mapsto> app_tunnel]\<rparr> = ?c"
    by (simp_all add: client_settings_def empty_configuration_def)
  have "client_addr cfg \<noteq> []" by (simp add: client_addr_def)
  then have d: "config_defaults e ?c = ?c"
    by (simp add: config_defaults_def c assms(3) same)
  have i: "check_inspect e opts ?c = Inr ?c"
    by (simp add: check_inspect_def c normalize_8080 same opts loopback_8080 Let_def)
  have s: "check_server ?c = Inr ?c"
    by (simp add: check_server_def c addr same)
  have t: "check_tunnels e (ce_range e [''tunnels''] (dom (cf_Tunnels ?c))) (cf_Tunnels ?c) = Inr (cf_Tunnels ?c)"
    using assms(1) by (intro app_tunnels_checked) (simp_all add: c ranges_ok_def)
  have "validated e opts = Inr (?c\<lparr>cf_LogTo := co_logto opts, cf_Path := path\<rparr>)"
    by (simp add: validated_def read d i s check_proxy_def t opts Let_def) (simp add: c same)
  then show ?thesis
    by (simp add: LoadConfiguration_def run_command_def opts undefined_tunnel_def c)
qed

text \<open>
  C10: The configuration that the panel offers for download works: with it and \<open>start app\<close> the client
  starts exactly the tunnel \<open>app\<close>, connects to the control host at the port on which the server
  listens for tunnels, and sends the server's token; as long as the token needs no quoting and the
  host no brackets.
\<close>
theorem client_config_starts:
  assumes "ranges_ok e" "ce_readFile e path = (clientConfig cfg, None)" "ce_getenv e ''http_proxy'' = []"
    and "start_app path opts" "clean_value (client_addr cfg)" "clean_value (sc_AuthToken cfg)"
    and "set (sc_ControlHost (applyDefaults cfg)) \<inter> set '':[]'' = {}"
  shows "LoadConfiguration e opts = Loaded
     (empty_configuration
       \<lparr>cf_ServerAddr := sc_ControlHost (applyDefaults cfg) @ '':'' @ tunnelPort (sc_TunnelAddr (applyDefaults cfg)),
        cf_AuthToken := sc_AuthToken cfg, cf_TrustHostRootCerts := True, cf_InspectAddr := ''127.0.0.1:4040'',
        cf_Tunnels := [''app'' \<mapsto> empty_tunnel\<lparr>tc_Protocols := [''http'' \<mapsto> ''127.0.0.1:3000''], tc_Subdomain := ''app''\<rparr>],
        cf_LogTo := co_logto opts, cf_Path := path\<rparr>)"
  using client_starts [OF assms] by (simp add: client_settings_def client_addr_def app_tunnel_def)

definition sample_server :: serverConfig where
  "sample_server = defaultServerConfig\<lparr>sc_Domain := ''a.bc'', sc_AuthToken := ''t0k'', sc_TunnelAddr := '':4443''\<rparr>"

definition sample_client :: client_env where
  "sample_client = sample_client_env\<lparr>ce_readFile := (\<lambda>_. (clientConfig sample_server, None))\<rparr>"

theorem client_config_starts_witness:
  "\<exists>c. LoadConfiguration sample_client (default_client_options\<lparr>co_config := ''c.yml'', co_command := ''start'', co_args := [''app'']\<rparr>) = Loaded c \<and>
     cf_ServerAddr c = ''ngrok.a.bc:4443'' \<and> cf_AuthToken c = ''t0k'' \<and>
     (\<exists>t. cf_Tunnels c ''app'' = Some t \<and> tc_Subdomain t = ''app'')"
proof -
  have r: "ranges_ok sample_client"
    using sample_ranges by (simp add: sample_client_def ranges_ok_def)
  have f: "ce_readFile sample_client ''c.yml'' = (clientConfig sample_server, None)" "ce_getenv sample_client ''http_proxy'' = []"
    by (simp_all add: sample_client_def sample_client_env_def)
  have o1: "start_app ''c.yml'' (default_client_options\<lparr>co_config := ''c.yml'', co_command := ''start'', co_args := [''app'']\<rparr>)"
    by (simp add: start_app_def default_client_options_def)
  have h: "sc_ControlHost (applyDefaults sample_server) = ''ngrok.a.bc''" "sc_TunnelAddr (applyDefaults sample_server) = '':4443''"
    "sc_AuthToken sample_server = ''t0k''"
    by (simp_all add: sample_server_def defaultServerConfig_def applyDefaults_def Let_def has_prefix_def)
  have port: "tunnelPort '':4443'' = ''4443''"
    by (simp add: tunnelPort_def split_host_port_def last_cut_def)
  have "clean_value (client_addr sample_server)" "clean_value (sc_AuthToken sample_server)"
    "set (sc_ControlHost (applyDefaults sample_server)) \<inter> set '':[]'' = {}"
    by (simp_all add: client_addr_def h port clean_value_def solid_ends_def solid_ascii newline_def quote_chars_def)
  from client_config_starts [OF r f o1 this]
  show ?thesis by (simp add: h port)
qed

section \<open>What nginx is told\<close>

text \<open>The arguments of a directive, read from the text line by line.\<close>

definition directive :: "string \<Rightarrow> string \<Rightarrow> string option" where
  "directive name line =
     (let l = trim_left_set '' '' line in
      if has_prefix l (name @ '' '') then Some (trim_suffix (drop (length name + 1) l) '';'') else None)"

definition directives :: "string \<Rightarrow> string \<Rightarrow> string list" where
  "directives name text = List.map_filter (directive name) (raw_lines text)"

lemma map_filter_app: "List.map_filter f (xs @ ys) = List.map_filter f xs @ List.map_filter f ys"
  by (simp add: List.map_filter_def)

lemma map_filter_concat: "List.map_filter f (concat xss) = concat (map (List.map_filter f) xss)"
  by (induction xss) (simp_all add: map_filter_app List.map_filter_def)

lemma trim_suffix_semicolon: "trim_suffix (x @ '';'') '';'' = x"
  by (simp add: trim_suffix_def has_suffix_def)

lemma directive_none:
  "hd (trim_left_set '' '' line) \<noteq> CHR ''s'' \<Longrightarrow> trim_left_set '' '' line \<noteq> [] \<Longrightarrow> directive (CHR ''s'' # name) line = None"
  by (cases "trim_left_set '' '' line") (auto simp: directive_def has_prefix_def)

lemma nginx_map_directives: "List.map_filter (directive (CHR ''s'' # name)) nginx_map = []"
  by (simp add: nginx_map_def List.map_filter_def directive_def has_prefix_def trim_left_set_def Let_def dquote_def)

lemma nginx_servers_directives:
  "List.map_filter (directive ''server_name'') (nginx_servers a d crt key) = [d @ '' *.'' @ d, d @ '' *.'' @ d]"
  "List.map_filter (directive ''ssl_certificate'') (nginx_servers a d crt key) = [crt]"
  "List.map_filter (directive ''ssl_certificate_key'') (nginx_servers a d crt key) = [key]"
  using trim_suffix_semicolon [of "d @ '' *.'' @ d"] trim_suffix_semicolon [of crt] trim_suffix_semicolon [of key]
  by (simp_all add: nginx_servers_def List.map_filter_def directive_def has_prefix_def trim_left_set_def Let_def)

lemma nginx_lines_plain:
  assumes "newline \<notin> set a" "newline \<notin> set d" "newline \<notin> set crt" "newline \<notin> set key"
  shows "\<forall>l \<in> set (nginx_servers a d crt key). newline \<notin> set l" "\<forall>l \<in> set nginx_map. newline \<notin> set l"
  using assms by (simp_all add: nginx_servers_def nginx_map_def newline_def dquote_def)

lemma nginx_text:
  assumes "\<forall>item \<in> set items. nd_Domain item \<noteq> [] \<and> normalizeDomain lib (nd_Domain item) = nd_Domain item"
  shows "nginxConfig lib cfg items = unlines (nginx_map @ concat (map (\<lambda>item.
     nginx_servers (sc_HTTPAddr (applyDefaults cfg)) (nd_Domain item) (nd_Cert item) (nd_Key item)) items))"
proof -
  let ?f = "\<lambda>item. nginx_servers (sc_HTTPAddr (applyDefaults cfg)) (nd_Domain item) (nd_Cert item) (nd_Key item)"
  have "map (\<lambda>item. if normalizeDomain lib (nd_Domain item) = [] then []
        else unlines (nginx_servers (sc_HTTPAddr (applyDefaults cfg)) (normalizeDomain lib (nd_Domain item)) (nd_Cert item)
           (nd_Key item))) items = map (\<lambda>item. unlines (?f item)) items"
    using assms by (intro map_cong) simp_all
  then show ?thesis
    unfolding nginxConfig_def Let_def unlines_simps(3) unlines_concat by (rule arg_cong)
qed

lemma nginx_directives:
  assumes items: "\<forall>item \<in> set items. nd_Domain item \<noteq> [] \<and> normalizeDomain lib (nd_Domain item) = nd_Domain item \<and>
       newline \<notin> set (nd_Domain item) \<and> newline \<notin> set (nd_Cert item) \<and> newline \<notin> set (nd_Key item)"
    and addr: "newline \<notin> set (sc_HTTPAddr (applyDefaults cfg))"
  shows "directives (CHR ''s'' # name) (nginxConfig lib cfg items) =
     concat (map (\<lambda>item. List.map_filter (directive (CHR ''s'' # name))
       (nginx_servers (sc_HTTPAddr (applyDefaults cfg)) (nd_Domain item) (nd_Cert item) (nd_Key item))) items)"
proof -
  have nt: "nginxConfig lib cfg items = unlines (nginx_map @ concat (map (\<lambda>item.
     nginx_servers (sc_HTTPAddr (applyDefaults cfg)) (nd_Domain item) (nd_Cert item) (nd_Key item)) items))"
    using items by (intro nginx_text) blast
  show ?thesis
    unfolding directives_def nt
  proof (subst raw_lines_unlines)
    show "\<forall>l \<in> set (nginx_map @ concat (map (\<lambda>item.
       nginx_servers (sc_HTTPAddr (applyDefaults cfg)) (nd_Domain item) (nd_Cert item) (nd_Key item)) items)). newline \<notin> set l"
    proof
      fix l assume l: "l \<in> set (nginx_map @ concat (map (\<lambda>item.
        nginx_servers (sc_HTTPAddr (applyDefaults cfg)) (nd_Domain item) (nd_Cert item) (nd_Key item)) items))"
      show "newline \<notin> set l"
      proof (cases "l \<in> set nginx_map")
        case True
        then show ?thesis using nginx_lines_plain(2) [of "[]" "[]" "[]" "[]"] by simp
      next
        case False
        then obtain item where "item \<in> set items"
          "l \<in> set (nginx_servers (sc_HTTPAddr (applyDefaults cfg)) (nd_Domain item) (nd_Cert item) (nd_Key item))"
          using l by auto
        then show ?thesis using items addr nginx_lines_plain(1) by blast
      qed
    qed
  next
    show "List.map_filter (directive (CHR ''s'' # name)) (nginx_map @ concat (map (\<lambda>item.
        nginx_servers (sc_HTTPAddr (applyDefaults cfg)) (nd_Domain item) (nd_Cert item) (nd_Key item)) items)) =
     concat (map (\<lambda>item. List.map_filter (directive (CHR ''s'' # name))
       (nginx_servers (sc_HTTPAddr (applyDefaults cfg)) (nd_Domain item) (nd_Cert item) (nd_Key item))) items)"
      by (simp add: map_filter_app map_filter_concat nginx_map_directives comp_def)
  qed
qed

lemma host_char_newline: "host_char c \<Longrightarrow> c \<noteq> newline"
  by (auto simp: host_char_def label_char_def newline_def is_lower_def is_upper_def is_digit_def)

text \<open>
  nginx is told about every domain: in the configuration that the panel writes, read back line by
  line, each configured domain has its two servers, for itself and the names below it and in the
  configured order, and the one for TLS has the certificate and the key that the settings give it.
\<close>
theorem nginx_serves_every_domain:
  assumes "configuredDomainList lib env (applyDefaults cfg) = ds" "ds \<noteq> []"
    and "newline \<notin> set (sc_HTTPAddr (applyDefaults cfg))"
    and "list_all (\<lambda>d. newline \<notin> set (fst (certPathsForDomain lib (op_certDir opts) d (applyDefaults cfg)))) ds"
    and "list_all (\<lambda>d. newline \<notin> set (snd (certPathsForDomain lib (op_certDir opts) d (applyDefaults cfg)))) ds"
  shows "let text = desiredNginxConfig lib env opts cfg;
       paths = map (\<lambda>d. certPathsForDomain lib (op_certDir opts) d (applyDefaults cfg)) ds in
     directives ''server_name'' text = concat (map (\<lambda>d. replicate 2 (d @ '' *.'' @ d)) ds) \<and>
     directives ''ssl_certificate'' text = map fst paths \<and>
     directives ''ssl_certificate_key'' text = map snd paths"
proof -
  define items where "items = nginxDomains lib env (op_certDir opts) cfg"
  have i: "items = map (\<lambda>d. \<lparr>nd_Domain = d, nd_Cert = fst (certPathsForDomain lib (op_certDir opts) d (applyDefaults cfg)),
      nd_Key = snd (certPathsForDomain lib (op_certDir opts) d (applyDefaults cfg))\<rparr>) ds"
    using assms(1,2) by (simp add: items_def nginxDomains_def Let_def case_prod_beta)
  have ok: "domains_ok ds" using configured_ok assms(1) by blast
  have "nd_Domain item \<noteq> [] \<and> normalizeDomain lib (nd_Domain item) = nd_Domain item \<and>
       newline \<notin> set (nd_Domain item) \<and> newline \<notin> set (nd_Cert item) \<and> newline \<notin> set (nd_Key item)"
    if m: "item \<in> set items" for item
  proof -
    obtain d where d: "d \<in> set ds" "nd_Domain item = d"
      "nd_Cert item = fst (certPathsForDomain lib (op_certDir opts) d (applyDefaults cfg))"
      "nd_Key item = snd (certPathsForDomain lib (op_certDir opts) d (applyDefaults cfg))"
      using m unfolding i by auto
    have v: "validDomainName d" using domains_okD [OF ok d(1)] by blast
    then have "newline \<notin> set d"
      using validHostname_chars [OF valid_hostname [OF v]] host_char_newline by blast
    with v d assms(4,5) show ?thesis
      by (simp add: list_all_iff normalizeDomain_valid valid_domain_facts)
  qed
  then have d: "directives (CHR ''s'' # name) (desiredNginxConfig lib env opts cfg) =
     concat (map (\<lambda>item. List.map_filter (directive (CHR ''s'' # name))
       (nginx_servers (sc_HTTPAddr (applyDefaults cfg)) (nd_Domain item) (nd_Cert item) (nd_Key item))) items)" for name
    unfolding desiredNginxConfig_def items_def [symmetric] using assms(3) by (intro nginx_directives) blast+
  show ?thesis
    by (simp add: d nginx_servers_directives i Let_def comp_def numeral_2_eq_2)
qed

definition sample_options :: admin_options where
  "sample_options = \<lparr>op_addr = ''127.0.0.1:9090'', op_statePath = ''/etc/ngrok/admin.json'',
     op_envPath = ''/etc/ngrok/ngrokd.env'', op_clientPath = ''/etc/ngrok/client.yml'',
     op_nginxPath = ''/etc/nginx/conf.d/ngrok.conf'', op_workDir = ''/w'', op_certDir = ''/w/certs'', op_publicIP = [],
     op_serviceName = ''ngrokd'', op_serverBin = ''/usr/local/bin/ngrokd'', op_timeout = 90 * 1000000000\<rparr>"

theorem nginx_serves_every_domain_witness:
  "directives ''ssl_certificate'' (desiredNginxConfig sample_lib None sample_options two_domains) =
     [''/etc/ngrok/tls/fullchain.pem'', ''/c/f.pem'']"
proof -
  let ?c = "applyDefaults two_domains"
  let ?ds = "[''one.example'', ''two.example'']"
  have v: "validDomainName ''one.example''" "validDomainName ''two.example''" by code_simp+
  have f: "sc_Domain ?c = ''one.example''" "sc_VHost ?c = join '','' ?ds" "sc_HTTPAddr ?c = ''127.0.0.1:8080''"
    "sc_ExtraArgs two_domains = ''-domainCert=two.example:/c/f.pem:/c/p.pem''"
    "sc_TLSCrt ?c = ''/etc/ngrok/tls/fullchain.pem''" "sc_TLSKey ?c = ''/etc/ngrok/tls/privkey.pem''" "applyDefaults ?c = ?c"
    by (simp_all add: two_domains_def defaultServerConfig_def applyDefaults_def Let_def has_prefix_def)
  have ds: "configuredDomainList sample_lib None ?c = ?ds"
    using v f by (intro configured_saved) (simp_all add: domains_ok_def defaultLikeDomain_def)
  have arg: "domainCertArgPaths ''-domainCert=two.example:/c/f.pem:/c/p.pem'' ''two.example'' = Some (''/c/f.pem'', ''/c/p.pem'')"
    by code_simp
  have paths: "certPathsForDomain sample_lib dir ''one.example'' ?c = (''/etc/ngrok/tls/fullchain.pem'', ''/etc/ngrok/tls/privkey.pem'')"
    "certPathsForDomain sample_lib dir ''two.example'' ?c = (''/c/f.pem'', ''/c/p.pem'')" for dir
    by (simp_all add: certPathsForDomain_def f arg normalizeDomain_valid v Let_def)
  show ?thesis
    using nginx_serves_every_domain [OF ds, of sample_options] by (simp add: paths f newline_def Let_def)
qed

end
