(* ===== verification/Admin_Checks.thy ===== *)
theory Admin_Checks
  imports Admin_Output Admin_Auth
begin

text \<open>
  What the panel of \<open>src/ngrok/admin/main.go\<close> finds out about the machine: the checks, the binaries it
  built, the readiness of \<open>acme.sh\<close>, and the steps of the set-up with the one that comes next. The
  files of the machine are a map; the network, the environment and the programs are parameters.
\<close>

section \<open>The machine\<close>

datatype fs_node = Dir | File string

type_synonym files = "string \<rightharpoonup> fs_node"

text \<open>A run of a program: its directory if one is set, variables added to the environment, its arguments.\<close>

record command_run =
  cm_dir :: "string option"
  cm_env :: "string list"
  cm_name :: string
  cm_args :: "string list"

text \<open>
  What the program asks the machine: \<open>ae_command\<close> gives the output, the error and the files after a
  run; \<open>ae_size\<close> is the text that the verb \<open>%.1f MB\<close> makes of a size; \<open>ae_mkdir\<close> and \<open>ae_write\<close> are
  \<open>os.MkdirAll\<close> and \<open>os.WriteFile\<close>, \<open>ae_chmod\<close>, \<open>ae_chown\<close> and \<open>ae_rename\<close> the errors of the calls of these names.
\<close>

record admin_env =
  ae_lib :: admin_lib
  ae_tr :: tr_table
  ae_ip6 :: "string \<Rightarrow> string"
  ae_lookup :: "string \<Rightarrow> string list result"
  ae_dial :: "string \<Rightarrow> string option"
  ae_getenv :: "string \<Rightarrow> string"
  ae_lookPath :: "string \<Rightarrow> string result"
  ae_home :: string
  ae_cwd :: "string result"
  ae_glob :: "files \<Rightarrow> string \<Rightarrow> string list"
  ae_decode :: cert_decoder
  ae_digest :: "string \<Rightarrow> string"
  ae_size :: "fs_node \<Rightarrow> string"
  ae_mkdir :: "string \<Rightarrow> files \<Rightarrow> string option \<times> files"
  ae_write :: "string \<Rightarrow> string \<Rightarrow> files \<Rightarrow> string option \<times> files"
  ae_chmod :: "string \<Rightarrow> string option"
  ae_chown :: "string \<Rightarrow> string option"
  ae_rename :: "string \<Rightarrow> string \<Rightarrow> string option"
  ae_root :: bool
  ae_command :: "command_run \<Rightarrow> files \<Rightarrow> string \<times> string option \<times> files"
  ae_now :: int
  ae_nowText :: string

definition read_file :: "files \<Rightarrow> string \<Rightarrow> string result" where
  "read_file fs path =
     (case fs path of
        None \<Rightarrow> Inl (''open '' @ path @ '': no such file or directory'')
      | Some Dir \<Rightarrow> Inl (''read '' @ path @ '': is a directory'')
      | Some (File b) \<Rightarrow> Inr b)"

definition fileExists :: "files \<Rightarrow> string \<Rightarrow> bool" where
  "fileExists fs path \<longleftrightarrow> fs path \<noteq> None"

text \<open>The content of the environment file for its readers.\<close>

definition env_file :: "files \<Rightarrow> admin_options \<Rightarrow> string option" where
  "env_file fs opts = (case read_file fs (op_envPath opts) of Inl _ \<Rightarrow> None | Inr b \<Rightarrow> Some b)"

section \<open>Options\<close>

definition project_dir :: "files \<Rightarrow> string \<Rightarrow> bool" where
  "project_dir fs path \<longleftrightarrow> fileExists fs (path_join [path, ''Makefile'']) \<and> fileExists fs (path_join [path, ''src'', ''ngrok''])"

definition detectWorkDir :: "admin_env \<Rightarrow> files \<Rightarrow> string" where
  "detectWorkDir e fs =
     (case (case ae_cwd e of Inr cwd \<Rightarrow> if project_dir fs cwd then Some cwd else None | Inl _ \<Rightarrow> None) of
        Some cwd \<Rightarrow> cwd
      | None \<Rightarrow>
          (case find (project_dir fs) [''/root/ngrok'', ''/opt/ngrok'', ''/usr/local/src/ngrok''] of
             Some path \<Rightarrow> path
           | None \<Rightarrow> (case ae_cwd e of Inr cwd \<Rightarrow> cwd | Inl _ \<Rightarrow> ''.'')))"

definition options_defaults :: "admin_env \<Rightarrow> files \<Rightarrow> admin_options \<Rightarrow> admin_options" where
  "options_defaults e fs o1 =
     (let o1 = (if op_workDir o1 = [] then o1\<lparr>op_workDir := detectWorkDir e fs\<rparr> else o1);
          o1 = (if op_certDir o1 = [] then o1\<lparr>op_certDir := path_join [op_workDir o1, ''certs'']\<rparr> else o1)
      in if op_publicIP o1 = [] then o1\<lparr>op_publicIP := trim_space (ae_getenv e ''NGROK_ADMIN_PUBLIC_IP'')\<rparr> else o1)"

section \<open>Checks\<close>

definition pathCheck :: "files \<Rightarrow> string \<Rightarrow> string \<Rightarrow> checkItem" where
  "pathCheck fs name path =
     \<lparr>ck_Name = name, ck_State = (if fs path = None then ''missing'' else ''ok''), ck_Detail = path\<rparr>"

definition joinHostPort :: "string \<Rightarrow> string \<Rightarrow> string" where
  "joinHostPort host port = (if CHR '':'' \<in> set host then ''['' @ host @ '']:'' @ port else host @ '':'' @ port)"

definition tcpCheck :: "admin_env \<Rightarrow> string \<Rightarrow> string \<Rightarrow> string \<Rightarrow> checkItem" where
  "tcpCheck e name host port =
     (let target = joinHostPort host port in
      case ae_dial e target of
        Some err \<Rightarrow> \<lparr>ck_Name = name, ck_State = ''fail'', ck_Detail = err\<rparr>
      | None \<Rightarrow> \<lparr>ck_Name = name, ck_State = ''ok'', ck_Detail = target\<rparr>)"

definition runChecks :: "admin_env \<Rightarrow> files \<Rightarrow> serverConfig \<Rightarrow> admin_options \<Rightarrow> string \<Rightarrow> checkItem list" where
  "runChecks e fs cfg opts nginxPath =
     (let cfg = applyDefaults cfg in
      [pathCheck fs ''env'' (op_envPath opts), pathCheck fs ''certificate'' (sc_TLSCrt cfg),
       pathCheck fs ''private key'' (sc_TLSKey cfg), dnsCheck (ae_lookup e) ''control DNS'' (sc_ControlHost cfg),
       dnsCheck (ae_lookup e) ''wildcard DNS'' (probe_name (ae_now e) (sc_Domain cfg)),
       tcpCheck e ''tunnel port'' (sc_ControlHost cfg) (tunnelPort (sc_TunnelAddr cfg)),
       pathCheck fs ''nginx config'' nginxPath])"

text \<open>The first file of a pattern that talks about this server.\<close>

definition ngrok_site :: "admin_env \<Rightarrow> serverConfig \<Rightarrow> string \<Rightarrow> bool" where
  "ngrok_site e cfg txt \<longleftrightarrow>
     str_contains txt (sc_HTTPAddr cfg) \<or>
     str_contains (to_lower (al_lower (ae_lib e)) txt) ''ngrok'' \<and> str_contains txt ''proxy_pass''"

definition detectNginxPath :: "admin_env \<Rightarrow> files \<Rightarrow> serverConfig \<Rightarrow> string \<Rightarrow> string" where
  "detectNginxPath e fs cfg fallback =
     (let cfg = applyDefaults cfg in
      if fs fallback \<noteq> None then fallback
      else case find (\<lambda>path. case read_file fs path of Inl _ \<Rightarrow> False | Inr b \<Rightarrow> ngrok_site e cfg b)
                  (ae_glob e fs ''/etc/nginx/conf.d/*.conf'' @ ae_glob e fs ''/etc/nginx/sites-enabled/*'') of
             Some path \<Rightarrow> path
           | None \<Rightarrow> fallback)"

section \<open>Certificates by acme.sh\<close>

definition findAcmeSH :: "admin_env \<Rightarrow> files \<Rightarrow> string result" where
  "findAcmeSH e fs =
     (case ae_lookPath e ''acme.sh'' of
        Inr bin \<Rightarrow> Inr bin
      | Inl _ \<Rightarrow>
          (case find (\<lambda>path. case fs path of Some (File _) \<Rightarrow> True | _ \<Rightarrow> False)
                  [path_join [ae_home e, ''.acme.sh'', ''acme.sh''], ''/root/.acme.sh/acme.sh'', ''/usr/local/bin/acme.sh''] of
             Some path \<Rightarrow> Inr path
           | None \<Rightarrow> Inl ''acme.sh not found''))"

definition envTrue :: "admin_lib \<Rightarrow> string \<Rightarrow> bool" where
  "envTrue lib v \<longleftrightarrow> to_lower (al_lower lib) (trim_space v) \<in> {''1'', ''true'', ''yes'', ''on''}"

definition acmeDNSPlugin :: "admin_env \<Rightarrow> string" where
  "acmeDNSPlugin e = firstNonEmpty [ae_getenv e ''NGROK_ADMIN_DNS_PLUGIN'', ae_getenv e ''ACME_DNS_PLUGIN'', ''dns_cf'']"

definition acmeDNSCredentialCheck :: "admin_env \<Rightarrow> string \<Rightarrow> checkItem" where
  "acmeDNSCredentialCheck e plugin =
     (let plugin = trim_space plugin; item = (\<lambda>state detail. \<lparr>ck_Name = ''dns_api'', ck_State = state, ck_Detail = detail\<rparr>) in
      if plugin = [] then item ''missing'' ''DNS plugin is empty''
      else if plugin = ''dns_cf'' then
        (if ae_getenv e ''CF_Token'' \<noteq> [] \<or> (ae_getenv e ''CF_Key'' \<noteq> [] \<and> ae_getenv e ''CF_Email'' \<noteq> [])
         then item ''ok'' plugin
         else item ''missing'' ''dns_cf: set CF_Token or CF_Key + CF_Email'')
      else if envTrue (ae_lib e) (ae_getenv e ''NGROK_ADMIN_DNS_READY'') \<or> envTrue (ae_lib e) (ae_getenv e ''ACME_DNS_READY'')
      then item ''ok'' plugin
      else item ''missing'' (plugin @ '': set NGROK_ADMIN_DNS_READY=1 after configuring acme.sh DNS credentials''))"

definition acmeReadinessChecks :: "admin_env \<Rightarrow> files \<Rightarrow> checkItem list" where
  "acmeReadinessChecks e fs =
     [case findAcmeSH e fs of
        Inr bin \<Rightarrow> \<lparr>ck_Name = ''acme_sh'', ck_State = ''ok'', ck_Detail = bin\<rparr>
      | Inl err \<Rightarrow> \<lparr>ck_Name = ''acme_sh'', ck_State = ''missing'', ck_Detail = err\<rparr>,
      acmeDNSCredentialCheck e (acmeDNSPlugin e)]"

section \<open>Binaries\<close>

record binaryItem =
  bi_Name :: string
  bi_Path :: string
  bi_State :: string
  bi_Size :: string
  bi_URL :: string

record clientPlatform =
  cp_Key :: string
  cp_LabelKey :: string
  cp_GOOS :: string
  cp_GOARCH :: string
  cp_Filename :: string
  cp_Path :: string
  cp_State :: string
  cp_Size :: string
  cp_URL :: string

definition platform :: "string \<Rightarrow> string \<Rightarrow> string \<Rightarrow> string \<Rightarrow> string \<Rightarrow> clientPlatform" where
  "platform key label goos goarch file =
     \<lparr>cp_Key = key, cp_LabelKey = label, cp_GOOS = goos, cp_GOARCH = goarch, cp_Filename = file,
      cp_Path = [], cp_State = [], cp_Size = [], cp_URL = []\<rparr>"

definition availableClientPlatforms :: "clientPlatform list" where
  "availableClientPlatforms =
     [platform ''linux-amd64'' ''platform_linux_amd64'' ''linux'' ''amd64'' ''ngrok-linux-amd64'',
      platform ''linux-arm64'' ''platform_linux_arm64'' ''linux'' ''arm64'' ''ngrok-linux-arm64'',
      platform ''darwin-amd64'' ''platform_darwin_amd64'' ''darwin'' ''amd64'' ''ngrok-darwin-amd64'',
      platform ''darwin-arm64'' ''platform_darwin_arm64'' ''darwin'' ''arm64'' ''ngrok-darwin-arm64'',
      platform ''windows-amd64'' ''platform_windows_amd64'' ''windows'' ''amd64'' ''ngrok-windows-amd64.exe'']"

definition serverBinaryItem :: "admin_env \<Rightarrow> files \<Rightarrow> string \<Rightarrow> binaryItem" where
  "serverBinaryItem e fs workDir =
     (let path = path_join [workDir, ''bin'', ''ngrokd'']
      in case fs path of
           None \<Rightarrow> \<lparr>bi_Name = ''ngrokd'', bi_Path = path, bi_State = ''missing'', bi_Size = [], bi_URL = []\<rparr>
         | Some st \<Rightarrow> \<lparr>bi_Name = ''ngrokd'', bi_Path = path, bi_State = ''ok'', bi_Size = ae_size e st, bi_URL = []\<rparr>)"

definition sameFileDigest :: "admin_env \<Rightarrow> files \<Rightarrow> string \<Rightarrow> string \<Rightarrow> bool" where
  "sameFileDigest e fs left right =
     (case (read_file fs left, read_file fs right) of
        (Inr l, Inr r) \<Rightarrow> ae_digest e l = ae_digest e r
      | _ \<Rightarrow> False)"

definition serverLiveItem :: "admin_env \<Rightarrow> files \<Rightarrow> string \<Rightarrow> string \<Rightarrow> binaryItem" where
  "serverLiveItem e fs workDir serverBin =
     (case fs serverBin of
        None \<Rightarrow> \<lparr>bi_Name = serverBin, bi_Path = serverBin, bi_State = ''missing'', bi_Size = [], bi_URL = []\<rparr>
      | Some st \<Rightarrow> \<lparr>bi_Name = serverBin, bi_Path = serverBin,
          bi_State = (if sameFileDigest e fs (path_join [workDir, ''bin'', ''ngrokd'']) serverBin then ''ok'' else ''todo''),
          bi_Size = ae_size e st, bi_URL = []\<rparr>)"

definition clientPlatformItems :: "admin_env \<Rightarrow> files \<Rightarrow> string \<Rightarrow> clientPlatform list" where
  "clientPlatformItems e fs workDir =
     map (\<lambda>p. let path = path_join [workDir, ''bin'', cp_Filename p] in
            case fs path of
              None \<Rightarrow> p\<lparr>cp_Path := path, cp_State := ''missing''\<rparr>
            | Some st \<Rightarrow> p\<lparr>cp_Path := path, cp_State := ''ok'', cp_Size := ae_size e st,
                            cp_URL := ''/download/client/'' @ cp_Key p\<rparr>)
       availableClientPlatforms"

definition clientPlatformByKey :: "string \<Rightarrow> clientPlatform option" where
  "clientPlatformByKey key = find (\<lambda>p. cp_Key p = key) availableClientPlatforms"

definition hasBuiltClient :: "clientPlatform list \<Rightarrow> bool" where
  "hasBuiltClient platforms = list_ex (\<lambda>p. cp_State p = ''ok'') platforms"

definition serverBuildSummary :: "binaryItem \<Rightarrow> binaryItem \<Rightarrow> string" where
  "serverBuildSummary server serverLive =
     (if bi_State server = ''ok'' \<and> bi_State serverLive = ''ok'' then bi_Path serverLive
      else if bi_State server = ''ok'' then bi_Path server @ '' -> '' @ bi_Path serverLive
      else bi_Path server)"

definition built_names :: "clientPlatform list \<Rightarrow> string list" where
  "built_names clients = map cp_Filename (filter (\<lambda>c. cp_State c = ''ok'') clients)"

definition clientBuildSummary :: "clientPlatform list \<Rightarrow> string" where
  "clientBuildSummary clients = (let built = built_names clients in if built = [] then ''ngrok-*'' else join '', '' built)"

definition downloadSummary :: "clientPlatform list \<Rightarrow> string" where
  "downloadSummary clients =
     (let built = built_names clients in if built = [] then ''ngrok-* / client.yml'' else join '', '' built @ '' / client.yml'')"

section \<open>The steps of the set-up\<close>

record serviceStatus =
  sv_State :: string
  sv_UnitState :: string
  sv_UnitPath :: string
  sv_Error :: string
  sv_Logs :: string

record setupStep =
  st_Key :: string
  st_Title :: string
  st_Help :: string
  st_Done :: string
  st_State :: string
  st_Detail :: string
  st_URL :: string
  st_Action :: string

definition fileContentMatches :: "files \<Rightarrow> string \<Rightarrow> string \<Rightarrow> bool" where
  "fileContentMatches fs path want = (case read_file fs path of Inl _ \<Rightarrow> False | Inr b \<Rightarrow> b = want)"

definition dnsStepState :: "admin_env \<Rightarrow> string option \<Rightarrow> serverConfig \<Rightarrow> string" where
  "dnsStepState e env cfg =
     (if defaultLikeDomain (sc_Domain cfg) then ''todo''
      else if firstFailedCheck (domainDNSChecks (ae_lookup e) (ae_now e) (configuredDomainList (ae_lib e) env cfg)) \<noteq> None
      then ''todo''
      else if ck_State (dnsCheck (ae_lookup e) ''control DNS'' (sc_ControlHost cfg)) \<noteq> ''ok'' then ''todo''
      else ''done'')"

definition dnsStepDetail :: "admin_env \<Rightarrow> string option \<Rightarrow> serverConfig \<Rightarrow> string" where
  "dnsStepDetail e env cfg =
     (if defaultLikeDomain (sc_Domain cfg) then sc_Domain cfg
      else case firstFailedCheck (domainDNSChecks (ae_lookup e) (ae_now e) (configuredDomainList (ae_lib e) env cfg)) of
        Some failed \<Rightarrow> ck_Name failed @ '': '' @ ck_Detail failed
      | None \<Rightarrow>
          let control = dnsCheck (ae_lookup e) ''control DNS'' (sc_ControlHost cfg);
              domains = configuredDomainList (ae_lib e) env cfg in
          if ck_State control \<noteq> ''ok'' then ck_Detail control
          else if length domains = 1 then domains ! 0 @ '' / '' @ sc_ControlHost cfg
          else show_int (int (length domains)) @ '' domains / '' @ sc_ControlHost cfg)"

definition domainSummary :: "admin_env \<Rightarrow> string option \<Rightarrow> serverConfig \<Rightarrow> string" where
  "domainSummary e env cfg =
     (if defaultLikeDomain (sc_Domain cfg) then sc_Domain cfg
      else join '', '' (configuredDomainList (ae_lib e) env cfg) @ '' / '' @ sc_ControlHost cfg)"

definition step ::
  "string \<Rightarrow> string \<Rightarrow> bool \<Rightarrow> string \<Rightarrow> string \<Rightarrow> string \<Rightarrow> setupStep"
where
  "step key name is_done detail url action =
     \<lparr>st_Key = ''step_'' @ key, st_Title = ''deploy_step_'' @ name, st_Help = ''deploy_help_'' @ name,
      st_Done = ''deploy_done_'' @ name, st_State = (if is_done then ''done'' else ''todo''),
      st_Detail = detail, st_URL = url, st_Action = action\<rparr>"

text \<open>The conditions under which \<open>setupSteps\<close> keeps the state of a step at \<open>done\<close>.\<close>

definition cert_rows :: "admin_env \<Rightarrow> files \<Rightarrow> admin_options \<Rightarrow> serverConfig \<Rightarrow> domainCertRow list" where
  "cert_rows e fs opts cfg =
     domainCertRows (ae_lib e) (ae_decode e) (read_file fs) (ae_lookup e) (ae_now e) (op_certDir opts)
       (configuredDomainList (ae_lib e) (env_file fs opts) cfg) cfg"

definition config_done :: "files \<Rightarrow> admin_options \<Rightarrow> serverConfig \<Rightarrow> bool" where
  "config_done fs opts cfg \<longleftrightarrow>
     \<not> (fs (op_envPath opts) = None \<or> sc_AuthToken cfg = [] \<or> sc_AuthToken cfg = default_token)"

definition cert_done :: "admin_env \<Rightarrow> files \<Rightarrow> admin_options \<Rightarrow> serverConfig \<Rightarrow> certStatus \<Rightarrow> bool" where
  "cert_done e fs opts cfg cert \<longleftrightarrow>
     \<not> (defaultLikeDomain (sc_Domain cfg) \<or> cs_Error cert \<noteq> [] \<or> cfgCertificatesIncomplete (cert_rows e fs opts cfg))"

definition service_done :: "serviceStatus \<Rightarrow> bool" where
  "service_done service \<longleftrightarrow> \<not> (sv_UnitState service \<noteq> ''ok'' \<or> sv_State service \<noteq> ''active'')"

definition setupSteps ::
  "admin_env \<Rightarrow> files \<Rightarrow> serverConfig \<Rightarrow> certStatus \<Rightarrow> serviceStatus \<Rightarrow> admin_options \<Rightarrow> string \<Rightarrow> setupStep list"
where
  "setupSteps e fs cfg cert service opts nginxPath =
     (let cfg = applyDefaults cfg; env = env_file fs opts;
          server = serverBinaryItem e fs (op_workDir opts);
          serverLive = serverLiveItem e fs (op_workDir opts) (op_serverBin opts);
          clients = clientPlatformItems e fs (op_workDir opts);
          configDetail = (if config_done fs opts cfg then sc_HTTPAddr cfg @ '' / '' @ sc_TunnelAddr cfg else op_envPath opts);
          certDetail = (if cert_done e fs opts cfg cert then cs_NotAfter cert
            else case firstFailedCheck (acmeReadinessChecks e fs) of Some failed \<Rightarrow> ck_Detail failed | None \<Rightarrow> cs_Path cert);
          serviceDetail = (if sv_UnitState service \<noteq> ''ok'' then sv_UnitPath service else sv_State service)
      in
       [step ''config'' ''basic'' (config_done fs opts cfg) configDetail ''/config'' ''open'',
        step ''domain'' ''domain'' (\<not> defaultLikeDomain (sc_Domain cfg)) (domainSummary e env cfg) ''/certificate'' ''open'',
        (step ''dns'' ''dns'' True (dnsStepDetail e env cfg) ''#step_dns'' ''view_dns_records'')\<lparr>st_State := dnsStepState e env cfg\<rparr>,
        step ''certificate'' ''cert'' (cert_done e fs opts cfg cert) certDetail ''/certificate'' ''open'',
        step ''nginx'' ''nginx'' (fileContentMatches fs nginxPath (desiredNginxConfig (ae_lib e) env opts cfg)) nginxPath ''/nginx'' ''open'',
        step ''server_build'' ''server_build'' (\<not> (bi_State server \<noteq> ''ok'' \<or> bi_State serverLive \<noteq> ''ok''))
          (serverBuildSummary server serverLive) ''/build'' ''open'',
        step ''service'' ''service'' (service_done service) serviceDetail ''/service'' ''open'',
        step ''client_build'' ''client_build'' (hasBuiltClient clients) (clientBuildSummary clients) ''/build'' ''open'',
        step ''download'' ''download'' (hasBuiltClient clients) (downloadSummary clients) ''/build'' ''open''])"

definition nextStep :: "setupStep list \<Rightarrow> setupStep" where
  "nextStep steps =
     (case find (\<lambda>s. st_State s \<noteq> ''done'') steps of
        Some s \<Rightarrow> s
      | None \<Rightarrow> \<lparr>st_Key = ''ready'', st_Title = ''Ready'', st_Help = [], st_Done = [], st_State = ''done'',
                 st_Detail = [], st_URL = ''/build'', st_Action = ''open''\<rparr>)"

section \<open>When the panel is ready\<close>

lemma firstFailedCheck_None: "firstFailedCheck cs = None \<longleftrightarrow> list_all (\<lambda>c. ck_State c = ''ok'') cs"
  by (induction cs) auto

lemma dnsCheck_ok: "ck_State (dnsCheck lookup name host) = ''ok'' \<longleftrightarrow> is_ok (lookup host)"
  by (simp add: dnsCheck_def split: sum.split)

lemma domainDNS_ok:
  "list_all (\<lambda>c. ck_State c = ''ok'') (domainDNSChecks lookup now ds) \<longleftrightarrow>
     list_all (\<lambda>d. is_ok (lookup d) \<and> is_ok (lookup (probe_name now d))) ds"
  by (induction ds) (simp_all add: domainDNSChecks_def dnsCheck_ok)

lemma step_fields [simp]:
  "st_State (step key name b detail url action) = (if b then ''done'' else ''todo'')"
  "st_Key (step key name b detail url action) \<noteq> ''ready''"
  by (simp_all add: step_def)

lemma nextStep_ready:
  "list_all (\<lambda>s. st_Key s \<noteq> ''ready'') steps \<Longrightarrow>
     st_Key (nextStep steps) = ''ready'' \<longleftrightarrow> list_all (\<lambda>s. st_State s = ''done'') steps"
  by (auto simp: nextStep_def find_None_iff find_Some_iff list_all_iff list_all_length split: option.split)

lemma dnsStep_done:
  "dnsStepState e env cfg = ''done'' \<longleftrightarrow>
     \<not> defaultLikeDomain (sc_Domain cfg) \<and>
     list_all (\<lambda>d. is_ok (ae_lookup e d) \<and> is_ok (ae_lookup e (probe_name (ae_now e) d))) (configuredDomainList (ae_lib e) env cfg) \<and>
     is_ok (ae_lookup e (sc_ControlHost cfg))"
  by (auto simp: dnsStepState_def firstFailedCheck_None domainDNS_ok dnsCheck_ok)

lemma rows_complete:
  "\<not> cfgCertificatesIncomplete (domainCertRows lib decode read lookup now dir ds cfg) \<longleftrightarrow>
     ds \<noteq> [] \<and>
     list_all (\<lambda>d. fst (certStateForDomain decode read now d (fst (certPathsForDomain lib dir d (applyDefaults cfg)))) = ''ok'') ds"
  by (auto simp: cfgCertificatesIncomplete_def domainCertRows_def Let_def case_prod_beta list_ex_iff list_all_iff)

lemma serverBinary_ok: "bi_State (serverBinaryItem e fs dir) = ''ok'' \<longleftrightarrow> fs (path_join [dir, ''bin'', ''ngrokd'']) \<noteq> None"
  by (auto simp: serverBinaryItem_def Let_def split: option.split)

lemma serverLive_ok:
  "bi_State (serverLiveItem e fs dir bin) = ''ok'' \<longleftrightarrow>
     fs bin \<noteq> None \<and> sameFileDigest e fs (path_join [dir, ''bin'', ''ngrokd'']) bin"
  by (auto simp: serverLiveItem_def split: option.split)

lemma same_digest:
  "sameFileDigest e fs l r \<longleftrightarrow> (\<exists>a b. fs l = Some (File a) \<and> fs r = Some (File b) \<and> ae_digest e a = ae_digest e b)"
  by (auto simp: sameFileDigest_def read_file_def split: option.split fs_node.split)

lemma built_client:
  "hasBuiltClient (clientPlatformItems e fs dir) \<longleftrightarrow>
     list_ex (\<lambda>p. fs (path_join [dir, ''bin'', cp_Filename p]) \<noteq> None) availableClientPlatforms"
  by (auto simp: hasBuiltClient_def clientPlatformItems_def Let_def list_ex_iff platform_def availableClientPlatforms_def
      split: option.splits)

text \<open>
  C36: What the panel calls ready is ready: it names no further step exactly if the settings are saved
  with a real token and a real domain, every configured domain, a name below it and the control host
  resolve, every domain has a valid certificate, nginx has exactly the desired configuration, the
  installed server is the built one and its service runs, and a client is built.
\<close>
theorem setup_ready_iff:
  "st_Key (nextStep (setupSteps e fs cfg cert service opts nginxPath)) = ''ready'' \<longleftrightarrow>
   (let cfg = applyDefaults cfg; env = env_file fs opts; lib = ae_lib e; ds = configuredDomainList lib env cfg in
     fs (op_envPath opts) \<noteq> None \<and> sc_AuthToken cfg \<noteq> [] \<and> sc_AuthToken cfg \<noteq> default_token \<and>
     \<not> defaultLikeDomain (sc_Domain cfg) \<and>
     list_all (\<lambda>d. is_ok (ae_lookup e d) \<and> is_ok (ae_lookup e (probe_name (ae_now e) d))) ds \<and>
     is_ok (ae_lookup e (sc_ControlHost cfg)) \<and>
     cs_Error cert = [] \<and> ds \<noteq> [] \<and>
     list_all (\<lambda>d. fst (certStateForDomain (ae_decode e) (read_file fs) (ae_now e) d
        (fst (certPathsForDomain lib (op_certDir opts) d cfg))) = ''ok'') ds \<and>
     read_file fs nginxPath = Inr (desiredNginxConfig lib env opts cfg) \<and>
     (\<exists>a b. fs (path_join [op_workDir opts, ''bin'', ''ngrokd'']) = Some (File a) \<and> fs (op_serverBin opts) = Some (File b) \<and>
        ae_digest e a = ae_digest e b) \<and>
     sv_UnitState service = ''ok'' \<and> sv_State service = ''active'' \<and>
     list_ex (\<lambda>p. fs (path_join [op_workDir opts, ''bin'', cp_Filename p]) \<noteq> None) availableClientPlatforms)"
proof -
  have keys: "list_all (\<lambda>s. st_Key s \<noteq> ''ready'') (setupSteps e fs cfg cert service opts nginxPath)"
    by (simp add: setupSteps_def Let_def)
  have nginx: "fileContentMatches fs nginxPath want \<longleftrightarrow> read_file fs nginxPath = Inr want" for want
    by (auto simp: fileContentMatches_def split: sum.split)
  have idem: "applyDefaults (applyDefaults cfg) = applyDefaults cfg"
    using applyDefaults_complete by (rule applyDefaults_id)
  show ?thesis
    unfolding nextStep_ready [OF keys]
    by (simp add: setupSteps_def Let_def dnsStep_done nginx cert_done_def cert_rows_def rows_complete idem
        config_done_def service_done_def serverBinary_ok serverLive_ok same_digest built_client) blast
qed

end
