(* ===== verification/Admin_Files.thy ===== *)
theory Admin_Files
  imports Admin_Checks
begin

text \<open>
  What the panel of \<open>src/ngrok/admin/main.go\<close> does to the machine: writing a file through a temporary
  one, running programs, issuing a certificate, building and installing the binaries. The state is the
  files and the programs run so far; an error is \<open>Some\<close> text beside the output.
\<close>

record admin_sys =
  sy_app :: admin_app
  sy_files :: files
  sy_ran :: "command_run list"

section \<open>Writing files\<close>

text \<open>\<open>filepath.Dir\<close>.\<close>

definition path_dir :: "string \<Rightarrow> string" where
  "path_dir path = path_clean (rev (dropWhile (\<lambda>c. c \<noteq> slash) (rev path)))"

definition tmp_path :: "string \<Rightarrow> string" where "tmp_path path = path @ ''.tmp''"

text \<open>\<open>fileOwner\<close>: whether an owner is known that the new file is to get.\<close>

definition fileOwner :: "files \<Rightarrow> string \<Rightarrow> bool" where
  "fileOwner fs path \<longleftrightarrow> fs path \<noteq> None \<or> fs (path_dir path) \<noteq> None"

definition writeFileRoot :: "admin_env \<Rightarrow> string \<Rightarrow> string \<Rightarrow> files \<Rightarrow> string option \<times> files" where
  "writeFileRoot e path data fs =
     (case ae_mkdir e (path_dir path) fs of
        (Some err, fs) \<Rightarrow> (Some err, fs)
      | (None, fs) \<Rightarrow>
          let owned = fileOwner fs path; tmp = tmp_path path in
          (case ae_write e tmp data fs of
             (Some err, fs) \<Rightarrow> (Some err, fs)
           | (None, fs) \<Rightarrow>
               (case ae_chmod e tmp of
                  Some err \<Rightarrow> (Some err, fs)
                | None \<Rightarrow>
                    (case (if owned \<and> ae_root e then ae_chown e tmp else None) of
                       Some err \<Rightarrow> (Some err, fs)
                     | None \<Rightarrow>
                         (case ae_rename e tmp path of
                            Some err \<Rightarrow> (Some err, fs)
                          | None \<Rightarrow> (None, fs(path := fs tmp, tmp := None)))))))"

text \<open>\<open>marshal\<close> is \<open>json.MarshalIndent\<close>.\<close>

definition saveAdminState ::
  "admin_env \<Rightarrow> (adminState \<Rightarrow> string result) \<Rightarrow> string \<Rightarrow> adminState \<Rightarrow> files \<Rightarrow> string option \<times> files"
where
  "saveAdminState e marshal path state fs =
     (case marshal state of
        Inl err \<Rightarrow> (Some err, fs)
      | Inr b \<Rightarrow> writeFileRoot e path (b @ [newline]) fs)"

definition writeServerConfig :: "admin_env \<Rightarrow> string \<Rightarrow> serverConfig \<Rightarrow> files \<Rightarrow> string option \<times> files" where
  "writeServerConfig e path cfg fs = writeFileRoot e path (server_config_text (ae_lib e) cfg) fs"

definition on_files :: "(files \<Rightarrow> string option \<times> files) \<Rightarrow> admin_sys \<Rightarrow> string option \<times> admin_sys" where
  "on_files f s = (case f (sy_files s) of (err, fs) \<Rightarrow> (err, s\<lparr>sy_files := fs\<rparr>))"

section \<open>Running programs\<close>

text \<open>\<open>CombinedOutput\<close>, with the error as the system gives it.\<close>

definition exec :: "admin_env \<Rightarrow> command_run \<Rightarrow> admin_sys \<Rightarrow> string \<times> string option \<times> admin_sys" where
  "exec e c s =
     (case ae_command e c (sy_files s) of
        (out, err, fs) \<Rightarrow> (out, err, s\<lparr>sy_files := fs, sy_ran := sy_ran s @ [c]\<rparr>))"

definition run_in ::
  "admin_env \<Rightarrow> string list \<Rightarrow> string option \<Rightarrow> string \<Rightarrow> string list \<Rightarrow> admin_sys \<Rightarrow> string \<times> string option \<times> admin_sys"
where
  "run_in e extraEnv dir name args s =
     (case exec e \<lparr>cm_dir = dir, cm_env = extraEnv, cm_name = name, cm_args = args\<rparr> s of
        (out, err, s) \<Rightarrow> (out, map_option (\<lambda>msg. join '' '' (name # args) @ '': '' @ msg) err, s))"

definition runCommand ::
  "admin_env \<Rightarrow> string list \<Rightarrow> string \<Rightarrow> string list \<Rightarrow> admin_sys \<Rightarrow> string \<times> string option \<times> admin_sys"
where
  "runCommand e extraEnv name args s = run_in e extraEnv None name args s"

definition runCommandInDir ::
  "admin_env \<Rightarrow> string list \<Rightarrow> string \<Rightarrow> string \<Rightarrow> string list \<Rightarrow> admin_sys \<Rightarrow> string \<times> string option \<times> admin_sys"
where
  "runCommandInDir e extraEnv dir name args s = run_in e extraEnv (Some dir) name args s"

definition plain_run :: "string \<Rightarrow> string list \<Rightarrow> command_run" where
  "plain_run name args = \<lparr>cm_dir = None, cm_env = [], cm_name = name, cm_args = args\<rparr>"

definition readServiceStatus :: "admin_env \<Rightarrow> string \<Rightarrow> admin_sys \<Rightarrow> serviceStatus \<times> admin_sys" where
  "readServiceStatus e service s =
     (let unitPath = serviceUnitPath service;
          unitState = (if sy_files s unitPath \<noteq> None then ''ok'' else ''missing'');
          (out, err, s) = exec e (plain_run ''systemctl'' [''is-active'', service]) s;
          state = trim_space out;
          (logs, logErr, s) = exec e (plain_run ''journalctl'' [''-u'', service, ''-n'', ''80'', ''--no-pager'']) s
      in (\<lparr>sv_State = (if err \<noteq> None \<and> state = [] then ''unavailable'' else state),
           sv_UnitState = unitState, sv_UnitPath = unitPath,
           sv_Error = (case err of None \<Rightarrow> [] | Some msg \<Rightarrow> msg),
           sv_Logs = (if logErr = None then logs else [])\<rparr>, s))"

section \<open>Certificates\<close>

definition issueWithAcmeSH :: "admin_env \<Rightarrow> string \<Rightarrow> string \<Rightarrow> admin_sys \<Rightarrow> string \<times> string option \<times> admin_sys" where
  "issueWithAcmeSH e domain certDir s =
     (let domain = normalizeDomain (ae_lib e) domain in
      if domain = [] \<or> \<not> validDomainName domain then ([], Some ''domain is invalid'', s)
      else let dnsPlugin = acmeDNSPlugin e in
      if dnsPlugin = [] then ([], Some ''dns plugin is required'', s)
      else case findAcmeSH e (sy_files s) of
        Inl err \<Rightarrow> ([], Some err, s)
      | Inr bin \<Rightarrow>
          (case on_files (ae_mkdir e certDir) s of
             (Some err, s) \<Rightarrow> ([], Some err, s)
           | (None, s) \<Rightarrow>
               let accountEmail = trim_space (ae_getenv e ''ACME_ACCOUNT_EMAIL'');
                   args = [''--issue'', ''--dns'', dnsPlugin, ''-d'', domain, ''-d'', ''*.'' @ domain] @
                     (if accountEmail \<noteq> [] then [''--accountemail'', accountEmail] else [])
               in case runCommand e [] bin args s of
                    (out1, Some err, s) \<Rightarrow> (out1, Some err, s)
                  | (out1, None, s) \<Rightarrow>
                      (case runCommand e [] bin
                         [''--install-cert'', ''-d'', domain, ''--fullchain-file'', path_join [certDir, ''fullchain.pem''],
                          ''--key-file'', path_join [certDir, ''privkey.pem''],
                          ''--reloadcmd'', ''systemctl reload nginx || true''] s of
                         (out2, err, s) \<Rightarrow> (out1 @ [newline] @ out2, err, s))))"

section \<open>Building and installing\<close>

definition buildClientForPlatform ::
  "admin_env \<Rightarrow> string \<Rightarrow> clientPlatform \<Rightarrow> admin_sys \<Rightarrow> string \<times> string option \<times> admin_sys"
where
  "buildClientForPlatform e workDir p s =
     (let outPath = path_join [workDir, ''bin'', cp_Filename p] in
      case on_files (ae_mkdir e (path_dir outPath)) s of
        (Some err, s) \<Rightarrow> ([], Some err, s)
      | (None, s) \<Rightarrow>
          runCommandInDir e
            [''CGO_ENABLED=0'', ''GO111MODULE=off'', ''GOPATH='' @ workDir, ''GOOS='' @ cp_GOOS p, ''GOARCH='' @ cp_GOARCH p]
            workDir ''go'' [''build'', ''-tags'', ''release'', ''-o'', outPath, ''ngrok/main/ngrok''] s)"

definition installServiceUnit :: "admin_env \<Rightarrow> admin_options \<Rightarrow> admin_sys \<Rightarrow> string \<times> string option \<times> admin_sys" where
  "installServiceUnit e opts s =
     (case ae_lookPath e ''systemctl'' of
        Inl _ \<Rightarrow> ([], Some ''systemctl not found'', s)
      | Inr _ \<Rightarrow>
          if sy_files s (op_serverBin opts) = None then ([], Some ''server binary is not installed'', s)
          else if sy_files s (op_envPath opts) = None then ([], Some ''runtime settings are not saved'', s)
          else let unitPath = serviceUnitPath (op_serviceName opts) in
          (case on_files (writeFileRoot e unitPath (systemdServiceUnit (ae_lib e) opts)) s of
             (Some err, s) \<Rightarrow> ([], Some err, s)
           | (None, s) \<Rightarrow>
               (case runCommand e [] ''systemctl'' [''daemon-reload''] s of
                  (out, err, s) \<Rightarrow> (unitPath @ [newline] @ (if trim_space out \<noteq> [] then out else []), err, s))))"

definition installServerBinary :: "admin_env \<Rightarrow> admin_options \<Rightarrow> admin_sys \<Rightarrow> string \<times> string option \<times> admin_sys" where
  "installServerBinary e opts s =
     (let src = path_join [op_workDir opts, ''bin'', ''ngrokd''] in
      if sy_files s src = None then ([], Some ''server binary is not built'', s)
      else case read_file (sy_files s) src of
        Inl err \<Rightarrow> ([], Some err, s)
      | Inr b \<Rightarrow>
          (case on_files (writeFileRoot e (op_serverBin opts) b) s of
             (Some err, s) \<Rightarrow> ([], Some err, s)
           | (None, s) \<Rightarrow>
               (case installServiceUnit e opts s of
                  (unitOut, Some err, s) \<Rightarrow> (unitOut, Some err, s)
                | (unitOut, None, s) \<Rightarrow>
                    (case runCommand e [] ''systemctl'' [''restart'', op_serviceName opts] s of
                       (out, err, s) \<Rightarrow>
                         (trim_space unitOut @ [newline] @ (if trim_space out = [] then op_serverBin opts @ [newline] else out),
                          err, s)))))"

section \<open>A file is written as a whole or not at all\<close>

text \<open>
  What the code relies on: making directories changes no existing node, and writing a file changes
  nothing but this file, which has the data if there is no error.
\<close>

definition os_ok :: "admin_env \<Rightarrow> bool" where
  "os_ok e \<longleftrightarrow>
     (\<forall>dir fs p n. fs p = Some n \<longrightarrow> snd (ae_mkdir e dir fs) p = Some n) \<and>
     (\<forall>dir fs p b. snd (ae_mkdir e dir fs) p = Some (File b) \<longrightarrow> fs p = Some (File b)) \<and>
     (\<forall>p d fs q. q \<noteq> p \<longrightarrow> snd (ae_write e p d fs) q = fs q) \<and>
     (\<forall>p d fs. fst (ae_write e p d fs) = None \<longrightarrow> snd (ae_write e p d fs) p = Some (File d))"

lemma read_file_Inr: "read_file fs p = Inr b \<longleftrightarrow> fs p = Some (File b)"
  by (simp add: read_file_def split: option.split fs_node.split)

lemma os_ok_mkdir: "os_ok e \<Longrightarrow> read_file (snd (ae_mkdir e dir fs)) p = Inr b \<longleftrightarrow> read_file fs p = Inr b"
  unfolding read_file_Inr os_ok_def by blast

lemma os_ok_write:
  "os_ok e \<Longrightarrow> q \<noteq> p \<Longrightarrow> snd (ae_write e p d fs) q = fs q"
  "os_ok e \<Longrightarrow> fst (ae_write e p d fs) = None \<Longrightarrow> snd (ae_write e p d fs) p = Some (File d)"
  unfolding os_ok_def by blast+

lemma tmp_path_neq [simp]: "tmp_path p \<noteq> p" "p \<noteq> tmp_path p"
  by (simp_all add: tmp_path_def)

lemma writeFileRoot_result:
  assumes "os_ok e" "writeFileRoot e path d fs = (err, fs')"
  shows "err = None \<Longrightarrow> read_file fs' path = Inr d"
    and "err \<noteq> None \<Longrightarrow> read_file fs' path = Inr b \<longleftrightarrow> read_file fs path = Inr b"
    and "q \<noteq> path \<Longrightarrow> q \<noteq> tmp_path path \<Longrightarrow> read_file fs' q = Inr b \<longleftrightarrow> read_file fs q = Inr b"
proof -
  obtain m fm where m: "ae_mkdir e (path_dir path) fs = (m, fm)" by (cases "ae_mkdir e (path_dir path) fs") auto
  obtain w fw where w: "ae_write e (tmp_path path) d fm = (w, fw)" by (cases "ae_write e (tmp_path path) d fm") auto
  have fm: "read_file fm p = Inr b \<longleftrightarrow> read_file fs p = Inr b" for p b
    using os_ok_mkdir [OF assms(1), of "path_dir path" fs p b] m by simp
  have fw: "p \<noteq> tmp_path path \<Longrightarrow> fw p = fm p" for p
    using os_ok_write(1) [OF assms(1), of p "tmp_path path" d fm] w by simp
  have data: "w = None \<Longrightarrow> fw (tmp_path path) = Some (File d)"
    using os_ok_write(2) [OF assms(1), of "tmp_path path" d fm] w by simp
  have keep: "p \<noteq> tmp_path path \<Longrightarrow> read_file fw p = Inr b \<longleftrightarrow> read_file fs p = Inr b" for p b
    using fm [of p b] fw [of p] by (simp add: read_file_Inr)
  have cases: "(err \<noteq> None \<and> (fs' = fm \<or> fs' = fw)) \<or> (err = None \<and> w = None \<and> fs' = fw(path := fw (tmp_path path), tmp_path path := None))"
    using assms(2) m w by (auto simp: writeFileRoot_def Let_def split: option.splits if_splits)
  show "err = None \<Longrightarrow> read_file fs' path = Inr d"
    using cases data by (auto simp: read_file_Inr)
  show "err \<noteq> None \<Longrightarrow> read_file fs' path = Inr b \<longleftrightarrow> read_file fs path = Inr b"
    using cases keep [of path b] fm [of path b] by auto
  show "q \<noteq> path \<Longrightarrow> q \<noteq> tmp_path path \<Longrightarrow> read_file fs' q = Inr b \<longleftrightarrow> read_file fs q = Inr b"
    using cases keep [of q b] fm [of q b] by (auto simp: read_file_Inr)
qed

end
