(* ===== verification/Admin_App.thy ===== *)
theory Admin_App
  imports Admin_Files
begin

text \<open>
  The pages of the panel, \<open>src/ngrok/admin/main.go\<close>: the data of a page, one handler for each path, and
  the table of paths with the choice of a language before it. A handler takes the request and the
  state of the machine and gives the answer with the new state.
\<close>

section \<open>Requests, pages, answers\<close>

text \<open>\<open>hq_unlang\<close> is the address of the request without the parameter \<open>lang\<close>.\<close>

record admin_request =
  hq_post :: bool
  hq_path :: string
  hq_query :: "string \<Rightarrow> string"
  hq_unlang :: string
  hq_parse :: "string option"
  hq_form :: "string \<Rightarrow> string"
  hq_session :: "string option"
  hq_langCookie :: "string option"
  hq_accept :: string
  hq_host :: string

record viewData =
  vd_Title :: string
  vd_Page :: string
  vd_Lang :: string
  vd_Authed :: bool
  vd_Message :: string
  vd_Error :: string
  vd_Config :: serverConfig
  vd_Cert :: "certStatus option"
  vd_Service :: "serviceStatus option"
  vd_Checks :: "checkItem list"
  vd_CertChecks :: "checkItem list"
  vd_CertRows :: "domainCertRow list"
  vd_Server :: "binaryItem option"
  vd_ServerLive :: "binaryItem option"
  vd_Platforms :: "clientPlatform list"
  vd_Steps :: "setupStep list"
  vd_NextStep :: "setupStep option"
  vd_NginxConfig :: string
  vd_BuildOutput :: string
  vd_NginxPath :: string
  vd_WorkDir :: string
  vd_CertDir :: string
  vd_EnvPath :: string
  vd_Addr :: string
  vd_ServerIP :: string
  vd_DNSRecords :: string
  vd_Now :: string

datatype admin_answer =
    Redirect string "string option"
  | SetLang string string
  | NotFound
  | Page viewData
  | Text string string
  | SendFile string string

text \<open>What a request draws from the random source, and the functions of other packages it uses.\<close>

record admin_draw =
  dr_hmac :: "string \<Rightarrow> string \<Rightarrow> string"
  dr_marshal :: "adminState \<Rightarrow> string result"
  dr_salt :: "string result"
  dr_session :: "string result"
  dr_token :: "string result"

type_synonym handler = "admin_env \<Rightarrow> admin_options \<Rightarrow> admin_request \<Rightarrow> admin_sys \<Rightarrow> admin_answer \<times> admin_sys"

definition settings :: "admin_env \<Rightarrow> admin_options \<Rightarrow> admin_sys \<Rightarrow> serverConfig" where
  "settings e opts s = readServerConfig (ae_lib e) (env_file (sy_files s) opts)"

text \<open>The data of every page; the caller drops an ended session with \<open>seen\<close>.\<close>

definition baseData ::
  "admin_env \<Rightarrow> admin_options \<Rightarrow> admin_request \<Rightarrow> string \<Rightarrow> string \<Rightarrow> admin_sys \<Rightarrow> viewData"
where
  "baseData e opts r title page s =
     (let cfg = settings e opts s; lang = requestLang (ae_lib e) (hq_langCookie r) (hq_accept r);
          ip = displayServerIP (ae_ip6 e) (ae_lookup e) (hq_host r) (op_publicIP opts)
      in \<lparr>vd_Title = tr (ae_tr e) lang title, vd_Page = page, vd_Lang = lang,
          vd_Authed = (fst (currentUser (ae_now e) (hq_session r) (sy_app s)) \<noteq> []),
          vd_Message = messageText (ae_tr e) lang (hq_query r ''msg''), vd_Error = hq_query r ''err'',
          vd_Config = cfg, vd_Cert = None, vd_Service = None, vd_Checks = [], vd_CertChecks = [], vd_CertRows = [],
          vd_Server = None, vd_ServerLive = None, vd_Platforms = [], vd_Steps = [], vd_NextStep = None,
          vd_NginxConfig = [], vd_BuildOutput = [],
          vd_NginxPath = detectNginxPath e (sy_files s) cfg (op_nginxPath opts),
          vd_WorkDir = op_workDir opts, vd_CertDir = op_certDir opts, vd_EnvPath = op_envPath opts,
          vd_Addr = op_addr opts, vd_ServerIP = ip,
          vd_DNSRecords = dnsRecordText (ae_lib e) (env_file (sy_files s) opts) cfg ip, vd_Now = ae_nowText e\<rparr>)"

definition seen :: "admin_env \<Rightarrow> admin_request \<Rightarrow> admin_sys \<Rightarrow> admin_sys" where
  "seen e r s = s\<lparr>sy_app := snd (currentUser (ae_now e) (hq_session r) (sy_app s))\<rparr>"

definition page ::
  "admin_env \<Rightarrow> admin_options \<Rightarrow> admin_request \<Rightarrow> string \<Rightarrow> string \<Rightarrow> (viewData \<Rightarrow> viewData) \<Rightarrow> admin_sys \<Rightarrow>
   admin_answer \<times> admin_sys"
where
  "page e opts r title name f s = (Page (f (baseData e opts r title name s)), seen e r s)"

definition renderError ::
  "admin_env \<Rightarrow> admin_options \<Rightarrow> admin_request \<Rightarrow> string \<Rightarrow> string \<Rightarrow> string \<Rightarrow> admin_sys \<Rightarrow> admin_answer \<times> admin_sys"
where
  "renderError e opts r title name err s = page e opts r title name (\<lambda>d. d\<lparr>vd_Error := err\<rparr>) s"

definition renderErrorWithConfig ::
  "admin_env \<Rightarrow> admin_options \<Rightarrow> admin_request \<Rightarrow> string \<Rightarrow> string \<Rightarrow> string \<Rightarrow> serverConfig \<Rightarrow> admin_sys \<Rightarrow>
   admin_answer \<times> admin_sys"
where
  "renderErrorWithConfig e opts r title name err cfg s =
     page e opts r title name (\<lambda>d. d\<lparr>vd_Config := cfg, vd_Error := err\<rparr>) s"

definition cert_data :: "admin_env \<Rightarrow> admin_options \<Rightarrow> admin_sys \<Rightarrow> viewData \<Rightarrow> viewData" where
  "cert_data e opts s d =
     d\<lparr>vd_Cert := Some (readCertStatus (ae_decode e) (read_file (sy_files s)) (vd_Config d)),
       vd_CertChecks := acmeReadinessChecks e (sy_files s),
       vd_CertRows := cert_rows e (sy_files s) opts (vd_Config d)\<rparr>"

definition renderCertificateError ::
  "admin_env \<Rightarrow> admin_options \<Rightarrow> admin_request \<Rightarrow> string \<Rightarrow> admin_sys \<Rightarrow> admin_answer \<times> admin_sys"
where
  "renderCertificateError e opts r err s =
     page e opts r ''Certificate'' ''certificate'' (\<lambda>d. (cert_data e opts s d)\<lparr>vd_Error := err\<rparr>) s"

text \<open>\<open>requireAuth\<close> in front of a handler.\<close>

definition authed :: "admin_env \<Rightarrow> admin_request \<Rightarrow> (admin_sys \<Rightarrow> admin_answer \<times> admin_sys) \<Rightarrow> admin_sys \<Rightarrow> admin_answer \<times> admin_sys" where
  "authed e r h s =
     (case requireAuth (ae_now e) (hq_session r) (sy_app s) of
        (ToSetup, a) \<Rightarrow> (Redirect ''/setup'' None, s\<lparr>sy_app := a\<rparr>)
      | (ToLogin, a) \<Rightarrow> (Redirect ''/login'' None, s\<lparr>sy_app := a\<rparr>)
      | (Allowed, a) \<Rightarrow> h (s\<lparr>sy_app := a\<rparr>))"

section \<open>Setup, login, logout, dashboard\<close>

definition auth_request_of :: "admin_request \<Rightarrow> auth_request" where
  "auth_request_of r = \<lparr>ar_post = hq_post r, ar_parse = hq_parse r, ar_form = hq_form r, ar_cookie = hq_session r\<rparr>"

definition auth_world_of :: "admin_env \<Rightarrow> admin_options \<Rightarrow> admin_draw \<Rightarrow> admin_sys \<Rightarrow> auth_world" where
  "auth_world_of e opts dr s =
     \<lparr>au_hmac = dr_hmac dr, au_salt = dr_salt dr, au_nowText = ae_nowText e,
      au_save = (\<lambda>st. fst (saveAdminState e (dr_marshal dr) (op_statePath opts) st (sy_files s))),
      au_session = dr_session dr, au_now = ae_now e\<rparr>"

definition auth_page :: "admin_env \<Rightarrow> admin_options \<Rightarrow> admin_request \<Rightarrow> string \<Rightarrow> auth_answer \<Rightarrow> admin_sys \<Rightarrow> admin_answer" where
  "auth_page e opts r title ans s =
     (case ans of
        AuthRedirect url cookie \<Rightarrow> Redirect url cookie
      | AuthPage name err \<Rightarrow>
          Page (case err of None \<Rightarrow> baseData e opts r title name s
                | Some msg \<Rightarrow> (baseData e opts r title name s)\<lparr>vd_Error := msg\<rparr>))"

definition serveSetup :: "admin_draw \<Rightarrow> handler" where
  "serveSetup dr e opts r s =
     (let (ans, st, a) = handleSetup (auth_world_of e opts dr s) (auth_request_of r) (sy_app s);
          fs = (case st of None \<Rightarrow> sy_files s
                | Some st \<Rightarrow> snd (saveAdminState e (dr_marshal dr) (op_statePath opts) st (sy_files s)));
          s = s\<lparr>sy_files := fs\<rparr>
      in (auth_page e opts r ''Setup'' ans s, s\<lparr>sy_app := a\<rparr>))"

definition serveLogin :: "admin_draw \<Rightarrow> handler" where
  "serveLogin dr e opts r s =
     (let (ans, a) = handleLogin (auth_world_of e opts dr s) (auth_request_of r) (sy_app s)
      in (auth_page e opts r ''Login'' ans s, s\<lparr>sy_app := a\<rparr>))"

definition serveLogout :: handler where
  "serveLogout e opts r s =
     (let (ans, a) = handleLogout (auth_request_of r) (sy_app s)
      in (auth_page e opts r [] ans s, s\<lparr>sy_app := a\<rparr>))"

definition handleHome :: handler where
  "handleHome e opts r s =
     (if hq_path r \<noteq> ''/'' then (NotFound, s)
      else if \<not> hasAdmin (sy_app s) then (Redirect ''/setup'' None, s)
      else authed e r (\<lambda>s.
        let d = baseData e opts r ''Dashboard'' ''dashboard'' s; s = seen e r s;
            cert = readCertStatus (ae_decode e) (read_file (sy_files s)) (vd_Config d);
            (service, s) = readServiceStatus e (op_serviceName opts) s;
            checks = runChecks e (sy_files s) (vd_Config d) opts (vd_NginxPath d);
            steps = setupSteps e (sy_files s) (vd_Config d) cert service opts (vd_NginxPath d)
        in (Page (d\<lparr>vd_Cert := Some cert, vd_Service := Some service, vd_Checks := checks, vd_Steps := steps,
              vd_NextStep := Some (nextStep steps)\<rparr>), s)) s)"

section \<open>Settings and domains\<close>

definition handleConfig :: "admin_draw \<Rightarrow> handler" where
  "handleConfig dr e opts r = authed e r (\<lambda>s.
     if hq_post r then
       (case hq_parse r of Some err \<Rightarrow> renderError e opts r ''Config'' ''config'' err s | None \<Rightarrow>
        let cfg = settings e opts s;
            token = trim_space (hq_form r ''auth_token'');
            cfg = cfg\<lparr>sc_AuthToken := token, sc_HTTPAddr := trim_space (hq_form r ''http_addr''),
                      sc_TunnelAddr := trim_space (hq_form r ''tunnel_addr'')\<rparr>
        in case (if hq_form r ''new_token'' = ''1'' \<or> token = [] then dr_token dr else Inr token) of
             Inl err \<Rightarrow> renderError e opts r ''Config'' ''config'' err s
           | Inr token \<Rightarrow>
               let cfg = applyDefaults (cfg\<lparr>sc_AuthToken := token\<rparr>) in
               (case validate_config cfg of
                  Some err \<Rightarrow> renderErrorWithConfig e opts r ''Config'' ''config'' err cfg s
                | None \<Rightarrow>
                    (case on_files (writeServerConfig e (op_envPath opts) cfg) s of
                       (Some err, s) \<Rightarrow> renderErrorWithConfig e opts r ''Config'' ''config'' err cfg s
                     | (None, s) \<Rightarrow> (Redirect ''/?msg=config_saved'' None, s))))
     else page e opts r ''Config'' ''config'' (\<lambda>d. d) s)"

definition handleCertificate :: handler where
  "handleCertificate e opts r = authed e r (\<lambda>s. page e opts r ''Certificate'' ''certificate'' (cert_data e opts s) s)"

text \<open>The settings after a domain is added, with the control host if one is given.\<close>

definition add_domain :: "admin_env \<Rightarrow> admin_options \<Rightarrow> string option \<Rightarrow> string list \<Rightarrow> string \<Rightarrow> serverConfig \<Rightarrow> serverConfig" where
  "add_domain e opts env controlHosts domain cfg =
     (let lib = ae_lib e; allDomains = configuredDomainList lib env cfg;
          fresh = defaultLikeDomain (sc_Domain cfg);
          allDomains = (if fresh then [] else allDomains);
          dir = domainCertDir lib (op_certDir opts) domain;
          cfg = (if fresh
                 then cfg\<lparr>sc_Domain := domain, sc_TLSCrt := path_join [dir, ''fullchain.pem''],
                          sc_TLSKey := path_join [dir, ''privkey.pem'']\<rparr>
                 else cfg);
          cfg = (if length controlHosts = 1 then cfg\<lparr>sc_ControlHost := controlHosts ! 0\<rparr>
                 else if defaultLikeControlHost (sc_ControlHost cfg)
                 then cfg\<lparr>sc_ControlHost := ''ngrok.'' @ sc_Domain cfg\<rparr> else cfg)
      in cfg\<lparr>sc_VHost := join '','' (appendDomain lib allDomains domain)\<rparr>)"

text \<open>The one domain that the form gives.\<close>

definition posted_domain ::
  "admin_env \<Rightarrow> admin_options \<Rightarrow> admin_request \<Rightarrow> (string \<Rightarrow> admin_sys \<Rightarrow> admin_answer \<times> admin_sys) \<Rightarrow>
   admin_sys \<Rightarrow> admin_answer \<times> admin_sys"
where
  "posted_domain e opts r h s =
     (if \<not> hq_post r then (Redirect ''/certificate'' None, s)
      else case hq_parse r of Some err \<Rightarrow> renderCertificateError e opts r err s | None \<Rightarrow>
        (case parseDomainInput (ae_lib e) (hq_form r ''domain'') of
           [domain] \<Rightarrow> h domain s
         | _ \<Rightarrow> renderCertificateError e opts r ''domain is invalid'' s))"

definition save_and ::
  "admin_env \<Rightarrow> admin_options \<Rightarrow> admin_request \<Rightarrow> string \<Rightarrow> serverConfig \<Rightarrow> admin_sys \<Rightarrow> admin_answer \<times> admin_sys"
where
  "save_and e opts r url cfg s =
     (case on_files (writeServerConfig e (op_envPath opts) cfg) s of
        (Some err, s) \<Rightarrow> renderCertificateError e opts r err s
      | (None, s) \<Rightarrow> (Redirect url None, s))"

definition handleCertificateDomain :: handler where
  "handleCertificateDomain e opts r = authed e r (posted_domain e opts r (\<lambda>domain s.
     let controlHosts = parseDomainInput (ae_lib e) (hq_form r ''control_host'') in
     if trim_space (hq_form r ''control_host'') \<noteq> [] \<and> length controlHosts \<noteq> 1
     then renderCertificateError e opts r ''control host is invalid'' s
     else
       let cfg = add_domain e opts (env_file (sy_files s) opts) controlHosts domain (applyDefaults (settings e opts s))
       in save_and e opts r ''/certificate?msg=domain_saved'' cfg s))"

definition handleCertificateDomainDelete :: handler where
  "handleCertificateDomainDelete e opts r = authed e r (posted_domain e opts r (\<lambda>domain s.
     case removeDomainFromConfig (ae_lib e) (env_file (sy_files s) opts) (op_certDir opts) domain
            (applyDefaults (settings e opts s)) of
       Inl err \<Rightarrow> renderCertificateError e opts r err s
     | Inr cfg \<Rightarrow> save_and e opts r ''/certificate?msg=domain_deleted'' cfg s))"

text \<open>The settings after a certificate for a domain was issued.\<close>

definition issued :: "admin_env \<Rightarrow> admin_options \<Rightarrow> string option \<Rightarrow> string \<Rightarrow> serverConfig \<Rightarrow> serverConfig" where
  "issued e opts env domain cfg =
     (let lib = ae_lib e; certDir = domainCertDir lib (op_certDir opts) domain;
          crtPath = path_join [certDir, ''fullchain.pem'']; keyPath = path_join [certDir, ''privkey.pem''];
          allDomains = (if defaultLikeDomain (sc_Domain cfg) then [] else configuredDomainList lib env cfg);
          allDomains = appendDomain lib allDomains domain;
          cfg = (if defaultLikeDomain (sc_Domain cfg) \<or> sc_Domain cfg = domain
                 then cfg\<lparr>sc_Domain := domain,
                          sc_ControlHost := (if defaultLikeControlHost (sc_ControlHost cfg) then ''ngrok.'' @ domain
                                             else sc_ControlHost cfg),
                          sc_TLSCrt := crtPath, sc_TLSKey := keyPath\<rparr>
                 else cfg\<lparr>sc_ExtraArgs := upsertDomainCertArg (sc_ExtraArgs cfg) domain crtPath keyPath\<rparr>)
      in cfg\<lparr>sc_VHost := join '','' allDomains\<rparr>)"

definition handleCertificateIssue :: handler where
  "handleCertificateIssue e opts r = authed e r (posted_domain e opts r (\<lambda>domain s.
     let cfg = applyDefaults (settings e opts s) in
     case firstFailedCheck (acmeReadinessChecks e (sy_files s)) of
       Some failed \<Rightarrow> renderCertificateError e opts r (ck_Detail failed) s
     | None \<Rightarrow>
     (case firstFailedCheck (domainDNSChecks (ae_lookup e) (ae_now e) [domain]) of
       Some failed \<Rightarrow> renderCertificateError e opts r (ck_Detail failed) s
     | None \<Rightarrow>
         (case issueWithAcmeSH e domain (domainCertDir (ae_lib e) (op_certDir opts) domain) s of
            (out, err, s) \<Rightarrow>
              (case (if err = None
                     then on_files (writeServerConfig e (op_envPath opts) (issued e opts (env_file (sy_files s) opts) domain cfg)) s
                     else (err, s)) of
                 (err, s) \<Rightarrow>
                   page e opts r ''Certificate'' ''certificate'' (\<lambda>d.
                     (cert_data e opts s d)\<lparr>vd_Message := tail out 4000,
                        vd_Error := (case err of None \<Rightarrow> vd_Error d | Some msg \<Rightarrow> msg)\<rparr>) s)))))"

section \<open>nginx, builds, the service\<close>

definition shown :: "string option \<Rightarrow> viewData \<Rightarrow> viewData" where
  "shown err d = (case err of None \<Rightarrow> d | Some msg \<Rightarrow> d\<lparr>vd_Error := msg\<rparr>)"

definition nginx_action ::
  "admin_env \<Rightarrow> admin_options \<Rightarrow> string \<Rightarrow> string \<Rightarrow> serverConfig \<Rightarrow> admin_sys \<Rightarrow> string \<times> string option \<times> admin_sys"
where
  "nginx_action e opts action path cfg s =
     (if action = ''write'' then
        (case on_files (writeFileRoot e path (desiredNginxConfig (ae_lib e) (env_file (sy_files s) opts) opts cfg)) s of
           (err, s) \<Rightarrow> (''nginx config written'', err, s))
      else if action = ''test'' then runCommand e [] ''nginx'' [''-t''] s
      else if action = ''reload'' then runCommand e [] ''systemctl'' [''reload'', ''nginx''] s
      else ([], Some ''unknown action'', s))"

definition handleNginx :: handler where
  "handleNginx e opts r = authed e r (\<lambda>s.
     let cfg = applyDefaults (settings e opts s);
         desired = (\<lambda>s. desiredNginxConfig (ae_lib e) (env_file (sy_files s) opts) opts cfg) in
     if hq_post r then
       (case hq_parse r of Some err \<Rightarrow> renderError e opts r ''Nginx'' ''nginx'' err s | None \<Rightarrow>
        let path = first_of (trim_space (hq_form r ''path'')) (op_nginxPath opts) in
        case nginx_action e opts (hq_form r ''action'') path cfg s of
          (msg, err, s) \<Rightarrow>
            page e opts r ''Nginx'' ''nginx'' (\<lambda>d.
              shown err (d\<lparr>vd_NginxConfig := desired s, vd_NginxPath := path, vd_Message := tail msg 4000\<rparr>)) s)
     else page e opts r ''Nginx'' ''nginx'' (\<lambda>d. d\<lparr>vd_NginxConfig := desired s\<rparr>) s)"

definition build_items :: "admin_env \<Rightarrow> admin_options \<Rightarrow> admin_sys \<Rightarrow> viewData \<Rightarrow> viewData" where
  "build_items e opts s d =
     d\<lparr>vd_Server := Some (serverBinaryItem e (sy_files s) (op_workDir opts)),
       vd_ServerLive := Some (serverLiveItem e (sy_files s) (op_workDir opts) (op_serverBin opts)),
       vd_Platforms := clientPlatformItems e (sy_files s) (op_workDir opts)\<rparr>"

definition build_action :: "admin_env \<Rightarrow> admin_options \<Rightarrow> admin_request \<Rightarrow> admin_sys \<Rightarrow> string \<times> string option \<times> admin_sys" where
  "build_action e opts r s =
     (let target = hq_form r ''target'' in
      if target = ''server'' then runCommandInDir e [] (op_workDir opts) ''make'' [''release-server''] s
      else if target = ''server_install'' then installServerBinary e opts s
      else if target = ''client'' then
        (case clientPlatformByKey (hq_form r ''platform'') of
           None \<Rightarrow> ([], Some ''client platform is required'', s)
         | Some p \<Rightarrow> buildClientForPlatform e (op_workDir opts) p s)
      else ([], Some ''unsupported build target'', s))"

definition handleBuild :: handler where
  "handleBuild e opts r = authed e r (\<lambda>s.
     let d = baseData e opts r ''Build'' ''build'' s; s = seen e r s in
     if hq_post r then
       (case hq_parse r of Some err \<Rightarrow> renderError e opts r ''Build'' ''build'' err s | None \<Rightarrow>
        (case build_action e opts r s of
           (out, err, s) \<Rightarrow>
             let d = (case err of
                        Some msg \<Rightarrow> if out = [] then d\<lparr>vd_Error := msg\<rparr>
                                    else d\<lparr>vd_BuildOutput := tail out 8000, vd_Error := msg\<rparr>
                      | None \<Rightarrow> d\<lparr>vd_BuildOutput := tail out 8000, vd_Message := messageText (ae_tr e) (vd_Lang d) ''build_done''\<rparr>)
             in (Page (build_items e opts s d), s)))
     else (Page (build_items e opts s d), s))"

definition service_action :: "admin_env \<Rightarrow> admin_options \<Rightarrow> string \<Rightarrow> admin_sys \<Rightarrow> string \<times> string option \<times> admin_sys" where
  "service_action e opts action s =
     (if action = ''install'' then installServiceUnit e opts s
      else if action = ''start'' then runCommand e [] ''systemctl'' [''enable'', ''--now'', op_serviceName opts] s
      else if action = ''restart'' then runCommand e [] ''systemctl'' [''restart'', op_serviceName opts] s
      else if action = ''stop'' then runCommand e [] ''systemctl'' [''stop'', op_serviceName opts] s
      else ([], Some ''unknown action'', s))"

definition handleService :: handler where
  "handleService e opts r = authed e r (\<lambda>s.
     let (out, err, s) = (if hq_post r \<and> hq_parse r = None then service_action e opts (hq_form r ''action'') s else ([], None, s)) in
     case (hq_post r, hq_parse r) of
       (True, Some msg) \<Rightarrow> renderError e opts r ''Service'' ''service'' msg s
     | (posted, _) \<Rightarrow>
         let d = baseData e opts r ''Service'' ''service'' s; s = seen e r s;
             (service, s) = readServiceStatus e (op_serviceName opts) s;
             d = d\<lparr>vd_Service := Some service\<rparr>
         in (Page (if posted then shown err (d\<lparr>vd_Message := tail out 4000\<rparr>) else d), s))"

section \<open>Downloads and the table of paths\<close>

definition handleDownloadClientConfig :: handler where
  "handleDownloadClientConfig e opts r = authed e r (\<lambda>s.
     (Text ''application/x-yaml; charset=utf-8'' (clientConfig (applyDefaults (settings e opts s))), s))"

definition handleDownloadClientBinary :: handler where
  "handleDownloadClientBinary e opts r = authed e r (\<lambda>s.
     case clientPlatformByKey (trim_prefix (hq_path r) ''/download/client/'') of
       None \<Rightarrow> (NotFound, s)
     | Some p \<Rightarrow>
         let path = path_join [op_workDir opts, ''bin'', cp_Filename p] in
         if sy_files s path = None then (NotFound, s) else (SendFile path (cp_Filename p), s))"

text \<open>
  \<open>http.ServeMux\<close>: a path that is not in normal form, and a pattern without its last slash, is
  redirected (with its query); then an exact path, else the longest pattern that ends with a slash
  and begins the path.
\<close>

definition mux_path :: "string \<Rightarrow> string" where
  "mux_path p =
     (let p = (if has_prefix p ''/'' then p else ''/'' @ p); np = path_clean p
      in if has_suffix p ''/'' \<and> np \<noteq> ''/'' then np @ ''/'' else np)"

definition routes :: "string \<Rightarrow> admin_draw \<Rightarrow> handler" where
  "routes styleCSS dr e opts r s =
     (let lang = normalizeLang (ae_lib e) (hq_query r ''lang''); path = hq_path r in
      if lang \<noteq> [] then (SetLang lang (hq_unlang r), s)
      else if mux_path path \<noteq> path then (Redirect (mux_path path) None, s)
      else if path = ''/download/client'' then (Redirect ''/download/client/'' None, s)
      else if path = ''/setup'' then serveSetup dr e opts r s
      else if path = ''/login'' then serveLogin dr e opts r s
      else if path = ''/logout'' then serveLogout e opts r s
      else if path = ''/config'' then handleConfig dr e opts r s
      else if path = ''/certificate'' then handleCertificate e opts r s
      else if path = ''/certificate/domain'' then handleCertificateDomain e opts r s
      else if path = ''/certificate/domain/delete'' then handleCertificateDomainDelete e opts r s
      else if path = ''/certificate/issue'' then handleCertificateIssue e opts r s
      else if path = ''/nginx'' then handleNginx e opts r s
      else if path = ''/build'' then handleBuild e opts r s
      else if path = ''/service'' then handleService e opts r s
      else if path = ''/download/client.yml'' then handleDownloadClientConfig e opts r s
      else if path = ''/static/style.css'' then (Text ''text/css; charset=utf-8'' styleCSS, s)
      else if has_prefix path ''/download/client/'' then handleDownloadClientBinary e opts r s
      else handleHome e opts r s)"

end
