(* ===== verification/Admin_Guard.thy ===== *)
theory Admin_Guard
  imports Admin_App
begin

text \<open>
  What the panel guarantees as a whole: nobody without a session makes it act, the programs it runs
  are from a fixed list, the settings are saved as a whole or not at all, and adding a domain adds it.
\<close>

section \<open>Nothing happens without a session\<close>

definition admin_answers :: "admin_answer \<Rightarrow> bool" where
  "admin_answers ans \<longleftrightarrow> (case ans of Page _ \<Rightarrow> True | SendFile _ _ \<Rightarrow> True | Text ctype _ \<Rightarrow> ctype \<noteq> ''text/css; charset=utf-8'' | _ \<Rightarrow> False)"

lemma authed_refuses:
  assumes "fst (requireAuth (ae_now e) (hq_session r) (sy_app s)) \<noteq> Allowed"
  shows "sy_files (snd (authed e r h s)) = sy_files s \<and> sy_ran (snd (authed e r h s)) = sy_ran s \<and>
    \<not> admin_answers (fst (authed e r h s))"
  using assms by (cases "requireAuth (ae_now e) (hq_session r) (sy_app s)")
    (auto simp: authed_def admin_answers_def split: auth_outcome.splits)

lemmas authed_handlers = handleConfig_def handleCertificate_def handleCertificateDomain_def
  handleCertificateDomainDelete_def handleCertificateIssue_def handleNginx_def handleBuild_def handleService_def
  handleDownloadClientConfig_def handleDownloadClientBinary_def

lemma logout_quiet:
  "sy_files (snd (serveLogout e opts r s)) = sy_files s" "sy_ran (snd (serveLogout e opts r s)) = sy_ran s"
  "\<not> admin_answers (fst (serveLogout e opts r s))"
  by (simp_all add: serveLogout_def handleLogout_def auth_page_def admin_answers_def)

lemma login_quiet:
  "sy_files (snd (serveLogin dr e opts r s)) = sy_files s" "sy_ran (snd (serveLogin dr e opts r s)) = sy_ran s"
  by (simp_all add: serveLogin_def case_prod_beta)

lemma routes_quiet:
  assumes "fst (requireAuth (ae_now e) (hq_session r) (sy_app s)) \<noteq> Allowed" "hq_path r \<noteq> ''/setup''"
  shows "sy_files (snd (routes css dr e opts r s)) = sy_files s \<and> sy_ran (snd (routes css dr e opts r s)) = sy_ran s"
    and "hq_path r \<noteq> ''/login'' \<Longrightarrow> \<not> admin_answers (fst (routes css dr e opts r s))"
proof -
  have home: "sy_files (snd (handleHome e opts r s)) = sy_files s \<and> sy_ran (snd (handleHome e opts r s)) = sy_ran s \<and>
      \<not> admin_answers (fst (handleHome e opts r s))"
    unfolding handleHome_def using authed_refuses [OF assms(1)] by (simp add: admin_answers_def)
  note q = authed_refuses [OF assms(1)]
  show "sy_files (snd (routes css dr e opts r s)) = sy_files s \<and> sy_ran (snd (routes css dr e opts r s)) = sy_ran s"
    unfolding routes_def Let_def authed_handlers using assms(2) home by (simp add: q login_quiet logout_quiet)
  show "hq_path r \<noteq> ''/login'' \<Longrightarrow> \<not> admin_answers (fst (routes css dr e opts r s))"
    unfolding routes_def Let_def authed_handlers using assms(2) home by (simp add: q logout_quiet) (simp add: admin_answers_def)
qed

section \<open>The programs the panel runs\<close>

definition systemctl_args :: "string \<Rightarrow> string list list" where
  "systemctl_args service =
     [[''is-active'', service], [''reload'', ''nginx''], [''daemon-reload''], [''enable'', ''--now'', service],
      [''restart'', service], [''stop'', service]]"

definition go_build :: "string \<Rightarrow> clientPlatform \<Rightarrow> command_run" where
  "go_build dir p =
     \<lparr>cm_dir = Some dir,
      cm_env = [''CGO_ENABLED=0'', ''GO111MODULE=off'', ''GOPATH='' @ dir, ''GOOS='' @ cp_GOOS p, ''GOARCH='' @ cp_GOARCH p],
      cm_name = ''go'',
      cm_args = [''build'', ''-tags'', ''release'', ''-o'', path_join [dir, ''bin'', cp_Filename p], ''ngrok/main/ngrok'']\<rparr>"

text \<open>The words of a command of \<open>acme.sh\<close> that may depend on a request: a valid domain and its directory.\<close>

definition acme_issue :: "admin_env \<Rightarrow> string \<Rightarrow> string list" where
  "acme_issue e d = (let accountEmail = trim_space (ae_getenv e ''ACME_ACCOUNT_EMAIL'') in
     [''--issue'', ''--dns'', acmeDNSPlugin e, ''-d'', d, ''-d'', ''*.'' @ d] @
     (if accountEmail \<noteq> [] then [''--accountemail'', accountEmail] else []))"

definition acme_install :: "string \<Rightarrow> string \<Rightarrow> string list" where
  "acme_install certDir d =
     [''--install-cert'', ''-d'', d, ''--fullchain-file'', path_join [path_join [certDir, d], ''fullchain.pem''],
      ''--key-file'', path_join [path_join [certDir, d], ''privkey.pem''], ''--reloadcmd'', ''systemctl reload nginx || true'']"

definition listed_run :: "admin_env \<Rightarrow> admin_options \<Rightarrow> command_run \<Rightarrow> bool" where
  "listed_run e opts c \<longleftrightarrow>
     c \<in> set (map (plain_run ''systemctl'') (systemctl_args (op_serviceName opts))) \<or>
     c = plain_run ''journalctl'' [''-u'', op_serviceName opts, ''-n'', ''80'', ''--no-pager''] \<or>
     c = plain_run ''nginx'' [''-t''] \<or>
     c = \<lparr>cm_dir = Some (op_workDir opts), cm_env = [], cm_name = ''make'', cm_args = [''release-server'']\<rparr> \<or>
     c \<in> set (map (go_build (op_workDir opts)) availableClientPlatforms) \<or>
     (\<exists>d fs. validDomainName d \<and> findAcmeSH e fs = Inr (cm_name c) \<and> cm_dir c = None \<and> cm_env c = [] \<and>
        (cm_args c = acme_issue e d \<or> cm_args c = acme_install (op_certDir opts) d))"

text \<open>The programs run since \<open>s\<close>.\<close>

definition ran_listed :: "admin_env \<Rightarrow> admin_options \<Rightarrow> admin_sys \<Rightarrow> admin_sys \<Rightarrow> bool" where
  "ran_listed e opts s s' \<longleftrightarrow> (\<exists>cs. sy_ran s' = sy_ran s @ cs \<and> list_all (listed_run e opts) cs)"

lemma ran_refl [simp]: "ran_listed e opts s s"
  by (simp add: ran_listed_def)

lemma ran_trans: "ran_listed e opts s s1 \<Longrightarrow> ran_listed e opts s1 s2 \<Longrightarrow> ran_listed e opts s s2"
  unfolding ran_listed_def by (metis append.assoc list_all_append)

lemma ran_app [simp]: "ran_listed e opts s (s'\<lparr>sy_app := a\<rparr>) = ran_listed e opts s s'"
  "ran_listed e opts (s\<lparr>sy_app := a\<rparr>) s' = ran_listed e opts s s'"
  "ran_listed e opts s (s'\<lparr>sy_files := fs\<rparr>) = ran_listed e opts s s'"
  by (simp_all add: ran_listed_def)

lemma ran_seen [simp]: "ran_listed e opts s (seen e' r s') = ran_listed e opts s s'"
  by (simp add: seen_def)

lemma ran_files [simp]: "ran_listed e opts s (snd (on_files f s')) = ran_listed e opts s s'"
  by (simp add: on_files_def case_prod_beta)

lemma ran_page [simp]:
  "ran_listed e opts s (snd (page e' o' r t n f s')) = ran_listed e opts s s'"
  "ran_listed e opts s (snd (renderError e' o' r t n err s')) = ran_listed e opts s s'"
  "ran_listed e opts s (snd (renderErrorWithConfig e' o' r t n err cfg s')) = ran_listed e opts s s'"
  "ran_listed e opts s (snd (renderCertificateError e' o' r err s')) = ran_listed e opts s s'"
  by (simp_all add: page_def renderError_def renderErrorWithConfig_def renderCertificateError_def)

lemma ran_exec: "listed_run e opts c \<Longrightarrow> ran_listed e opts s s' \<Longrightarrow> ran_listed e opts s (snd (snd (exec e c s')))"
  by (auto simp: exec_def case_prod_beta ran_listed_def)

lemma ran_command:
  "listed_run e opts (plain_run name args) \<Longrightarrow> ran_listed e opts s s' \<Longrightarrow>
     ran_listed e opts s (snd (snd (runCommand e [] name args s')))"
  using ran_exec [of e opts "plain_run name args" s s']
  by (simp add: runCommand_def run_in_def plain_run_def case_prod_beta)

lemma ran_systemctl [simp]:
  "args \<in> set (systemctl_args (op_serviceName opts)) \<Longrightarrow> ran_listed e opts s s' \<Longrightarrow>
     ran_listed e opts s (snd (snd (runCommand e [] ''systemctl'' args s')))"
  by (rule ran_command) (simp add: listed_run_def)

lemma ran_nginx [simp]:
  "ran_listed e opts s s' \<Longrightarrow> ran_listed e opts s (snd (snd (runCommand e [] ''nginx'' [''-t''] s')))"
  by (rule ran_command) (simp add: listed_run_def)

lemma ran_status [simp]:
  "ran_listed e opts s s' \<Longrightarrow> ran_listed e opts s (snd (readServiceStatus e (op_serviceName opts) s'))"
  unfolding readServiceStatus_def case_prod_beta Let_def snd_conv
  by (intro ran_exec) (simp_all add: listed_run_def systemctl_args_def)

lemma ran_unit [simp]: "ran_listed e opts s s' \<Longrightarrow> ran_listed e opts s (snd (snd (installServiceUnit e opts s')))"
  by (simp add: installServiceUnit_def case_prod_beta Let_def systemctl_args_def split: sum.split option.split)

lemma ran_server [simp]: "ran_listed e opts s s' \<Longrightarrow> ran_listed e opts s (snd (snd (installServerBinary e opts s')))"
  by (simp add: installServerBinary_def case_prod_beta Let_def systemctl_args_def split: sum.split option.split)

lemma ran_client [simp]:
  assumes "p \<in> set availableClientPlatforms" "ran_listed e opts s s'"
  shows "ran_listed e opts s (snd (snd (buildClientForPlatform e (op_workDir opts) p s')))"
proof -
  have "listed_run e opts (go_build (op_workDir opts) p)"
    using assms(1) by (simp add: listed_run_def)
  then have "ran_listed e opts s s1 \<Longrightarrow> ran_listed e opts s (snd (snd (exec e (go_build (op_workDir opts) p) s1)))" for s1
    by (rule ran_exec)
  then show ?thesis
    using assms(2)
    by (simp add: buildClientForPlatform_def case_prod_beta Let_def runCommandInDir_def run_in_def go_build_def split: option.split)
qed

lemma ran_build [simp]: "ran_listed e opts s s' \<Longrightarrow> ran_listed e opts s (snd (snd (build_action e opts r s')))"
proof -
  assume r: "ran_listed e opts s s'"
  have "ran_listed e opts s (snd (snd (runCommandInDir e [] (op_workDir opts) ''make'' [''release-server''] s')))"
    using ran_exec [of e opts "\<lparr>cm_dir = Some (op_workDir opts), cm_env = [], cm_name = ''make'', cm_args = [''release-server'']\<rparr>", OF _ r]
    by (simp add: runCommandInDir_def run_in_def case_prod_beta listed_run_def)
  with r show ?thesis
    by (auto simp: build_action_def Let_def clientPlatformByKey_def find_Some_iff split: option.split)
qed

lemma ran_issue [simp]:
  assumes "validDomainName d" "ran_listed e opts s s'"
  shows "ran_listed e opts s (snd (snd (issueWithAcmeSH e d (domainCertDir (ae_lib e) (op_certDir opts) d) s')))"
proof -
  have l: "listed_run e opts (plain_run bin args)"
    if "findAcmeSH e fs = Inr bin" "args = acme_issue e d \<or> args = acme_install (op_certDir opts) d" for bin args fs
    using that assms(1) by (auto simp: listed_run_def plain_run_def)
  have dir: "domainCertDir (ae_lib e) (op_certDir opts) d = path_join [op_certDir opts, d]"
    by (simp add: domainCertDir_def normalizeDomain_valid assms(1))
  have i: "ran_listed e opts s s1 \<Longrightarrow> ran_listed e opts s (snd (snd (runCommand e [] bin (acme_issue e d) s1)))"
    and j: "ran_listed e opts s s1 \<Longrightarrow> ran_listed e opts s (snd (snd (runCommand e [] bin (acme_install (op_certDir opts) d) s1)))"
    if "findAcmeSH e fs = Inr bin" for bin fs s1
    using ran_command [OF l [OF that]] by blast+
  show ?thesis
    using assms(2) i j
    by (auto simp: issueWithAcmeSH_def case_prod_beta Let_def normalizeDomain_valid assms(1) dir acme_issue_def acme_install_def
        split: sum.split option.split)
qed

lemma ran_actions [simp]:
  "ran_listed e opts s s' \<Longrightarrow> ran_listed e opts s (snd (snd (nginx_action e opts action path cfg s')))"
  "ran_listed e opts s s' \<Longrightarrow> ran_listed e opts s (snd (snd (service_action e opts action s')))"
  by (simp_all add: nginx_action_def service_action_def case_prod_beta systemctl_args_def)

section \<open>Handlers\<close>

lemma ran_authed:
  "(\<And>s'. ran_listed e opts s s' \<Longrightarrow> ran_listed e opts s (snd (h s'))) \<Longrightarrow> ran_listed e opts s (snd (authed e r h s))"
  by (simp add: authed_def split: prod.split auth_outcome.split)

lemma parsed_domain_valid: "parseDomainInput lib v = [d] \<Longrightarrow> validDomainName d"
  using parseDomainInput_ok [of lib v] by simp

lemma ran_posted:
  assumes "\<And>d s'. validDomainName d \<Longrightarrow> ran_listed e opts s s' \<Longrightarrow> ran_listed e opts s (snd (h d s'))" "ran_listed e opts s s'"
  shows "ran_listed e opts s (snd (posted_domain e opts r h s'))"
  using assms parsed_domain_valid [of "ae_lib e" "hq_form r ''domain''"]
  by (auto simp: posted_domain_def split: option.split list.split)

lemma ran_save [simp]: "ran_listed e opts s s' \<Longrightarrow> ran_listed e opts s (snd (save_and e opts r url cfg s'))"
  by (simp add: save_and_def case_prod_beta split: option.split)

lemma ran_handlers:
  "ran_listed e opts s (snd (handleConfig dr e opts r s))"
  "ran_listed e opts s (snd (handleCertificate e opts r s))"
  "ran_listed e opts s (snd (handleCertificateDomain e opts r s))"
  "ran_listed e opts s (snd (handleCertificateDomainDelete e opts r s))"
  "ran_listed e opts s (snd (handleNginx e opts r s))"
  "ran_listed e opts s (snd (handleBuild e opts r s))"
  "ran_listed e opts s (snd (handleService e opts r s))"
  "ran_listed e opts s (snd (handleDownloadClientConfig e opts r s))"
  "ran_listed e opts s (snd (handleDownloadClientBinary e opts r s))"
  unfolding authed_handlers
  by (intro ran_authed ran_posted; simp add: Let_def case_prod_beta split: option.split sum.split bool.split)+

lemma ran_others:
  "ran_listed e opts s (snd (handleCertificateIssue e opts r s))"
  "ran_listed e opts s (snd (handleHome e opts r s))"
  "ran_listed e opts s (snd (serveSetup dr e opts r s))"
  "ran_listed e opts s (snd (serveLogin dr e opts r s))"
  "ran_listed e opts s (snd (serveLogout e opts r s))"
proof -
  show "ran_listed e opts s (snd (handleCertificateIssue e opts r s))"
    unfolding authed_handlers
    by (intro ran_authed ran_posted; simp add: Let_def case_prod_beta split: option.split)
  have "ran_listed e opts s (snd (authed e r h s))"
    if "\<And>s'. ran_listed e opts s s' \<Longrightarrow> ran_listed e opts s (snd (h s'))" for h
    using that by (rule ran_authed)
  then show "ran_listed e opts s (snd (handleHome e opts r s))"
    unfolding handleHome_def by (simp add: Let_def case_prod_beta)
qed (simp_all add: serveSetup_def serveLogin_def serveLogout_def Let_def case_prod_beta)

lemma ran_routes: "ran_listed e opts s (snd (routes css dr e opts r s))"
  by (simp add: routes_def Let_def ran_handlers ran_others)

section \<open>The guarantees\<close>

text \<open>
  C7: Without a session the panel does nothing: a request that \<open>requireAuth\<close> refuses, whatever its
  path except the set-up page, changes no file and runs no program, and apart from the login page the
  answer is a redirection, a page not found or the style sheet.
\<close>
theorem unauthenticated_request_inert:
  assumes "fst (requireAuth (ae_now e) (hq_session r) (sy_app s)) \<noteq> Allowed" "hq_path r \<noteq> ''/setup''"
  shows "sy_files (snd (routes css dr e opts r s)) = sy_files s \<and> sy_ran (snd (routes css dr e opts r s)) = sy_ran s \<and>
     (hq_path r = ''/login'' \<or> \<not> admin_answers (fst (routes css dr e opts r s)))"
  using routes_quiet [OF assms] by blast

definition stranger :: "string \<Rightarrow> admin_request" where
  "stranger path = \<lparr>hq_post = True, hq_path = path, hq_query = (\<lambda>_. []), hq_unlang = path, hq_parse = None,
     hq_form = (\<lambda>_. [])(''action'' := ''write''), hq_session = Some ''guess'', hq_langCookie = None, hq_accept = [],
     hq_host = ''127.0.0.1:9090''\<rparr>"

definition quiet_env :: admin_env where
  "quiet_env = \<lparr>ae_lib = sample_lib, ae_tr = (\<lambda>_. None), ae_ip6 = (\<lambda>s. s), ae_lookup = (\<lambda>_. Inr [''192.0.2.1'']),
     ae_dial = (\<lambda>_. None), ae_getenv = (\<lambda>_. []), ae_lookPath = (\<lambda>p. Inr (''/usr/bin/'' @ p)), ae_home = ''/root'',
     ae_cwd = Inr ''/w'', ae_glob = (\<lambda>_ _. []), ae_decode = (\<lambda>_. None), ae_digest = (\<lambda>s. s),
     ae_size = (\<lambda>_. ''1.0 MB''), ae_mkdir = (\<lambda>_ fs. (None, fs)), ae_write = (\<lambda>p d fs. (None, fs(p \<mapsto> File d))),
     ae_chmod = (\<lambda>_. None), ae_chown = (\<lambda>_. None), ae_rename = (\<lambda>_ _. None), ae_root = True,
     ae_command = (\<lambda>_ fs. ([], None, fs)), ae_now = 7, ae_nowText = ''now''\<rparr>"

definition sample_sys :: admin_sys where
  "sample_sys = \<lparr>sy_app = \<lparr>aa_state = no_admin\<lparr>as_Username := ''root''\<rparr>, aa_setupKey = [], aa_sessions = [''s1'' \<mapsto> 9]\<rparr>,
     sy_files = Map.empty, sy_ran = []\<rparr>"

definition sample_draw :: admin_draw where
  "sample_draw = \<lparr>dr_hmac = sample_hmac, dr_marshal = (\<lambda>_. Inr []), dr_salt = Inr ''salt'', dr_session = Inr ''s2'', dr_token = Inr ''t''\<rparr>"

theorem unauthenticated_request_inert_witness:
  "sy_files (snd (routes [] sample_draw quiet_env sample_options (stranger ''/nginx'') sample_sys)) = Map.empty"
proof -
  have "fst (requireAuth (ae_now quiet_env) (hq_session (stranger ''/nginx'')) (sy_app sample_sys)) \<noteq> Allowed"
    by (simp add: requireAuth_def hasAdmin_def currentUser_def sample_sys_def stranger_def)
  from unauthenticated_request_inert [OF this] show ?thesis
    by (simp add: stranger_def sample_sys_def)
qed

text \<open>
  C21: The panel runs only its own programs: whatever a request contains, every program it runs is on
  the list \<open>listed_run\<close>, with fixed arguments; all that a request can choose is the action, one of the
  five platforms to build for, and a domain that is valid and so cannot be taken for an option.
\<close>
theorem only_listed_programs:
  "\<exists>cs. sy_ran (snd (routes css dr e opts r s)) = sy_ran s @ cs \<and> list_all (listed_run e opts) cs"
  using ran_routes [of e opts s css dr r] by (simp add: ran_listed_def)

section \<open>Settings are saved as a whole\<close>

lemma env_file_iff: "env_file fs opts = Some b \<longleftrightarrow> read_file fs (op_envPath opts) = Inr b"
  by (simp add: env_file_def split: sum.split)

lemma env_file_eq:
  "(\<And>b. read_file fs (op_envPath opts) = Inr b \<longleftrightarrow> read_file fs' (op_envPath opts) = Inr b) \<Longrightarrow> env_file fs opts = env_file fs' opts"
  by (metis env_file_iff not_Some_eq)

lemma saved_settings:
  assumes "os_ok e" "quoting_ok (ae_lib e)" "writeServerConfig e (op_envPath opts) cfg fs = (None, fs')"
  shows "env_file fs' opts = Some (server_config_text (ae_lib e) cfg)"
    "readServerConfig (ae_lib e) (env_file fs' opts) = applyDefaults cfg"
proof -
  show f: "env_file fs' opts = Some (server_config_text (ae_lib e) cfg)"
    unfolding env_file_iff using writeFileRoot_result(1) [OF assms(1)] assms(3) by (auto simp: writeServerConfig_def)
  show "readServerConfig (ae_lib e) (env_file fs' opts) = applyDefaults cfg"
    unfolding f using config_reads_back [OF assms(2)] by blast
qed

text \<open>
  C19: The settings are saved as a whole or not at all: if writing them succeeds, what the panel reads
  next is what was to be saved, with its defaults; if any step of it fails, the panel reads what it read
  before; and the content of every other file but the temporary one stays as it is.
\<close>
theorem settings_saved_or_kept:
  assumes "os_ok e" "quoting_ok (ae_lib e)" "q \<noteq> op_envPath opts" "q \<noteq> tmp_path (op_envPath opts)"
    and "writeServerConfig e (op_envPath opts) cfg fs = (err, fs')"
  shows "readServerConfig (ae_lib e) (env_file fs' opts) =
      (if err = None then applyDefaults cfg else readServerConfig (ae_lib e) (env_file fs opts)) \<and>
    (read_file fs' q = Inr b \<longleftrightarrow> read_file fs q = Inr b)"
proof -
  have w: "writeFileRoot e (op_envPath opts) (server_config_text (ae_lib e) cfg) fs = (err, fs')"
    using assms(5) by (simp add: writeServerConfig_def)
  have "err \<noteq> None \<Longrightarrow> env_file fs' opts = env_file fs opts"
    using writeFileRoot_result(2) [OF assms(1) w] by (intro env_file_eq) blast
  then show ?thesis
    using saved_settings(2) [OF assms(1,2), of opts cfg fs fs'] assms(5) writeFileRoot_result(3) [OF assms(1) w assms(3,4)]
    by (cases "err = None") auto
qed

lemma quiet_write:
  "writeServerConfig quiet_env path cfg fs =
     (None, fs(path \<mapsto> File (server_config_text sample_lib cfg), tmp_path path := None))"
  by (simp add: writeServerConfig_def writeFileRoot_def quiet_env_def Let_def fun_upd_twist)

lemma quiet_ok: "os_ok quiet_env" "quoting_ok (ae_lib quiet_env)"
  using sample_lib_quotes by (simp_all add: os_ok_def quiet_env_def)

theorem settings_saved_or_kept_witness:
  "\<exists>fs'. writeServerConfig quiet_env ''/e'' two_domains [''/x'' \<mapsto> File ''y''] = (None, fs') \<and>
     readServerConfig sample_lib (env_file fs' (sample_options\<lparr>op_envPath := ''/e''\<rparr>)) = applyDefaults two_domains \<and>
     read_file fs' ''/x'' = Inr ''y''"
proof -
  obtain fs' where f: "writeServerConfig quiet_env ''/e'' two_domains [''/x'' \<mapsto> File ''y''] = (None, fs')"
    by (simp add: writeServerConfig_def writeFileRoot_def quiet_env_def Let_def)
  have "ae_lib quiet_env = sample_lib" by (simp add: quiet_env_def)
  with f show ?thesis
    using settings_saved_or_kept [OF quiet_ok, of "''/x''" "sample_options\<lparr>op_envPath := ''/e''\<rparr>" two_domains
        "[''/x'' \<mapsto> File ''y'']" None fs' "''y''"]
    by (simp add: tmp_path_def read_file_def)
qed

section \<open>Adding a domain\<close>

lemma add_configured_grows: "\<exists>zs. add_configured lib ds v = ds @ zs"
  by (simp add: add_configured_def Let_def)

lemma foldl_add_grows: "\<exists>zs. foldl (add_configured lib) ds vs = ds @ zs"
proof (induction vs arbitrary: ds)
  case (Cons v vs)
  obtain z where "add_configured lib ds v = ds @ z" using add_configured_grows by blast
  with Cons.IH [of "ds @ z"] show ?case by auto
qed simp

lemma configured_stored:
  assumes "domains_ok vs" "vs \<noteq> []" "sc_VHost cfg = join '','' vs"
  shows "configuredDomainList lib f cfg = foldl (add_configured lib) (add_configured lib [] (sc_Domain (applyDefaults cfg))) vs"
proof -
  have "hd vs \<noteq> []"
    using assms(1,2) domains_okD valid_domain_facts(1) hd_in_set by blast
  then have "sc_VHost (applyDefaults cfg) \<noteq> []" using assms(2,3) by (simp add: join_nonempty)
  then show ?thesis
    using assms by (simp add: configuredDomainList_def Let_def domains_join)
qed

text \<open>Storing the domains with another one keeps them, whatever the primary domain is.\<close>

lemma configured_grown:
  assumes d: "validDomainName d" "\<not> defaultLikeDomain d"
    and cfg': "sc_Domain (applyDefaults cfg') = sc_Domain (applyDefaults cfg)"
      "sc_VHost cfg' = join '','' (appendDomain lib (configuredDomainList lib f cfg) d)"
  shows "configuredDomainList lib g cfg' = appendDomain lib (configuredDomainList lib f cfg) d"
proof -
  let ?D = "add_configured lib [] (sc_Domain (applyDefaults cfg))"
  let ?old = "configuredDomainList lib f cfg"
  let ?vs = "appendDomain lib ?old d"
  have ok: "domains_ok ?vs" by (rule appendDomain_ok [OF configured_ok d(2,1)])
  have ne: "?vs \<noteq> []" using d by (simp add: appendDomain_def Let_def valid_domain_facts) auto
  have list: "configuredDomainList lib g cfg' = foldl (add_configured lib) ?D ?vs"
    using configured_stored [OF ok ne cfg'(2)] by (simp add: cfg'(1))
  have "\<exists>zs. ?old = ?D @ zs"
    unfolding configuredDomainList_def Let_def by (rule foldl_add_grows)
  moreover have "\<exists>zs. ?vs = ?old @ zs"
    by (simp add: appendDomain_def Let_def)
  ultimately have "\<exists>zs. ?vs = ?D @ zs" by (metis append.assoc)
  then obtain zs where zs: "?vs = ?D @ zs" by blast
  show ?thesis
  proof (cases "?D = []")
    case True
    then show ?thesis using list foldl_add_fresh [of "[]" ?vs lib] ok by simp
  next
    case False
    then obtain x where x: "?D = [x]" by (auto simp: add_configured_def Let_def split: if_splits)
    have "add_configured lib [x] x = [x]"
      using domains_okD [OF ok, of x] zs x by (simp add: add_configured_def Let_def)
    then show ?thesis
      using list foldl_add_fresh [of "[x]" zs lib] ok by (simp add: zs x)
  qed
qed

lemma applyDefaults_keeps_vhost: "sc_VHost (applyDefaults cfg) = sc_VHost cfg"
  by (simp add: applyDefaults_def Let_def)

lemma add_domain_fields:
  "sc_Domain (add_domain e opts env hosts d cfg) = (if defaultLikeDomain (sc_Domain cfg) then d else sc_Domain cfg)"
  "sc_VHost (add_domain e opts env hosts d cfg) =
     join '','' (appendDomain (ae_lib e) (if defaultLikeDomain (sc_Domain cfg) then [] else configuredDomainList (ae_lib e) env cfg) d)"
  by (simp_all add: add_domain_def Let_def)

lemma settings_complete: "applyDefaults (settings e opts s) = settings e opts s"
  unfolding settings_def readServerConfig_def Let_def using applyDefaults_complete by (rule applyDefaults_id)

lemma configured_defaults: "configuredDomainList lib f (applyDefaults cfg) = configuredDomainList lib f cfg"
  using applyDefaults_complete [of cfg] by (simp add: configuredDomainList_def Let_def applyDefaults_id)

text \<open>What the settings list once \<open>add_domain\<close> is stored and read back.\<close>

lemma added_list:
  assumes d: "validDomainName d" "\<not> defaultLikeDomain d" and cfg: "applyDefaults cfg = cfg"
  shows "configuredDomainList (ae_lib e) g (add_domain e opts env hosts d cfg) =
     (if defaultLikeDomain (sc_Domain cfg) then [d] else appendDomain (ae_lib e) (configuredDomainList (ae_lib e) env cfg) d)"
proof (cases "defaultLikeDomain (sc_Domain cfg)")
  case True
  have "appendDomain (ae_lib e) [] d = [d]"
    using d by (simp add: appendDomain_def Let_def valid_domain_facts)
  with True show ?thesis
    using d by (simp add: configured_saved [of "[d]"] add_domain_fields domains_ok_def)
next
  case False
  have "sc_Domain cfg \<noteq> []" using False by (auto simp: defaultLikeDomain_def)
  then have "sc_Domain (applyDefaults (add_domain e opts env hosts d cfg)) = sc_Domain (applyDefaults cfg)"
    using False by (simp add: add_domain_fields)
  with False show ?thesis
    by (simp add: configured_grown [OF d] add_domain_fields)
qed

text \<open>
  Adding a domain adds it: once the panel says that a new domain is saved, the settings it reads
  back list the domains from before in the same order and the new one last, unless it was listed; but
  if the primary domain was still the placeholder, only the new domain, and any other is dropped.
\<close>
theorem domain_added:
  assumes "os_ok e" "quoting_ok (ae_lib e)" "fst (requireAuth (ae_now e) (hq_session r) (sy_app s)) = Allowed"
    and "hq_post r" "hq_parse r = None" "parseDomainInput (ae_lib e) (hq_form r ''domain'') = [d]" "\<not> defaultLikeDomain d"
    and "handleCertificateDomain e opts r s = (Redirect url cookie, s')"
  shows "let old = configuredDomainList (ae_lib e) (env_file (sy_files s) opts) (settings e opts s) in
     configuredDomainList (ae_lib e) (env_file (sy_files s') opts) (settings e opts s') =
       (if defaultLikeDomain (sc_Domain (settings e opts s)) then [d] else if d \<in> set old then old else old @ [d])"
proof -
  have v: "validDomainName d" by (rule parsed_domain_valid [OF assms(6)])
  obtain a where a: "requireAuth (ae_now e) (hq_session r) (sy_app s) = (Allowed, a)"
    using assms(3) by (cases "requireAuth (ae_now e) (hq_session r) (sy_app s)") auto
  define hosts where "hosts = parseDomainInput (ae_lib e) (hq_form r ''control_host'')"
  define cfg where "cfg = add_domain e opts (env_file (sy_files s) opts) hosts d (settings e opts s)"
  have same: "settings e opts (s\<lparr>sy_app := a\<rparr>) = settings e opts s" by (simp add: settings_def)
  obtain fs' where w: "writeServerConfig e (op_envPath opts) cfg (sy_files s) = (None, fs')" "sy_files s' = fs'"
    using assms(8)
    by (auto simp: handleCertificateDomain_def authed_def a posted_domain_def assms(4-6) same settings_complete
        save_and_def on_files_def renderCertificateError_def page_def cfg_def hosts_def Let_def
        split: if_splits option.splits prod.splits)
  have r: "settings e opts s' = applyDefaults cfg"
    unfolding settings_def w(2) by (rule saved_settings(2) [OF assms(1,2) w(1)])
  show ?thesis
    unfolding Let_def r configured_defaults cfg_def added_list [OF v assms(7) settings_complete]
    using v by (simp add: appendDomain_def Let_def valid_domain_facts)
qed

definition add_request :: admin_request where
  "add_request = (stranger ''/certificate/domain'')\<lparr>hq_session := Some ''s1'', hq_form := (\<lambda>_. [])(''domain'' := ''a.bc'')\<rparr>"

theorem domain_added_witness:
  "\<exists>s'. handleCertificateDomain quiet_env sample_options add_request sample_sys = (Redirect ''/certificate?msg=domain_saved'' None, s') \<and>
     configuredDomainList sample_lib (env_file (sy_files s') sample_options) (settings quiet_env sample_options s') = [''a.bc'']"
proof -
  have v: "validDomainName ''a.bc''" by code_simp
  have l: "ae_lib quiet_env = sample_lib" by (simp add: quiet_env_def)
  have p: "parseDomainInput sample_lib ''a.bc'' = [''a.bc'']" "parseDomainInput sample_lib [] = []"
    using v by (simp_all add: parseDomainInput_def input_sep_def newline_def add_input_def Let_def)
  have a: "requireAuth (ae_now quiet_env) (hq_session add_request) (sy_app sample_sys) = (Allowed, sy_app sample_sys)"
    by (simp add: requireAuth_def hasAdmin_def currentUser_def sample_sys_def add_request_def quiet_env_def)
  have f: "hq_post add_request" "hq_parse add_request = None" "hq_form add_request ''domain'' = ''a.bc''"
    "hq_form add_request ''control_host'' = []"
    by (simp_all add: add_request_def stranger_def)
  have d: "defaultLikeDomain (sc_Domain (settings quiet_env sample_options sample_sys))" "\<not> defaultLikeDomain ''a.bc''"
    by (simp_all add: settings_def env_file_def read_file_def sample_sys_def readServerConfig_def readEnvFile_def env_get_def
        defaultServerConfig_def applyDefaults_def defaultLikeDomain_def Let_def)
  obtain s' where h: "handleCertificateDomain quiet_env sample_options add_request sample_sys = (Redirect ''/certificate?msg=domain_saved'' None, s')"
    by (simp add: handleCertificateDomain_def authed_def a posted_domain_def f p l save_and_def on_files_def
        quiet_write Let_def)
  have al: "fst (requireAuth (ae_now quiet_env) (hq_session add_request) (sy_app sample_sys)) = Allowed" by (simp add: a)
  have p1: "parseDomainInput (ae_lib quiet_env) (hq_form add_request ''domain'') = [''a.bc'']" by (simp add: l f p)
  from domain_added [OF quiet_ok al f(1,2) p1 d(2) h] show ?thesis
    using h d(1) by (simp add: l Let_def)
qed

end
