(* ===== verification/Admin_Texts.thy ===== *)
theory Admin_Texts
  imports Admin_App
begin

text \<open>
  The texts of the panel, \<open>src/ngrok/admin/i18n.go\<close>: its two tables, the Chinese texts as lists of code
  points, and that no text is missing in one of the languages.
\<close>

definition runes :: "int list \<Rightarrow> string" where
  "runes ps = concat (map utf8_encode ps)"

section \<open>The tables\<close>

definition english_1 :: "(string \<times> string) list" where
  "english_1 =
    [(''Setup'', ''Setup''),
     (''Login'', ''Login''),
     (''Dashboard'', ''Deploy''),
     (''Config'', ''Runtime settings''),
     (''Certificate'', ''Certificate''),
     (''Nginx'', ''Nginx''),
     (''Build'', ''Build''),
     (''Service'', ''Service''),
     (''Client'', ''Client''),
     (''Ready'', ''Ready''),
     (''nav_dashboard'', ''Deploy''),
     (''nav_config'', ''Runtime''),
     (''nav_certificate'', ''Certificate''),
     (''nav_nginx'', ''Nginx''),
     (''nav_build'', ''Build''),
     (''nav_service'', ''Service''),
     (''nav_client'', ''Client''),
     (''nav_logout'', ''Logout''),
     (''setup_key'', ''Setup key''),
     (''username'', ''Username''),
     (''password'', ''Password''),
     (''create_admin'', ''Create admin''),
     (''login'', ''Login''),
     (''setup_flow'', ''Setup flow''),
     (''guide_title'', ''Deployment steps''),
     (''guide_dns_title'', ''DNS''),
     (''guide_order_title'', ''Order''),
     (''guide_step_cert'', ''Issue or install the certificate''),
     (''guide_step_nginx'', ''Write and test Nginx''),
     (''guide_step_build'', ''Build server and client binaries''),
     (''guide_step_service'', ''Start the server''),
     (''guide_step_client'', ''Download client files''),
     (''deploy_step_basic'', ''1. Runtime''),
     (''deploy_step_domain'', ''2. Domain''),
     (''deploy_step_dns'', ''3. DNS''),
     (''deploy_step_cert'', ''4. Certificate''),
     (''deploy_step_nginx'', ''5. Nginx''),
     (''deploy_step_server_build'', ''6. Server build''),
     (''deploy_step_service'', ''7. Server''),
     (''deploy_step_client_build'', ''8. Client build''),
     (''deploy_step_download'', ''9. Download''),
     (''deploy_action'', ''Do:''),
     (''deploy_done'', ''Done:''),
     (''deploy_help_basic'', ''Open Runtime, keep the internal Nginx upstream and public client port unless you need changes, then save the client auth key.''),
     (''deploy_help_domain'', ''Open Certificate, add the root domain. Leave control host empty to use ngrok.<domain>.''),
     (''deploy_help_dns'', ''At your DNS provider, point the following records to this server IP, then refresh.''),
     (''deploy_help_cert'', ''On Certificate, issue once DNS is OK. Each certificate covers the root domain and wildcard domain.''),
     (''deploy_help_nginx'', ''Open Nginx, write the config, test it, then reload.''),
     (''deploy_help_server_build'', ''Open Build, build the server, then install and restart it.''),
     (''deploy_help_service'', ''Open Service and start or restart ngrokd.''),
     (''deploy_help_client_build'', ''Open Build, choose the client OS and CPU, then build.''),
     (''deploy_help_download'', ''Download the built client for your platform and client.yml.''),
     (''deploy_done_basic'', ''The environment file exists and the client auth key is not the default value.''),
     (''deploy_done_domain'', ''The domain appears in the certificate list and is not example.com.''),
     (''deploy_done_dns'', ''Root domain, wildcard domain, and control host all resolve correctly.''),
     (''deploy_done_cert'', ''The certificate row is OK and the certificate files are in the output directory.''),
     (''deploy_done_nginx'', ''Nginx config is written, test passes, and Nginx has reloaded.''),
     (''deploy_done_server_build'', ''Built server and running server file are both OK.''),
     (''deploy_done_service'', ''Service shows ngrokd as active.''),
     (''deploy_done_client_build'', ''The selected platform shows OK and a download link appears.''),
     (''deploy_done_download'', ''Client binary and client.yml are ready to use on the client machine.''),
     (''current_result'', ''Current''),
     (''next_step'', ''Next step''),
     (''open'', ''Open''),
     (''status'', ''Status''),
     (''checks'', ''Checks''),
     (''env'', ''Env''),
     (''domain'', ''Domain''),
     (''domain_item'', ''Domain''),
     (''control'', ''Control''),
     (''service'', ''Service''),
     (''certificate'', ''Certificate''),
     (''control_host'', ''Control host''),
     (''tls_cert'', ''TLS cert''),
     (''tls_key'', ''TLS key''),
     (''auth_token'', ''Client auth key''),
     (''http_addr'', ''Nginx upstream''),
     (''https_addr'', ''HTTPS addr''),
     (''tunnel_addr'', ''Client connection''),
     (''log_level'', ''Log level'')]"

definition english_2 :: "(string \<times> string) list" where
  "english_2 =
    [(''max_connections'', ''Max connections''),
     (''extra_args'', ''Extra args''),
     (''new_token'', ''New token''),
     (''save'', ''Save''),
     (''path'', ''Path''),
     (''subject'', ''Subject''),
     (''issuer'', ''Issuer''),
     (''expires'', ''Expires''),
     (''wildcard'', ''Wildcard''),
     (''names'', ''Names''),
     (''output_dir'', ''Output''),
     (''dns_check'', ''DNS check''),
     (''domains'', ''Domains''),
     (''dns_plugin'', ''DNS plugin''),
     (''email'', ''Email''),
     (''env_vars'', ''Env''),
     (''issue'', ''Issue''),
     (''add_domain'', ''Save domain''),
     (''delete'', ''Delete''),
     (''delete_confirm'', ''Delete this domain?''),
     (''refresh_dns'', ''Refresh DNS''),
     (''view_dns_records'', ''View records''),
     (''cert_prerequisites'', ''Issue check''),
     (''acme_sh'', ''acme.sh''),
     (''dns_api'', ''DNS API''),
     (''dns_status'', ''DNS''),
     (''cert_status'', ''Certificate''),
     (''root_domain'', ''Root''),
     (''wildcard_domain'', ''Wildcard''),
     (''action'', ''Action''),
     (''config'', ''Config''),
     (''write'', ''Write''),
     (''test'', ''Test''),
     (''reload'', ''Reload''),
     (''name'', ''Name''),
     (''state'', ''State''),
     (''error'', ''Error''),
     (''start'', ''Start''),
     (''install_service'', ''Install service''),
     (''service_unit'', ''Service unit''),
     (''restart'', ''Restart''),
     (''stop'', ''Stop''),
     (''logs'', ''Logs''),
     (''work_dir'', ''Project''),
     (''download'', ''Download''),
     (''server_binary'', ''Server''),
     (''server_build'', ''Built server''),
     (''server_live'', ''Running server''),
     (''client_platforms'', ''Client''),
     (''platform'', ''Platform''),
     (''filename'', ''File''),
     (''platform_linux_amd64'', ''Linux x86_64''),
     (''platform_linux_arm64'', ''Linux ARM64''),
     (''platform_darwin_amd64'', ''macOS Intel''),
     (''platform_darwin_arm64'', ''macOS Apple Silicon''),
     (''platform_windows_amd64'', ''Windows x86_64''),
     (''build_server'', ''Build server''),
     (''install_server'', ''Install and restart server''),
     (''build_client'', ''Build client''),
     (''build_admin'', ''Build admin''),
     (''build_all'', ''Build all''),
     (''output'', ''Output''),
     (''state_ok'', ''OK''),
     (''state_todo'', ''To do''),
     (''state_running'', ''Running''),
     (''state_unknown'', ''Unknown''),
     (''private key'', ''Private key''),
     (''control DNS'', ''Control DNS''),
     (''wildcard DNS'', ''Wildcard DNS''),
     (''tunnel port'', ''Tunnel port''),
     (''nginx config'', ''Nginx config''),
     (''msg_admin_ready'', ''Admin ready''),
     (''msg_config_saved'', ''Config saved''),
     (''msg_client_saved'', ''Client config written''),
     (''msg_build_done'', ''Build done''),
     (''msg_domain_saved'', ''Domain saved''),
     (''msg_domain_deleted'', ''Domain deleted'')]"

definition chinese_1 :: "(string \<times> string) list" where
  "chinese_1 =
    [(''Setup'', runes [21021, 22987, 21270]),
     (''Login'', runes [30331, 24405]),
     (''Dashboard'', runes [37096, 32626]),
     (''Config'', runes [36816, 34892, 35774, 32622]),
     (''Certificate'', runes [35777, 20070]),
     (''Nginx'', ''Nginx''),
     (''Build'', runes [32534, 35793]),
     (''Service'', runes [26381, 21153]),
     (''Client'', runes [23458, 25143, 31471]),
     (''Ready'', runes [23601, 32490]),
     (''nav_dashboard'', runes [37096, 32626]),
     (''nav_config'', runes [36816, 34892]),
     (''nav_certificate'', runes [35777, 20070]),
     (''nav_nginx'', ''Nginx''),
     (''nav_build'', runes [32534, 35793]),
     (''nav_service'', runes [26381, 21153]),
     (''nav_client'', runes [23458, 25143, 31471]),
     (''nav_logout'', runes [36864, 20986]),
     (''setup_key'', ''Setup key''),
     (''username'', runes [36134, 21495]),
     (''password'', runes [23494, 30721]),
     (''create_admin'', runes [21019, 24314, 31649, 29702, 21592]),
     (''login'', runes [30331, 24405]),
     (''setup_flow'', runes [37096, 32626, 27969, 31243]),
     (''guide_title'', runes [37096, 32626, 27493, 39588]),
     (''guide_dns_title'', ''DNS''),
     (''guide_order_title'', runes [39034, 24207]),
     (''guide_step_cert'', runes [30003, 35831, 25110, 37197, 32622, 35777, 20070]),
     (''guide_step_nginx'', runes [20889, 20837, 24182, 27979, 35797, 32, 78, 103, 105, 110, 120]),
     (''guide_step_build'', runes [32534, 35793, 26381, 21153, 31471, 21644, 23458, 25143, 31471]),
     (''guide_step_service'', runes [21551, 21160, 26381, 21153, 31471]),
     (''guide_step_client'', runes [19979, 36733, 23458, 25143, 31471, 25991, 20214]),
     (''deploy_step_basic'', runes [49, 46, 32, 36816, 34892, 35774, 32622]),
     (''deploy_step_domain'', runes [50, 46, 32, 28155, 21152, 22495, 21517]),
     (''deploy_step_dns'', runes [51, 46, 32, 68, 78, 83, 32, 35299, 26512]),
     (''deploy_step_cert'', runes [52, 46, 32, 30003, 35831, 35777, 20070]),
     (''deploy_step_nginx'', runes [53, 46, 32, 20889, 20837, 32, 78, 103, 105, 110, 120]),
     (''deploy_step_server_build'', runes [54, 46, 32, 26381, 21153, 31471, 32534, 35793]),
     (''deploy_step_service'', runes [55, 46, 32, 26381, 21153, 31471, 36816, 34892]),
     (''deploy_step_client_build'', runes [56, 46, 32, 23458, 25143, 31471, 32534, 35793]),
     (''deploy_step_download'', runes [57, 46, 32, 19979, 36733, 23458, 25143, 31471]),
     (''deploy_action'', runes [25805, 20316, 65306]),
     (''deploy_done'', runes [23436, 25104, 65306]),
     (''deploy_help_basic'', runes [25171, 24320, 36816, 34892, 65292, 30830, 35748, 32, 78, 103, 105, 110, 120, 32, 36716, 21457, 20837, 21475, 12289, 23458, 25143, 31471, 36830, 25509, 20837, 21475, 21644, 23458, 25143, 31471, 35748, 35777, 23494, 38053, 65307, 19981, 28165, 26970, 23601, 20445, 25345, 40664, 35748, 31471, 21475, 24182, 20445, 23384, 12290]),
     (''deploy_help_domain'', runes [25171, 24320, 35777, 20070, 65292, 28155, 21152, 20027, 22495, 21517, 65307, 25511, 21046, 22495, 21517, 21487, 19981, 22635, 65292, 40664, 35748, 20351, 29992, 32, 110, 103, 114, 111, 107, 46, 60, 22495, 21517, 62, 12290]),
     (''deploy_help_dns'', runes [21040, 32, 68, 78, 83, 32, 26381, 21153, 21830, 25226, 19979, 38754, 35760, 24405, 35299, 26512, 21040, 26412, 26381, 21153, 22120, 32, 73, 80, 65292, 28982, 21518, 21047, 26032, 32, 68, 78, 83, 12290]),
     (''deploy_help_cert'', runes [22312, 35777, 20070, 39029, 30830, 35748, 32, 68, 78, 83, 32, 27491, 24120, 21518, 30003, 35831, 35777, 20070, 65307, 27599, 20010, 35777, 20070, 21253, 21547, 20027, 22495, 21517, 21644, 27867, 22495, 21517, 12290]),
     (''deploy_help_nginx'', runes [25171, 24320, 32, 78, 103, 105, 110, 120, 65292, 20381, 27425, 20889, 20837, 37197, 32622, 12289, 27979, 35797, 12289, 37325, 36733, 12290]),
     (''deploy_help_server_build'', runes [25171, 24320, 32534, 35793, 65292, 20808, 32534, 35793, 26381, 21153, 31471, 65292, 20877, 23433, 35013, 24182, 37325, 21551, 26381, 21153, 31471, 12290]),
     (''deploy_help_service'', runes [25171, 24320, 26381, 21153, 65292, 21551, 21160, 25110, 37325, 21551, 32, 110, 103, 114, 111, 107, 100, 12290]),
     (''deploy_help_client_build'', runes [25171, 24320, 32534, 35793, 65292, 36873, 25321, 23458, 25143, 31471, 31995, 32479, 21644, 32, 67, 80, 85, 32, 26550, 26500, 21518, 32534, 35793, 12290]),
     (''deploy_help_download'', runes [19979, 36733, 23545, 24212, 24179, 21488, 30340, 23458, 25143, 31471, 21644, 32, 99, 108, 105, 101, 110, 116, 46, 121, 109, 108, 12290]),
     (''deploy_done_basic'', runes [29615, 22659, 25991, 20214, 24050, 29983, 25104, 65292, 23458, 25143, 31471, 35748, 35777, 23494, 38053, 19981, 26159, 40664, 35748, 20540, 12290]),
     (''deploy_done_domain'', runes [35777, 20070, 39029, 20986, 29616, 22495, 21517, 34892, 65292, 19988, 22495, 21517, 19981, 26159, 32, 101, 120, 97, 109, 112, 108, 101, 46, 99, 111, 109, 12290]),
     (''deploy_done_dns'', runes [20027, 22495, 21517, 12289, 27867, 22495, 21517, 12289, 25511, 21046, 22495, 21517, 32, 68, 78, 83, 32, 37117, 26174, 31034, 27491, 24120, 12290]),
     (''deploy_done_cert'', runes [35777, 20070, 34892, 26174, 31034, 27491, 24120, 65292, 35777, 20070, 25991, 20214, 24050, 20889, 20837, 36755, 20986, 30446, 24405, 12290]),
     (''deploy_done_nginx'', runes [78, 103, 105, 110, 120, 32, 37197, 32622, 24050, 20889, 20837, 65292, 27979, 35797, 36890, 36807, 65292, 24182, 24050, 37325, 36733, 12290]),
     (''deploy_done_server_build'', runes [26381, 21153, 31471, 20135, 29289, 21644, 36816, 34892, 25991, 20214, 37117, 26174, 31034, 27491, 24120, 12290]),
     (''deploy_done_service'', runes [26381, 21153, 39029, 26174, 31034, 32, 110, 103, 114, 111, 107, 100, 32, 20026, 32, 97, 99, 116, 105, 118, 101, 12290]),
     (''deploy_done_client_build'', runes [25152, 36873, 24179, 21488, 26174, 31034, 27491, 24120, 65292, 24182, 20986, 29616, 19979, 36733, 20837, 21475, 12290]),
     (''deploy_done_download'', runes [23458, 25143, 31471, 21644, 32, 99, 108, 105, 101, 110, 116, 46, 121, 109, 108, 32, 21487, 20197, 25918, 21040, 23458, 25143, 31471, 26426, 22120, 20351, 29992, 12290]),
     (''current_result'', runes [24403, 21069]),
     (''next_step'', runes [19979, 19968, 27493]),
     (''open'', runes [25171, 24320]),
     (''status'', runes [29366, 24577]),
     (''checks'', runes [26816, 26597]),
     (''env'', runes [29615, 22659, 25991, 20214]),
     (''domain'', runes [20027, 22495, 21517]),
     (''domain_item'', runes [22495, 21517]),
     (''control'', runes [25511, 21046, 31471]),
     (''service'', runes [26381, 21153]),
     (''certificate'', runes [35777, 20070]),
     (''control_host'', runes [25511, 21046, 22495, 21517]),
     (''tls_cert'', runes [35777, 20070, 25991, 20214]),
     (''tls_key'', runes [31169, 38053, 25991, 20214]),
     (''auth_token'', runes [23458, 25143, 31471, 35748, 35777, 23494, 38053]),
     (''http_addr'', runes [78, 103, 105, 110, 120, 32, 36716, 21457, 20837, 21475]),
     (''https_addr'', runes [72, 84, 84, 80, 83, 32, 20837, 21475]),
     (''tunnel_addr'', runes [23458, 25143, 31471, 36830, 25509, 20837, 21475]),
     (''log_level'', runes [26085, 24535, 32423, 21035])]"

definition chinese_2 :: "(string \<times> string) list" where
  "chinese_2 =
    [(''max_connections'', runes [26368, 22823, 36830, 25509, 25968]),
     (''extra_args'', runes [39069, 22806, 21442, 25968]),
     (''new_token'', runes [29983, 25104, 26032, 32, 116, 111, 107, 101, 110]),
     (''save'', runes [20445, 23384]),
     (''path'', runes [36335, 24452]),
     (''subject'', runes [20027, 20307]),
     (''issuer'', runes [31614, 21457, 26041]),
     (''expires'', runes [36807, 26399, 26102, 38388]),
     (''wildcard'', runes [27867, 22495, 21517]),
     (''names'', runes [22495, 21517]),
     (''output_dir'', runes [36755, 20986, 30446, 24405]),
     (''dns_check'', runes [68, 78, 83, 32, 26816, 26597]),
     (''domains'', runes [22495, 21517, 21015, 34920]),
     (''dns_plugin'', runes [68, 78, 83, 32, 25554, 20214]),
     (''email'', runes [37038, 31665]),
     (''env_vars'', runes [29615, 22659, 21464, 37327]),
     (''issue'', runes [30003, 35831]),
     (''add_domain'', runes [20445, 23384, 22495, 21517]),
     (''delete'', runes [21024, 38500]),
     (''delete_confirm'', runes [30830, 35748, 21024, 38500, 36825, 20010, 22495, 21517, 65311]),
     (''refresh_dns'', runes [21047, 26032, 32, 68, 78, 83]),
     (''view_dns_records'', runes [26597, 30475, 35760, 24405]),
     (''cert_prerequisites'', runes [30003, 35831, 26465, 20214]),
     (''acme_sh'', ''acme.sh''),
     (''dns_api'', ''DNS API''),
     (''dns_status'', ''DNS''),
     (''cert_status'', runes [35777, 20070]),
     (''root_domain'', runes [26681, 22495, 21517]),
     (''wildcard_domain'', runes [27867, 22495, 21517]),
     (''action'', runes [25805, 20316]),
     (''config'', runes [37197, 32622]),
     (''write'', runes [20889, 20837]),
     (''test'', runes [27979, 35797]),
     (''reload'', runes [37325, 36733]),
     (''name'', runes [21517, 31216]),
     (''state'', runes [29366, 24577]),
     (''error'', runes [38169, 35823]),
     (''start'', runes [21551, 21160]),
     (''install_service'', runes [23433, 35013, 26381, 21153]),
     (''service_unit'', runes [26381, 21153, 37197, 32622]),
     (''restart'', runes [37325, 21551]),
     (''stop'', runes [20572, 27490]),
     (''logs'', runes [26085, 24535]),
     (''work_dir'', runes [39033, 30446, 30446, 24405]),
     (''download'', runes [19979, 36733]),
     (''server_binary'', runes [26381, 21153, 31471]),
     (''server_build'', runes [26381, 21153, 31471, 20135, 29289]),
     (''server_live'', runes [36816, 34892, 25991, 20214]),
     (''client_platforms'', runes [23458, 25143, 31471]),
     (''platform'', runes [24179, 21488]),
     (''filename'', runes [25991, 20214]),
     (''platform_linux_amd64'', ''Linux x86_64''),
     (''platform_linux_arm64'', ''Linux ARM64''),
     (''platform_darwin_amd64'', ''macOS Intel''),
     (''platform_darwin_arm64'', ''macOS Apple Silicon''),
     (''platform_windows_amd64'', ''Windows x86_64''),
     (''build_server'', runes [32534, 35793, 26381, 21153, 31471]),
     (''install_server'', runes [23433, 35013, 24182, 37325, 21551, 26381, 21153, 31471]),
     (''build_client'', runes [32534, 35793, 23458, 25143, 31471]),
     (''build_admin'', runes [32534, 35793, 38754, 26495]),
     (''build_all'', runes [20840, 37096, 32534, 35793]),
     (''output'', runes [36755, 20986]),
     (''state_ok'', runes [27491, 24120]),
     (''state_todo'', runes [24453, 22788, 29702]),
     (''state_running'', runes [36816, 34892, 20013]),
     (''state_unknown'', runes [26410, 30693]),
     (''private key'', runes [31169, 38053]),
     (''control DNS'', runes [25511, 21046, 22495, 21517, 32, 68, 78, 83]),
     (''wildcard DNS'', runes [27867, 22495, 21517, 32, 68, 78, 83]),
     (''tunnel port'', runes [25511, 21046, 31471, 21475]),
     (''nginx config'', runes [78, 103, 105, 110, 120, 32, 37197, 32622]),
     (''msg_admin_ready'', runes [31649, 29702, 21592, 24050, 21019, 24314]),
     (''msg_config_saved'', runes [37197, 32622, 24050, 20445, 23384]),
     (''msg_client_saved'', runes [23458, 25143, 31471, 37197, 32622, 24050, 20889, 20837]),
     (''msg_build_done'', runes [32534, 35793, 23436, 25104]),
     (''msg_domain_saved'', runes [22495, 21517, 24050, 20445, 23384]),
     (''msg_domain_deleted'', runes [22495, 21517, 24050, 21024, 38500])]"

definition translations_of :: "string \<rightharpoonup> (string \<times> string) list" where
  "translations_of = [''en'' \<mapsto> english_1 @ english_2, ''zh-CN'' \<mapsto> chinese_1 @ chinese_2]"

definition panel_texts :: tr_table where
  "panel_texts lang = map_option map_of (translations_of lang)"

section \<open>Both languages have every text\<close>

lemma same_keys: "map fst english_1 = map fst chinese_1" "map fst english_2 = map fst chinese_2"
  by (simp_all add: english_1_def chinese_1_def english_2_def chinese_2_def)

lemma keys_agree: "fst ` set (english_1 @ english_2) = fst ` set (chinese_1 @ chinese_2)"
  using same_keys by (simp add: image_Un flip: set_map)

text \<open>The codes of the messages that the handlers of the panel redirect with or show.\<close>

definition message_codes :: "string list" where
  "message_codes = [''admin_ready'', ''config_saved'', ''domain_saved'', ''domain_deleted'', ''build_done'']"

lemma message_keys: "list_all (\<lambda>c. ''msg_'' @ c \<in> set (map fst english_2)) message_codes"
  by (simp add: message_codes_def english_2_def)

text \<open>
  No text is missing: a key that one language has, the other has, too, so that the panel in Chinese
  never shows an English text, in any other language it shows the English ones, and only a key that is
  in no table is shown itself; and every message that a handler redirects with has a text.
\<close>
theorem panel_texts_complete:
  "tr panel_texts lang key =
     (case map_of (if lang = ''zh-CN'' then chinese_1 @ chinese_2 else english_1 @ english_2) key of None \<Rightarrow> key | Some t \<Rightarrow> t) \<and>
   (map_of (chinese_1 @ chinese_2) key = None) = (map_of (english_1 @ english_2) key = None) \<and>
   list_all (\<lambda>c. map_of (english_1 @ english_2) (''msg_'' @ c) \<noteq> None) message_codes"
proof -
  have k: "(map_of (chinese_1 @ chinese_2) key = None) = (map_of (english_1 @ english_2) key = None)"
    unfolding map_of_eq_None_iff keys_agree ..
  have t: "panel_texts ''en'' = Some (map_of (english_1 @ english_2))" "panel_texts ''zh-CN'' = Some (map_of (chinese_1 @ chinese_2))"
    "lang \<noteq> ''en'' \<Longrightarrow> lang \<noteq> ''zh-CN'' \<Longrightarrow> panel_texts lang = None"
    by (simp_all add: panel_texts_def translations_of_def)
  have "tr panel_texts lang key =
     (case map_of (if lang = ''zh-CN'' then chinese_1 @ chinese_2 else english_1 @ english_2) key of None \<Rightarrow> key | Some t \<Rightarrow> t)"
  proof (cases "lang = ''zh-CN''")
    case True
    then show ?thesis using k t(1,2) by (auto simp: tr_def Let_def simp del: map_of_append split: option.splits)
  next
    case False
    then show ?thesis using t(1,3)
      by (cases "lang = ''en'' \<or> lang = []") (auto simp: tr_def Let_def simp del: map_of_append split: option.splits)
  qed
  moreover have "list_all (\<lambda>c. map_of (english_1 @ english_2) (''msg_'' @ c) \<noteq> None) message_codes"
    using message_keys unfolding list_all_iff map_of_eq_None_iff by (auto simp: image_iff)
  ultimately show ?thesis using k by blast
qed

end
