(* ===== verification/Inspect.thy ===== *)
theory Inspect
  imports Ring Go_Strings Client_Controller
begin

text \<open>
  The inspection of public requests: the recording of requests and answers
  (\<open>src/ngrok/proto/http.go\<close>, \<open>src/ngrok/proto/tcp.go\<close>) and the web interface that lists and replays
  them (\<open>src/ngrok/client/views/web/http.go\<close>, \<open>view.go\<close>). The parsers of packages http, xml and json are
  parameters; transactions, which the code shares by pointer, are known by a number.
\<close>

section \<open>Recording\<close>

definition maxInspectBodyBytes :: nat where "maxInspectBodyBytes = 1024 * 1024"

text \<open>
  \<open>extractBody\<close> of a reader that gives \<open>bs\<close> and then ends, with an error if \<open>err\<close> is one: the recorded
  bytes, whether they are cut, and what takes the place of the body.
\<close>

definition extractBody :: "string \<Rightarrow> string option \<Rightarrow> (string \<times> bool \<times> string) result" where
  "extractBody bs err =
     (let body = take (maxInspectBodyBytes + 1) bs;
          readErr = (if length bs \<le> maxInspectBodyBytes then err else None)
      in case readErr of
           Some msg \<Rightarrow> Inl msg
         | None \<Rightarrow>
             if maxInspectBodyBytes < length body then
               (let body = take maxInspectBodyBytes body
                in case err of Some msg \<Rightarrow> Inl msg | None \<Rightarrow> Inr (body, True, body))
             else Inr (body, False, body))"

text \<open>
  The parts of a request or an answer that are used; \<open>None\<close> is a nil body, \<open>hh_first\<close> the method of a
  request or the status of an answer.
\<close>

record http_head =
  hh_first :: string
  hh_path :: string
  hh_scheme :: string
  hh_header :: "string \<Rightarrow> string list"
  hh_body :: "string option"
  hh_length :: int

definition header_Get :: "(string \<Rightarrow> string list) \<Rightarrow> string \<Rightarrow> string" where
  "header_Get h key = (case h key of [] \<Rightarrow> [] | v # _ \<Rightarrow> v)"

record recorded =
  rd_head :: http_head
  rd_BodyBytes :: string
  rd_BodyTruncated :: bool

text \<open>What the analyzer does with a body; after an error it is nil.\<close>

definition record_body :: "http_head \<Rightarrow> (string \<times> string option) option \<Rightarrow> recorded" where
  "record_body h body =
     (case body of
        None \<Rightarrow> \<lparr>rd_head = h\<lparr>hh_body := None\<rparr>, rd_BodyBytes = [], rd_BodyTruncated = False\<rparr>
      | Some (bs, err) \<Rightarrow>
          (case extractBody bs err of
             Inl _ \<Rightarrow> \<lparr>rd_head = h\<lparr>hh_body := None\<rparr>, rd_BodyBytes = [], rd_BodyTruncated = False\<rparr>
           | Inr (kept, cutoff, rest) \<Rightarrow>
               \<lparr>rd_head = h\<lparr>hh_body := Some rest\<rparr>, rd_BodyBytes = kept, rd_BodyTruncated = cutoff\<rparr>))"

record http_txn =
  tx_Req :: recorded
  tx_Resp :: "recorded option"
  tx_Start :: int
  tx_Duration :: int
  tx_ConnCtx :: mvc_tunnel

section \<open>The two goroutines of a connection\<close>

datatype reader_state = ReadsRequest | HandsOver nat | Publishes nat | ReaderDone

datatype responder_state = AwaitsTxn | ReadsResponse nat | Answers nat | Drains | ResponderDone

text \<open>
  \<open>tp_txns\<close> are the transactions so far, \<open>tp_published\<close> the numbers sent to the listeners of \<open>Txns\<close>;
  \<open>Drains\<close> is the loop that swallows the bytes of a web socket.
\<close>

record tap =
  tp_reader :: reader_state
  tp_responder :: responder_state
  tp_closed :: bool
  tp_txns :: "http_txn list"
  tp_published :: "nat list"

definition WrapConn_http :: tap where
  "WrapConn_http = \<lparr>tp_reader = ReadsRequest, tp_responder = AwaitsTxn, tp_closed = False, tp_txns = [], tp_published = []\<rparr>"

definition WrapConn_tcp :: "'c \<Rightarrow> 'c" where "WrapConn_tcp c = c"

datatype tap_event =
    RequestRead http_head "(string \<times> string option) option" int mvc_tunnel
  | RequestsEnd
  | TxnHandedOver
  | RequestPublished
  | ResponseRead http_head "(string \<times> string option) option" int
  | ResponseFails int
  | ResponsePublished
  | DrainEnds
  | RangeEnds

text \<open>A step of one goroutine; a step that is not enabled changes nothing.\<close>

fun tap_step :: "tap \<Rightarrow> tap_event \<Rightarrow> tap" where
  "tap_step t (RequestRead h body now ctx) =
     (if tp_reader t = ReadsRequest then
        (let txn = \<lparr>tx_Req = record_body (h\<lparr>hh_scheme := ''http''\<rparr>) body, tx_Resp = None, tx_Start = now,
                    tx_Duration = 0, tx_ConnCtx = ctx\<rparr>
         in t\<lparr>tp_reader := HandsOver (length (tp_txns t)), tp_txns := tp_txns t @ [txn]\<rparr>)
      else t)"
| "tap_step t RequestsEnd =
     (if tp_reader t = ReadsRequest then t\<lparr>tp_reader := ReaderDone, tp_closed := True\<rparr> else t)"
| "tap_step t TxnHandedOver =
     (case (tp_reader t, tp_responder t) of
        (HandsOver n, AwaitsTxn) \<Rightarrow> t\<lparr>tp_reader := Publishes n, tp_responder := ReadsResponse n\<rparr>
      | _ \<Rightarrow> t)"
| "tap_step t RequestPublished =
     (case tp_reader t of
        Publishes n \<Rightarrow> t\<lparr>tp_reader := ReadsRequest, tp_published := tp_published t @ [n]\<rparr>
      | _ \<Rightarrow> t)"
| "tap_step t (ResponseRead h body now) =
     (case tp_responder t of
        ReadsResponse n \<Rightarrow>
          t\<lparr>tp_responder := Answers n,
            tp_txns := (tp_txns t)[n := (tp_txns t ! n)\<lparr>tx_Duration := now - tx_Start (tp_txns t ! n),
                                                       tx_Resp := Some (record_body h body)\<rparr>]\<rparr>
      | _ \<Rightarrow> t)"
| "tap_step t (ResponseFails now) =
     (case tp_responder t of
        ReadsResponse n \<Rightarrow>
          t\<lparr>tp_responder := ResponderDone,
            tp_txns := (tp_txns t)[n := (tp_txns t ! n)\<lparr>tx_Duration := now - tx_Start (tp_txns t ! n)\<rparr>]\<rparr>
      | _ \<Rightarrow> t)"
| "tap_step t ResponsePublished =
     (case tp_responder t of
        Answers n \<Rightarrow>
          t\<lparr>tp_published := tp_published t @ [n],
            tp_responder := (if header_Get (hh_header (rd_head (tx_Req (tp_txns t ! n)))) ''Upgrade'' = ''websocket''
                             then Drains else AwaitsTxn)\<rparr>
      | _ \<Rightarrow> t)"
| "tap_step t DrainEnds = (if tp_responder t = Drains then t\<lparr>tp_responder := ResponderDone\<rparr> else t)"
| "tap_step t RangeEnds = (if tp_responder t = AwaitsTxn \<and> tp_closed t then t\<lparr>tp_responder := ResponderDone\<rparr> else t)"

section \<open>Dumping a request\<close>

text \<open>
  \<open>DumpRequestOut\<close>: without the body the request is written as it would be without one; with it
  \<open>transport\<close> is what the \<open>Transport\<close> sends. \<open>write\<close> is \<open>Request.Write\<close>.
\<close>

definition DumpRequestOut ::
  "(http_head \<Rightarrow> string result) \<Rightarrow> (http_head \<Rightarrow> string result) \<Rightarrow> http_head \<Rightarrow> bool \<Rightarrow> string result"
where
  "DumpRequestOut write transport req body =
     (let plain = (\<lambda>r. if hh_scheme r = ''https'' then r\<lparr>hh_scheme := ''http''\<rparr> else r) in
      if \<not> body \<or> hh_body req = None
      then write (plain (req\<lparr>hh_body := None, hh_length := 0,
             hh_header := (hh_header req)(''Content-Length'' := [], ''Transfer-Encoding'' := [])\<rparr>))
      else transport (plain req))"

definition valueOrDefault :: "string \<Rightarrow> string \<Rightarrow> string" where
  "valueOrDefault v def = (if v \<noteq> [] then v else def)"

section \<open>Bodies for the page\<close>

datatype parse_failure = SyntaxAt string int | OtherError string

record web_lib =
  wl_xml :: "string \<Rightarrow> parse_failure option"
  wl_json :: "string \<Rightarrow> parse_failure option"
  wl_query :: "string \<Rightarrow> (string \<rightharpoonup> string list) \<times> string option"
  wl_utf8 :: "string \<Rightarrow> bool"

record serialized_body =
  sb_RawContentType :: string
  sb_ContentType :: string
  sb_Text :: string
  sb_Length :: int
  sb_Truncated :: bool
  sb_Error :: string
  sb_ErrorOffset :: int
  sb_Form :: "string \<rightharpoonup> string list"

text \<open>\<open>strings.SplitAfterN\<close> for a one-byte separator and a positive count.\<close>

fun split_after_n :: "nat \<Rightarrow> char \<Rightarrow> string \<Rightarrow> string list" where
  "split_after_n 0 c s = []"
| "split_after_n (Suc 0) c s = [s]"
| "split_after_n (Suc (Suc n)) c s =
     (case cut c s of None \<Rightarrow> [s] | Some (a, b) \<Rightarrow> (a @ [c]) # split_after_n (Suc n) c b)"

definition offsetForLine :: "string \<Rightarrow> int \<Rightarrow> int \<Rightarrow> int" where
  "offsetForLine txt len line = len - int (length (last (split_after_n (nat line) newline txt)))"

definition failure_text :: "parse_failure \<Rightarrow> string" where
  "failure_text f = (case f of SyntaxAt msg _ \<Rightarrow> msg | OtherError msg \<Rightarrow> msg)"

definition makeBody :: "web_lib \<Rightarrow> (string \<Rightarrow> string list) \<Rightarrow> string \<Rightarrow> bool \<Rightarrow> serialized_body" where
  "makeBody w h body truncated =
     (let rawType = header_Get h ''Content-Type'';
          ctype = (if rawType \<noteq> [] then trim_space (hd (split_on CHR '';'' rawType)) else []);
          b = \<lparr>sb_RawContentType = rawType, sb_ContentType = ctype, sb_Text = base64 body, sb_Length = int (length body),
               sb_Truncated = truncated, sb_Error = [], sb_ErrorOffset = - 1, sb_Form = Map.empty\<rparr>
      in if rawType = [] then b
         else if ctype \<in> {''application/xml'', ''text/xml''} then
           (case wl_xml w body of
              None \<Rightarrow> b
            | Some f \<Rightarrow> b\<lparr>sb_Error := failure_text f,
                sb_ErrorOffset := (case f of SyntaxAt _ line \<Rightarrow> offsetForLine (sb_Text b) (sb_Length b) line | _ \<Rightarrow> - 1)\<rparr>)
         else if ctype = ''application/json'' then
           (case wl_json w body of
              None \<Rightarrow> b
            | Some f \<Rightarrow> b\<lparr>sb_Error := failure_text f, sb_ErrorOffset := (case f of SyntaxAt _ off \<Rightarrow> off | _ \<Rightarrow> - 1)\<rparr>)
         else if ctype = ''application/x-www-form-urlencoded'' then
           (case wl_query w body of
              (form, err) \<Rightarrow> b\<lparr>sb_Form := form, sb_Error := (case err of None \<Rightarrow> [] | Some msg \<Rightarrow> msg)\<rparr>)
         else b)"

section \<open>The list of transactions\<close>

record serialized_message =
  sm_Raw :: string
  sm_First :: string
  sm_Header :: "string \<Rightarrow> string list"
  sm_Body :: serialized_body
  sm_Binary :: bool

record serialized_txn =
  sz_Id :: string
  sz_Duration :: int
  sz_Start :: int
  sz_ConnCtx :: mvc_tunnel
  sz_Req :: serialized_message
  sz_Resp :: "serialized_message option"

record web_http =
  wh_HttpRequests :: "nat ring"
  wh_idToTxn :: "string \<rightharpoonup> nat"
  wh_txns :: "nat \<rightharpoonup> serialized_txn"
  wh_sent :: "string list"

definition newWebHttpView :: web_http where
  "newWebHttpView = \<lparr>wh_HttpRequests = NewRing 20, wh_idToTxn = Map.empty, wh_txns = Map.empty, wh_sent = []\<rparr>"

text \<open>
  One turn of \<open>updateHttp\<close> for the transaction number \<open>n\<close>: \<open>dumpReq\<close>, \<open>dumpResp\<close> are the dumps of its
  request and answer, \<open>newId\<close> what \<open>RandId\<close> returns, \<open>marshal\<close> is \<open>json.Marshal\<close>. \<open>None\<close> is the panic of a
  missing answer.
\<close>

definition update_turn ::
  "web_lib \<Rightarrow> (serialized_txn \<Rightarrow> string result) \<Rightarrow> nat \<Rightarrow> http_txn \<Rightarrow> string result \<Rightarrow> string result \<Rightarrow> string \<Rightarrow>
   web_http \<Rightarrow> web_http option"
where
  "update_turn w marshal n txn dumpReq dumpResp newId v =
     (case wh_txns v n of
        None \<Rightarrow>
          (case dumpReq of
             Inl _ \<Rightarrow> Some v
           | Inr rawReq \<Rightarrow>
               let req = tx_Req txn; h = rd_head req;
                   whtxn = \<lparr>sz_Id = newId, sz_Duration = 0, sz_Start = tx_Start txn, sz_ConnCtx = tx_ConnCtx txn,
                     sz_Req = \<lparr>sm_Raw = base64 rawReq, sm_First = hh_first h @ '' '' @ hh_path h, sm_Header = hh_header h,
                       sm_Body = makeBody w (hh_header h) (rd_BodyBytes req) (rd_BodyTruncated req),
                       sm_Binary = (\<not> wl_utf8 w rawReq)\<rparr>,
                     sz_Resp = None\<rparr>;
                   (old, ring) = ring_Add n (wh_HttpRequests v);
                   txns = (wh_txns v)(n \<mapsto> whtxn);
                   ids = (wh_idToTxn v)(newId \<mapsto> n)
               in Some (v\<lparr>wh_HttpRequests := ring, wh_txns := txns,
                          wh_idToTxn := (case old of None \<Rightarrow> ids | Some m \<Rightarrow> ids(sz_Id (the (txns m)) := None))\<rparr>))
      | Some s \<Rightarrow>
          (case tx_Resp txn of
             None \<Rightarrow> None
           | Some resp \<Rightarrow>
               (case dumpResp of
                  Inl _ \<Rightarrow> Some v
                | Inr rawResp \<Rightarrow>
                    let h = rd_head resp;
                        s = s\<lparr>sz_Duration := tx_Duration txn,
                          sz_Resp := Some \<lparr>sm_Raw = base64 rawResp, sm_First = hh_first h, sm_Header = hh_header h,
                            sm_Body = makeBody w (hh_header h) (rd_BodyBytes resp) (rd_BodyTruncated resp),
                            sm_Binary = (\<not> wl_utf8 w rawResp)\<rparr>\<rparr>
                    in Some (v\<lparr>wh_txns := (wh_txns v)(n \<mapsto> s),
                               wh_sent := wh_sent v @ [case marshal s of Inr p \<Rightarrow> p | Inl _ \<Rightarrow> []]\<rparr>))))"

section \<open>The web interface\<close>

text \<open>\<open>Request.BasicAuth\<close>, from the header \<open>Authorization\<close>.\<close>

definition basic_auth :: "string \<Rightarrow> (string \<times> string) option" where
  "basic_auth auth =
     (if length auth < 6 \<or> map lower_char (take 6 auth) \<noteq> ''basic '' then None
      else case base64_decode (drop 6 auth) of
             None \<Rightarrow> None
           | Some c \<Rightarrow> cut CHR '':'' c)"

text \<open>The status of the error that is sent; \<open>None\<close> lets the request through.\<close>

definition authorized :: "string \<Rightarrow> string \<Rightarrow> int option" where
  "authorized inspectAuth auth =
     (if inspectAuth = [] then None
      else case basic_auth auth of
        None \<Rightarrow> Some 401
      | Some (user, pass) \<Rightarrow>
          (case split_n 2 CHR '':'' inspectAuth of
             [u, p] \<Rightarrow>
               if ConstantTimeCompare user u \<noteq> 1 \<or> ConstantTimeCompare pass p \<noteq> 1 then Some 401 else None
           | _ \<Rightarrow> Some 500))"

datatype web_answer =
    WebError int
  | WebRedirect string
  | WebUpgrade
  | WebAsset string
  | WebTxns "serialized_txn option list" "mvc_tunnel list"
  | WebReplayed

text \<open>The handler of a replay: the answer and what is handed to \<open>PlayRequest\<close>; a panic is answered with 500.\<close>

definition replay :: "web_http \<Rightarrow> string \<Rightarrow> web_answer \<times> (mvc_tunnel \<times> string) option" where
  "replay v txnid =
     (case wh_idToTxn v txnid of
        None \<Rightarrow> (WebError 400, None)
      | Some n \<Rightarrow>
          let txn = the (wh_txns v n) in
          (case base64_decode (sm_Raw (sz_Req txn)) of
             None \<Rightarrow> (WebError 500, None)
           | Some b \<Rightarrow> (WebReplayed, Some (sz_ConnCtx txn, b))))"

definition http_in :: "web_http \<Rightarrow> mvc_tunnel list \<Rightarrow> web_answer" where
  "http_in v tunnels = WebTxns (map (wh_txns v) (ring_Slice (wh_HttpRequests v))) tunnels"

text \<open>All paths; \<open>assets\<close> gives the embedded files.\<close>

definition web_serve ::
  "(string \<Rightarrow> string option) \<Rightarrow> string \<Rightarrow> web_http \<Rightarrow> mvc_tunnel list \<Rightarrow> string \<Rightarrow> string \<Rightarrow> string \<Rightarrow>
   web_answer \<times> (mvc_tunnel \<times> string) option"
where
  "web_serve assets inspectAuth v tunnels path auth txnid =
     (case authorized inspectAuth auth of
        Some status \<Rightarrow> (WebError status, None)
      | None \<Rightarrow>
          if path = ''/http/in/replay'' then replay v txnid
          else if path = ''/http/in'' then (http_in v tunnels, None)
          else if path = ''/_ws'' then (WebUpgrade, None)
          else if has_prefix path ''/static/'' then
            (case assets (path_join [''assets'', ''client'', tl path]) of
               None \<Rightarrow> (WebError 404, None)
             | Some b \<Rightarrow> (WebAsset b, None))
          else (WebRedirect ''/http/in'', None))"

section \<open>The terminal\<close>

definition connStatusRepr :: "conn_status \<Rightarrow> string" where
  "connStatusRepr status =
     (case status of ConnConnecting \<Rightarrow> ''connecting'' | ConnReconnecting \<Rightarrow> ''reconnecting'' | ConnOnline \<Rightarrow> ''online'')"

definition printState :: "conn_status \<Rightarrow> string \<Rightarrow> string \<Rightarrow> mvc_tunnel list \<Rightarrow> string \<Rightarrow> string" where
  "printState status clientVersion serverVersion tunnels inspectAddr =
     unlines ([''Tunnel Status: '' @ connStatusRepr status, ''Version: '' @ clientVersion @ ''/'' @ serverVersion] @
       map (\<lambda>t. ''Forwarding: '' @ mv_PublicUrl t @ '' -> '' @ mv_LocalAddr t) tunnels @
       [''Web Interface: '' @ inspectAddr])"

section \<open>What is recorded\<close>

lemma extractBody_ends:
  "extractBody bs None = Inr (take maxInspectBodyBytes bs, maxInspectBodyBytes < length bs, take maxInspectBodyBytes bs)"
  by (auto simp: extractBody_def Let_def min_def)

text \<open>
  The recording is bounded and honest: of a body at most one mebibyte is kept, exactly what came if
  that is all, and it is marked as cut if and only if more came; a request whose body was cut is
  dumped, and so replayed, without any body and without its length.
\<close>
theorem recording_bounded:
  "length (rd_BodyBytes (record_body h (Some (bs, err)))) \<le> 1048576 \<and>
   rd_BodyTruncated (record_body h (Some (bs, None))) = (1048576 < length bs) \<and>
   rd_BodyBytes (record_body h (Some (bs, None))) = take 1048576 bs \<and>
   DumpRequestOut write transport (rd_head (record_body (h\<lparr>hh_scheme := ''http''\<rparr>) (Some (bs, None))))
      (\<not> rd_BodyTruncated (record_body h (Some (bs, None)))) =
     (if 1048576 < length bs
      then write (h\<lparr>hh_scheme := ''http'', hh_body := None, hh_length := 0,
             hh_header := (hh_header h)(''Content-Length'' := [], ''Transfer-Encoding'' := [])\<rparr>)
      else transport (h\<lparr>hh_scheme := ''http'', hh_body := Some bs\<rparr>))"
proof -
  have m: "maxInspectBodyBytes = 1048576" by (simp add: maxInspectBodyBytes_def)
  have "length (rd_BodyBytes (record_body h (Some (bs, err)))) \<le> maxInspectBodyBytes"
    by (auto simp: record_body_def extractBody_def Let_def split: option.split)
  then show ?thesis
    by (simp add: record_body_def extractBody_ends DumpRequestOut_def Let_def m)
qed

text \<open>The reader waits to hand over a transaction that nobody takes.\<close>

definition reader_stuck :: "tap \<Rightarrow> bool" where
  "reader_stuck t \<longleftrightarrow> tp_reader t = HandsOver 1 \<and> tp_responder t = ResponderDone \<and> tp_published t = [0]"

lemma reader_stuck_step: "reader_stuck t \<Longrightarrow> reader_stuck (tap_step t ev)"
  by (cases ev) (auto simp: reader_stuck_def)

interpretation stuck_reader: machine_invariant tap_step reader_stuck
  by unfold_locales (rule reader_stuck_step)

text \<open>
  The reader of requests can be left hanging: when an answer cannot be read, the goroutine of the
  answers ends without a word, and from the next request on the goroutine of the requests waits for
  it, whatever happens then: it never ends and records nothing more.
\<close>
theorem inspection_reader_hangs:
  "let t = run tap_step WrapConn_http
       ([RequestRead h1 b1 t1 c1, TxnHandedOver, RequestPublished, ResponseFails t2, RequestRead h2 b2 t3 c2] @ es)
   in tp_reader t = HandsOver 1 \<and> tp_published t = [0]"
proof -
  let ?t = "run tap_step WrapConn_http [RequestRead h1 b1 t1 c1, TxnHandedOver, RequestPublished, ResponseFails t2, RequestRead h2 b2 t3 c2]"
  have "reader_stuck ?t"
    by (simp add: reader_stuck_def WrapConn_http_def Let_def)
  then have "reader_stuck (run tap_step ?t es)"
    by (rule stuck_reader.run_inv)
  then show ?thesis by (simp add: reader_stuck_def Let_def)
qed

section \<open>Error offsets\<close>

lemma length_base64: "length (base64 s) = 4 * ((length s + 2) div 3)"
proof (induction s rule: base64.induct)
  case (4 a b c s)
  have "(length (a # b # c # s) + 2) div 3 = Suc ((length s + 2) div 3)" by simp
  with 4 show ?case by (simp add: Let_def)
qed (simp_all add: Let_def)

lemma base64_no_newline: "newline \<notin> set (base64 s)"
proof
  assume "newline \<in> set (base64 s)"
  then have "newline \<in> set base64_alphabet \<or> newline = pad" by (rule base64_text)
  then show False by (simp add: base64_alphabet_def newline_def pad_def)
qed

lemma split_after_none: "c \<notin> set s \<Longrightarrow> 0 < n \<Longrightarrow> split_after_n n c s = [s]"
  using cut_None [of c s] by (cases "(n, c, s)" rule: split_after_n.cases) auto

text \<open>
  The place of an error in an XML body is never right: whatever the line of the error, the
  offset that the page gets is the length of the body minus the length of its base64 text, which is
  negative for every body that is not empty.
\<close>
theorem xml_error_offset:
  assumes "trim_space (hd (split_on CHR '';'' (header_Get h ''Content-Type''))) = ''text/xml''"
    and "wl_xml w body = Some (SyntaxAt msg line)" "1 \<le> line" "body \<noteq> []"
  shows "sb_ErrorOffset (makeBody w h body cutoff) = int (length body) - 4 * ((int (length body) + 2) div 3) \<and>
     sb_ErrorOffset (makeBody w h body cutoff) < 0"
proof -
  have "header_Get h ''Content-Type'' \<noteq> []" using assms(1) by auto
  then have "sb_ErrorOffset (makeBody w h body cutoff) = int (length body) - int (length (base64 body))"
    using assms by (simp add: makeBody_def Let_def offsetForLine_def split_after_none base64_no_newline)
  moreover have "int (length (base64 body)) = 4 * ((int (length body) + 2) div 3)"
    by (simp add: length_base64 of_nat_div)
  moreover have "int (length body) < 4 * ((int (length body) + 2) div 3)" if "0 < length body"
    using that by linarith
  ultimately show ?thesis using assms(4) by simp
qed

definition plain_lib :: web_lib where
  "plain_lib = \<lparr>wl_xml = (\<lambda>s. if s = ''<a>'' then Some (SyntaxAt ''unexpected EOF'' 1) else None), wl_json = (\<lambda>_. None),
     wl_query = (\<lambda>_. (Map.empty, None)), wl_utf8 = (\<lambda>_. True)\<rparr>"

theorem xml_error_offset_witness:
  "sb_ErrorOffset (makeBody plain_lib ((\<lambda>_. [])(''Content-Type'' := [''text/xml''])) ''<a>'' False) = - 1"
proof -
  have "trim_space ''text/xml'' = ''text/xml''" by (rule trim_space_id) (simp_all add: solid_ascii)
  then have "trim_space (hd (split_on CHR '';'' (header_Get ((\<lambda>_. [])(''Content-Type'' := [''text/xml''])) ''Content-Type''))) = ''text/xml''"
    by (simp add: header_Get_def)
  from xml_error_offset [OF this, of plain_lib "''<a>''" "''unexpected EOF''" 1 False] show ?thesis
    by (simp add: plain_lib_def)
qed

section \<open>Access\<close>

text \<open>
  C27: Who may look: without a configured password everybody, otherwise only who sends exactly the
  user before its first colon and the password after it; and if the configuration has no colon, nobody.
\<close>
theorem inspect_access:
  "authorized inspectAuth auth = None \<longleftrightarrow>
     inspectAuth = [] \<or> (\<exists>u p. inspectAuth = u @ '':'' @ p \<and> CHR '':'' \<notin> set u \<and> basic_auth auth = Some (u, p))"
proof (cases "cut CHR '':'' inspectAuth")
  case None
  then have "CHR '':'' \<notin> set inspectAuth" using cut_None by fastforce
  then show ?thesis
    using None by (auto simp: authorized_def numeral_2_eq_2 split: option.splits)
next
  case (Some q)
  obtain u p where q: "q = (u, p)" by (cases q)
  have s: "inspectAuth = u @ CHR '':'' # p" "CHR '':'' \<notin> set u"
    using cut_SomeD [of "CHR '':''" inspectAuth u p] Some q by auto
  have uniq: "u' = u \<and> p' = p" if "inspectAuth = u' @ CHR '':'' # p'" "CHR '':'' \<notin> set u'" for u' p'
    using cut_append [OF that(2), of p'] cut_append [OF s(2), of p] that(1) s(1) by simp
  have n: "split_n 2 CHR '':'' inspectAuth = [u, p]" using Some q by (simp add: numeral_2_eq_2)
  have e1: "authorized inspectAuth auth = None \<longleftrightarrow> inspectAuth = [] \<or> basic_auth auth = Some (u, p)"
    by (auto simp: authorized_def n ConstantTimeCompare_eq split: option.split)
  have e2: "(\<exists>u' p'. inspectAuth = u' @ '':'' @ p' \<and> CHR '':'' \<notin> set u' \<and> basic_auth auth = Some (u', p')) \<longleftrightarrow>
      basic_auth auth = Some (u, p)"
  proof
    assume "\<exists>u' p'. inspectAuth = u' @ '':'' @ p' \<and> CHR '':'' \<notin> set u' \<and> basic_auth auth = Some (u', p')"
    then obtain u' p' where "inspectAuth = u' @ CHR '':'' # p'" "CHR '':'' \<notin> set u'" "basic_auth auth = Some (u', p')"
      by auto
    with uniq show "basic_auth auth = Some (u, p)" by blast
  next
    assume "basic_auth auth = Some (u, p)"
    then show "\<exists>u' p'. inspectAuth = u' @ '':'' @ p' \<and> CHR '':'' \<notin> set u' \<and> basic_auth auth = Some (u', p')"
      using s by (intro exI [of _ u] exI [of _ p]) simp
  qed
  show ?thesis unfolding e1 e2 ..
qed

section \<open>What can be replayed\<close>

text \<open>
  A turn of the loop, and the requests it has accepted so far, newest first: number, identifier,
  tunnel and dump.
\<close>

record update =
  up_n :: nat
  up_txn :: http_txn
  up_dumpReq :: "string result"
  up_dumpResp :: "string result"
  up_id :: string

type_synonym accepted = "(nat \<times> string \<times> mvc_tunnel \<times> string) list"

definition accept :: "web_http \<Rightarrow> update \<Rightarrow> accepted \<Rightarrow> accepted" where
  "accept v u log =
     (case (wh_txns v (up_n u), up_dumpReq u) of
        (None, Inr raw) \<Rightarrow> (up_n u, up_id u, tx_ConnCtx (up_txn u), raw) # log
      | _ \<Rightarrow> log)"

fun updates ::
  "web_lib \<Rightarrow> (serialized_txn \<Rightarrow> string result) \<Rightarrow> update list \<Rightarrow> web_http \<Rightarrow> accepted \<Rightarrow> (web_http \<times> accepted) option"
where
  "updates w marshal [] v log = Some (v, log)"
| "updates w marshal (u # us) v log =
     (case update_turn w marshal (up_n u) (up_txn u) (up_dumpReq u) (up_dumpResp u) (up_id u) v of
        None \<Rightarrow> None
      | Some v' \<Rightarrow> updates w marshal us v' (accept v u log))"

definition ids_of :: "accepted \<Rightarrow> (string \<times> nat) list" where
  "ids_of log = map (\<lambda>a. (fst (snd a), fst a)) log"

definition kept :: "web_http \<Rightarrow> nat \<times> string \<times> mvc_tunnel \<times> string \<Rightarrow> bool" where
  "kept v a \<longleftrightarrow> (case a of (n, i, c, r) \<Rightarrow>
     \<exists>s. wh_txns v n = Some s \<and> sz_Id s = i \<and> sz_ConnCtx s = c \<and> sm_Raw (sz_Req s) = base64 r)"

definition web_inv :: "web_http \<Rightarrow> accepted \<Rightarrow> bool" where
  "web_inv v log \<longleftrightarrow>
     wh_HttpRequests v = \<lparr>ring_items = map fst (take 20 log), ring_capacity = 20\<rparr> \<and>
     distinct (map fst log) \<and> dom (wh_txns v) = set (map fst log) \<and> list_all (kept v) log \<and>
     (distinct (map fst (ids_of log)) \<longrightarrow> wh_idToTxn v = map_of (ids_of (take 20 log)))"

lemma map_of_drop_last: "distinct (map fst (xs @ [x])) \<Longrightarrow> (map_of (xs @ [x]))(fst x := None) = map_of xs"
proof -
  assume "distinct (map fst (xs @ [x]))"
  then have "map_of xs (fst x) = None" by (simp add: map_of_eq_None_iff)
  then show ?thesis by (intro ext) (auto simp: map_add_def split: option.split)
qed

lemma ids_fst: "map fst (ids_of log) = map (fst \<circ> snd) log"
  by (auto simp: ids_of_def)

lemma kept_same:
  assumes "kept v a" "\<And>n s. wh_txns v n = Some s \<Longrightarrow> \<exists>s'. wh_txns v' n = Some s' \<and> sz_Id s' = sz_Id s \<and>
    sz_ConnCtx s' = sz_ConnCtx s \<and> sz_Req s' = sz_Req s"
  shows "kept v' a"
  using assms by (auto simp: kept_def split: prod.splits) (metis assms(2))

text \<open>The ring and the map once the new number is in: the twenty-first goes.\<close>

lemma ring_take:
  "ring_Add n \<lparr>ring_items = map fst (take 20 log), ring_capacity = 20\<rparr> =
     ((if length log < 20 then None else Some (fst (log ! 19))),
      \<lparr>ring_items = n # map fst (take 19 log), ring_capacity = 20\<rparr>)"
proof (cases "length log < 20")
  case False
  then have t: "take 20 log = take 19 log @ [log ! 19]"
    using take_Suc_conv_app_nth [of 19 log] by simp
  show ?thesis
    using False by (simp add: ring_Add_def Let_def t min_def)
next
  case True
  then show ?thesis
    by (cases "length log = 19") (simp_all add: ring_Add_def Let_def)
qed

lemma ids_take:
  assumes "distinct (map fst (ids_of log))" "i \<notin> set (map fst (ids_of log))"
  shows "map_of (ids_of (take 20 ((n, i, c, r) # log))) =
    (let ids = (map_of (ids_of (take 20 log)))(i \<mapsto> n)
     in if length log < 20 then ids else ids(fst (snd (log ! 19)) := None))"
proof (cases "length log < 20")
  case True
  then show ?thesis by (simp add: ids_of_def)
next
  case False
  let ?x = "log ! 19"
  have t: "take 20 log = take 19 log @ [?x]"
    using take_Suc_conv_app_nth [of 19 log] False by simp
  have d: "distinct (map fst (ids_of (take 19 log @ [?x])))"
    using assms(1) distinct_take [of "map fst (ids_of log)" 20] by (simp add: ids_of_def take_map t [symmetric])
  have "?x \<in> set log" using False by simp
  then have ne: "i \<noteq> fst (snd ?x)" using assms(2) by (auto simp: ids_fst)
  have "(map_of (ids_of (take 20 log)))(fst (snd ?x) := None) = map_of (ids_of (take 19 log))"
    using map_of_drop_last [of "ids_of (take 19 log)" "(fst (snd ?x), fst ?x)"] d
    unfolding t by (simp add: ids_of_def)
  moreover have "(map_of (ids_of (take 20 log)))(i \<mapsto> n, fst (snd ?x) := None) =
      ((map_of (ids_of (take 20 log)))(fst (snd ?x) := None))(i \<mapsto> n)"
    by (rule fun_upd_twist [OF ne])
  moreover have "map_of (ids_of (take 20 ((n, i, c, r) # log))) = (map_of (ids_of (take 19 log)))(i \<mapsto> n)"
    by (simp add: ids_of_def)
  ultimately show ?thesis
    using False by (simp add: Let_def del: fun_upd_apply)
qed

lemma web_inv_start: "web_inv newWebHttpView []"
  by (simp add: web_inv_def newWebHttpView_def NewRing_def ids_of_def)

lemma web_inv_turn:
  assumes inv: "web_inv v log"
    and turn: "update_turn w marshal (up_n u) (up_txn u) (up_dumpReq u) (up_dumpResp u) (up_id u) v = Some v'"
  shows "web_inv v' (accept v u log)"
proof (cases "wh_txns v (up_n u)")
  case (Some s)
  then have a: "accept v u log = log" by (simp add: accept_def)
  have same: "wh_HttpRequests v' = wh_HttpRequests v" "wh_idToTxn v' = wh_idToTxn v"
    using turn Some by (auto simp: update_turn_def Let_def split: option.splits sum.splits)
  have "wh_txns v' = wh_txns v \<or> (\<exists>s'. wh_txns v' = (wh_txns v)(up_n u \<mapsto> s') \<and> sz_Id s' = sz_Id s \<and>
      sz_ConnCtx s' = sz_ConnCtx s \<and> sz_Req s' = sz_Req s)"
    using turn Some by (auto simp: update_turn_def Let_def split: option.splits sum.splits)
  then have d: "dom (wh_txns v') = dom (wh_txns v)"
    and k: "\<And>n q. wh_txns v n = Some q \<Longrightarrow> \<exists>q'. wh_txns v' n = Some q' \<and> sz_Id q' = sz_Id q \<and>
      sz_ConnCtx q' = sz_ConnCtx q \<and> sz_Req q' = sz_Req q"
    using Some by (auto split: if_splits)
  have "kept v' x" if "kept v x" for x
    by (rule kept_same [OF that k])
  then show ?thesis
    using inv same d unfolding a by (auto simp: web_inv_def list_all_iff)
next
  case None
  show ?thesis
  proof (cases "up_dumpReq u")
    case (Inl err)
    then show ?thesis
      using turn None inv by (simp add: update_turn_def accept_def)
  next
    case (Inr raw)
    let ?n = "up_n u"
    let ?i = "up_id u"
    let ?a = "(?n, ?i, tx_ConnCtx (up_txn u), raw)"
    have a: "accept v u log = ?a # log" by (simp add: accept_def None Inr)
    have ring: "wh_HttpRequests v = \<lparr>ring_items = map fst (take 20 log), ring_capacity = 20\<rparr>"
      and dist: "distinct (map fst log)" and dom: "dom (wh_txns v) = set (map fst log)" and kept: "list_all (kept v) log"
      and ids: "distinct (map fst (ids_of log)) \<Longrightarrow> wh_idToTxn v = map_of (ids_of (take 20 log))"
      using inv by (auto simp: web_inv_def)
    have fresh: "?n \<notin> set (map fst log)" using None dom by blast
    obtain s where s: "wh_txns v' = (wh_txns v)(?n \<mapsto> s)" "sz_Id s = ?i" "sz_ConnCtx s = tx_ConnCtx (up_txn u)"
      "sm_Raw (sz_Req s) = base64 raw" "wh_HttpRequests v' = \<lparr>ring_items = ?n # map fst (take 19 log), ring_capacity = 20\<rparr>"
      "wh_idToTxn v' = (let ids = (wh_idToTxn v)(?i \<mapsto> ?n) in
         if length log < 20 then ids else ids(sz_Id (the (((wh_txns v)(?n \<mapsto> s)) (fst (log ! 19)))) := None))"
      using turn by (auto simp: update_turn_def None Inr ring ring_take Let_def)
    have old: "sz_Id (the (((wh_txns v)(?n \<mapsto> s)) (fst (log ! 19)))) = fst (snd (log ! 19))" if "\<not> length log < 20"
    proof -
      have m: "log ! 19 \<in> set log" using that by simp
      then have "fst (log ! 19) \<in> set (map fst log)" by simp
      with fresh have "fst (log ! 19) \<noteq> ?n" by metis
      moreover have "kept v (log ! 19)" using kept m by (auto simp: list_all_iff)
      ultimately show ?thesis by (auto simp: kept_def case_prod_beta)
    qed
    have "kept v' x" if "x \<in> set log" for x
    proof -
      have "fst x \<in> set (map fst log)" using that by simp
      with fresh have "fst x \<noteq> ?n" by metis
      moreover have "kept v x" using kept that by (auto simp: list_all_iff)
      ultimately show ?thesis by (auto simp: kept_def s(1) split: prod.splits)
    qed
    moreover have "kept v' ?a" using s by (simp add: kept_def)
    moreover have "wh_idToTxn v' = map_of (ids_of (take 20 (?a # log)))" if "distinct (map fst (ids_of (?a # log)))"
    proof -
      have d: "distinct (map fst (ids_of log))" "?i \<notin> set (map fst (ids_of log))"
        using that by (auto simp: ids_of_def)
      show ?thesis
        unfolding s(6) ids_take [OF d] ids [OF d(1)] using old by (simp add: Let_def)
    qed
    ultimately show ?thesis
      using dist fresh dom s(1,5) unfolding a by (simp add: web_inv_def list_all_iff)
  qed
qed

lemma web_inv_updates:
  "updates w marshal us v log = Some (v', log') \<Longrightarrow> web_inv v log \<Longrightarrow> web_inv v' log'"
  by (induction us arbitrary: v log) (auto split: option.splits dest: web_inv_turn)

text \<open>
  C26: What can be replayed: after any sequence of turns, if no identifier was drawn twice, exactly the
  last twenty requests that were accepted can be replayed, each through the tunnel it came by and byte
  for byte as it was dumped; any other identifier is refused.
\<close>
theorem replay_recent:
  assumes "updates w marshal us newWebHttpView [] = Some (v, log)" "distinct (map (fst \<circ> snd) log)"
  shows "replay v txnid =
     (case find (\<lambda>a. fst (snd a) = txnid) (take 20 log) of
        None \<Rightarrow> (WebError 400, None)
      | Some (n, i, ctx, raw) \<Rightarrow> (WebReplayed, Some (ctx, raw)))"
proof -
  have inv: "web_inv v log" by (rule web_inv_updates [OF assms(1) web_inv_start])
  then have m: "wh_idToTxn v = map_of (ids_of (take 20 log))"
    using assms(2) by (simp add: web_inv_def ids_fst)
  have look: "map_of (ids_of xs) txnid = map_option fst (find (\<lambda>a. fst (snd a) = txnid) xs)" for xs :: accepted
    by (induction xs) (auto simp: ids_of_def)
  show ?thesis
  proof (cases "find (\<lambda>a. fst (snd a) = txnid) (take 20 log)")
    case None
    then show ?thesis by (simp add: replay_def m look)
  next
    case (Some a)
    then have "a \<in> set (take 20 log)" by (auto simp: find_Some_iff in_set_conv_nth)
    then have "kept v a" using inv in_set_takeD [of a 20 log] by (auto simp: web_inv_def list_all_iff)
    then show ?thesis by (auto simp: replay_def m look Some kept_def Let_def split: prod.splits)
  qed
qed

definition plain_head :: http_head where
  "plain_head = \<lparr>hh_first = ''GET'', hh_path = ''/'', hh_scheme = ''http'', hh_header = (\<lambda>_. []), hh_body = None, hh_length = 0\<rparr>"

definition plain_txn :: http_txn where
  "plain_txn = \<lparr>tx_Req = record_body plain_head None, tx_Resp = None, tx_Start = 0, tx_Duration = 0,
     tx_ConnCtx = \<lparr>mv_PublicUrl = ''http://a.b'', mv_Protocol = Some ''http'', mv_LocalAddr = ''127.0.0.1:80''\<rparr>\<rparr>"

definition plain_update :: update where
  "plain_update = \<lparr>up_n = 0, up_txn = plain_txn, up_dumpReq = Inr ''GET /'', up_dumpResp = Inl [], up_id = ''1f''\<rparr>"

theorem replay_recent_witness:
  "\<exists>v log. updates plain_lib (\<lambda>_. Inr []) [plain_update] newWebHttpView [] = Some (v, log) \<and>
     replay v ''1f'' = (WebReplayed, Some (tx_ConnCtx plain_txn, ''GET /''))"
proof -
  let ?log = "[(0, ''1f'', tx_ConnCtx plain_txn, ''GET /'')]"
  have "updates plain_lib (\<lambda>_. Inr []) [plain_update] newWebHttpView [] \<noteq> None"
    by (simp add: plain_update_def update_turn_def newWebHttpView_def case_prod_beta Let_def)
  then obtain v log where u: "updates plain_lib (\<lambda>_. Inr []) [plain_update] newWebHttpView [] = Some (v, log)"
    by auto
  have "log = ?log"
    using u by (auto simp: accept_def plain_update_def newWebHttpView_def split: option.splits)
  with replay_recent [OF u, of "''1f''"] u show ?thesis by auto
qed

end
