(* ===== verification/Ws_Mask.thy ===== *)
theory Ws_Mask
  imports Go_Strings
begin

text \<open>
  Bytes and masks of web sockets (\<open>src/github.com/gorilla/websocket/mask.go\<close>, \<open>mask_safe.go\<close>): numbers in
  network order and the two ways of masking a payload. Bytes are machine words here.
\<close>

unbundle bit_operations_syntax

type_synonym byte = "8 word"

definition text_bytes :: "string \<Rightarrow> byte list" where
  "text_bytes s = map (\<lambda>c. word_of_int (of_char c)) s"

definition bytes_text :: "byte list \<Rightarrow> string" where
  "bytes_text b = map (\<lambda>x. char_of (uint x)) b"

lemma bytes_text_inverse: "bytes_text (text_bytes s) = s"
proof -
  have "char_of (uint (word_of_int (of_char c) :: byte)) = c" for c
  proof -
    have "(of_char c :: int) mod 256 = of_char c" using byte_le [of c]
      by (metis of_char_mod_256)
    then show ?thesis by (simp add: uint_word_of_int take_bit_eq_mod)
  qed
  then show ?thesis by (simp add: bytes_text_def text_bytes_def comp_def)
qed

section \<open>Numbers in network order\<close>

fun be_bytes :: "nat \<Rightarrow> nat \<Rightarrow> byte list" where
  "be_bytes 0 n = []"
| "be_bytes (Suc k) n = be_bytes k (n div 256) @ [of_nat n]"

definition be_val :: "byte list \<Rightarrow> nat" where
  "be_val b = foldl (\<lambda>v x. 256 * v + unat x) 0 b"

text \<open>The conversion to \<open>int64\<close>.\<close>

definition to_int64 :: "int \<Rightarrow> int" where
  "to_int64 n = (n + 2 ^ 63) mod 2 ^ 64 - 2 ^ 63"

lemma to_int64_id: "- (2 ^ 63) \<le> n \<Longrightarrow> n < 2 ^ 63 \<Longrightarrow> to_int64 n = n"
  by (simp add: to_int64_def)

lemma length_be_bytes [simp]: "length (be_bytes k n) = k"
  by (induction k arbitrary: n) auto

lemma be_val_snoc: "be_val (b @ [x]) = 256 * be_val b + unat x"
  by (simp add: be_val_def)

lemma be_val_bytes: "be_val (be_bytes k n) = n mod 256 ^ k"
proof (induction k arbitrary: n)
  case (Suc k)
  have "unat (of_nat n :: byte) = n mod 256"
    by (simp add: unat_of_nat)
  then have "be_val (be_bytes (Suc k) n) = 256 * (n div 256 mod 256 ^ k) + n mod 256"
    by (simp add: be_val_snoc Suc)
  also have "\<dots> = n mod (256 * 256 ^ k)"
    by (simp only: mod_mult2_eq)
  finally show ?case by simp
qed (simp add: be_val_def)

section \<open>Masks\<close>

text \<open>One byte at a time, as in \<open>mask_safe.go\<close>: the masked bytes and the next position in the key.\<close>

fun mask_each :: "byte list \<Rightarrow> nat \<Rightarrow> byte list \<Rightarrow> byte list \<times> nat" where
  "mask_each key pos [] = ([], pos)"
| "mask_each key pos (x # xs) =
     (case mask_each key (Suc pos) xs of (ys, p) \<Rightarrow> (xor x (key ! (pos mod 4)) # ys, p))"

definition maskBytes_safe :: "byte list \<Rightarrow> nat \<Rightarrow> byte list \<Rightarrow> byte list \<times> nat" where
  "maskBytes_safe key pos b = (case mask_each key pos b of (ys, p) \<Rightarrow> (ys, p mod 4))"

text \<open>
  \<open>mask.go\<close>: the middle of a long slice in machine words of eight bytes. \<open>addr\<close> is the address of the
  first byte; words are loaded and stored with the least significant byte first.
\<close>

definition wordSize :: nat where "wordSize = 8"

fun load_word :: "byte list \<Rightarrow> 64 word" where
  "load_word [] = 0"
| "load_word (x # xs) = ucast x OR push_bit 8 (load_word xs)"

fun store_word :: "nat \<Rightarrow> 64 word \<Rightarrow> byte list" where
  "store_word 0 w = []"
| "store_word (Suc n) w = ucast w # store_word n (drop_bit 8 w)"

fun mask_words :: "64 word \<Rightarrow> nat \<Rightarrow> byte list \<Rightarrow> byte list" where
  "mask_words kw 0 b = []"
| "mask_words kw (Suc n) b =
     store_word wordSize (xor (load_word (take wordSize b)) kw) @ mask_words kw n (drop wordSize b)"

definition maskBytes :: "nat \<Rightarrow> byte list \<Rightarrow> nat \<Rightarrow> byte list \<Rightarrow> byte list \<times> nat" where
  "maskBytes addr key pos b =
     (if length b < 2 * wordSize then maskBytes_safe key pos b
      else
        let n = (if addr mod wordSize \<noteq> 0 then wordSize - addr mod wordSize else 0);
            (ys, pos) = mask_each key pos (take n b);
            b = drop n b;
            kw = load_word (map (\<lambda>i. key ! ((pos + i) mod 4)) [0..<wordSize]);
            n = length b div wordSize;
            ws = mask_words kw n b;
            (zs, pos) = mask_each key pos (drop (n * wordSize) b)
        in (ys @ ws @ zs, pos mod 4))"

lemma mask_each_append:
  "mask_each key pos (a @ b) =
     (case mask_each key pos a of (ys, p) \<Rightarrow> case mask_each key p b of (zs, q) \<Rightarrow> (ys @ zs, q))"
  by (induction a arbitrary: pos) (auto split: prod.splits)

lemma snd_mask_each [simp]: "snd (mask_each key pos b) = pos + length b"
  by (induction b arbitrary: pos) (simp_all add: case_prod_beta)

lemma length_mask_each [simp]: "length (fst (mask_each key pos b)) = length b"
  by (induction b arbitrary: pos) (simp_all add: case_prod_beta)

lemma fst_mask_each:
  "fst (mask_each key pos b) = map2 xor b (map (\<lambda>i. key ! ((pos + i) mod 4)) [0..<length b])"
proof (induction b arbitrary: pos)
  case (Cons x b)
  have "map (\<lambda>i. key ! ((pos + i) mod 4)) [0..<Suc (length b)] =
      key ! (pos mod 4) # map (\<lambda>i. key ! ((Suc pos + i) mod 4)) [0..<length b]"
    by (simp add: upt_conv_Cons map_Suc_upt [symmetric] del: upt_Suc)
  with Cons show ?case by (simp add: case_prod_beta del: upt_Suc)
qed simp

lemma bit_load_word:
  "bit (load_word xs) i \<longleftrightarrow> i < 64 \<and> i div 8 < length xs \<and> bit (xs ! (i div 8)) (i mod 8)"
proof (induction xs arbitrary: i)
  case (Cons x xs)
  show ?case
  proof (cases "i < 8")
    case True
    then show ?thesis by (auto simp: bit_or_iff bit_ucast_iff bit_push_bit_iff)
  next
    case False
    then have "i div 8 = Suc ((i - 8) div 8)" "i mod 8 = (i - 8) mod 8"
      by (simp_all add: le_div_geq le_mod_geq)
    moreover have "\<not> bit x i" using False bit_imp_le_length [of x i] by auto
    ultimately show ?thesis
      using False by (auto simp: bit_or_iff bit_ucast_iff bit_push_bit_iff Cons)
  qed
qed simp

lemma length_store_word [simp]: "length (store_word n w) = n"
  by (induction n arbitrary: w) auto

lemma nth_store_word: "j < n \<Longrightarrow> store_word n w ! j = ucast (drop_bit (8 * j) w)"
proof (induction n arbitrary: w j)
  case (Suc n)
  then show ?case by (cases j) (simp_all add: drop_bit_drop_bit algebra_simps)
qed simp

lemma store_load:
  assumes "length xs = n" "length ks = n" "n \<le> 8"
  shows "store_word n (xor (load_word xs) (load_word ks)) = map2 xor xs ks"
proof (rule nth_equalityI)
  fix j assume "j < length (store_word n (xor (load_word xs) (load_word ks)))"
  then have j: "j < n" by simp
  show "store_word n (xor (load_word xs) (load_word ks)) ! j = map2 xor xs ks ! j"
  proof (rule bit_word_eqI)
    fix i assume "i < LENGTH(8)"
    then show "bit (store_word n (xor (load_word xs) (load_word ks)) ! j) i = bit (map2 xor xs ks ! j) i"
      using j assms by (auto simp: nth_store_word bit_ucast_iff bit_drop_bit_eq bit_xor_iff bit_load_word)
  qed
qed (use assms in simp)

lemma mask_words_each:
  "8 * n \<le> length b \<Longrightarrow>
   mask_words (load_word (map (\<lambda>i. key ! ((pos + i) mod 4)) [0..<8])) n b = fst (mask_each key pos (take (8 * n) b))"
proof (induction n arbitrary: b)
  case (Suc n)
  let ?k = "map (\<lambda>i. key ! ((pos + i) mod 4)) [0..<8]"
  have l: "length (take 8 b) = 8" using Suc.prems by simp
  have k: "length ?k = 8" by (simp del: upt_Suc)
  have w: "store_word 8 (xor (load_word (take 8 b)) (load_word ?k)) = map2 xor (take 8 b) ?k"
    by (rule store_load [OF l k]) simp
  have "key ! ((pos + 8 + i) mod 4) = key ! ((pos + i) mod 4)" for i
    by (metis (no_types, lifting) add.assoc add.commute mod_add_self1 mod_mult_self1 numeral_Bit0)
  then have "fst (mask_each key (pos + 8) c) = fst (mask_each key pos c)" for c
    by (simp only: fst_mask_each)
  moreover have "take (8 * Suc n) b = take 8 b @ take (8 * n) (drop 8 b)"
    by (simp add: take_add)
  ultimately show ?case
    using Suc l by (simp add: wordSize_def w mask_each_append case_prod_beta fst_mask_each [of key pos "take 8 b"] min_def del: upt_Suc mask_each.simps)
qed simp

lemma mask_three:
  assumes "b = x @ y @ z" "length y = 8 * k"
  shows "mask_each key pos b =
    (fst (mask_each key pos x) @ fst (mask_each key (pos + length x) y) @ fst (mask_each key (pos + length x) z),
     pos + length b)"
proof -
  have "(pos + length x + length y + i) mod 4 = (pos + length x + i) mod 4" for i
    unfolding assms(2) by presburger
  then have "fst (mask_each key (pos + length x + length y) z) = fst (mask_each key (pos + length x) z)"
    by (simp only: fst_mask_each)
  then show ?thesis
    unfolding assms(1) by (simp add: mask_each_append case_prod_beta prod_eq_iff)
qed

lemma mask_aligned:
  assumes b: "b = x @ y" "k = length y div 8"
  shows "(fst (mask_each key pos x) @
      mask_words (load_word (map (\<lambda>i. key ! ((pos + length x + i) mod 4)) [0..<8])) k y @
      fst (mask_each key (pos + length x) (drop (k * 8) y)), (pos + length x + length (drop (k * 8) y)) mod 4) =
    maskBytes_safe key pos b"
proof -
  have m: "8 * k \<le> length y" unfolding b(2) by simp
  have t: "mask_each key pos b = (fst (mask_each key pos x) @ fst (mask_each key (pos + length x) (take (8 * k) y)) @
      fst (mask_each key (pos + length x) (drop (8 * k) y)), pos + length b)"
    by (rule mask_three [where k = k]) (use b(1) m in simp_all)
  have "pos + length b = pos + length x + (length y - 8 * k) + 4 * (2 * k)" using m b(1) by simp
  then have "(pos + length b) mod 4 = (pos + length x + (length y - 8 * k)) mod 4"
    by (metis mod_mult_self2)
  then show ?thesis
    by (simp add: maskBytes_safe_def t mask_words_each [OF m] mult.commute del: upt_Suc)
qed

lemma mask_words_correct_facts: "maskBytes addr key pos b = maskBytes_safe key pos b"
proof (cases "length b < 2 * wordSize")
  case False
  let ?n = "if addr mod wordSize \<noteq> 0 then wordSize - addr mod wordSize else 0"
  have "maskBytes addr key pos b = (fst (mask_each key pos (take ?n b)) @
      mask_words (load_word (map (\<lambda>i. key ! ((pos + length (take ?n b) + i) mod 4)) [0..<wordSize]))
        (length (drop ?n b) div wordSize) (drop ?n b) @
      fst (mask_each key (pos + length (take ?n b)) (drop (length (drop ?n b) div wordSize * wordSize) (drop ?n b))),
      (pos + length (take ?n b) + length (drop (length (drop ?n b) div wordSize * wordSize) (drop ?n b))) mod 4)"
    using False unfolding maskBytes_def Let_def case_prod_beta snd_mask_each by (simp only: if_False prod.sel)
  then show ?thesis
    by (simp only: wordSize_def mask_aligned [OF append_take_drop_id [symmetric] refl])
qed (simp add: maskBytes_def)

text \<open>Masking twice gives the bytes back, also piece by piece.\<close>

lemma maskBytes_each: "maskBytes addr key pos b = (fst (mask_each key pos b), (pos + length b) mod 4)"
  by (simp add: mask_words_correct_facts maskBytes_safe_def case_prod_beta)

lemma mask_pos_mod: "fst (mask_each key (pos mod 4) b) = fst (mask_each key pos b)"
  by (simp only: fst_mask_each mod_add_left_eq)

lemma mask_each_twice: "fst (mask_each key pos (fst (mask_each key pos b))) = b"
  by (induction b arbitrary: pos) (simp_all add: case_prod_beta xor.assoc)

text \<open>
  C34: Masks: masking in machine words gives, whatever the address and the length of the bytes, the
  same bytes and the same next position in the key as byte by byte; masking the pieces of a message
  one after the other is masking the message; and masking twice gives the message back.
\<close>
theorem mask_correct:
  "maskBytes addr key pos b = maskBytes_safe key pos b \<and>
   (let (x, p) = maskBytes addr key pos b; (y, q) = maskBytes addr' key p c
    in maskBytes addr'' key pos (b @ c) = (x @ y, q)) \<and>
   fst (maskBytes addr' key pos (fst (maskBytes addr key pos b))) = b"
  by (simp add: maskBytes_each maskBytes_safe_def case_prod_beta mask_each_append mask_pos_mod
      mask_each_twice Let_def) presburger

end
