(* ===== verification/Ws_Write.thy ===== *)
theory Ws_Write
  imports Ws_Mask
begin

text \<open>
  Web socket connections, the writing side (\<open>src/github.com/gorilla/websocket/conn.go\<close>): errors, the
  state of a connection, control frames and the writer of a message. The connections are those without
  compression and without a pool of buffers, the only ones that \<open>websocket.Upgrade\<close> makes; the lock of
  the writer and the clock are seen by what they let through.
\<close>

section \<open>Constants\<close>

definition finalBit :: byte where "finalBit = push_bit 7 1"
definition rsv1Bit :: byte where "rsv1Bit = push_bit 6 1"
definition rsv2Bit :: byte where "rsv2Bit = push_bit 5 1"
definition rsv3Bit :: byte where "rsv3Bit = push_bit 4 1"
definition maskBit :: byte where "maskBit = push_bit 7 1"

definition maxFrameHeaderSize :: nat where "maxFrameHeaderSize = 2 + 8 + 4"
definition maxControlFramePayloadSize :: nat where "maxControlFramePayloadSize = 125"
definition defaultWriteBufferSize :: int where "defaultWriteBufferSize = 4096"

definition continuationFrame :: int where "continuationFrame = 0"
definition TextMessage :: int where "TextMessage = 1"
definition BinaryMessage :: int where "BinaryMessage = 2"
definition CloseMessage :: int where "CloseMessage = 8"
definition PingMessage :: int where "PingMessage = 9"
definition PongMessage :: int where "PongMessage = 10"

lemmas frame_types = continuationFrame_def TextMessage_def BinaryMessage_def CloseMessage_def PingMessage_def
  PongMessage_def

definition CloseNormalClosure :: int where "CloseNormalClosure = 1000"
definition CloseGoingAway :: int where "CloseGoingAway = 1001"
definition CloseProtocolError :: int where "CloseProtocolError = 1002"
definition CloseUnsupportedData :: int where "CloseUnsupportedData = 1003"
definition CloseNoStatusReceived :: int where "CloseNoStatusReceived = 1005"
definition CloseAbnormalClosure :: int where "CloseAbnormalClosure = 1006"
definition CloseInvalidFramePayloadData :: int where "CloseInvalidFramePayloadData = 1007"
definition ClosePolicyViolation :: int where "ClosePolicyViolation = 1008"
definition CloseMessageTooBig :: int where "CloseMessageTooBig = 1009"
definition CloseMandatoryExtension :: int where "CloseMandatoryExtension = 1010"
definition CloseInternalServerErr :: int where "CloseInternalServerErr = 1011"
definition CloseServiceRestart :: int where "CloseServiceRestart = 1012"
definition CloseTryAgainLater :: int where "CloseTryAgainLater = 1013"
definition CloseTLSHandshake :: int where "CloseTLSHandshake = 1015"

lemmas close_codes = CloseNormalClosure_def CloseGoingAway_def CloseProtocolError_def CloseUnsupportedData_def
  CloseNoStatusReceived_def CloseAbnormalClosure_def CloseInvalidFramePayloadData_def ClosePolicyViolation_def
  CloseMessageTooBig_def CloseMandatoryExtension_def CloseInternalServerErr_def CloseServiceRestart_def
  CloseTryAgainLater_def CloseTLSHandshake_def

section \<open>Errors\<close>

datatype ws_error =
    ErrEOF
  | ErrCloseSent
  | ErrReadLimit
  | ErrNet (net_msg: string) (net_temporary: bool) (net_timeout: bool)
  | CloseError int string
  | ErrBadWriteOpCode
  | ErrWriteClosed
  | ErrInvalidControlFrame
  | ErrNew string

definition errWriteTimeout :: ws_error where "errWriteTimeout = ErrNet ''websocket: write timeout'' True True"
definition errUnexpectedEOF :: ws_error where "errUnexpectedEOF = CloseError CloseAbnormalClosure ''unexpected EOF''"

definition close_name :: "int \<Rightarrow> string" where
  "close_name code =
     (if code = CloseNormalClosure then '' (normal)''
      else if code = CloseGoingAway then '' (going away)''
      else if code = CloseProtocolError then '' (protocol error)''
      else if code = CloseUnsupportedData then '' (unsupported data)''
      else if code = CloseNoStatusReceived then '' (no status)''
      else if code = CloseAbnormalClosure then '' (abnormal closure)''
      else if code = CloseInvalidFramePayloadData then '' (invalid payload data)''
      else if code = ClosePolicyViolation then '' (policy violation)''
      else if code = CloseMessageTooBig then '' (message too big)''
      else if code = CloseMandatoryExtension then '' (mandatory extension missing)''
      else if code = CloseInternalServerErr then '' (internal server error)''
      else if code = CloseTLSHandshake then '' (TLS handshake error)''
      else [])"

definition CloseError_Error :: "int \<Rightarrow> string \<Rightarrow> string" where
  "CloseError_Error code msg =
     ''websocket: close '' @ show_int code @ close_name code @ (if msg \<noteq> [] then '': '' @ msg else [])"

fun error_text :: "ws_error \<Rightarrow> string" where
  "error_text ErrEOF = ''EOF''"
| "error_text ErrCloseSent = ''websocket: close sent''"
| "error_text ErrReadLimit = ''websocket: read limit exceeded''"
| "error_text (ErrNet msg _ _) = msg"
| "error_text (CloseError code msg) = CloseError_Error code msg"
| "error_text ErrBadWriteOpCode = ''websocket: bad write message type''"
| "error_text ErrWriteClosed = ''websocket: write closed''"
| "error_text ErrInvalidControlFrame = ''websocket: invalid control frame''"
| "error_text (ErrNew msg) = msg"

fun IsCloseError :: "ws_error \<Rightarrow> int list \<Rightarrow> bool" where
  "IsCloseError (CloseError code _) codes = (code \<in> set codes)"
| "IsCloseError _ codes = False"

fun IsUnexpectedCloseError :: "ws_error \<Rightarrow> int list \<Rightarrow> bool" where
  "IsUnexpectedCloseError (CloseError code _) codes = (code \<notin> set codes)"
| "IsUnexpectedCloseError _ codes = False"

fun hideTempErr :: "ws_error \<Rightarrow> ws_error" where
  "hideTempErr (ErrNet msg temp timeout) = ErrNet msg False timeout"
| "hideTempErr e = e"

definition isControl :: "int \<Rightarrow> bool" where
  "isControl t \<longleftrightarrow> t = CloseMessage \<or> t = PingMessage \<or> t = PongMessage"

definition isData :: "int \<Rightarrow> bool" where
  "isData t \<longleftrightarrow> t = TextMessage \<or> t = BinaryMessage"

definition isValidReceivedCloseCode :: "int \<Rightarrow> bool" where
  "isValidReceivedCloseCode code \<longleftrightarrow>
     code \<in> {CloseNormalClosure, CloseGoingAway, CloseProtocolError, CloseUnsupportedData,
             CloseInvalidFramePayloadData, ClosePolicyViolation, CloseMessageTooBig, CloseMandatoryExtension,
             CloseInternalServerErr, CloseServiceRestart, CloseTryAgainLater} \<or>
     3000 \<le> code \<and> code \<le> 4999"

definition FormatCloseMessage :: "int \<Rightarrow> string \<Rightarrow> byte list" where
  "FormatCloseMessage closeCode msg =
     (if closeCode = CloseNoStatusReceived then []
      else be_bytes 2 (nat (closeCode mod 2 ^ 16)) @ text_bytes msg)"

section \<open>The connection\<close>

text \<open>
  A writer of a message; \<open>mw_data\<close> is what the buffer holds behind the place of the frame header.
\<close>

record message_writer =
  mw_data :: "byte list"
  mw_frameType :: int
  mw_err :: "ws_error option"

text \<open>
  \<open>wc_net\<close> is how the coming writes of the network end, an empty list if they all succeed: a failing
  one sends the given number of bytes first. \<open>wc_in\<close> and \<open>wc_end\<close> are the bytes that still come and the
  error behind them. The random numbers of the mask keys are \<open>wc_rand\<close>. Writers are known by numbers,
  the number of the current one is \<open>wc_writer\<close>; so are the readers of messages.
\<close>

record ws_conn =
  wc_isServer :: bool
  wc_net :: "(nat \<times> ws_error) option list"
  wc_sent :: "byte list"
  wc_rand :: "nat \<Rightarrow> 32 word"
  wc_bufCap :: nat
  wc_writers :: "nat \<Rightarrow> message_writer"
  wc_nextWriter :: nat
  wc_writer :: "nat option"
  wc_writeErr :: "ws_error option"
  wc_in :: "byte list"
  wc_end :: ws_error
  wc_readErr :: "ws_error option"
  wc_readRemaining :: int
  wc_readFinal :: bool
  wc_readLength :: int
  wc_readLimit :: int
  wc_readMaskPos :: nat
  wc_readMaskKey :: "byte list"
  wc_readErrCount :: int
  wc_nextReader :: nat
  wc_messageReader :: "nat option"

text \<open>
  \<open>newConn\<close> with a fresh buffer; \<open>wc_bufCap\<close> is the length of the buffer less \<open>maxFrameHeaderSize\<close>.
\<close>

definition newConn :: "bool \<Rightarrow> int \<Rightarrow> (nat \<Rightarrow> 32 word) \<Rightarrow> (nat \<times> ws_error) option list \<Rightarrow> byte list \<Rightarrow> ws_error \<Rightarrow> ws_conn"
where
  "newConn server writeBufferSize rnd net input end_error =
     \<lparr>wc_isServer = server, wc_net = net, wc_sent = [], wc_rand = rnd,
      wc_bufCap = nat (if writeBufferSize \<le> 0 then defaultWriteBufferSize else writeBufferSize),
      wc_writers = (\<lambda>_. \<lparr>mw_data = [], mw_frameType = 0, mw_err = None\<rparr>), wc_nextWriter = 0, wc_writer = None,
      wc_writeErr = None, wc_in = input, wc_end = end_error, wc_readErr = None, wc_readRemaining = 0,
      wc_readFinal = True, wc_readLength = 0, wc_readLimit = 0, wc_readMaskPos = 0, wc_readMaskKey = [0, 0, 0, 0],
      wc_readErrCount = 0, wc_nextReader = 0, wc_messageReader = None\<rparr>"

definition newMaskKey :: "ws_conn \<Rightarrow> byte list \<times> ws_conn" where
  "newMaskKey c =
     (let n = wc_rand c 0
      in ([ucast n, ucast (drop_bit 8 n), ucast (drop_bit 16 n), ucast (drop_bit 24 n)],
          c\<lparr>wc_rand := (\<lambda>i. wc_rand c (Suc i))\<rparr>))"

definition net_Write :: "byte list \<Rightarrow> ws_conn \<Rightarrow> ws_error option \<times> ws_conn" where
  "net_Write b c =
     (case wc_net c of
        [] \<Rightarrow> (None, c\<lparr>wc_sent := wc_sent c @ b\<rparr>)
      | None # net \<Rightarrow> (None, c\<lparr>wc_sent := wc_sent c @ b, wc_net := net\<rparr>)
      | Some (n, e) # net \<Rightarrow> (Some e, c\<lparr>wc_sent := wc_sent c @ take n b, wc_net := net\<rparr>))"

definition writeFatal :: "ws_error \<Rightarrow> ws_conn \<Rightarrow> ws_error \<times> ws_conn" where
  "writeFatal err c =
     (let err = hideTempErr err
      in (err, c\<lparr>wc_writeErr := (case wc_writeErr c of None \<Rightarrow> Some err | Some e \<Rightarrow> Some e)\<rparr>))"

text \<open>The common end of \<open>write\<close> and \<open>WriteControl\<close>, with the lock held.\<close>

definition send_frame :: "int \<Rightarrow> byte list \<Rightarrow> ws_conn \<Rightarrow> ws_error option \<times> ws_conn" where
  "send_frame frameType b c =
     (case wc_writeErr c of
        Some e \<Rightarrow> (Some e, c)
      | None \<Rightarrow>
          (case net_Write b c of
             (Some e, c) \<Rightarrow> (case writeFatal e c of (e, c) \<Rightarrow> (Some e, c))
           | (None, c) \<Rightarrow> (None, if frameType = CloseMessage then snd (writeFatal ErrCloseSent c) else c)))"

definition ws_write :: "int \<Rightarrow> byte list \<Rightarrow> byte list \<Rightarrow> ws_conn \<Rightarrow> ws_error option \<times> ws_conn" where
  "ws_write frameType buf0 buf1 c = send_frame frameType (buf0 @ buf1) c"

text \<open>\<open>late\<close>: the deadline is over, or it passes before the lock is free.\<close>

definition WriteControl :: "int \<Rightarrow> byte list \<Rightarrow> bool \<Rightarrow> ws_conn \<Rightarrow> ws_error option \<times> ws_conn" where
  "WriteControl messageType data late c =
     (if \<not> isControl messageType then (Some ErrBadWriteOpCode, c)
      else if maxControlFramePayloadSize < length data then (Some ErrInvalidControlFrame, c)
      else
        let b0 = word_of_int messageType OR finalBit;
            b1 = word_of_nat (length data) OR (if wc_isServer c then 0 else maskBit);
            (buf, c) =
              (if wc_isServer c then ([b0, b1] @ data, c)
               else case newMaskKey c of (key, c) \<Rightarrow> ([b0, b1] @ key @ fst (maskBytes 6 key 0 data), c))
        in if late then (Some errWriteTimeout, c) else send_frame messageType buf c)"

section \<open>The writer of a message\<close>

definition endMessage :: "nat \<Rightarrow> ws_error \<Rightarrow> ws_conn \<Rightarrow> ws_conn" where
  "endMessage w err c =
     (case mw_err (wc_writers c w) of
        Some _ \<Rightarrow> c
      | None \<Rightarrow> c\<lparr>wc_writers := (wc_writers c)(w := (wc_writers c w)\<lparr>mw_err := Some err\<rparr>), wc_writer := None\<rparr>)"

text \<open>The header of a frame up to the mask key, with the shortest form of the length.\<close>

definition frame_header :: "byte \<Rightarrow> byte \<Rightarrow> nat \<Rightarrow> byte list" where
  "frame_header b0 b1 len =
     (if 65536 \<le> len then [b0, b1 OR 127] @ be_bytes 8 len
      else if 125 < len then [b0, b1 OR 126] @ be_bytes 2 len
      else [b0, b1 OR word_of_nat len])"

definition flushFrame :: "nat \<Rightarrow> bool \<Rightarrow> byte list \<Rightarrow> ws_conn \<Rightarrow> ws_error option \<times> ws_conn" where
  "flushFrame w final extra c =
     (let mw = wc_writers c w;
          len = length (mw_data mw) + length extra;
          frameType = mw_frameType mw
      in if isControl frameType \<and> (\<not> final \<or> maxControlFramePayloadSize < len)
         then (Some ErrInvalidControlFrame, endMessage w ErrInvalidControlFrame c)
         else
           let b0 = word_of_int frameType OR (if final then finalBit else 0);
               b1 = (if wc_isServer c then 0 else maskBit);
               header = frame_header b0 b1 len;
               (err, c) =
                 (if wc_isServer c then ws_write frameType (header @ mw_data mw) extra c
                  else case newMaskKey c of (key, c) \<Rightarrow>
                    if extra \<noteq> []
                    then (case writeFatal (ErrNew ''websocket: internal error, extra used in client mode'') c of
                            (e, c) \<Rightarrow> (Some e, c))
                    else ws_write frameType (header @ key @ fst (maskBytes maxFrameHeaderSize key 0 (mw_data mw))) extra c)
           in case err of
                Some e \<Rightarrow> (Some e, endMessage w e c)
              | None \<Rightarrow>
                  if final then (None, endMessage w ErrWriteClosed c)
                  else (None, c\<lparr>wc_writers := (wc_writers c)(w := mw\<lparr>mw_data := [], mw_frameType := continuationFrame\<rparr>)\<rparr>))"

text \<open>How many bytes fit, after a full buffer is sent.\<close>

definition ncopy :: "nat \<Rightarrow> nat \<Rightarrow> ws_conn \<Rightarrow> (ws_error + nat) \<times> ws_conn" where
  "ncopy w mx c =
     (let room = wc_bufCap c - length (mw_data (wc_writers c w))
      in if room = 0
         then (case flushFrame w False [] c of
                 (Some e, c) \<Rightarrow> (Inl e, c)
               | (None, c) \<Rightarrow> (Inr (min mx (wc_bufCap c - length (mw_data (wc_writers c w)))), c))
         else (Inr (min mx room), c))"

definition put_data :: "nat \<Rightarrow> byte list \<Rightarrow> ws_conn \<Rightarrow> ws_conn" where
  "put_data w b c =
     c\<lparr>wc_writers := (wc_writers c)(w := (wc_writers c w)\<lparr>mw_data := mw_data (wc_writers c w) @ b\<rparr>)\<rparr>"

text \<open>
  The loop of \<open>Write\<close> and \<open>WriteString\<close>; it would never end with a buffer without room, which is \<open>None\<close>.
\<close>

partial_function (option) write_loop :: "nat \<Rightarrow> byte list \<Rightarrow> ws_conn \<Rightarrow> (ws_error option \<times> ws_conn) option" where
  "write_loop w p c =
     (if p = [] then Some (None, c)
      else case ncopy w (length p) c of
             (Inl e, c) \<Rightarrow> Some (Some e, c)
           | (Inr n, c) \<Rightarrow> write_loop w (drop n p) (put_data w (take n p) c))"

definition mw_WriteString :: "nat \<Rightarrow> byte list \<Rightarrow> ws_conn \<Rightarrow> (ws_error option \<times> ws_conn) option" where
  "mw_WriteString w p c =
     (case mw_err (wc_writers c w) of Some e \<Rightarrow> Some (Some e, c) | None \<Rightarrow> write_loop w p c)"

definition mw_Write :: "nat \<Rightarrow> byte list \<Rightarrow> ws_conn \<Rightarrow> (ws_error option \<times> ws_conn) option" where
  "mw_Write w p c =
     (case mw_err (wc_writers c w) of
        Some e \<Rightarrow> Some (Some e, c)
      | None \<Rightarrow>
          if 2 * (wc_bufCap c + maxFrameHeaderSize) < length p \<and> wc_isServer c then Some (flushFrame w False p c)
          else write_loop w p c)"


definition mw_Close :: "nat \<Rightarrow> ws_conn \<Rightarrow> ws_error option \<times> ws_conn" where
  "mw_Close w c = (case mw_err (wc_writers c w) of Some e \<Rightarrow> (Some e, c) | None \<Rightarrow> flushFrame w True [] c)"

text \<open>\<open>beginMessage\<close>, which first closes a writer that is still open; the number of the new writer.\<close>

definition beginMessage :: "int \<Rightarrow> ws_conn \<Rightarrow> (ws_error + nat) \<times> ws_conn" where
  "beginMessage messageType c =
     (let c = (case wc_writer c of None \<Rightarrow> c | Some w \<Rightarrow> (snd (mw_Close w c))\<lparr>wc_writer := None\<rparr>)
      in if \<not> isControl messageType \<and> \<not> isData messageType then (Inl ErrBadWriteOpCode, c)
         else case wc_writeErr c of
                Some e \<Rightarrow> (Inl e, c)
              | None \<Rightarrow>
                  let w = wc_nextWriter c
                  in (Inr w, c\<lparr>wc_writers := (wc_writers c)(w := \<lparr>mw_data = [], mw_frameType = messageType, mw_err = None\<rparr>),
                               wc_nextWriter := Suc w\<rparr>))"

definition NextWriter :: "int \<Rightarrow> ws_conn \<Rightarrow> (ws_error + nat) \<times> ws_conn" where
  "NextWriter messageType c =
     (case beginMessage messageType c of
        (Inl e, c) \<Rightarrow> (Inl e, c)
      | (Inr w, c) \<Rightarrow> (Inr w, c\<lparr>wc_writer := Some w\<rparr>))"

definition WriteMessage :: "int \<Rightarrow> byte list \<Rightarrow> ws_conn \<Rightarrow> (ws_error option \<times> ws_conn) option" where
  "WriteMessage messageType data c =
     (if wc_isServer c then
        (case beginMessage messageType c of
           (Inl e, c) \<Rightarrow> Some (Some e, c)
         | (Inr w, c) \<Rightarrow>
             let n = min (wc_bufCap c) (length data)
             in Some (flushFrame w True (drop n data) (put_data w (take n data) c)))
      else
        (case NextWriter messageType c of
           (Inl e, c) \<Rightarrow> Some (Some e, c)
         | (Inr w, c) \<Rightarrow>
             (case mw_Write w data c of
                None \<Rightarrow> None
              | Some (Some e, c) \<Rightarrow> Some (Some e, c)
              | Some (None, c) \<Rightarrow> Some (mw_Close w c))))"

end
