(* ===== verification/Ws_Read.thy ===== *)
theory Ws_Read
  imports Ws_Write
begin

text \<open>
  Web socket connections, the reading side (\<open>src/github.com/gorilla/websocket/conn.go\<close>): reading and
  checking a frame, answering control frames, and reading messages. The handlers of control frames are
  an argument, as an application may set them; a read of the network gives an error only without bytes.
\<close>

section \<open>UTF-8\<close>

text \<open>
  Package \<open>unicode/utf8\<close>: for a first byte the length of the sequence, 0 if there is none, and the bounds
  of its second byte; then \<open>DecodeRuneInString\<close> and \<open>ValidString\<close>.
\<close>

definition utf8_lead :: "int \<Rightarrow> nat \<times> int \<times> int" where
  "utf8_lead b =
     (if b < 128 then (1, 0, 0)
      else if 194 \<le> b \<and> b \<le> 223 then (2, 128, 191)
      else if b = 224 then (3, 160, 191)
      else if b = 237 then (3, 128, 159)
      else if 225 \<le> b \<and> b \<le> 239 then (3, 128, 191)
      else if b = 240 then (4, 144, 191)
      else if 241 \<le> b \<and> b \<le> 243 then (4, 128, 191)
      else if b = 244 then (4, 128, 143)
      else (0, 0, 0))"

definition RuneError :: int where "RuneError = 65533"

definition decode_rune :: "string \<Rightarrow> int \<times> nat" where
  "decode_rune s =
     (case map of_char (take 4 s) of
        [] \<Rightarrow> (RuneError, 0)
      | b # bs \<Rightarrow>
          (case utf8_lead b of
             (n, lo, hi) \<Rightarrow>
               if n = 1 then (b, 1)
               else if n = 0 \<or> length bs < n - 1 \<or> bs ! 0 < lo \<or> hi < bs ! 0 \<or>
                  \<not> list_all (\<lambda>x. 128 \<le> x \<and> x \<le> 191) (take (n - 2) (tl bs)) then (RuneError, 1)
               else (foldl (\<lambda>v x. 64 * v + x mod 64) (b mod (if n = 2 then 32 else if n = 3 then 16 else 8))
                       (take (n - 1) bs), n)))"

lemma decode_rune_size: "s \<noteq> [] \<Longrightarrow> 0 < snd (decode_rune s)"
  by (cases s) (auto simp: decode_rune_def split: prod.split)

function utf8_valid :: "string \<Rightarrow> bool" where
  "utf8_valid s =
     (if s = [] then True
      else if decode_rune s = (RuneError, 1) then False
      else utf8_valid (drop (snd (decode_rune s)) s))"
  by pat_completeness auto
termination
  by (relation "measure length") (auto simp: decode_rune_size)

declare utf8_valid.simps [simp del]

section \<open>Steps that may fail\<close>

type_synonym 'a ws_io = "ws_conn \<Rightarrow> (ws_error + 'a) \<times> ws_conn"

definition and_then :: "'a ws_io \<Rightarrow> ('a \<Rightarrow> 'b ws_io) \<Rightarrow> 'b ws_io" where
  "and_then m f c = (case m c of (Inl e, c) \<Rightarrow> (Inl e, c) | (Inr x, c) \<Rightarrow> f x c)"

text \<open>\<open>Conn.read\<close>.\<close>

definition ws_read :: "nat \<Rightarrow> byte list ws_io" where
  "ws_read n c =
     (if length (wc_in c) < n
      then (Inl (if wc_end c = ErrEOF then errUnexpectedEOF else wc_end c), c\<lparr>wc_in := []\<rparr>)
      else (Inr (take n (wc_in c)), c\<lparr>wc_in := drop n (wc_in c)\<rparr>))"

definition setReadRemaining :: "int \<Rightarrow> unit ws_io" where
  "setReadRemaining n c = (if n < 0 then (Inl ErrReadLimit, c) else (Inr (), c\<lparr>wc_readRemaining := n\<rparr>))"

definition handleProtocolError :: "string \<Rightarrow> 'a ws_io" where
  "handleProtocolError msg c =
     (Inl (ErrNew (''websocket: '' @ msg)),
      snd (WriteControl CloseMessage (FormatCloseMessage CloseProtocolError msg) False c))"

section \<open>Handlers of control frames\<close>

record handlers =
  handlePong :: "string \<Rightarrow> ws_conn \<Rightarrow> ws_error option \<times> ws_conn"
  handlePing :: "string \<Rightarrow> ws_conn \<Rightarrow> ws_error option \<times> ws_conn"
  handleClose :: "int \<Rightarrow> string \<Rightarrow> ws_conn \<Rightarrow> ws_error option \<times> ws_conn"

definition default_close :: "int \<Rightarrow> string \<Rightarrow> ws_conn \<Rightarrow> ws_error option \<times> ws_conn" where
  "default_close code msg c = (None, snd (WriteControl CloseMessage (FormatCloseMessage code []) False c))"

definition default_ping :: "string \<Rightarrow> ws_conn \<Rightarrow> ws_error option \<times> ws_conn" where
  "default_ping message c =
     (case WriteControl PongMessage (text_bytes message) False c of
        (Some ErrCloseSent, c) \<Rightarrow> (None, c)
      | (Some (ErrNet m True t), c) \<Rightarrow> (None, c)
      | (err, c) \<Rightarrow> (err, c))"

definition default_handlers :: handlers where
  "default_handlers = \<lparr>handlePong = (\<lambda>_ c. (None, c)), handlePing = default_ping, handleClose = default_close\<rparr>"

section \<open>Reading a frame\<close>

text \<open>Step 1: the rest of the frame before.\<close>

definition skip_rest :: "unit ws_io" where
  "skip_rest c =
     (if wc_readRemaining c \<le> 0 then (Inr (), c)
      else if length (wc_in c) < nat (wc_readRemaining c) then (Inl (wc_end c), c\<lparr>wc_in := []\<rparr>)
      else (Inr (), c\<lparr>wc_in := drop (nat (wc_readRemaining c)) (wc_in c)\<rparr>))"

text \<open>Step 2: the first two bytes; the type of the frame.\<close>

definition frame_start :: "byte \<Rightarrow> byte \<Rightarrow> int ws_io" where
  "frame_start p0 p1 c =
     (let final = (p0 AND finalBit \<noteq> 0);
          frameType = uint (p0 AND 15);
          c = c\<lparr>wc_readRemaining := uint (p1 AND 127)\<rparr>;
          rsv = p0 AND (rsv1Bit OR rsv2Bit OR rsv3Bit)
      in if rsv \<noteq> 0 then handleProtocolError (''unexpected reserved bits 0x'' @ show_hex (uint rsv)) c
         else if isControl frameType then
           if int maxControlFramePayloadSize < wc_readRemaining c then handleProtocolError ''control frame length > 125'' c
           else if \<not> final then handleProtocolError ''control frame not final'' c
           else (Inr frameType, c)
         else if isData frameType then
           if \<not> wc_readFinal c then handleProtocolError ''message start before final message frame'' c
           else (Inr frameType, c\<lparr>wc_readFinal := final\<rparr>)
         else if frameType = continuationFrame then
           if wc_readFinal c then handleProtocolError ''continuation after final message frame'' c
           else (Inr frameType, c\<lparr>wc_readFinal := final\<rparr>)
         else handleProtocolError (''unknown opcode '' @ show_int frameType) c)"

text \<open>Step 3: an extended length.\<close>

definition frame_length :: "unit ws_io" where
  "frame_length c =
     (if wc_readRemaining c = 126 then and_then (ws_read 2) (\<lambda>p. setReadRemaining (int (be_val p))) c
      else if wc_readRemaining c = 127 then and_then (ws_read 8) (\<lambda>p. setReadRemaining (to_int64 (int (be_val p)))) c
      else (Inr (), c))"

text \<open>Step 4: the mask key.\<close>

definition frame_mask :: "bool \<Rightarrow> unit ws_io" where
  "frame_mask masked c =
     (if masked \<noteq> wc_isServer c then handleProtocolError ''incorrect mask flag'' c
      else if masked then
        and_then (ws_read 4) (\<lambda>p c. (Inr (), c\<lparr>wc_readMaskKey := p\<rparr>)) (c\<lparr>wc_readMaskPos := 0\<rparr>)
      else (Inr (), c))"

text \<open>Step 5: the limit of a message.\<close>

definition count_length :: "int \<Rightarrow> int ws_io" where
  "count_length frameType c =
     (let c = c\<lparr>wc_readLength := to_int64 (wc_readLength c + wc_readRemaining c)\<rparr>
      in if wc_readLength c < 0 then (Inl ErrReadLimit, c)
         else if 0 < wc_readLimit c \<and> wc_readLimit c < wc_readLength c
         then (Inl ErrReadLimit, snd (WriteControl CloseMessage (FormatCloseMessage CloseMessageTooBig []) False c))
         else (Inr frameType, c))"

text \<open>Step 6: the payload of a control frame.\<close>

definition control_payload :: "byte list ws_io" where
  "control_payload c =
     (if wc_readRemaining c \<le> 0 then (Inr [], c)
      else case ws_read (nat (wc_readRemaining c)) c of
             (Inl e, c) \<Rightarrow> (Inl e, c\<lparr>wc_readRemaining := 0\<rparr>)
           | (Inr p, c) \<Rightarrow>
               (Inr (if wc_isServer c then fst (maskBytes 0 (wc_readMaskKey c) 0 p) else p), c\<lparr>wc_readRemaining := 0\<rparr>))"

text \<open>Step 7: what a control frame does.\<close>

definition handled :: "int \<Rightarrow> ws_error option \<times> ws_conn \<Rightarrow> (ws_error + int) \<times> ws_conn" where
  "handled frameType r = (case r of (Some e, c) \<Rightarrow> (Inl e, c) | (None, c) \<Rightarrow> (Inr frameType, c))"

definition control_frame :: "handlers \<Rightarrow> int \<Rightarrow> byte list \<Rightarrow> int ws_io" where
  "control_frame h frameType payload c =
     (if frameType = PongMessage then handled frameType (handlePong h (bytes_text payload) c)
      else if frameType = PingMessage then handled frameType (handlePing h (bytes_text payload) c)
      else
        let code = (if 2 \<le> length payload then int (be_val (take 2 payload)) else CloseNoStatusReceived);
            msg = bytes_text (drop 2 payload)
        in if 2 \<le> length payload \<and> \<not> isValidReceivedCloseCode code then handleProtocolError ''invalid close code'' c
           else if 2 \<le> length payload \<and> \<not> utf8_valid msg then handleProtocolError ''invalid utf8 payload in close frame'' c
           else case handleClose h code msg c of
                  (Some e, c) \<Rightarrow> (Inl e, c)
                | (None, c) \<Rightarrow> (Inl (CloseError code msg), c))"

definition advanceFrame :: "handlers \<Rightarrow> int ws_io" where
  "advanceFrame h =
     and_then skip_rest (\<lambda>_.
     and_then (ws_read 2) (\<lambda>p.
     and_then (frame_start (p ! 0) (p ! 1)) (\<lambda>frameType.
     and_then frame_length (\<lambda>_.
     and_then (frame_mask (p ! 1 AND maskBit \<noteq> 0)) (\<lambda>_.
       if frameType = continuationFrame \<or> isData frameType then count_length frameType
       else and_then control_payload (control_frame h frameType))))))"

section \<open>Reading messages\<close>

text \<open>The loop of \<open>NextReader\<close>; \<open>None\<close> inside is an error, which the connection keeps.\<close>

partial_function (option) next_loop :: "handlers \<Rightarrow> ws_conn \<Rightarrow> (int option \<times> ws_conn) option" where
  "next_loop h c =
     (if wc_readErr c \<noteq> None then Some (None, c)
      else case advanceFrame h c of
             (Inl e, c) \<Rightarrow> Some (None, c\<lparr>wc_readErr := Some (hideTempErr e)\<rparr>)
           | (Inr frameType, c) \<Rightarrow>
               if isData frameType then Some (Some frameType, c) else next_loop h c)"

datatype next_result = NextMessage int nat | NextError ws_error | NextPanic

definition NextReader :: "handlers \<Rightarrow> ws_conn \<Rightarrow> (next_result \<times> ws_conn) option" where
  "NextReader h c =
     (case next_loop h (c\<lparr>wc_messageReader := None, wc_readLength := 0\<rparr>) of
        None \<Rightarrow> None
      | Some (Some frameType, c) \<Rightarrow>
          let r = wc_nextReader c
          in Some (NextMessage frameType r, c\<lparr>wc_nextReader := Suc r, wc_messageReader := Some r\<rparr>)
      | Some (None, c) \<Rightarrow>
          let c = c\<lparr>wc_readErrCount := wc_readErrCount c + 1\<rparr>
          in Some (if 1000 \<le> wc_readErrCount c then NextPanic else NextError (the (wc_readErr c)), c))"

text \<open>
  \<open>messageReader.Read\<close> into a slice of \<open>len\<close> bytes, or as many as the network has ready, whichever is
  less: the bytes and the error.
\<close>

definition read_chunk :: "nat \<Rightarrow> ws_conn \<Rightarrow> (byte list \<times> ws_error option) \<times> ws_conn" where
  "read_chunk len c =
     (let b = take (min len (nat (wc_readRemaining c))) (wc_in c);
          err = (if wc_in c = [] then Some (hideTempErr (wc_end c)) else None);
          (x, pos) = (if wc_isServer c then maskBytes 0 (wc_readMaskKey c) (wc_readMaskPos c) b else (b, wc_readMaskPos c));
          rem = wc_readRemaining c - int (length b);
          err = (if 0 < rem \<and> err = Some ErrEOF then Some errUnexpectedEOF else err)
      in ((x, err), c\<lparr>wc_in := drop (length b) (wc_in c), wc_readErr := err, wc_readMaskPos := pos, wc_readRemaining := rem\<rparr>))"

partial_function (option) read_loop :: "handlers \<Rightarrow> nat \<Rightarrow> nat \<Rightarrow> ws_conn \<Rightarrow> ((byte list \<times> ws_error option) \<times> ws_conn) option"
where
  "read_loop h r len c =
     (case wc_readErr c of
        Some e \<Rightarrow> Some (([], Some (if e = ErrEOF \<and> wc_messageReader c = Some r then errUnexpectedEOF else e)), c)
      | None \<Rightarrow>
          if 0 < wc_readRemaining c then Some (read_chunk len c)
          else if wc_readFinal c then Some (([], Some ErrEOF), c\<lparr>wc_messageReader := None\<rparr>)
          else case advanceFrame h c of
                 (Inl e, c) \<Rightarrow> read_loop h r len (c\<lparr>wc_readErr := Some (hideTempErr e)\<rparr>)
               | (Inr frameType, c) \<Rightarrow>
                   if isData frameType
                   then read_loop h r len (c\<lparr>wc_readErr :=
                          Some (ErrNew ''websocket: internal error, unexpected text or binary in Reader'')\<rparr>)
                   else read_loop h r len c)"

definition mr_Read :: "handlers \<Rightarrow> nat \<Rightarrow> nat \<Rightarrow> ws_conn \<Rightarrow> ((byte list \<times> ws_error option) \<times> ws_conn) option" where
  "mr_Read h r len c =
     (if wc_messageReader c \<noteq> Some r then Some (([], Some ErrEOF), c) else read_loop h r len c)"

text \<open>\<open>ReadAll\<close>: read number \<open>i\<close> gets at most \<open>Suc (sizes i)\<close> bytes.\<close>

partial_function (option) read_all ::
  "handlers \<Rightarrow> nat \<Rightarrow> (nat \<Rightarrow> nat) \<Rightarrow> byte list \<Rightarrow> ws_conn \<Rightarrow> ((byte list \<times> ws_error option) \<times> ws_conn) option"
where
  "read_all h r sizes acc c =
     (case mr_Read h r (Suc (sizes 0)) c of
        None \<Rightarrow> None
      | Some ((b, Some e), c) \<Rightarrow> Some ((acc @ b, if e = ErrEOF then None else Some e), c)
      | Some ((b, None), c) \<Rightarrow> read_all h r (\<lambda>i. sizes (Suc i)) (acc @ b) c)"

datatype read_result = ReadGives int "byte list" "ws_error option" | ReadFails ws_error | ReadPanics

definition ReadMessage :: "handlers \<Rightarrow> (nat \<Rightarrow> nat) \<Rightarrow> ws_conn \<Rightarrow> (read_result \<times> ws_conn) option" where
  "ReadMessage h sizes c =
     (case NextReader h c of
        None \<Rightarrow> None
      | Some (NextMessage t r, c) \<Rightarrow>
          (case read_all h r sizes [] c of
             None \<Rightarrow> None
           | Some ((b, err), c) \<Rightarrow> Some (ReadGives t b err, c))
      | Some (NextError e, c) \<Rightarrow> Some (ReadFails e, c)
      | Some (NextPanic, c) \<Rightarrow> Some (ReadPanics, c))"

end
