(* ===== verification/Ws_Session.thy ===== *)
theory Ws_Session
  imports Ws_Read
begin

text \<open>
  Calls on a web socket connection end: the loops over frames and over the buffer come to an end whatever
  the peer sends, and the one panic is that of the thousandth attempt to read after an error.
\<close>

section \<open>Steps of reading\<close>

text \<open>Two connections that read alike; a handler may send, but not read.\<close>

definition reader_of where
  "reader_of c =
     (wc_isServer c, wc_in c, wc_end c, wc_readErr c, wc_readRemaining c, wc_readFinal c, wc_readLength c,
      wc_readLimit c, wc_readMaskPos c, wc_readMaskKey c, wc_readErrCount c, wc_nextReader c, wc_messageReader c)"

lemma reader_of_eq [simp]:
  "reader_of c' = reader_of c \<longleftrightarrow>
     wc_isServer c' = wc_isServer c \<and> wc_in c' = wc_in c \<and> wc_end c' = wc_end c \<and> wc_readErr c' = wc_readErr c \<and>
     wc_readRemaining c' = wc_readRemaining c \<and> wc_readFinal c' = wc_readFinal c \<and> wc_readLength c' = wc_readLength c \<and>
     wc_readLimit c' = wc_readLimit c \<and> wc_readMaskPos c' = wc_readMaskPos c \<and> wc_readMaskKey c' = wc_readMaskKey c \<and>
     wc_readErrCount c' = wc_readErrCount c \<and> wc_nextReader c' = wc_nextReader c \<and> wc_messageReader c' = wc_messageReader c"
  by (auto simp: reader_of_def)

lemma net_Write_reader: "reader_of (snd (net_Write b c)) = reader_of c"
  by (simp add: net_Write_def split: list.split option.split prod.split)

lemma send_frame_reader: "reader_of (snd (send_frame t b c)) = reader_of c"
  using net_Write_reader [of b c]
  by (simp add: send_frame_def writeFatal_def Let_def case_prod_beta split: option.split)

lemma WriteControl_reader: "reader_of (snd (WriteControl t d late c)) = reader_of c"
proof -
  have "reader_of (snd (send_frame t b (c\<lparr>wc_rand := f\<rparr>))) = reader_of c" for b f
    using send_frame_reader [of t b "c\<lparr>wc_rand := f\<rparr>"] by simp
  then show ?thesis
    using send_frame_reader [of t _ c] by (simp add: WriteControl_def newMaskKey_def Let_def)
qed

text \<open>What a step of reading consumes at least, if it succeeds, and what it keeps in any case.\<close>

definition keeps_session :: "ws_conn \<Rightarrow> ws_conn \<Rightarrow> bool" where
  "keeps_session c c' \<longleftrightarrow>
     wc_isServer c' = wc_isServer c \<and> wc_end c' = wc_end c \<and> wc_readErr c' = wc_readErr c \<and>
     wc_readLimit c' = wc_readLimit c \<and> wc_readErrCount c' = wc_readErrCount c \<and> wc_nextReader c' = wc_nextReader c \<and>
     wc_messageReader c' = wc_messageReader c"

definition consumes :: "nat \<Rightarrow> 'a ws_io \<Rightarrow> bool" where
  "consumes k m \<longleftrightarrow>
     (\<forall>c. keeps_session c (snd (m c)) \<and> (is_ok (fst (m c)) \<longrightarrow> length (wc_in (snd (m c))) + k \<le> length (wc_in c)))"

lemma consumesI:
  "(\<And>c. keeps_session c (snd (m c))) \<Longrightarrow>
   (\<And>c. is_ok (fst (m c)) \<Longrightarrow> length (wc_in (snd (m c))) + k \<le> length (wc_in c)) \<Longrightarrow> consumes k m"
  by (simp add: consumes_def)

lemma consumes_then:
  assumes "consumes j m" "\<And>x. consumes k (f x)"
  shows "consumes (j + k) (and_then m f)"
proof (rule consumesI)
  fix c
  obtain r c' where m: "m c = (r, c')" by fastforce
  have k1: "keeps_session c c'" using assms(1) m by (metis consumes_def snd_conv)
  show "keeps_session c (snd (and_then m f c))"
  proof (cases r)
    case (Inr x)
    have "keeps_session c' (snd (f x c'))" using assms(2) by (simp add: consumes_def)
    with k1 show ?thesis by (simp add: and_then_def m Inr keeps_session_def)
  qed (simp add: and_then_def m k1)
  assume ok: "is_ok (fst (and_then m f c))"
  then obtain x where Inr: "r = Inr x" by (cases r) (simp_all add: and_then_def m)
  then have f: "is_ok (fst (f x c'))" "and_then m f c = f x c'" using ok by (simp_all add: and_then_def m)
  have "length (wc_in c') + j \<le> length (wc_in c)" using assms(1) m Inr by (metis consumes_def fst_conv snd_conv is_ok.simps(2))
  moreover have "length (wc_in (snd (f x c'))) + k \<le> length (wc_in c')" using assms(2) f(1) by (simp add: consumes_def)
  ultimately show "length (wc_in (snd (and_then m f c))) + (j + k) \<le> length (wc_in c)" using f(2) by simp
qed

lemma consumes_weaken: "consumes k m \<Longrightarrow> j \<le> k \<Longrightarrow> consumes j m"
  by (auto simp: consumes_def)

lemma consumes_read [simp]: "consumes n (ws_read n)"
  by (auto simp: consumes_def ws_read_def keeps_session_def)

lemma consumes_remaining [simp]: "consumes 0 (setReadRemaining n)"
  by (auto simp: consumes_def setReadRemaining_def keeps_session_def)

lemma consumes_skip [simp]: "consumes 0 skip_rest"
  by (auto simp: consumes_def skip_rest_def keeps_session_def)

lemma protocol_error_facts:
  "fst (handleProtocolError m c) = Inl (ErrNew (''websocket: '' @ m))"
  "reader_of (snd (handleProtocolError m c)) = reader_of c"
  using WriteControl_reader [of CloseMessage _ False c] by (simp_all add: handleProtocolError_def)

lemma reader_of_keeps: "reader_of c' = reader_of c \<Longrightarrow> keeps_session c c'"
  by (simp add: keeps_session_def)

lemma keeps_refl [simp]: "keeps_session c c"
  by (simp add: keeps_session_def)

lemma protocol_error_keeps: "keeps_session c (snd (handleProtocolError m c))"
  by (rule reader_of_keeps [OF protocol_error_facts(2)])

lemma keeps_session_update:
  "keeps_session (c\<lparr>wc_readRemaining := n\<rparr>) c' \<longleftrightarrow> keeps_session c c'"
  "keeps_session (c\<lparr>wc_readLength := n\<rparr>) c' \<longleftrightarrow> keeps_session c c'"
  "keeps_session (c\<lparr>wc_readMaskPos := p\<rparr>) c' \<longleftrightarrow> keeps_session c c'"
  by (simp_all add: keeps_session_def)

lemma consumes_start [simp]: "consumes 0 (frame_start p0 p1)"
proof (rule consumesI)
  fix c
  have e: "keeps_session c (snd (handleProtocolError m (c\<lparr>wc_readRemaining := n\<rparr>)))" for m n
    using protocol_error_keeps [of "c\<lparr>wc_readRemaining := n\<rparr>" m] by (simp add: keeps_session_update)
  show "keeps_session c (snd (frame_start p0 p1 c))"
    by (simp add: frame_start_def Let_def e) (simp add: keeps_session_def)
  show "is_ok (fst (frame_start p0 p1 c)) \<Longrightarrow> length (wc_in (snd (frame_start p0 p1 c))) + 0 \<le> length (wc_in c)"
    by (auto simp: frame_start_def Let_def protocol_error_facts split: if_splits)
qed

lemma consumes_length [simp]: "consumes 0 frame_length"
proof -
  have "consumes 0 (and_then (ws_read n) (\<lambda>p. setReadRemaining (f p)))" for n f
    using consumes_then [of n "ws_read n" 0 "\<lambda>p. setReadRemaining (f p)"] by (auto intro: consumes_weaken)
  then show ?thesis
    by (simp add: consumes_def frame_length_def keeps_session_def)
qed

lemma consumes_mask [simp]: "consumes 0 (frame_mask b)"
proof (rule consumesI)
  fix c
  let ?m = "and_then (ws_read 4) (\<lambda>p c. (Inr (), c\<lparr>wc_readMaskKey := p\<rparr>))"
  have "consumes (4 + 0) ?m"
    by (rule consumes_then [OF consumes_read]) (simp add: consumes_def keeps_session_def)
  then have m: "keeps_session c (snd (?m (c\<lparr>wc_readMaskPos := 0\<rparr>)))"
    "is_ok (fst (?m (c\<lparr>wc_readMaskPos := 0\<rparr>))) \<Longrightarrow> length (wc_in (snd (?m (c\<lparr>wc_readMaskPos := 0\<rparr>)))) + 4 \<le> length (wc_in c)"
    using keeps_session_update(3) [where c = c and p = 0] by (auto simp: consumes_def)
  show "keeps_session c (snd (frame_mask b c))"
    using m(1) by (simp add: frame_mask_def protocol_error_keeps)
  show "is_ok (fst (frame_mask b c)) \<Longrightarrow> length (wc_in (snd (frame_mask b c))) + 0 \<le> length (wc_in c)"
    using m(2) by (auto simp: frame_mask_def protocol_error_facts split: if_splits)
qed

lemma consumes_count [simp]: "consumes 0 (count_length t)"
proof (rule consumesI)
  fix c
  have w: "reader_of (snd (WriteControl CloseMessage d False (c\<lparr>wc_readLength := n\<rparr>))) = reader_of (c\<lparr>wc_readLength := n\<rparr>)" for d n
    by (rule WriteControl_reader)
  show "keeps_session c (snd (count_length t c))"
    using w by (simp add: count_length_def Let_def keeps_session_def)
  show "is_ok (fst (count_length t c)) \<Longrightarrow> length (wc_in (snd (count_length t c))) + 0 \<le> length (wc_in c)"
    by (auto simp: count_length_def Let_def split: if_splits)
qed

lemma consumes_payload [simp]: "consumes 0 control_payload"
  by (auto simp: consumes_def control_payload_def ws_read_def keeps_session_def)

section \<open>Handlers that do not read\<close>

text \<open>How an attempt to read may end, early and late.\<close>

definition panics_late :: "'r \<Rightarrow> 'r \<Rightarrow> (ws_error \<Rightarrow> 'r) \<Rightarrow> bool \<Rightarrow> bool" where
  "panics_late r panic fails early \<longleftrightarrow> (if early then r \<noteq> panic else \<forall>e. r \<noteq> fails e)"


locale frame_handlers =
  fixes h :: handlers
  assumes pong: "reader_of (snd (handlePong h p c)) = reader_of c"
    and ping: "reader_of (snd (handlePing h p c)) = reader_of c"
    and close: "reader_of (snd (handleClose h code msg c)) = reader_of c"
begin

lemma control_frame_reader: "reader_of (snd (control_frame h t p c)) = reader_of c"
proof -
  have e: "reader_of (snd (handleProtocolError m c)) = reader_of c" for m
    by (rule protocol_error_facts(2))
  show ?thesis
    by (simp add: control_frame_def handled_def case_prod_beta Let_def e pong ping close split: option.split del: reader_of_eq)
qed

lemma consumes_control: "consumes 0 (control_frame h t p)"
  using control_frame_reader [of t p] by (simp add: consumes_def keeps_session_def)

lemma advance_consumes: "consumes 2 (advanceFrame h)"
proof -
  have pay: "consumes 0 (and_then control_payload (control_frame h t))" for t
    using consumes_then [OF consumes_payload consumes_control] by simp
  have zero: "consumes 0 m \<Longrightarrow> (\<And>x. consumes 0 (f x)) \<Longrightarrow> consumes 0 (and_then m f)" for m :: "'x ws_io" and f :: "'x \<Rightarrow> 'y ws_io"
    using consumes_then [of 0 m 0 f] by simp
  have "consumes (0 + (2 + 0)) (advanceFrame h)"
    unfolding advanceFrame_def
    by (intro consumes_then consumes_skip consumes_read) (auto intro!: zero simp: pay)
  then show ?thesis by (rule consumes_weaken) simp
qed

lemma advance_keeps: "keeps_session c (snd (advanceFrame h c))"
  using advance_consumes by (simp add: consumes_def)

lemma advance_shorter: "advanceFrame h c = (Inr t, c') \<Longrightarrow> length (wc_in c') < length (wc_in c)"
proof -
  assume a: "advanceFrame h c = (Inr t, c')"
  have "is_ok (fst (advanceFrame h c)) \<longrightarrow> length (wc_in (snd (advanceFrame h c))) + 2 \<le> length (wc_in c)"
    using advance_consumes unfolding consumes_def by blast
  then show ?thesis by (simp add: a)
qed

text \<open>
  Every call ends, and only a call that finds no message panics, if at least 999 others found none before.
\<close>

lemma next_loop_returns:
  "\<exists>x c'. next_loop h c = Some (x, c') \<and> wc_readErrCount c' = wc_readErrCount c"
proof (induction "length (wc_in c)" arbitrary: c rule: less_induct)
  case less
  obtain x c1 where a: "advanceFrame h c = (x, c1)" by (cases "advanceFrame h c")
  have k: "wc_readErrCount c1 = wc_readErrCount c"
    using advance_keeps [of c] by (simp add: a keeps_session_def)
  show ?case
  proof (cases x)
    case (Inl e)
    then show ?thesis using k by (subst next_loop.simps) (simp add: a)
  next
    case (Inr t)
    then show ?thesis
      using less [OF advance_shorter [of c t c1]] a k by (subst next_loop.simps) simp
  qed
qed

lemma NextReader_returns:
  "\<exists>r c'. NextReader h c = Some (r, c') \<and> panics_late r NextPanic NextError (wc_readErrCount c < 999)"
proof -
  obtain x c' where "next_loop h (c\<lparr>wc_messageReader := None, wc_readLength := 0\<rparr>) = Some (x, c')"
      "wc_readErrCount c' = wc_readErrCount c"
    using next_loop_returns [of "c\<lparr>wc_messageReader := None, wc_readLength := 0\<rparr>"] by auto
  then show ?thesis
    by (cases x) (auto simp: NextReader_def Let_def panics_late_def)
qed

lemma read_loop_stops: "wc_readErr c = Some e \<Longrightarrow> \<exists>e'. read_loop h r n c = Some (([], Some e'), c)"
  by (subst read_loop.simps) auto

text \<open>A read that gives no error has consumed something.\<close>

lemma read_loop_returns:
  "0 < n \<Longrightarrow> \<exists>b err c'. read_loop h r n c = Some ((b, err), c') \<and> (err = None \<longrightarrow> length (wc_in c') < length (wc_in c))"
proof (induction "length (wc_in c)" arbitrary: c rule: less_induct)
  case less
  show ?case
  proof (cases "wc_readErr c = None \<and> wc_readRemaining c \<le> 0 \<and> \<not> wc_readFinal c")
    case False
    then show ?thesis
      using \<open>0 < n\<close>
      by (subst read_loop.simps) (auto simp: read_chunk_def Let_def case_prod_beta split: option.split)
  next
    case True
    obtain x c' where a: "advanceFrame h c = (x, c')" by fastforce
    show ?thesis
    proof (cases x)
      case (Inl e)
      with True a show ?thesis
        using read_loop_stops [of "c'\<lparr>wc_readErr := Some (hideTempErr e)\<rparr>" "hideTempErr e" r n]
        by (subst read_loop.simps) auto
    next
      case (Inr t)
      have sh: "length (wc_in c') < length (wc_in c)" using advance_shorter a Inr by blast
      show ?thesis
      proof (cases "isData t")
        case dat: True
        with True a Inr show ?thesis
          using read_loop_stops [of "c'\<lparr>wc_readErr := Some (ErrNew ''websocket: internal error, unexpected text or binary in Reader'')\<rparr>" _ r n]
          by (subst read_loop.simps) auto
      next
        case dat: False
        have "read_loop h r n c = read_loop h r n c'"
          using True a Inr dat by (subst read_loop.simps) simp
        then show ?thesis using less(1) [OF sh less(2)] sh by fastforce
      qed
    qed
  qed
qed

lemma mr_Read_returns:
  "0 < n \<Longrightarrow> \<exists>b err c'. mr_Read h r n c = Some ((b, err), c') \<and> (err = None \<longrightarrow> length (wc_in c') < length (wc_in c))"
  using read_loop_returns [of n r c] by (simp add: mr_Read_def)

lemma read_all_returns: "\<exists>r. read_all h m sizes acc c = Some r"
proof (induction "length (wc_in c)" arbitrary: c sizes acc rule: less_induct)
  case less
  obtain b err c' where r: "mr_Read h m (Suc (sizes 0)) c = Some ((b, err), c')"
      "err = None \<Longrightarrow> length (wc_in c') < length (wc_in c)"
    using mr_Read_returns [of "Suc (sizes 0)" m c] by auto
  then show ?case
    using less [OF r(2)] by (subst read_all.simps) (auto split: option.split)
qed

lemma ReadMessage_returns:
  "\<exists>r c'. ReadMessage h sizes c = Some (r, c') \<and> panics_late r ReadPanics ReadFails (wc_readErrCount c < 999)"
proof -
  obtain x c' where n: "NextReader h c = Some (x, c')" "panics_late x NextPanic NextError (wc_readErrCount c < 999)"
    using NextReader_returns [of c] by auto
  have "\<exists>b err d. read_all h r sizes [] c' = Some ((b, err), d)" for r
    using read_all_returns [of r sizes "[]" c'] by auto
  then show ?thesis
    using n(2) by (cases x) (auto simp: ReadMessage_def n(1) panics_late_def split: option.split if_splits)
qed

end

interpretation default: frame_handlers default_handlers
proof unfold_locales
  fix p c code msg
  have "snd (default_ping p c) = snd (WriteControl PongMessage (text_bytes p) False c)"
    by (simp add: default_ping_def split: prod.split option.split ws_error.split bool.split)
  then show "reader_of (snd (handlePing default_handlers p c)) = reader_of c"
    using WriteControl_reader [of PongMessage "text_bytes p" False c] by (simp add: default_handlers_def del: reader_of_eq)
  show "reader_of (snd (handleClose default_handlers code msg c)) = reader_of c"
    using WriteControl_reader by (simp add: default_handlers_def default_close_def del: reader_of_eq)
qed (simp add: default_handlers_def)

section \<open>Writing\<close>

lemma net_Write_keeps [simp]:
  "wc_bufCap (snd (net_Write b c)) = wc_bufCap c" "wc_writers (snd (net_Write b c)) = wc_writers c"
  "wc_writeErr (snd (net_Write b c)) = wc_writeErr c"
  by (simp_all add: net_Write_def split: list.split option.split prod.split)

lemma send_frame_keeps [simp]:
  "wc_bufCap (snd (send_frame t b c)) = wc_bufCap c" "wc_writers (snd (send_frame t b c)) = wc_writers c"
  by (simp_all add: send_frame_def writeFatal_def Let_def case_prod_beta split: option.split)

lemma endMessage_keeps [simp]: "wc_bufCap (endMessage w e c) = wc_bufCap c"
  by (simp add: endMessage_def split: option.split)

lemma flushFrame_cap [simp]: "wc_bufCap (snd (flushFrame w final extra c)) = wc_bufCap c"
  by (simp add: flushFrame_def newMaskKey_def writeFatal_def ws_write_def Let_def case_prod_beta split: option.split)

lemma flushFrame_capD: "flushFrame w final extra c = (r, c') \<Longrightarrow> wc_bufCap c' = wc_bufCap c"
  using flushFrame_cap [of w final extra c] by (simp del: flushFrame_cap)

lemma flushFrame_empties: "flushFrame w False extra c = (None, c') \<Longrightarrow> mw_data (wc_writers c' w) = []"
  by (auto simp: flushFrame_def Let_def split: if_splits option.splits prod.splits)

lemma mw_Close_cap [simp]: "wc_bufCap (snd (mw_Close w c)) = wc_bufCap c"
  by (simp add: mw_Close_def split: option.split)

lemma beginMessage_cap [simp]: "wc_bufCap (snd (beginMessage t c)) = wc_bufCap c"
  by (simp add: beginMessage_def Let_def split: option.split)

lemma flushFrame_nextD: "flushFrame w False extra c = (None, c') \<Longrightarrow> mw_data (wc_writers c' w) = [] \<and> wc_bufCap c' = wc_bufCap c"
  using flushFrame_capD flushFrame_empties by blast

lemma beginMessage_capD: "beginMessage t c = (r, c') \<Longrightarrow> wc_bufCap c' = wc_bufCap c"
  using beginMessage_cap [of t c] by (simp del: beginMessage_cap)

lemma write_loop_returns: "0 < wc_bufCap c \<Longrightarrow> \<exists>r. write_loop w p c = Some r"
proof (induction "length p" arbitrary: p c rule: less_induct)
  case less
  obtain x c' where n: "ncopy w (length p) c = (x, c')" by fastforce
  have cap: "wc_bufCap c' = wc_bufCap c"
    using n by (auto simp: ncopy_def Let_def dest: flushFrame_capD split: if_splits option.splits prod.splits)
  have pos: "0 < k" if "x = Inr k" "p \<noteq> []" for k
    using n that less(2)
    by (auto simp: ncopy_def Let_def dest: flushFrame_nextD split: if_splits option.splits prod.splits)
  show ?case
  proof (cases "p = []")
    case False
    have "\<exists>r. write_loop w (drop k p) (put_data w (take k p) c') = Some r" if "x = Inr k" for k
      using less(1) [of "drop k p" "put_data w (take k p) c'"] less(2) pos [OF that False] False cap by (simp add: put_data_def)
    then show ?thesis
      using False n by (subst write_loop.simps) (auto split: sum.split)
  qed (simp add: write_loop.simps)
qed

lemma WriteMessage_returns:
  assumes "0 < wc_bufCap c"
  shows "\<exists>r. WriteMessage t d c = Some r"
proof (cases "wc_isServer c")
  case False
  obtain x c1 where n: "NextWriter t c = (x, c1)" by fastforce
  then have c1: "wc_bufCap c1 = wc_bufCap c"
    by (auto simp: NextWriter_def dest: beginMessage_capD split: prod.splits sum.splits)
  have "\<exists>r. mw_Write w d c1 = Some r" for w
    using write_loop_returns [of c1 w d] c1 assms by (simp add: mw_Write_def split: option.split)
  then obtain r where r: "\<And>w. mw_Write w d c1 = Some (r w)" by metis
  show ?thesis
    using False by (simp add: WriteMessage_def n r split: sum.split prod.split option.split)
qed (auto simp: WriteMessage_def Let_def split: prod.split sum.split)

text \<open>
  C25: Calls end, whatever bytes the peer sends before the connection ends and whatever the state of the
  connection: \<open>NextReader\<close> and \<open>ReadMessage\<close> do, since every frame that is read takes at least two bytes and every
  read of a message at least one, and \<open>WriteMessage\<close> does if the buffer has room for one byte besides the
  header, as that of every connection has. They end by returning, with one exception, which the code makes on
  purpose: an attempt to read that finds no message panics if 999 or more before it found none, and then it never
  returns an error; with fewer of them, as on a new connection, no call panics.
\<close>
theorem ws_calls_return:
  assumes "0 < wc_bufCap c" "new = newConn server bufSize rnd net input end_error"
  shows "(\<exists>r c'. NextReader default_handlers c = Some (r, c') \<and>
      (if wc_readErrCount c < 999 then r \<noteq> NextPanic else \<nexists>e. r = NextError e)) \<and>
    (\<exists>r c'. ReadMessage default_handlers sizes c = Some (r, c') \<and>
      (if wc_readErrCount c < 999 then r \<noteq> ReadPanics else \<nexists>e. r = ReadFails e)) \<and>
    (\<exists>r. WriteMessage t d c = Some r) \<and> 0 < wc_bufCap new \<and> wc_readErrCount new = 0"
  using default.NextReader_returns [of c] default.ReadMessage_returns [of sizes c] WriteMessage_returns [OF assms(1)]
  unfolding panics_late_def assms(2)
  by (cases "wc_readErrCount c < 999") (simp_all add: newConn_def defaultWriteBufferSize_def)

theorem ws_calls_return_witness:
  "\<exists>c. c = newConn True 0 (\<lambda>_. 7) [] [0x81, 0x85, 1, 2] ErrEOF \<and>
   (\<exists>r c'. ReadMessage default_handlers (\<lambda>_. 0) c = Some (r, c') \<and> r \<noteq> ReadPanics) \<and> (\<exists>r. WriteMessage 1 [65] c = Some r) \<and>
   (\<exists>r c'. ReadMessage default_handlers (\<lambda>_. 0) (c\<lparr>wc_readErrCount := 999\<rparr>) = Some (r, c') \<and> (\<nexists>e. r = ReadFails e))"
proof -
  let ?c = "newConn True 0 (\<lambda>_. 7) [] [0x81, 0x85, 1, 2] ErrEOF"
  have b: "0 < wc_bufCap ?c" "0 < wc_bufCap (?c\<lparr>wc_readErrCount := 999\<rparr>)" "wc_readErrCount ?c < 999"
    by (simp_all add: newConn_def defaultWriteBufferSize_def)
  show ?thesis
    using ws_calls_return [OF b(1) refl, of "\<lambda>_. 0" 1 "[65]"] ws_calls_return [OF b(2) refl, of "\<lambda>_. 0" 1 "[65]"]
    unfolding if_P [OF b(3)] by (intro exI [of _ ?c]) simp
qed

end
