(* ===== verification/Ws_Roundtrip.thy ===== *)
theory Ws_Roundtrip
  imports Ws_Session
begin

text \<open>
  Messages over web sockets arrive as they were sent: the frames of a message on the wire, what the
  writer makes of a message, and what the reader makes of its frames.
\<close>

section \<open>Frames on the wire\<close>

definition frame_bytes :: "bool \<Rightarrow> bool \<Rightarrow> int \<Rightarrow> byte list \<Rightarrow> byte list \<Rightarrow> byte list" where
  "frame_bytes server final t key p =
     frame_header (word_of_int t OR (if final then finalBit else 0)) (if server then 0 else maskBit) (length p) @
     (if server then p else key @ fst (mask_each key 0 p))"

text \<open>The frames of a message, each with its mask key and its part of the message.\<close>

fun wire_parts :: "bool \<Rightarrow> int \<Rightarrow> (byte list \<times> byte list) list \<Rightarrow> byte list" where
  "wire_parts server t [] = []"
| "wire_parts server t ((key, p) # fs) = frame_bytes server False t key p @ wire_parts server continuationFrame fs"

fun wire_msg :: "bool \<Rightarrow> int \<Rightarrow> (byte list \<times> byte list) list \<Rightarrow> byte list" where
  "wire_msg server t [] = []"
| "wire_msg server t [(key, p)] = frame_bytes server True t key p"
| "wire_msg server t ((key, p) # f # fs) = frame_bytes server False t key p @ wire_msg server continuationFrame (f # fs)"

lemma wire_msg_snoc:
  "wire_msg server t (fs @ [(key, p)]) =
     wire_parts server t fs @ frame_bytes server True (if fs = [] then t else continuationFrame) key p"
proof (induction fs arbitrary: t)
  case (Cons f fs)
  then show ?case by (cases f; cases fs) auto
qed simp

lemma wire_parts_snoc:
  "wire_parts server t (fs @ [(key, p)]) =
     wire_parts server t fs @ frame_bytes server False (if fs = [] then t else continuationFrame) key p"
  by (induction fs arbitrary: t) auto

section \<open>Parsing a header\<close>

lemma low_bits:
  assumes "n < 128" "m = 0 \<or> m = (128 :: byte)"
  shows "uint ((m OR word_of_nat n) AND 127) = int n" "((m OR word_of_nat n) AND 128 \<noteq> 0) = (m \<noteq> 0)"
proof -
  let ?w = "word_of_nat n :: byte"
  have m7: "(mask 7 :: byte) = 127" by (simp add: mask_eq_exp_minus_1)
  have t7: "x AND 127 = take_bit 7 x" for x :: byte
    by (simp add: take_bit_eq_mask m7)
  have n: "take_bit 7 ?w = ?w"
    using assms(1) by (simp only: take_bit_of_nat) (simp add: take_bit_nat_eq_self)
  have z: "take_bit 7 m = 0" using assms(2) by auto
  have u: "uint ?w = int n"
    using assms(1) by (simp add: unsigned_of_nat take_bit_nat_eq_self)
  show "uint ((m OR ?w) AND 127) = int n"
    by (simp add: t7 n z u)
  have "?w AND 127 = ?w" by (simp add: t7 n)
  then have "?w AND 128 = ?w AND (127 AND 128)" by (metis and.assoc)
  also have "(127 :: byte) AND 128 = 0" by simp
  finally have "?w AND 128 = 0" by simp
  then have "(m OR ?w) AND 128 = m AND 128" by (simp add: bit.conj_disj_distrib2)
  then show "((m OR ?w) AND 128 \<noteq> 0) = (m \<noteq> 0)" using assms(2) by auto
qed

lemma maskBit_eq: "maskBit = 128" "finalBit = 128"
  by (simp_all add: maskBit_def finalBit_def)

lemma header_type:
  assumes "t \<in> {0, 1, 2}"
  shows "uint ((word_of_int t OR (if final then finalBit else 0)) AND 15 :: byte) = t"
    "((word_of_int t OR (if final then finalBit else 0)) AND finalBit \<noteq> (0 :: byte)) = final"
    "(word_of_int t OR (if final then finalBit else 0)) AND (rsv1Bit OR rsv2Bit OR rsv3Bit) = (0 :: byte)"
  using assms by (auto simp: finalBit_def rsv1Bit_def rsv2Bit_def rsv3Bit_def)

definition length_code :: "nat \<Rightarrow> nat" where
  "length_code n = (if 65536 \<le> n then 127 else if 125 < n then 126 else n)"

definition length_bytes :: "nat \<Rightarrow> byte list" where
  "length_bytes n = (if 65536 \<le> n then be_bytes 8 n else if 125 < n then be_bytes 2 n else [])"

lemma frame_header_parts: "frame_header b0 b1 n = [b0, b1 OR word_of_nat (length_code n)] @ length_bytes n"
  by (simp add: frame_header_def length_code_def length_bytes_def)

lemma ws_read_append: "length a = n \<Longrightarrow> wc_in c = a @ b \<Longrightarrow> ws_read n c = (Inr a, c\<lparr>wc_in := b\<rparr>)"
  by (simp add: ws_read_def)

lemma frame_length_ok:
  assumes "wc_readRemaining c = int (length_code n)" "wc_in c = length_bytes n @ b" "n < 2 ^ 63"
  shows "frame_length c = (Inr (), c\<lparr>wc_in := b, wc_readRemaining := int n\<rparr>)"
proof -
  have small: "to_int64 (int n) = int n" using assms(3) by (simp add: to_int64_id)
  have r: "ws_read (length a) c = (Inr a, c\<lparr>wc_in := b\<rparr>)" if "wc_in c = a @ b" for a
    by (rule ws_read_append [OF refl that])
  show ?thesis
    using assms(1,2) small assms(3) r [of "be_bytes 8 n"] r [of "be_bytes 2 n"]
    by (cases "65536 \<le> n"; cases "125 < n")
      (auto simp: frame_length_def length_code_def length_bytes_def and_then_def be_val_bytes setReadRemaining_def)
qed

lemma frame_mask_ok:
  assumes "wc_in c = (if wc_isServer c then key else []) @ b" "length key = 4"
  shows "frame_mask (wc_isServer c) c =
    (Inr (), if wc_isServer c then c\<lparr>wc_in := b, wc_readMaskPos := 0, wc_readMaskKey := key\<rparr> else c)"
  using assms by (simp add: frame_mask_def and_then_def ws_read_def)

text \<open>Reading the header of a frame of data.\<close>

lemma advance_data:
  assumes inp: "wc_in c = frame_bytes (\<not> wc_isServer c) final t key p @ rest"
    and st: "wc_readRemaining c = 0" "t \<in> {0, 1, 2}" "(t = 0) = (\<not> wc_readFinal c)" "length key = 4"
    and len: "0 \<le> wc_readLength c" "wc_readLength c + int (length p) < 2 ^ 63"
      "0 < wc_readLimit c \<Longrightarrow> wc_readLength c + int (length p) \<le> wc_readLimit c"
  shows "\<exists>c'. advanceFrame h c = (Inr t, c') \<and> keeps_session c c' \<and> wc_readRemaining c' = int (length p) \<and>
    wc_readFinal c' = final \<and> wc_readLength c' = wc_readLength c + int (length p) \<and>
    wc_in c' = (if wc_isServer c then fst (mask_each (wc_readMaskKey c') (wc_readMaskPos c') p) else p) @ rest"
proof -
  let ?s = "wc_isServer c"
  define b0 where "b0 = (word_of_int t OR (if final then finalBit else 0) :: byte)"
  define b1 where "b1 = ((if \<not> ?s then 0 else maskBit) OR word_of_nat (length_code (length p)) :: byte)"
  let ?body = "(if ?s then fst (mask_each key 0 p) else p) @ rest"
  have code: "length_code n < 128" for n by (simp add: length_code_def)
  have bits: "uint (b1 AND 127) = int (length_code (length p))" "(b1 AND maskBit \<noteq> 0) = ?s"
    using low_bits [OF code, of "if \<not> ?s then 0 else maskBit" "length p"] unfolding b1_def by (auto simp: maskBit_eq)
  have inp': "wc_in c = [b0, b1] @ length_bytes (length p) @ (if ?s then key else []) @ ?body"
    unfolding inp by (simp add: frame_bytes_def frame_header_parts b0_def b1_def)
  define c1 where "c1 = c\<lparr>wc_in := length_bytes (length p) @ (if ?s then key else []) @ ?body\<rparr>"
  define c2 where "c2 = c1\<lparr>wc_readRemaining := int (length_code (length p)), wc_readFinal := final\<rparr>"
  define c3 where "c3 = c2\<lparr>wc_in := (if ?s then key else []) @ ?body, wc_readRemaining := int (length p)\<rparr>"
  define c4 where "c4 = (if ?s then c3\<lparr>wc_in := ?body, wc_readMaskPos := 0, wc_readMaskKey := key\<rparr> else c3)"
  have a0: "skip_rest c = (Inr (), c)" using st by (simp add: skip_rest_def)
  have a1: "ws_read 2 c = (Inr [b0, b1], c1)" unfolding c1_def by (rule ws_read_append [OF _ inp']) simp
  have a2: "frame_start b0 b1 c1 = (Inr t, c2)"
    using st header_type [OF st(2), of final] bits(1)
    unfolding b0_def [symmetric]
    by (auto simp: frame_start_def c1_def c2_def Let_def isControl_def isData_def frame_types)
  have a3: "frame_length c2 = (Inr (), c3)"
    unfolding c3_def by (rule frame_length_ok) (use len in \<open>auto simp: c2_def c1_def\<close>)
  have a4: "frame_mask ?s c3 = (Inr (), c4)"
    using frame_mask_ok [of c3 key ?body] st(4) by (simp add: c4_def c3_def c2_def c1_def)
  define c5 where "c5 = c4\<lparr>wc_readLength := wc_readLength c + int (length p)\<rparr>"
  have "to_int64 (wc_readLength c + int (length p)) = wc_readLength c + int (length p)"
    using len by (intro to_int64_id) auto
  then have a5: "count_length t c4 = (Inr t, c5)"
    using len by (auto simp: count_length_def Let_def c5_def c4_def c3_def c2_def c1_def)
  have "advanceFrame h c = (Inr t, c5)"
    using st(2) by (auto simp: advanceFrame_def and_then_def a0 a1 a2 bits(2) a3 a4 a5 isData_def frame_types)
  moreover have "keeps_session c c5"
    by (simp add: c5_def c4_def c3_def c2_def c1_def keeps_session_def)
  ultimately show ?thesis
    by (intro exI [of _ c5]) (simp add: c5_def c4_def c3_def c2_def c1_def)
qed

section \<open>Reading the parts of a message\<close>

definition seen_as :: "ws_conn \<Rightarrow> byte list \<Rightarrow> byte list" where
  "seen_as c p = (if wc_isServer c then fst (mask_each (wc_readMaskKey c) (wc_readMaskPos c) p) else p)"

definition parts_length :: "(byte list \<times> byte list) list \<Rightarrow> nat" where
  "parts_length fs = length (concat (map snd fs))"

text \<open>A reader in the middle of a message: \<open>p\<close> is left of this frame, then come the frames \<open>fs\<close>.\<close>

definition in_message :: "nat \<Rightarrow> byte list \<Rightarrow> (byte list \<times> byte list) list \<Rightarrow> byte list \<Rightarrow> ws_conn \<Rightarrow> bool" where
  "in_message r p fs rest c \<longleftrightarrow>
     wc_readErr c = None \<and> wc_messageReader c = Some r \<and> wc_readRemaining c = int (length p) \<and>
     wc_readFinal c = (fs = []) \<and> wc_in c = seen_as c p @ wire_msg (\<not> wc_isServer c) continuationFrame fs @ rest \<and>
     list_all (\<lambda>f. length (fst f) = 4) fs \<and> 0 \<le> wc_readLength c \<and> wc_readLength c + int (parts_length fs) < 2 ^ 63 \<and>
     (0 < wc_readLimit c \<longrightarrow> wc_readLength c + int (parts_length fs) \<le> wc_readLimit c)"

definition idle :: "byte list \<Rightarrow> ws_conn \<Rightarrow> bool" where
  "idle inp c \<longleftrightarrow> wc_readErr c = None \<and> wc_readRemaining c = 0 \<and> wc_readFinal c \<and> wc_in c = inp"

lemma mask_take: "k \<le> length p \<Longrightarrow> take k (fst (mask_each key pos p)) = fst (mask_each key pos (take k p))"
  using mask_each_append [of key pos "take k p" "drop k p"] by (simp add: case_prod_beta)

lemma mask_drop: "k \<le> length p \<Longrightarrow> drop k (fst (mask_each key pos p)) = fst (mask_each key (pos + k) (drop k p))"
  using mask_each_append [of key pos "take k p" "drop k p"] by (simp add: case_prod_beta)

lemma chunk_read:
  assumes c: "in_message r p fs rest c" and p: "p \<noteq> []" "k = min n (length p)" "0 < n"
  shows "\<exists>c'. read_chunk n c = ((take k p, None), c') \<and> in_message r (drop k p) fs rest c' \<and>
    wc_isServer c' = wc_isServer c \<and> wc_readLimit c' = wc_readLimit c"
proof -
  have k: "k \<le> length p" "0 < k" "k \<le> n" using p by auto
  have "length (wc_in c) \<ge> length p" using c by (simp add: in_message_def seen_as_def)
  then have i: "wc_in c \<noteq> []" using p(1) by auto
  have b: "take (min n (nat (wc_readRemaining c))) (wc_in c) = seen_as c (take k p)"
    using c k p(2) by (auto simp: in_message_def seen_as_def mask_take min_def)
  have rr: "wc_readRemaining c = int (length p)" using c by (simp add: in_message_def)
  have len: "length (seen_as c (take k p)) = k" using k by (simp add: seen_as_def)
  have x: "(if wc_isServer c then maskBytes 0 (wc_readMaskKey c) (wc_readMaskPos c) (seen_as c (take k p))
      else (seen_as c (take k p), wc_readMaskPos c)) =
    (take k p, if wc_isServer c then (wc_readMaskPos c + k) mod 4 else wc_readMaskPos c)"
    using k by (simp add: seen_as_def maskBytes_each mask_each_twice)
  have rc: "read_chunk n c = ((take k p, None), c\<lparr>wc_in := drop k (wc_in c), wc_readErr := None,
      wc_readMaskPos := (if wc_isServer c then (wc_readMaskPos c + k) mod 4 else wc_readMaskPos c),
      wc_readRemaining := int (length (drop k p))\<rparr>)"
    unfolding read_chunk_def b Let_def x using i k rr by (simp add: len of_nat_diff)
  have d: "drop k (seen_as c p) = (if wc_isServer c then fst (mask_each (wc_readMaskKey c) ((wc_readMaskPos c + k) mod 4) (drop k p)) else drop k p)"
    using k by (simp add: seen_as_def mask_drop mask_pos_mod)
  have "length (seen_as c p) = length p" by (simp add: seen_as_def)
  then have "drop k (wc_in c) = drop k (seen_as c p) @ wire_msg (\<not> wc_isServer c) continuationFrame fs @ rest"
    using c k by (simp add: in_message_def)
  then show ?thesis
    using c d by (simp add: rc in_message_def seen_as_def)
qed

lemma next_part:
  assumes "in_message r [] ((key, p) # fs) rest c"
  shows "\<exists>c'. mr_Read h r n c = mr_Read h r n c' \<and> in_message r p fs rest c' \<and>
    wc_isServer c' = wc_isServer c \<and> wc_readLimit c' = wc_readLimit c"
proof -
  obtain more where more: "wire_msg (\<not> wc_isServer c) continuationFrame ((key, p) # fs) @ rest =
      frame_bytes (\<not> wc_isServer c) (fs = []) continuationFrame key p @ more"
      "more = wire_msg (\<not> wc_isServer c) continuationFrame fs @ rest"
    by (cases fs) auto
  have "\<exists>c'. advanceFrame h c = (Inr continuationFrame, c') \<and> keeps_session c c' \<and> wc_readRemaining c' = int (length p) \<and>
    wc_readFinal c' = (fs = []) \<and> wc_readLength c' = wc_readLength c + int (length p) \<and>
    wc_in c' = (if wc_isServer c then fst (mask_each (wc_readMaskKey c') (wc_readMaskPos c') p) else p) @ more"
    using assms more(1)
    by (intro advance_data [where key = key])
      (auto simp: in_message_def seen_as_def continuationFrame_def parts_length_def)
  then obtain c' where a: "advanceFrame h c = (Inr continuationFrame, c')" "keeps_session c c'"
      "wc_readRemaining c' = int (length p)" "wc_readFinal c' = (fs = [])"
      "wc_readLength c' = wc_readLength c + int (length p)"
      "wc_in c' = (if wc_isServer c then fst (mask_each (wc_readMaskKey c') (wc_readMaskPos c') p) else p) @ more"
    by blast
  have "mr_Read h r n c = mr_Read h r n c'"
    using assms a(1,2)
    by (simp add: mr_Read_def in_message_def keeps_session_def)
      (subst read_loop.simps, simp add: isData_def frame_types)
  moreover have "in_message r p fs rest c'"
    using assms a(2-) more(2) by (auto simp: in_message_def keeps_session_def seen_as_def parts_length_def)
  ultimately show ?thesis using a(2) by (auto simp: keeps_session_def)
qed

lemma read_all_message:
  "in_message r p fs rest c \<Longrightarrow>
   \<exists>c'. read_all h r sizes acc c = Some ((acc @ p @ concat (map snd fs), None), c') \<and> idle rest c' \<and>
     wc_isServer c' = wc_isServer c \<and> wc_readLimit c' = wc_readLimit c"
proof (induction "length p + parts_length fs + length fs" arbitrary: p fs c sizes acc rule: less_induct)
  case less
  let ?n = "Suc (sizes 0)"
  consider (chunk) "p \<noteq> []" | (part) key q gs where "p = []" "fs = (key, q) # gs" | (over) "p = []" "fs = []"
    by (cases p; cases fs) auto
  then show ?case
  proof cases
    case chunk
    let ?k = "min ?n (length p)"
    obtain c1 where c1: "read_chunk ?n c = ((take ?k p, None), c1)" "in_message r (drop ?k p) fs rest c1"
        "wc_isServer c1 = wc_isServer c" "wc_readLimit c1 = wc_readLimit c"
      using chunk_read [OF less.prems chunk refl, of ?n] by auto
    have "mr_Read h r ?n c = Some ((take ?k p, None), c1)"
      using less.prems chunk c1(1) by (simp add: mr_Read_def in_message_def) (subst read_loop.simps, simp)
    then have "read_all h r sizes acc c = read_all h r (\<lambda>i. sizes (Suc i)) (acc @ take ?k p) c1"
      by (subst read_all.simps) simp
    moreover have "length (drop ?k p) + parts_length fs + length fs < length p + parts_length fs + length fs"
      using chunk by (cases p) auto
    ultimately show ?thesis
      using less.hyps [OF _ c1(2), of "\<lambda>i. sizes (Suc i)" "acc @ take ?k p"] c1(3,4)
      by (simp only: append_assoc append_take_drop_id) (simp add: append_assoc [symmetric] del: append_assoc)
  next
    case part
    obtain c1 where c1: "\<And>n. n = ?n \<Longrightarrow> mr_Read h r n c = mr_Read h r n c1" "in_message r q gs rest c1"
        "wc_isServer c1 = wc_isServer c" "wc_readLimit c1 = wc_readLimit c"
      using next_part [of r key q gs rest c h ?n] less.prems part by auto
    have e: "read_all h r sizes acc c = read_all h r sizes acc c1"
      by (subst (1 2) read_all.simps) (simp only: c1(1) [OF refl])
    have "length q + parts_length gs + length gs < length p + parts_length fs + length fs"
      using part by (simp add: parts_length_def)
    from less.hyps [OF this c1(2), of sizes acc] show ?thesis
      using part c1(3,4) by (simp add: e)
  next
    case over
    have "mr_Read h r ?n c = Some (([], Some ErrEOF), c\<lparr>wc_messageReader := None\<rparr>)"
      using less.prems over by (simp add: mr_Read_def in_message_def) (subst read_loop.simps, simp)
    then show ?thesis
      using less.prems over by (subst read_all.simps) (simp add: idle_def in_message_def seen_as_def)
  qed
qed

text \<open>The whole message, from an idle reader.\<close>

lemma ReadMessage_wire:
  assumes c: "idle (wire_msg (\<not> wc_isServer c) t fs @ rest) c"
    and fs: "fs \<noteq> []" "list_all (\<lambda>f. length (fst f) = 4) fs" "isData t"
    and len: "int (parts_length fs) < 2 ^ 63" "0 < wc_readLimit c \<Longrightarrow> int (parts_length fs) \<le> wc_readLimit c"
  shows "\<exists>c'. ReadMessage h sizes c = Some (ReadGives t (concat (map snd fs)) None, c') \<and> idle rest c' \<and>
    wc_isServer c' = wc_isServer c \<and> wc_readLimit c' = wc_readLimit c"
proof -
  let ?c = "c\<lparr>wc_messageReader := None, wc_readLength := 0\<rparr>"
  obtain key p gs where f: "fs = (key, p) # gs" using fs(1) by (cases fs) auto
  have wire: "wire_msg (\<not> wc_isServer c) t fs @ rest = frame_bytes (\<not> wc_isServer c) (gs = []) t key p @
      wire_msg (\<not> wc_isServer c) continuationFrame gs @ rest"
    by (cases gs) (simp_all add: f)
  have "\<exists>c'. advanceFrame h ?c = (Inr t, c') \<and> keeps_session ?c c' \<and> wc_readRemaining c' = int (length p) \<and>
    wc_readFinal c' = (gs = []) \<and> wc_readLength c' = wc_readLength ?c + int (length p) \<and>
    wc_in c' = (if wc_isServer ?c then fst (mask_each (wc_readMaskKey c') (wc_readMaskPos c') p) else p) @
      wire_msg (\<not> wc_isServer c) continuationFrame gs @ rest"
    using c wire fs len
    by (intro advance_data [where key = key])
      (auto simp: idle_def isData_def frame_types f parts_length_def)
  then obtain c1 where a: "advanceFrame h ?c = (Inr t, c1)" "keeps_session ?c c1"
      "wc_readRemaining c1 = int (length p)" "wc_readFinal c1 = (gs = [])" "wc_readLength c1 = int (length p)"
      "wc_in c1 = (if wc_isServer c then fst (mask_each (wc_readMaskKey c1) (wc_readMaskPos c1) p) else p) @
        wire_msg (\<not> wc_isServer c) continuationFrame gs @ rest"
    by auto
  have l: "next_loop h ?c = Some (Some t, c1)"
    using c a(1) fs(3) by (subst next_loop.simps) (simp add: idle_def)
  let ?r = "wc_nextReader c1"
  let ?c1 = "c1\<lparr>wc_nextReader := Suc ?r, wc_messageReader := Some ?r\<rparr>"
  have "in_message ?r p gs rest ?c1"
    using c a(2-) fs(2) len by (auto simp: in_message_def seen_as_def keeps_session_def idle_def f parts_length_def)
  from read_all_message [OF this, of h sizes "[]"] show ?thesis
    using a(2) by (auto simp: ReadMessage_def NextReader_def l Let_def f keeps_session_def)
qed

section \<open>Writing the parts of a message\<close>

text \<open>A connection whose network takes everything, so far without errors or a close message.\<close>

definition quiet :: "ws_conn \<Rightarrow> bool" where
  "quiet c \<longleftrightarrow> wc_net c = [] \<and> wc_writeErr c = None"

definition same_role :: "ws_conn \<Rightarrow> ws_conn \<Rightarrow> bool" where
  "same_role c c' \<longleftrightarrow> wc_isServer c' = wc_isServer c \<and> wc_bufCap c' = wc_bufCap c"

lemma send_quiet: "quiet c \<Longrightarrow> t \<noteq> CloseMessage \<Longrightarrow> send_frame t b c = (None, c\<lparr>wc_sent := wc_sent c @ b\<rparr>)"
  by (simp add: send_frame_def net_Write_def quiet_def)

text \<open>Sending what the buffer holds as a frame that is not the last; the writer then has an empty buffer.\<close>

lemma flush_part:
  assumes c: "quiet c" "\<not> wc_isServer c" "mw_err (wc_writers c w) = None"
    and t: "mw_frameType (wc_writers c w) = t" "t \<in> {0, 1, 2}" "mw_data (wc_writers c w) = d"
  shows "\<exists>key c'. flushFrame w False [] c = (None, c') \<and> length key = 4 \<and> quiet c' \<and> same_role c c' \<and>
    wc_sent c' = wc_sent c @ frame_bytes False False t key d \<and>
    wc_writers c' w = \<lparr>mw_data = [], mw_frameType = continuationFrame, mw_err = None\<rparr>"
proof -
  obtain key where key: "fst (newMaskKey c) = key" "length key = 4" by (simp add: newMaskKey_def Let_def)
  have "\<not> isControl t" "t \<noteq> CloseMessage" using t(2) by (auto simp: isControl_def frame_types)
  then show ?thesis
    using c t key
    by (intro exI [of _ key]) (auto simp: flushFrame_def newMaskKey_def Let_def ws_write_def send_quiet quiet_def same_role_def
        maskBytes_each frame_bytes_def)
qed

text \<open>The last frame.\<close>

lemma flush_last:
  assumes c: "quiet c" "mw_err (wc_writers c w) = None" "wc_isServer c \<or> extra = []"
    and t: "mw_frameType (wc_writers c w) = t" "t \<in> {0, 1, 2}" "mw_data (wc_writers c w) @ extra = d"
  shows "\<exists>key c'. flushFrame w True extra c = (None, c') \<and> length key = 4 \<and> quiet c' \<and> same_role c c' \<and>
    wc_sent c' = wc_sent c @ frame_bytes (wc_isServer c) True t key d \<and> wc_writer c' = None"
proof -
  obtain key where key: "fst (newMaskKey c) = key" "length key = 4" by (simp add: newMaskKey_def Let_def)
  have "\<not> isControl t" "t \<noteq> CloseMessage" using t(2) by (auto simp: isControl_def frame_types)
  then show ?thesis
    using c t key
    by (intro exI [of _ key]) (auto simp: flushFrame_def newMaskKey_def Let_def ws_write_def send_quiet quiet_def same_role_def
        maskBytes_each frame_bytes_def endMessage_def)
qed

text \<open>A client's writer in the middle of a message: the frames \<open>fs\<close> are sent, the buffer holds \<open>d\<close>.\<close>

definition writing :: "nat \<Rightarrow> int \<Rightarrow> byte list \<Rightarrow> (byte list \<times> byte list) list \<Rightarrow> byte list \<Rightarrow> ws_conn \<Rightarrow> bool" where
  "writing w t sent fs d c \<longleftrightarrow>
     quiet c \<and> \<not> wc_isServer c \<and> 0 < wc_bufCap c \<and> wc_sent c = sent @ wire_parts False t fs \<and>
     wc_writers c w = \<lparr>mw_data = d, mw_frameType = (if fs = [] then t else continuationFrame), mw_err = None\<rparr> \<and>
     list_all (\<lambda>f. length (fst f) = 4) fs"

lemma writing_put: "writing w t sent fs d c \<Longrightarrow> writing w t sent fs (d @ b) (put_data w b c) \<and> same_role c (put_data w b c)"
  by (simp add: writing_def put_data_def quiet_def same_role_def)

lemma write_loop_parts:
  "writing w t sent fs d c \<Longrightarrow> t \<in> {1, 2} \<Longrightarrow>
   \<exists>gs d' c'. write_loop w p c = Some (None, c') \<and> writing w t sent gs d' c' \<and> same_role c c' \<and>
     concat (map snd gs) @ d' = concat (map snd fs) @ d @ p"
proof (induction "length p" arbitrary: p c fs d rule: less_induct)
  case less
  show ?case
  proof (cases "p = []")
    case True
    then show ?thesis using less.prems by (subst write_loop.simps) (auto simp: same_role_def)
  next
    case False
    have "\<exists>k c1 gs e. ncopy w (length p) c = (Inr k, c1) \<and> 0 < k \<and> writing w t sent gs e c1 \<and> same_role c c1 \<and>
      concat (map snd gs) @ e = concat (map snd fs) @ d"
    proof (cases "wc_bufCap c - length d = 0")
      case full: True
      have "mw_frameType (wc_writers c w) \<in> {0, 1, 2}" "mw_data (wc_writers c w) = d" "mw_err (wc_writers c w) = None"
          "quiet c" "\<not> wc_isServer c"
        using less.prems by (auto simp: writing_def continuationFrame_def)
      from flush_part [OF this(4,5,3) refl this(1,2)] obtain key c1 where f:
          "flushFrame w False [] c = (None, c1)" "length key = 4" "quiet c1" "same_role c c1"
          "wc_sent c1 = wc_sent c @ frame_bytes False False (mw_frameType (wc_writers c w)) key d"
          "wc_writers c1 w = \<lparr>mw_data = [], mw_frameType = continuationFrame, mw_err = None\<rparr>"
        by blast
      have "writing w t sent (fs @ [(key, d)]) [] c1"
        using less.prems(1) f by (simp add: writing_def wire_parts_snoc same_role_def)
      moreover have "ncopy w (length p) c = (Inr (min (length p) (wc_bufCap c)), c1)"
        using full f less.prems(1) by (simp add: ncopy_def writing_def same_role_def)
      ultimately show ?thesis
        using less.prems(1) False f(4)
        by (intro exI [of _ "min (length p) (wc_bufCap c)"] exI [of _ c1] exI [of _ "fs @ [(key, d)]"] exI [of _ "[]"])
          (simp add: writing_def)
    next
      case room: False
      then have "ncopy w (length p) c = (Inr (min (length p) (wc_bufCap c - length d)), c)"
        using less.prems(1) by (simp add: ncopy_def writing_def)
      then show ?thesis using less.prems(1) False room by (intro exI conjI) (auto simp: same_role_def)
    qed
    then obtain k c1 gs e where n: "ncopy w (length p) c = (Inr k, c1)" "0 < k" "writing w t sent gs e c1" "same_role c c1"
        "concat (map snd gs) @ e = concat (map snd fs) @ d"
      by blast
    have s: "length (drop k p) < length p" using n(2) False by simp
    have "write_loop w p c = write_loop w (drop k p) (put_data w (take k p) c1)"
      using False n(1) by (subst write_loop.simps) simp
    moreover obtain hs d' c' where "write_loop w (drop k p) (put_data w (take k p) c1) = Some (None, c')"
        "writing w t sent hs d' c'" "same_role (put_data w (take k p) c1) c'"
        "concat (map snd hs) @ d' = concat (map snd gs) @ (e @ take k p) @ drop k p"
      using less.hyps [OF s conjunct1 [OF writing_put [OF n(3)]] less.prems(2), of "take k p"] by blast
    moreover have "concat (map snd gs) @ (e @ take k p) @ drop k p = concat (map snd fs) @ d @ p"
      using n(5) by (metis append.assoc append_take_drop_id)
    ultimately show ?thesis
      using n(4) writing_put [OF n(3), of "take k p"] by (auto simp: same_role_def intro!: exI [of _ hs])
  qed
qed

text \<open>A whole message, from either side.\<close>

lemma WriteMessage_wire:
  assumes c: "quiet c" "wc_writer c = None" "0 < wc_bufCap c" and t: "isData t"
  shows "\<exists>fs c'. WriteMessage t d c = Some (None, c') \<and> quiet c' \<and> wc_writer c' = None \<and> same_role c c' \<and>
    wc_sent c' = wc_sent c @ wire_msg (wc_isServer c) t fs \<and> fs \<noteq> [] \<and>
    list_all (\<lambda>f. length (fst f) = 4) fs \<and> concat (map snd fs) = d"
proof -
  have t': "t \<in> {1, 2}" using t by (auto simp: isData_def frame_types)
  let ?w = "wc_nextWriter c"
  let ?c = "c\<lparr>wc_writers := (wc_writers c)(?w := \<lparr>mw_data = [], mw_frameType = t, mw_err = None\<rparr>), wc_nextWriter := Suc ?w\<rparr>"
  have b: "beginMessage t c = (Inr ?w, ?c)"
    using c t by (simp add: beginMessage_def quiet_def Let_def)
  show ?thesis
  proof (cases "wc_isServer c")
    case True
    let ?p = "put_data ?w (take (min (wc_bufCap c) (length d)) d) ?c"
    have "\<exists>key c'. flushFrame ?w True (drop (min (wc_bufCap c) (length d)) d) ?p = (None, c') \<and> length key = 4 \<and>
        quiet c' \<and> same_role ?p c' \<and> wc_sent c' = wc_sent ?p @ frame_bytes (wc_isServer ?p) True t key d \<and> wc_writer c' = None"
      using c t' True by (intro flush_last) (auto simp: put_data_def quiet_def)
    then obtain key c' where "flushFrame ?w True (drop (min (wc_bufCap c) (length d)) d) ?p = (None, c')" "length key = 4"
        "quiet c'" "same_role ?p c'" "wc_sent c' = wc_sent ?p @ frame_bytes (wc_isServer ?p) True t key d" "wc_writer c' = None"
      by blast
    then show ?thesis
      using True b by (intro exI [of _ "[(key, d)]"] exI [of _ c']) (simp add: WriteMessage_def put_data_def same_role_def Let_def)
  next
    case False
    let ?d = "?c\<lparr>wc_writer := Some ?w\<rparr>"
    have "writing ?w t (wc_sent c) [] [] ?d" using c False by (simp add: writing_def quiet_def)
    from write_loop_parts [OF this t', of d] obtain gs e c1 where w:
        "write_loop ?w d ?d = Some (None, c1)" "writing ?w t (wc_sent c) gs e c1" "same_role ?d c1" "concat (map snd gs) @ e = d"
      by auto
    have "\<exists>key c'. flushFrame ?w True [] c1 = (None, c') \<and> length key = 4 \<and> quiet c' \<and> same_role c1 c' \<and>
        wc_sent c' = wc_sent c1 @ frame_bytes (wc_isServer c1) True (if gs = [] then t else continuationFrame) key e \<and> wc_writer c' = None"
      using w(2) t' by (intro flush_last) (auto simp: writing_def continuationFrame_def)
    then obtain key c' where f: "flushFrame ?w True [] c1 = (None, c')" "length key = 4" "quiet c'" "same_role c1 c'"
        "wc_sent c' = wc_sent c1 @ frame_bytes (wc_isServer c1) True (if gs = [] then t else continuationFrame) key e" "wc_writer c' = None"
      by blast
    have "WriteMessage t d c = Some (None, c')"
      using False w(1,2) f(1) b by (simp add: WriteMessage_def NextWriter_def mw_Write_def mw_Close_def writing_def)
    then show ?thesis
      using w f False
      by (intro exI [of _ "gs @ [(key, e)]"] exI [of _ c'])
        (auto simp: wire_msg_snoc writing_def same_role_def)
  qed
qed

section \<open>Whole sessions\<close>

fun send_all :: "(int \<times> byte list) list \<Rightarrow> ws_conn \<Rightarrow> ws_conn option" where
  "send_all [] c = Some c"
| "send_all ((t, d) # ms) c =
     (case WriteMessage t d c of Some (None, c) \<Rightarrow> send_all ms c | _ \<Rightarrow> None)"

fun receive_all :: "handlers \<Rightarrow> (nat \<Rightarrow> nat \<Rightarrow> nat) \<Rightarrow> nat \<Rightarrow> ws_conn \<Rightarrow> (read_result list \<times> ws_conn) option" where
  "receive_all h sizes 0 c = Some ([], c)"
| "receive_all h sizes (Suc n) c =
     (case ReadMessage h (sizes n) c of
        None \<Rightarrow> None
      | Some (r, c) \<Rightarrow> map_option (\<lambda>(rs, c). (r # rs, c)) (receive_all h sizes n c))"

lemma send_all_wire:
  assumes "quiet c" "wc_writer c = None" "0 < wc_bufCap c" "list_all (\<lambda>(t, d). isData t) ms"
  shows "\<exists>ws c'. send_all ms c = Some c' \<and>
    wc_sent c' = wc_sent c @ concat (map (\<lambda>((t, d), fs). wire_msg (wc_isServer c) t fs) (zip ms ws)) \<and>
    length ws = length ms \<and>
    list_all (\<lambda>((t, d), fs). fs \<noteq> [] \<and> list_all (\<lambda>f. length (fst f) = 4) fs \<and> concat (map snd fs) = d) (zip ms ws)"
  using assms
proof (induction ms arbitrary: c)
  case (Cons m ms)
  obtain t d where m: "m = (t, d)" by fastforce
  obtain fs c1 where w: "WriteMessage t d c = Some (None, c1)" "quiet c1" "wc_writer c1 = None" "same_role c c1"
      "wc_sent c1 = wc_sent c @ wire_msg (wc_isServer c) t fs" "fs \<noteq> []" "list_all (\<lambda>f. length (fst f) = 4) fs"
      "concat (map snd fs) = d"
    using WriteMessage_wire [of c t d] Cons.prems m by auto
  obtain ws c2 where r: "send_all ms c1 = Some c2"
      "wc_sent c2 = wc_sent c1 @ concat (map (\<lambda>((t, d), fs). wire_msg (wc_isServer c1) t fs) (zip ms ws))"
      "length ws = length ms"
      "list_all (\<lambda>((t, d), fs). fs \<noteq> [] \<and> list_all (\<lambda>f. length (fst f) = 4) fs \<and> concat (map snd fs) = d) (zip ms ws)"
    using Cons.IH [OF w(2,3)] Cons.prems(3,4) w(4) by (auto simp: same_role_def)
  show ?case
    using w r m by (intro exI [of _ "fs # ws"] exI [of _ c2]) (simp add: same_role_def)
qed simp

lemma receive_all_wire:
  assumes "idle (concat (map (\<lambda>((t, d), fs). wire_msg (\<not> wc_isServer c) t fs) (zip ms ws)) @ rest) c"
    and "length ws = length ms"
    and "list_all (\<lambda>((t, d), fs). fs \<noteq> [] \<and> list_all (\<lambda>f. length (fst f) = 4) fs \<and> concat (map snd fs) = d) (zip ms ws)"
    and "list_all (\<lambda>(t, d). isData t \<and> int (length d) < 2 ^ 63 \<and> (0 < wc_readLimit c \<longrightarrow> int (length d) \<le> wc_readLimit c)) ms"
  shows "\<exists>c'. receive_all h sizes (length ms) c = Some (map (\<lambda>(t, d). ReadGives t d None) ms, c') \<and> idle rest c'"
  using assms
proof (induction ms arbitrary: c ws)
  case (Cons m ms)
  obtain t d where m: "m = (t, d)" by fastforce
  obtain fs us where ws: "ws = fs # us" using Cons.prems(2) by (cases ws) auto
  let ?rest = "concat (map (\<lambda>((t, d), fs). wire_msg (\<not> wc_isServer c) t fs) (zip ms us)) @ rest"
  have "idle (wire_msg (\<not> wc_isServer c) t fs @ ?rest) c" "fs \<noteq> []" "list_all (\<lambda>f. length (fst f) = 4) fs" "isData t"
      "int (parts_length fs) < 2 ^ 63" "0 < wc_readLimit c \<Longrightarrow> int (parts_length fs) \<le> wc_readLimit c" "concat (map snd fs) = d"
    using Cons.prems by (auto simp: m ws parts_length_def)
  from ReadMessage_wire [OF this(1-6), of h "sizes (length ms)"] this(7) obtain c1 where r:
      "ReadMessage h (sizes (length ms)) c = Some (ReadGives t d None, c1)" "idle ?rest c1"
      "wc_isServer c1 = wc_isServer c" "wc_readLimit c1 = wc_readLimit c"
    by auto
  have i: "idle (concat (map (\<lambda>((t, d), fs). wire_msg (\<not> wc_isServer c1) t fs) (zip ms us)) @ rest) c1"
    using r(2,3) by simp
  have "\<exists>c'. receive_all h sizes (length ms) c1 = Some (map (\<lambda>(t, d). ReadGives t d None) ms, c') \<and> idle rest c'"
    by (rule Cons.IH [OF i]) (use Cons.prems r(4) in \<open>auto simp: m ws\<close>)
  then show ?case using r(1) by (auto simp: m)
qed simp

lemma ws_messages_facts:
  assumes "list_all (\<lambda>(t, d). isData t \<and> int (length d) < 2 ^ 63 \<and> (0 < limit \<longrightarrow> int (length d) \<le> limit)) ms"
  shows "\<exists>c. send_all ms (newConn server bufSize rnd [] input e) = Some c \<and>
    (\<exists>r. receive_all h sizes (length ms) ((newConn (\<not> server) bufSize' rnd' net (wc_sent c @ rest) e')\<lparr>wc_readLimit := limit\<rparr>) =
      Some (map (\<lambda>(t, d). ReadGives t d None) ms, r) \<and> wc_in r = rest \<and> wc_readErr r = None)"
proof -
  let ?c = "newConn server bufSize rnd [] input e"
  have q: "quiet ?c" "wc_writer ?c = None" "0 < wc_bufCap ?c" "wc_sent ?c = []" "wc_isServer ?c = server"
    by (simp_all add: newConn_def quiet_def defaultWriteBufferSize_def)
  have lt: "list_all (\<lambda>(t, d). isData t) ms" using assms by (auto simp: list_all_iff)
  obtain ws c where s: "send_all ms ?c = Some c"
      "wc_sent c = concat (map (\<lambda>((t, d), fs). wire_msg server t fs) (zip ms ws))" "length ws = length ms"
      "list_all (\<lambda>((t, d), fs). fs \<noteq> [] \<and> list_all (\<lambda>f. length (fst f) = 4) fs \<and> concat (map snd fs) = d) (zip ms ws)"
    using send_all_wire [OF q(1-3) lt] unfolding q(4,5) append_Nil by blast
  let ?r = "(newConn (\<not> server) bufSize' rnd' net (wc_sent c @ rest) e')\<lparr>wc_readLimit := limit\<rparr>"
  have "idle (concat (map (\<lambda>((t, d), fs). wire_msg (\<not> wc_isServer ?r) t fs) (zip ms ws)) @ rest) ?r"
    by (simp add: idle_def newConn_def s(2))
  from receive_all_wire [OF this s(3,4), of h sizes] assms show ?thesis
    using s(1) by (auto simp: idle_def newConn_def)
qed

text \<open>
  C24: Messages arrive: whatever text and binary messages one side writes, with whatever buffer and mask
  keys, all are sent, in one frame each by a server and in as many as the buffer needs by a client; and
  the other side, with any handlers and however the network cuts the bytes, reads exactly these
  messages, in order, and stands before what follows them. A message must be shorter than \<open>2 ^ 63\<close> bytes
  and within the limit of the reader.
\<close>
theorem ws_messages_arrive:
  assumes "list_all (\<lambda>(t, d). isData t \<and> int (length d) < 2 ^ 63 \<and> (0 < limit \<longrightarrow> int (length d) \<le> limit)) ms"
  shows "\<exists>c. send_all ms (newConn server bufSize rnd [] input e) = Some c \<and>
    (\<exists>r. receive_all h sizes (length ms) ((newConn (\<not> server) bufSize' rnd' net (wc_sent c @ rest) e')\<lparr>wc_readLimit := limit\<rparr>) =
      Some (map (\<lambda>(t, d). ReadGives t d None) ms, r) \<and> wc_in r = rest \<and> wc_readErr r = None)"
  using assms by (rule ws_messages_facts)

theorem ws_messages_arrive_witness:
  "\<exists>c r. send_all [(1, [72, 105]), (2, [])] (newConn False 1 (\<lambda>_. 99) [] [] ErrEOF) = Some c \<and>
     receive_all default_handlers (\<lambda>_ _. 0) 2 ((newConn True 0 (\<lambda>_. 0) [] (wc_sent c @ [1]) ErrEOF)\<lparr>wc_readLimit := 10\<rparr>) =
       Some ([ReadGives 1 [72, 105] None, ReadGives 2 [] None], r)"
proof -
  have "list_all (\<lambda>(t, d). isData t \<and> int (length d) < 2 ^ 63 \<and> (0 < (10 :: int) \<longrightarrow> int (length d) \<le> 10))
      [(1, [72, 105 :: byte]), (2, [])]"
    by (simp add: isData_def frame_types)
  from ws_messages_arrive [OF this, of False 1 "\<lambda>_. 99" "[]" ErrEOF default_handlers "\<lambda>_ _. 0" 0 "\<lambda>_. 0" "[]" "[1]" ErrEOF]
  show ?thesis by (simp add: numeral_2_eq_2 del: receive_all.simps send_all.simps) blast
qed

end
