(* ===== verification/Ws_Bounds.thy ===== *)
theory Ws_Bounds
  imports Ws_Roundtrip
begin

text \<open>
  What web socket connections bound: the length of a message against the limit of the reader, errors
  of reading that are final, and the silence after a close message.
\<close>

section \<open>The limit of a message\<close>

lemma and_then_InrE:
  assumes "and_then m f c = (Inr y, c')"
  obtains x c1 where "m c = (Inr x, c1)" "f x c1 = (Inr y, c')"
  using assms by (auto simp: and_then_def split: prod.splits sum.splits)

lemma be_val_append: "be_val (a @ b) = be_val a * 256 ^ length b + be_val b"
proof (induction b rule: rev_induct)
  case (snoc x b)
  then show ?case using be_val_snoc [of "a @ b" x] by (simp add: be_val_snoc algebra_simps)
qed (simp add: be_val_def)

lemma be_val_less: "be_val b < 256 ^ length b"
proof (induction b rule: rev_induct)
  case (snoc x b)
  have "unat x < 2 ^ LENGTH(8)" by (rule unsigned_less)
  then have "unat x < 256" by simp
  with snoc show ?case by (simp add: be_val_snoc)
qed (simp add: be_val_def)

lemma to_int64_range: "- (2 ^ 63) \<le> to_int64 n" "to_int64 n < 2 ^ 63"
  by (simp_all add: to_int64_def)

lemma read_same: "ws_read n c = (Inr p, c') \<Longrightarrow> c' = c\<lparr>wc_in := wc_in c'\<rparr> \<and> length p = n"
  by (auto simp: ws_read_def split: if_splits)

lemma protocol_error_not_Inr: "handleProtocolError m c \<noteq> (Inr x, c')"
  by (simp add: handleProtocolError_def)

lemma start_counts:
  "frame_start p0 p1 c = (Inr t, c') \<Longrightarrow>
   wc_readLength c' = wc_readLength c \<and> wc_readLimit c' = wc_readLimit c \<and> 0 \<le> wc_readRemaining c' \<and> wc_readRemaining c' < 2 ^ 63"
proof -
  have "uint (p1 AND 127) < 2 ^ LENGTH(8)" by (rule unsigned_less)
  then have "uint (p1 AND 127) < 2 ^ 63" by simp
  moreover assume "frame_start p0 p1 c = (Inr t, c')"
  ultimately show ?thesis
    by (auto simp: frame_start_def Let_def protocol_error_not_Inr split: if_splits)
qed

lemma length_counts:
  assumes "frame_length c = (Inr x, c')" "0 \<le> wc_readRemaining c" "wc_readRemaining c < 2 ^ 63"
  shows "wc_readLength c' = wc_readLength c \<and> wc_readLimit c' = wc_readLimit c \<and> 0 \<le> wc_readRemaining c' \<and> wc_readRemaining c' < 2 ^ 63"
proof -
  have v: "be_val p < 65536" if "length p = 2" for p using be_val_less [of p] that by simp
  have rd: "wc_readLength c' = wc_readLength c \<and> wc_readLimit c' = wc_readLimit c \<and> wc_readRemaining c' = f p \<and>
      0 \<le> f p \<and> length p = n" if "ws_read n c = (Inr p, c1)" "setReadRemaining (f p) c1 = (Inr x, c')" for n p c1 f
    using that read_same [OF that(1)] by (auto simp: setReadRemaining_def ws_read_def split: if_splits)
  consider (two) "wc_readRemaining c = 126" | (eight) "wc_readRemaining c = 127"
    | (short) "wc_readRemaining c \<noteq> 126" "wc_readRemaining c \<noteq> 127" by blast
  then show ?thesis
  proof cases
    case two
    then have "and_then (ws_read 2) (\<lambda>p. setReadRemaining (int (be_val p))) c = (Inr x, c')"
      using assms(1) by (simp add: frame_length_def)
    then obtain p c1 where p: "ws_read 2 c = (Inr p, c1)" "setReadRemaining (int (be_val p)) c1 = (Inr x, c')"
      by (rule and_then_InrE)
    then show ?thesis using rd [of 2 p c1 "\<lambda>p. int (be_val p)", OF p] v [of p] by simp
  next
    case eight
    then have "and_then (ws_read 8) (\<lambda>p. setReadRemaining (to_int64 (int (be_val p)))) c = (Inr x, c')"
      using assms(1) by (simp add: frame_length_def)
    then obtain p c1 where p: "ws_read 8 c = (Inr p, c1)" "setReadRemaining (to_int64 (int (be_val p))) c1 = (Inr x, c')"
      by (rule and_then_InrE)
    then show ?thesis using rd [of 8 p c1 "\<lambda>p. to_int64 (int (be_val p))", OF p] to_int64_range(2) [of "int (be_val p)"] by simp
  next
    case short
    then show ?thesis using assms by (simp add: frame_length_def)
  qed
qed

lemma mask_counts:
  "frame_mask b c = (Inr x, c') \<Longrightarrow>
   wc_readLength c' = wc_readLength c \<and> wc_readLimit c' = wc_readLimit c \<and> wc_readRemaining c' = wc_readRemaining c"
  by (auto simp: frame_mask_def protocol_error_not_Inr ws_read_def split: if_splits elim!: and_then_InrE)

lemma count_counts:
  assumes "count_length t c = (Inr t', c')" "0 \<le> wc_readLength c" "wc_readLength c < 2 ^ 63"
    "0 \<le> wc_readRemaining c" "wc_readRemaining c < 2 ^ 63"
  shows "wc_readLength c' = wc_readLength c + wc_readRemaining c' \<and> wc_readRemaining c' = wc_readRemaining c \<and>
    wc_readLength c' < 2 ^ 63 \<and> (0 < wc_readLimit c \<longrightarrow> wc_readLength c' \<le> wc_readLimit c)"
proof -
  have "to_int64 (wc_readLength c + wc_readRemaining c) = wc_readLength c + wc_readRemaining c"
    if "0 \<le> to_int64 (wc_readLength c + wc_readRemaining c)"
  proof (cases "wc_readLength c + wc_readRemaining c < 2 ^ 63")
    case True
    then show ?thesis using assms by (intro to_int64_id) auto
  next
    case False
    then have "to_int64 (wc_readLength c + wc_readRemaining c) = wc_readLength c + wc_readRemaining c - 2 ^ 64"
      using assms by (simp add: to_int64_def mod_pos_geq)
    then show ?thesis using that assms by simp
  qed
  then show ?thesis
    using assms(1) to_int64_range [of "wc_readLength c + wc_readRemaining c"] by (auto simp: count_length_def Let_def split: if_splits)
qed

text \<open>What the reader counts: \<open>n\<close> bytes of the message are delivered.\<close>

definition counted :: "nat \<Rightarrow> ws_conn \<Rightarrow> bool" where
  "counted n c \<longleftrightarrow>
     0 \<le> wc_readRemaining c \<and> int n + wc_readRemaining c \<le> wc_readLength c \<and> wc_readLength c < 2 ^ 63 \<and>
     (0 < wc_readLimit c \<longrightarrow> wc_readLength c \<le> wc_readLimit c)"

context frame_handlers
begin

lemma advance_counts:
  assumes "advanceFrame h c = (Inr t, c')" "0 \<le> wc_readLength c" "wc_readLength c < 2 ^ 63"
    "0 < wc_readLimit c \<Longrightarrow> wc_readLength c \<le> wc_readLimit c"
  shows "0 \<le> wc_readRemaining c' \<and> wc_readLength c' = wc_readLength c + wc_readRemaining c' \<and> wc_readLength c' < 2 ^ 63 \<and>
    wc_readLimit c' = wc_readLimit c \<and> (0 < wc_readLimit c \<longrightarrow> wc_readLength c' \<le> wc_readLimit c)"
proof -
  obtain c1 p c2 c3 x4 c4 x5 c5 where s: "skip_rest c = (Inr (), c1)" "ws_read 2 c1 = (Inr p, c2)"
      "frame_start (p ! 0) (p ! 1) c2 = (Inr x4, c3)" "frame_length c3 = (Inr (), c4)"
      "frame_mask (p ! 1 AND maskBit \<noteq> 0) c4 = (Inr x5, c5)"
      "(if x4 = continuationFrame \<or> isData x4 then count_length x4 else and_then control_payload (control_frame h x4)) c5 = (Inr t, c')"
    using assms(1) unfolding advanceFrame_def by (auto elim!: and_then_InrE)
  have "wc_readLength c2 = wc_readLength c" "wc_readLimit c2 = wc_readLimit c"
    using s(1,2) by (auto simp: skip_rest_def ws_read_def split: if_splits)
  with start_counts [OF s(3)] length_counts [OF s(4)] mask_counts [OF s(5)]
  have k: "wc_readLength c5 = wc_readLength c" "wc_readLimit c5 = wc_readLimit c" "0 \<le> wc_readRemaining c5" "wc_readRemaining c5 < 2 ^ 63"
    by auto
  have lim: "wc_readLimit c' = wc_readLimit c"
    using advance_keeps [of c] assms(1) by (simp add: keeps_session_def)
  show ?thesis
  proof (cases "x4 = continuationFrame \<or> isData x4")
    case True
    then have "count_length x4 c5 = (Inr t, c')" using s(6) by simp
    from count_counts [OF this] show ?thesis using k assms(2,3) lim by auto
  next
    case False
    then obtain d c6 where d: "control_payload c5 = (Inr d, c6)" "control_frame h x4 d c6 = (Inr t, c')"
      using s(6) by (auto elim!: and_then_InrE)
    have "wc_readRemaining c6 = 0 \<and> wc_readLength c6 = wc_readLength c5"
      using d(1) k(3) by (auto simp: control_payload_def ws_read_def split: if_splits prod.splits sum.splits)
    moreover have "wc_readRemaining c' = wc_readRemaining c6 \<and> wc_readLength c' = wc_readLength c6"
      using control_frame_reader [of x4 d c6] d(2) by simp
    ultimately show ?thesis using k assms(2-4) lim by auto
  qed
qed

lemma counted_advance:
  assumes "counted n c" "wc_readRemaining c \<le> 0" "advanceFrame h c = (Inr t, c')"
  shows "counted n c' \<and> wc_readLimit c' = wc_readLimit c"
  using advance_counts [OF assms(3)] assms(1,2) by (auto simp: counted_def)

text \<open>What a read delivers, and that it still counts right if the message goes on.\<close>

definition delivers :: "nat \<Rightarrow> ws_conn \<Rightarrow> (byte list \<times> ws_error option) \<times> ws_conn \<Rightarrow> bool" where
  "delivers n c r \<longleftrightarrow>
     (case r of ((b, err), c') \<Rightarrow>
       (err = None \<longrightarrow> counted (n + length b) c' \<and> wc_readLimit c' = wc_readLimit c) \<and> n + length b < 2 ^ 63 \<and>
       (0 < wc_readLimit c \<longrightarrow> int (n + length b) \<le> wc_readLimit c))"

lemma counted_bounds: "counted n c \<Longrightarrow> n < 2 ^ 63 \<and> (0 < wc_readLimit c \<longrightarrow> int n \<le> wc_readLimit c)"
  by (auto simp: counted_def)

lemma delivers_nothing: "counted n c \<Longrightarrow> delivers n c (([], Some e), c')"
  using counted_bounds [of n c] by (simp add: delivers_def)

lemma delivers_chunk: "counted n c \<Longrightarrow> delivers n c (read_chunk k c)"
proof -
  assume c: "counted n c"
  let ?b = "take (min k (nat (wc_readRemaining c))) (wc_in c)"
  have "int (length ?b) \<le> wc_readRemaining c" using c by (auto simp: counted_def)
  then show ?thesis
    using c by (auto simp: delivers_def read_chunk_def Let_def case_prod_beta maskBytes_each counted_def)
qed

lemma counted_read_loop:
  "counted n c \<Longrightarrow> read_loop h r k c = Some x \<Longrightarrow> delivers n c x"
proof (induction "length (wc_in c)" arbitrary: c rule: less_induct)
  case less
  show ?case
  proof (cases "wc_readErr c = None \<and> wc_readRemaining c \<le> 0 \<and> \<not> wc_readFinal c")
    case False
    then show ?thesis
      using less.prems delivers_chunk [OF less.prems(1), of k] delivers_nothing [OF less.prems(1)]
      by (subst (asm) read_loop.simps) (auto split: option.splits if_splits)
  next
    case True
    obtain y c1 where a: "advanceFrame h c = (y, c1)" by fastforce
    have stop: "delivers n c x" if "read_loop h r k c = read_loop h r k c2" "wc_readErr c2 = Some e" for e c2
      using that(1) less.prems read_loop_stops [OF that(2), of r k] delivers_nothing [OF less.prems(1)] by auto
    have step: "read_loop h r k c = (case y of Inl e \<Rightarrow> read_loop h r k (c1\<lparr>wc_readErr := Some (hideTempErr e)\<rparr>)
        | Inr t \<Rightarrow> if isData t then read_loop h r k (c1\<lparr>wc_readErr :=
            Some (ErrNew ''websocket: internal error, unexpected text or binary in Reader'')\<rparr>) else read_loop h r k c1)"
      using True a by (subst read_loop.simps) (simp split: sum.split)
    show ?thesis
    proof (cases "\<exists>t. y = Inr t \<and> \<not> isData t")
      case False
      then show ?thesis using step by (cases y) (auto intro: stop)
    next
      case more: True
      then obtain t where y: "y = Inr t" by blast
      have c1: "counted n c1 \<and> wc_readLimit c1 = wc_readLimit c"
        using counted_advance [OF less.prems(1)] True a y by blast
      have "read_loop h r k c1 = Some x" using more step less.prems(2) y by auto
      then have "delivers n c1 x" using less.hyps advance_shorter a y c1 by blast
      then show ?thesis using c1 by (simp add: delivers_def)
    qed
  qed
qed

lemma counted_read_all:
  "counted (length acc) c \<Longrightarrow> read_all h r sizes acc c = Some ((b, err), c') \<Longrightarrow>
   length b < 2 ^ 63 \<and> (0 < wc_readLimit c \<longrightarrow> int (length b) \<le> wc_readLimit c)"
proof (induction "length (wc_in c)" arbitrary: c sizes acc rule: less_induct)
  case less
  obtain d e c1 where m: "mr_Read h r (Suc (sizes 0)) c = Some ((d, e), c1)"
      "e = None \<Longrightarrow> length (wc_in c1) < length (wc_in c)"
    using mr_Read_returns [of "Suc (sizes 0)" r c] by auto
  have d: "delivers (length acc) c ((d, e), c1)"
    using m(1) counted_read_loop [OF less.prems(1)] delivers_nothing [OF less.prems(1)]
    by (auto simp: mr_Read_def split: if_splits)
  show ?case
  proof (cases e)
    case None
    have "counted (length (acc @ d)) c1" "wc_readLimit c1 = wc_readLimit c" using d None by (simp_all add: delivers_def)
    moreover have "read_all h r (\<lambda>i. sizes (Suc i)) (acc @ d) c1 = Some ((b, err), c')"
      using less.prems(2) m(1) None by (subst (asm) read_all.simps) simp
    ultimately show ?thesis using less.hyps [OF m(2) [OF None]] by metis
  next
    case (Some x)
    then have "b = acc @ d" using less.prems(2) m(1) by (subst (asm) read_all.simps) simp
    then show ?thesis using d by (simp add: delivers_def)
  qed
qed

lemma counted_next_loop:
  "0 \<le> wc_readLength c \<Longrightarrow> wc_readLength c < 2 ^ 63 \<Longrightarrow> (0 < wc_readLimit c \<Longrightarrow> wc_readLength c \<le> wc_readLimit c) \<Longrightarrow>
   next_loop h c = Some (Some t, c') \<Longrightarrow> counted 0 c' \<and> wc_readLimit c' = wc_readLimit c"
proof (induction "length (wc_in c)" arbitrary: c rule: less_induct)
  case less
  obtain y c1 where a: "advanceFrame h c = (y, c1)" by fastforce
  obtain t' where y: "y = Inr t'" using less.prems(4) a by (subst (asm) next_loop.simps) (auto split: if_splits sum.splits)
  note k = advance_counts [OF a [unfolded y] less.prems(1,2,3)]
  show ?case
  proof (cases "isData t'")
    case True
    then have "c' = c1" using less.prems(4) a y by (subst (asm) next_loop.simps) (auto split: if_splits)
    then show ?thesis using k less.prems(1) by (auto simp: counted_def)
  next
    case False
    have "next_loop h c1 = Some (Some t, c')"
      using False less.prems(4) a y by (subst (asm) next_loop.simps) (auto split: if_splits)
    then show ?thesis using less.hyps [OF advance_shorter [OF a [unfolded y]]] k less.prems(1) by auto
  qed
qed

lemma ReadMessage_bounded:
  assumes "ReadMessage h sizes c = Some (ReadGives t d err, c')"
  shows "length d < 2 ^ 63 \<and> (0 < wc_readLimit c \<longrightarrow> int (length d) \<le> wc_readLimit c)"
proof -
  obtain m c1 where n: "NextReader h c = Some (NextMessage t m, c1)" "read_all h m sizes [] c1 = Some ((d, err), c')"
    using assms by (auto simp: ReadMessage_def split: option.splits next_result.splits prod.splits)
  obtain c0 where l: "next_loop h (c\<lparr>wc_messageReader := None, wc_readLength := 0\<rparr>) = Some (Some t, c0)"
      "c1 = c0\<lparr>wc_nextReader := Suc (wc_nextReader c0), wc_messageReader := Some (wc_nextReader c0)\<rparr>"
    using n(1) by (auto simp: NextReader_def Let_def split: option.splits if_splits)
  have "counted 0 c0 \<and> wc_readLimit c0 = wc_readLimit c"
    using counted_next_loop [OF _ _ _ l(1)] by simp
  then have "counted (length ([] :: byte list)) c1" "wc_readLimit c1 = wc_readLimit c"
    unfolding l(2) by (auto simp: counted_def)
  with counted_read_all [OF _ n(2)] show ?thesis by simp
qed

end

text \<open>
  C30: The limit of a message: whatever the peer sends, in whatever frames, a message that is read has at
  most as many bytes as the limit allows, if one is set, and in any case fewer than \<open>2 ^ 63\<close>, as lengths
  that would wrap are refused.
\<close>
theorem ws_read_limit:
  assumes "ReadMessage default_handlers sizes c = Some (ReadGives t d err, c')"
  shows "length d < 2 ^ 63 \<and> (if 0 < wc_readLimit c then int (length d) \<le> wc_readLimit c else True)"
  using default.ReadMessage_bounded [OF assms] by simp

theorem ws_read_limit_witness:
  "\<exists>c'. ReadMessage default_handlers (\<lambda>_. 0)
      ((newConn False 0 (\<lambda>_. 0) [] (wire_msg True 1 [([0, 0, 0, 0], [65, 66])]) ErrEOF)\<lparr>wc_readLimit := 2\<rparr>) =
        Some (ReadGives 1 [65, 66] None, c') \<and> int (length [65, 66 :: byte]) \<le> 2"
proof -
  let ?c = "(newConn False 0 (\<lambda>_. 0) [] (wire_msg True 1 [([0, 0, 0, 0], [65, 66])]) ErrEOF)\<lparr>wc_readLimit := 2\<rparr>"
  have "idle (wire_msg (\<not> wc_isServer ?c) 1 [([0, 0, 0, 0], [65, 66])] @ []) ?c"
    by (simp add: idle_def newConn_def)
  from ReadMessage_wire [OF this, of default_handlers "\<lambda>_. 0"] obtain c' where
      "ReadMessage default_handlers (\<lambda>_. 0) ?c = Some (ReadGives 1 [65, 66] None, c')"
    by (auto simp: isData_def frame_types parts_length_def)
  from this ws_read_limit [OF this] show ?thesis by (intro exI [of _ c'] conjI) simp_all
qed

section \<open>Errors are final\<close>

lemma NextReader_failed:
  assumes "wc_readErr c = Some e"
  shows "NextReader h c = Some (if 1000 \<le> wc_readErrCount c + 1 then NextPanic else NextError e,
    c\<lparr>wc_messageReader := None, wc_readLength := 0, wc_readErrCount := wc_readErrCount c + 1\<rparr>)"
proof -
  have "next_loop h (c\<lparr>wc_messageReader := None, wc_readLength := 0\<rparr>) = Some (None, c\<lparr>wc_messageReader := None, wc_readLength := 0\<rparr>)"
    using assms by (subst next_loop.simps) simp
  then show ?thesis using assms by (simp add: NextReader_def Let_def)
qed

lemma receive_failed:
  assumes "wc_readErr c = Some e"
  shows "\<exists>c'. receive_all h sizes n c =
      Some (map (\<lambda>i. if wc_readErrCount c + 1 + int i < 1000 then ReadFails e else ReadPanics) [0..<n], c') \<and> wc_readErr c' = Some e"
  using assms
proof (induction n arbitrary: c)
  case (Suc n)
  let ?c = "c\<lparr>wc_messageReader := None, wc_readLength := 0, wc_readErrCount := wc_readErrCount c + 1\<rparr>"
  obtain c' where "receive_all h sizes n ?c =
      Some (map (\<lambda>i. if wc_readErrCount c + 2 + int i < 1000 then ReadFails e else ReadPanics) [0..<n], c')" "wc_readErr c' = Some e"
    using Suc.IH [of ?c] Suc.prems by (auto simp: add.assoc)
  moreover have "map f [0..<Suc n] = f 0 # map (\<lambda>i. f (Suc i)) [0..<n]" for f :: "nat \<Rightarrow> read_result"
    by (simp add: upt_conv_Cons map_Suc_upt [symmetric] del: upt_Suc)
  ultimately show ?case
    using Suc.prems by (simp add: ReadMessage_def NextReader_failed algebra_simps del: upt_Suc)
qed simp

lemma next_loop_failed:
  assumes "next_loop h d = Some (x, d')" "x = None"
  shows "wc_readErr d' \<noteq> None"
proof -
  have "fst r = None \<longrightarrow> wc_readErr (snd r) \<noteq> None" if "next_loop h d = Some r" for r
    by (rule next_loop.raw_induct [OF _ that]) (auto split: if_splits prod.splits sum.splits)
  from this [OF assms(1)] assms(2) show ?thesis by simp
qed

lemma ReadFails_error:
  assumes "ReadMessage h sizes c = Some (ReadFails e, c')"
  shows "wc_readErr c' = Some e \<and> wc_readErrCount c' < 1000"
proof -
  have "NextReader h c = Some (NextError e, c')"
    using assms by (auto simp: ReadMessage_def split: option.splits next_result.splits prod.splits)
  then show ?thesis by (auto simp: NextReader_def Let_def dest!: next_loop_failed split: option.splits if_splits)
qed

text \<open>
  An error of reading is final: once reading a message failed, every later attempt fails with the
  same error, whatever arrives, until the attempt number 1000 since the connection began; that one and
  all after it panic.
\<close>
theorem ws_error_is_final:
  assumes "ReadMessage h sizes c = Some (ReadFails e, c')"
  shows "\<exists>r. receive_all h sizes' n c' =
    Some (map (\<lambda>i. if wc_readErrCount c' + 1 + int i < 1000 then ReadFails e else ReadPanics) [0..<n], r)"
  using receive_failed [of c' e h sizes' n] ReadFails_error [OF assms] by blast

theorem ws_error_is_final_witness:
  "\<exists>c' r. ReadMessage default_handlers (\<lambda>_. 0) (newConn True 0 (\<lambda>_. 0) [] [0x81] ErrEOF) = Some (ReadFails errUnexpectedEOF, c') \<and>
     receive_all default_handlers (\<lambda>_ _. 0) 2 c' = Some ([ReadFails errUnexpectedEOF, ReadFails errUnexpectedEOF], r)"
proof -
  let ?c = "newConn True 0 (\<lambda>_. 0) [] [0x81] ErrEOF"
  have "advanceFrame default_handlers (?c\<lparr>wc_messageReader := None, wc_readLength := 0\<rparr>) =
      (Inl errUnexpectedEOF, ?c\<lparr>wc_messageReader := None, wc_readLength := 0, wc_in := []\<rparr>)"
    by (simp add: advanceFrame_def and_then_def skip_rest_def ws_read_def newConn_def)
  then have l: "next_loop default_handlers (?c\<lparr>wc_messageReader := None, wc_readLength := 0\<rparr>) =
      Some (None, ?c\<lparr>wc_messageReader := None, wc_readLength := 0, wc_in := [], wc_readErr := Some errUnexpectedEOF\<rparr>)"
    by (subst next_loop.simps) (simp add: newConn_def errUnexpectedEOF_def)
  have count: "wc_readErrCount ?c = 0" by (simp add: newConn_def)
  obtain c' where r: "ReadMessage default_handlers (\<lambda>_. 0) ?c = Some (ReadFails errUnexpectedEOF, c')" "wc_readErrCount c' = 1"
    by (simp add: ReadMessage_def NextReader_def l Let_def count)
  from ws_error_is_final [OF r(1), of "\<lambda>_ _. 0" 2] r show ?thesis by (auto simp: numeral_2_eq_2)
qed

section \<open>Silence after a close message\<close>

definition silent :: "ws_conn \<Rightarrow> ws_conn \<Rightarrow> bool" where
  "silent c c' \<longleftrightarrow> wc_sent c' = wc_sent c \<and> wc_writeErr c' = wc_writeErr c"

datatype ws_call =
    CallWriteMessage int "byte list"
  | CallWriteControl int "byte list" bool
  | CallNextWriter int
  | CallWrite nat "byte list"
  | CallClose nat
  | CallReadMessage "nat \<Rightarrow> nat"

text \<open>A call of the application; one that does not return changes nothing.\<close>

definition ws_call :: "ws_conn \<Rightarrow> ws_call \<Rightarrow> ws_conn" where
  "ws_call c call =
     (case call of
        CallWriteMessage t d \<Rightarrow> (case WriteMessage t d c of None \<Rightarrow> c | Some r \<Rightarrow> snd r)
      | CallWriteControl t d late \<Rightarrow> snd (WriteControl t d late c)
      | CallNextWriter t \<Rightarrow> snd (NextWriter t c)
      | CallWrite w p \<Rightarrow> (case mw_Write w p c of None \<Rightarrow> c | Some r \<Rightarrow> snd r)
      | CallClose w \<Rightarrow> snd (mw_Close w c)
      | CallReadMessage sizes \<Rightarrow> (case ReadMessage default_handlers sizes c of None \<Rightarrow> c | Some r \<Rightarrow> snd r))"

lemma silent_refl [simp]: "silent c c"
  by (simp add: silent_def)

lemma silent_trans: "silent a b \<Longrightarrow> silent b c \<Longrightarrow> silent a c"
  by (simp add: silent_def)

lemma silent_send: "wc_writeErr c \<noteq> None \<Longrightarrow> send_frame t b c = (wc_writeErr c, c)"
  by (auto simp: send_frame_def)

lemma silent_control: "wc_writeErr c \<noteq> None \<Longrightarrow> silent c (snd (WriteControl t d late c))"
  by (auto simp: WriteControl_def Let_def newMaskKey_def silent_send silent_def)

lemma silent_flush: "wc_writeErr c \<noteq> None \<Longrightarrow> silent c (snd (flushFrame w final extra c))"
  by (auto simp: flushFrame_def Let_def newMaskKey_def ws_write_def silent_send silent_def endMessage_def writeFatal_def
      split: option.splits)

lemma silent_Close: "wc_writeErr c \<noteq> None \<Longrightarrow> silent c (snd (mw_Close w c))"
  using silent_flush by (auto simp: mw_Close_def split: option.splits)

lemma silent_begin: "wc_writeErr c \<noteq> None \<Longrightarrow> silent c (snd (beginMessage t c))"
proof -
  assume e: "wc_writeErr c \<noteq> None"
  have "silent c (snd (mw_Close w c))" for w using e by (rule silent_Close)
  then show ?thesis
    using e by (auto simp: beginMessage_def Let_def silent_def split: option.splits)
qed

lemma silent_NextWriter: "wc_writeErr c \<noteq> None \<Longrightarrow> silent c (snd (NextWriter t c))"
  using silent_begin [of c t] by (auto simp: NextWriter_def silent_def split: prod.splits sum.splits)

lemma silent_keeps: "silent c c' \<Longrightarrow> wc_writeErr c \<noteq> None \<Longrightarrow> wc_writeErr c' \<noteq> None"
  by (simp add: silent_def)

lemma silent_ncopy: "wc_writeErr c \<noteq> None \<Longrightarrow> ncopy w n c = (x, c') \<Longrightarrow> silent c c'"
  using silent_flush [of c w False "[]"] by (auto simp: ncopy_def Let_def split: if_splits prod.splits option.splits)

lemma silent_loop:
  assumes "write_loop w p c = Some r" "wc_writeErr c \<noteq> None"
  shows "silent c (snd r)"
proof -
  have "wc_writeErr c \<noteq> None \<longrightarrow> silent c (snd r)"
  proof (rule write_loop.raw_induct [OF _ assms(1)])
    fix rec w p c r
    assume ih: "\<And>w p c r. rec w p c = Some r \<Longrightarrow> wc_writeErr c \<noteq> None \<longrightarrow> silent c (snd r)"
      and body: "(if p = [] then Some (None, c)
        else case ncopy w (length p) c of (Inl e, c) \<Rightarrow> Some (Some e, c)
          | (Inr n, c) \<Rightarrow> rec w (drop n p) (put_data w (take n p) c)) = Some r"
    show "wc_writeErr c \<noteq> None \<longrightarrow> silent c (snd r)"
    proof
      assume e: "wc_writeErr c \<noteq> None"
      obtain x c1 where n: "ncopy w (length p) c = (x, c1)" by fastforce
      have s: "silent c c1" by (rule silent_ncopy [OF e n])
      then have "silent c (put_data w b c1)" "wc_writeErr (put_data w b c1) \<noteq> None" for b
        using e by (simp_all add: silent_def put_data_def)
      then have "silent c (snd r)" if "rec w (drop n p) (put_data w (take n p) c1) = Some r" for n
        using ih [OF that] silent_trans by blast
      then show "silent c (snd r)"
        using body n s by (auto split: if_splits sum.splits)
    qed
  qed
  then show ?thesis using assms(2) by simp
qed

lemma silent_Write: "wc_writeErr c \<noteq> None \<Longrightarrow> mw_Write w p c = Some r \<Longrightarrow> silent c (snd r)"
  by (auto simp: mw_Write_def silent_flush dest: silent_loop split: option.splits if_splits)

lemma silent_WriteMessage:
  assumes "wc_writeErr c \<noteq> None" "WriteMessage t d c = Some r"
  shows "silent c (snd r)"
proof -
  obtain x c1 where b: "beginMessage t c = (x, c1)" by fastforce
  have "x = Inl (the (wc_writeErr c)) \<or> x = Inl ErrBadWriteOpCode"
    using assms(1) b silent_Close [OF assms(1)] by (auto simp: beginMessage_def Let_def silent_def split: if_splits option.splits)
  then obtain e where "x = Inl e" by blast
  then show ?thesis
    using assms(2) silent_begin [OF assms(1), of t] b by (auto simp: WriteMessage_def NextWriter_def split: if_splits)
qed

text \<open>Reading is silent, too.\<close>

definition hushed :: "'a ws_io \<Rightarrow> bool" where
  "hushed m \<longleftrightarrow> (\<forall>c. wc_writeErr c \<noteq> None \<longrightarrow> silent c (snd (m c)))"

lemma hushedI: "(\<And>c. wc_writeErr c \<noteq> None \<Longrightarrow> silent c (snd (m c))) \<Longrightarrow> hushed m"
  by (simp add: hushed_def)

lemma hushedD: "hushed m \<Longrightarrow> wc_writeErr c \<noteq> None \<Longrightarrow> silent c (snd (m c))"
  by (simp add: hushed_def)

lemma hushed_then: "hushed m \<Longrightarrow> (\<And>x. hushed (f x)) \<Longrightarrow> hushed (and_then m f)"
proof (rule hushedI)
  fix c :: ws_conn
  assume m: "hushed m" and f: "\<And>x. hushed (f x)" and e: "wc_writeErr c \<noteq> None"
  obtain x c1 where c1: "m c = (x, c1)" by fastforce
  have s: "silent c c1" using hushedD [OF m e] c1 by simp
  then have "silent c1 (snd (f y c1))" for y by (intro hushedD [OF f] silent_keeps [OF _ e])
  with s show "silent c (snd (and_then m f c))"
    by (cases x) (auto simp: and_then_def c1 intro: silent_trans)
qed

lemma hushed_error: "hushed (handleProtocolError msg)"
  by (rule hushedI) (simp add: handleProtocolError_def silent_control)

lemma hushed_updates [simp]:
  "silent (c\<lparr>wc_readRemaining := n\<rparr>) c' = silent c c'" "silent (c\<lparr>wc_readLength := n\<rparr>) c' = silent c c'"
  "silent (c\<lparr>wc_readMaskPos := p\<rparr>) c' = silent c c'" "silent c (c'\<lparr>wc_readRemaining := n\<rparr>) = silent c c'"
  "silent c (c'\<lparr>wc_readErr := e\<rparr>) = silent c c'" "silent c (c'\<lparr>wc_in := b\<rparr>) = silent c c'"
  "silent c (c'\<lparr>wc_readFinal := f\<rparr>) = silent c c'" "silent c (c'\<lparr>wc_readMaskKey := k\<rparr>) = silent c c'"
  "silent c (c'\<lparr>wc_readLength := n\<rparr>) = silent c c'" "silent c (c'\<lparr>wc_readMaskPos := p\<rparr>) = silent c c'"
  "silent c (c'\<lparr>wc_messageReader := r\<rparr>) = silent c c'" "silent c (c'\<lparr>wc_nextReader := m\<rparr>) = silent c c'"
  "silent c (c'\<lparr>wc_readErrCount := n\<rparr>) = silent c c'"
  by (simp_all add: silent_def)

lemma hushed_steps [simp]:
  "hushed skip_rest" "hushed (ws_read n)" "hushed (setReadRemaining k)" "hushed control_payload"
  by (auto simp: hushed_def skip_rest_def ws_read_def setReadRemaining_def control_payload_def)

lemma error_silent:
  assumes "wc_writeErr c \<noteq> None"
  shows "silent c (snd (handleProtocolError msg c))"
    "silent c (snd (handleProtocolError msg (c\<lparr>wc_readRemaining := n\<rparr>)))"
proof -
  show "silent c (snd (handleProtocolError msg c))" by (rule hushedD [OF hushed_error assms])
  have "silent (c\<lparr>wc_readRemaining := n\<rparr>) (snd (handleProtocolError msg (c\<lparr>wc_readRemaining := n\<rparr>)))"
    by (rule hushedD [OF hushed_error]) (simp add: assms)
  then show "silent c (snd (handleProtocolError msg (c\<lparr>wc_readRemaining := n\<rparr>)))" by simp
qed

lemma hushed_start [simp]: "hushed (frame_start p0 p1)"
  by (rule hushedI) (simp add: frame_start_def Let_def error_silent)

lemma hushed_length [simp]: "hushed frame_length"
proof -
  have "hushed (and_then (ws_read n) (\<lambda>p. setReadRemaining (f p)))" for n f by (rule hushed_then) simp_all
  then show ?thesis by (auto simp: hushed_def frame_length_def)
qed

lemma hushed_mask [simp]: "hushed (frame_mask b)"
proof (rule hushedI)
  fix c :: ws_conn assume e: "wc_writeErr c \<noteq> None"
  have "hushed (and_then (ws_read 4) (\<lambda>p c. (Inr (), c\<lparr>wc_readMaskKey := p\<rparr>)))"
    by (rule hushed_then [OF hushed_steps(2)]) (simp add: hushed_def)
  from hushedD [OF this, of "c\<lparr>wc_readMaskPos := 0\<rparr>"] e
  show "silent c (snd (frame_mask b c))" by (simp add: frame_mask_def error_silent)
qed

lemma hushed_count [simp]: "hushed (count_length t)"
  using silent_control [of "c\<lparr>wc_readLength := n\<rparr>" for c n] by (auto simp: hushed_def count_length_def Let_def)

lemma silent_handlers:
  assumes "wc_writeErr c \<noteq> None"
  shows "silent c (snd (handlePong default_handlers p c))" "silent c (snd (handlePing default_handlers p c))"
    "silent c (snd (handleClose default_handlers code msg c))"
proof -
  have "snd (default_ping p c) = snd (WriteControl PongMessage (text_bytes p) False c)"
    by (simp add: default_ping_def split: prod.split option.split ws_error.split bool.split)
  then show "silent c (snd (handlePing default_handlers p c))"
    using silent_control [OF assms] by (simp add: default_handlers_def)
qed (simp_all add: default_handlers_def default_close_def silent_control assms)

lemma hushed_control [simp]: "hushed (control_frame default_handlers t p)"
proof (rule hushedI)
  fix c :: ws_conn assume e: "wc_writeErr c \<noteq> None"
  show "silent c (snd (control_frame default_handlers t p c))"
    using silent_handlers [OF e]
    by (simp add: control_frame_def handled_def case_prod_beta Let_def error_silent e split: option.split)
qed

lemma hushed_advance: "hushed (advanceFrame default_handlers)"
  unfolding advanceFrame_def by (intro hushed_then) (auto intro: hushed_then)

lemma silent_advance: "wc_writeErr c \<noteq> None \<Longrightarrow> advanceFrame default_handlers c = (x, c') \<Longrightarrow> silent c c'"
  using hushedD [OF hushed_advance, of c] by simp

lemma silent_next:
  assumes "wc_writeErr c \<noteq> None" "next_loop default_handlers c = Some r"
  shows "silent c (snd r)"
  using assms
proof (induction "length (wc_in c)" arbitrary: c rule: less_induct)
  case less
  obtain x c1 where a: "advanceFrame default_handlers c = (x, c1)" by fastforce
  have s: "silent c c1" by (rule silent_advance [OF less.prems(1) a])
  then have w: "wc_writeErr c1 \<noteq> None" by (rule silent_keeps [OF _ less.prems(1)])
  have "silent c1 (snd r)" if "x = Inr t" "next_loop default_handlers c1 = Some r" for t
    using less.hyps [OF default.advance_shorter w that(2)] a that(1) by blast
  then show ?case
    using less.prems(2) a s by (subst (asm) next_loop.simps) (auto split: if_splits sum.splits intro: silent_trans)
qed

lemma silent_chunk: "silent c (snd (read_chunk n c))"
  by (simp add: read_chunk_def Let_def case_prod_beta silent_def)

lemma silent_read_loop:
  assumes "wc_writeErr c \<noteq> None" "read_loop default_handlers m n c = Some r"
  shows "silent c (snd r)"
  using assms
proof (induction "length (wc_in c)" arbitrary: c rule: less_induct)
  case less
  obtain x c1 where a: "advanceFrame default_handlers c = (x, c1)" by fastforce
  have s: "silent c c1" by (rule silent_advance [OF less.prems(1) a])
  then have w: "wc_writeErr c1 \<noteq> None" by (rule silent_keeps [OF _ less.prems(1)])
  have stop: "silent c2 (snd r)" if "read_loop default_handlers m n c2 = Some r" "wc_readErr c2 = Some e" for c2 e
    using that by (subst (asm) read_loop.simps) auto
  have "silent c1 (snd r)" if "x = Inr t" "read_loop default_handlers m n c1 = Some r" for t
    using less.hyps [OF default.advance_shorter w that(2)] a that(1) by blast
  moreover have "silent c1 (snd r)" if "read_loop default_handlers m n (c1\<lparr>wc_readErr := Some e\<rparr>) = Some r" for e
    using stop [OF that] by (simp add: silent_def)
  ultimately show ?case
    using less.prems(2) a s silent_chunk [of c n]
    by (subst (asm) read_loop.simps) (auto split: if_splits sum.splits option.splits intro: silent_trans)
qed

lemma silent_read_all:
  assumes "wc_writeErr c \<noteq> None" "read_all default_handlers m sizes acc c = Some r"
  shows "silent c (snd r)"
  using assms
proof (induction "length (wc_in c)" arbitrary: c sizes acc rule: less_induct)
  case less
  obtain b e c1 where m: "mr_Read default_handlers m (Suc (sizes 0)) c = Some ((b, e), c1)"
      "e = None \<Longrightarrow> length (wc_in c1) < length (wc_in c)"
    using default.mr_Read_returns [of "Suc (sizes 0)" m c] by auto
  have s: "silent c c1"
    using m(1) silent_read_loop [OF less.prems(1)] by (fastforce simp: mr_Read_def split: if_splits)
  then have w: "wc_writeErr c1 \<noteq> None" by (rule silent_keeps [OF _ less.prems(1)])
  show ?case
    using less.prems(2) m s less.hyps [OF m(2) w]
    by (subst (asm) read_all.simps) (auto split: option.splits intro: silent_trans)
qed

lemma silent_ReadMessage:
  assumes "wc_writeErr c \<noteq> None" "ReadMessage default_handlers sizes c = Some r"
  shows "silent c (snd r)"
proof -
  obtain x c1 where n: "NextReader default_handlers c = Some (x, c1)" using default.NextReader_returns [of c] by auto
  have "silent (c\<lparr>wc_messageReader := None, wc_readLength := 0\<rparr>) (snd y)"
    if "next_loop default_handlers (c\<lparr>wc_messageReader := None, wc_readLength := 0\<rparr>) = Some y" for y
    using silent_next [OF _ that] assms(1) by simp
  then have s: "silent c c1"
    using n by (fastforce simp: NextReader_def Let_def silent_def split: option.splits)
  then have w: "wc_writeErr c1 \<noteq> None" by (rule silent_keeps [OF _ assms(1)])
  have "silent c1 (snd y)" if "read_all default_handlers m sizes [] c1 = Some y" for m y
    by (rule silent_read_all [OF w that])
  then show ?thesis
    using assms(2) n s by (fastforce simp: ReadMessage_def split: option.splits next_result.splits intro: silent_trans)
qed

definition sent_exactly :: "byte list \<Rightarrow> ws_conn \<Rightarrow> bool" where
  "sent_exactly b c \<longleftrightarrow> wc_sent c = b \<and> wc_writeErr c \<noteq> None"

lemma silent_exactly: "sent_exactly b c \<Longrightarrow> silent c c' \<Longrightarrow> sent_exactly b c'"
  by (simp add: sent_exactly_def silent_def)

lemma ws_call_exactly: "sent_exactly b c \<Longrightarrow> sent_exactly b (ws_call c call)"
proof -
  assume b: "sent_exactly b c"
  then have e: "wc_writeErr c \<noteq> None" by (simp add: sent_exactly_def)
  have "silent c (ws_call c call)"
    using silent_WriteMessage [OF e] silent_control [OF e] silent_NextWriter [OF e] silent_Write [OF e] silent_Close [OF e]
      silent_ReadMessage [OF e]
    by (cases call) (auto simp: ws_call_def split: option.split)
  with b show ?thesis by (rule silent_exactly)
qed

interpretation after_close: machine_invariant ws_call "sent_exactly b" for b
  by unfold_locales (rule ws_call_exactly)

text \<open>
  C31: After a close message: once a close frame went out, no call of the application, be it for writing
  messages or control frames or for reading, which answers pings and protocol errors, sends another
  byte.
\<close>
theorem ws_silent_after_close:
  assumes "WriteControl CloseMessage d late c = (None, c')"
  shows "wc_sent (run ws_call c' calls) = wc_sent c' \<and> wc_writeErr c' \<noteq> None"
proof -
  have "wc_writeErr c' \<noteq> None"
    using assms by (auto simp: WriteControl_def send_frame_def writeFatal_def Let_def isControl_def frame_types
        split: if_splits option.splits prod.splits)
  then have "sent_exactly (wc_sent c') c'" by (simp add: sent_exactly_def)
  from after_close.run_inv [OF this] this show ?thesis by (simp add: sent_exactly_def)
qed

theorem ws_silent_after_close_witness:
  "\<exists>c'. WriteControl CloseMessage [3, 232] False (newConn True 0 (\<lambda>_. 0) [] [0x89, 0x80, 1, 2, 3, 4] ErrEOF) = (None, c') \<and>
     wc_sent (run ws_call c' [CallWriteMessage 1 [65], CallReadMessage (\<lambda>_. 0)]) = [0x88, 2, 3, 232]"
proof -
  obtain c' where w: "WriteControl CloseMessage [3, 232] False (newConn True 0 (\<lambda>_. 0) [] [0x89, 0x80, 1, 2, 3, 4] ErrEOF) = (None, c')"
      "wc_sent c' = [0x88, 2, 3, 232]"
    by (simp add: WriteControl_def send_frame_def net_Write_def writeFatal_def newConn_def isControl_def frame_types finalBit_def
        maxControlFramePayloadSize_def Let_def)
  from ws_silent_after_close [OF w(1), of "[CallWriteMessage 1 [65], CallReadMessage (\<lambda>_. 0)]"] w show ?thesis
    by (intro exI [of _ c'] conjI) (simp_all del: run.simps)
qed

end
