(* ===== verification/Ws_Server.thy ===== *)
theory Ws_Server
  imports Ws_Bounds
begin

text \<open>
  The handshake of web sockets on the side of the server (\<open>src/github.com/gorilla/websocket/util.go\<close>,
  \<open>server.go\<close>): the tokens, quoted strings and lists of header fields, and \<open>Upgrade\<close>. SHA-1, the
  parser of URLs and what the HTTP server gives away with its connection are parameters.
\<close>

section \<open>Tokens\<close>

definition isTokenOctet :: "char \<Rightarrow> bool" where
  "isTokenOctet c \<longleftrightarrow> is_digit c \<or> is_upper c \<or> is_lower c \<or> c \<in> set (''!#$%&*+-.^_|~'' @ [squote, backquote])"

definition tab :: char where "tab = CHR 0x09"

definition skipSpace :: "string \<Rightarrow> string" where
  "skipSpace s = dropWhile (\<lambda>b. b = CHR '' '' \<or> b = tab) s"

definition nextToken :: "string \<Rightarrow> string \<times> string" where
  "nextToken s = (takeWhile isTokenOctet s, dropWhile isTokenOctet s)"

text \<open>
  The two loops of \<open>nextTokenOrQuoted\<close>, without and, from the first backslash on, with the buffer \<open>p\<close> of
  \<open>n\<close> bytes; \<open>None\<close> is a write behind its end, which would panic.
\<close>

fun quoted_escaped :: "nat \<Rightarrow> string \<Rightarrow> bool \<Rightarrow> string \<Rightarrow> (string \<times> string) option" where
  "quoted_escaped n p escape [] = Some ([], [])"
| "quoted_escaped n p escape (b # s) =
     (if escape then (if length p < n then quoted_escaped n (p @ [b]) False s else None)
      else if b = backslash then quoted_escaped n p True s
      else if b = dquote then Some (p, s)
      else if length p < n then quoted_escaped n (p @ [b]) False s
      else None)"

fun quoted_plain :: "nat \<Rightarrow> string \<Rightarrow> string \<Rightarrow> (string \<times> string) option" where
  "quoted_plain n p [] = Some ([], [])"
| "quoted_plain n p (b # s) =
     (if b = dquote then Some (p, s)
      else if b = backslash then quoted_escaped n p True s
      else quoted_plain n (p @ [b]) s)"

definition nextTokenOrQuoted :: "string \<Rightarrow> (string \<times> string) option" where
  "nextTokenOrQuoted s =
     (if \<not> has_prefix s [dquote] then Some (nextToken s)
      else quoted_plain (length (tl s) - 1) [] (tl s))"

text \<open>ASCII case folding over the code points of both strings.\<close>

definition fold_rune :: "int \<Rightarrow> int" where
  "fold_rune r = (if 65 \<le> r \<and> r \<le> 90 then r + 97 - 65 else r)"

function equalASCIIFold :: "string \<Rightarrow> string \<Rightarrow> bool" where
  "equalASCIIFold s t =
     (if s \<noteq> [] \<and> t \<noteq> [] then
        (case (decode_rune s, decode_rune t) of
           ((sr, m), (tr, n)) \<Rightarrow>
             if sr \<noteq> tr \<and> fold_rune sr \<noteq> fold_rune tr then False
             else equalASCIIFold (drop (snd (decode_rune s)) s) (drop (snd (decode_rune t)) t))
      else s = t)"
  by pat_completeness auto
termination
  by (relation "measure (\<lambda>(s, t). length s)") (auto simp: decode_rune_size)

declare equalASCIIFold.simps [simp del]

lemma skipSpace_shorter: "length (skipSpace s) \<le> length s"
  by (simp add: skipSpace_def length_dropWhile_le)

lemma nextToken_shorter: "nextToken s = (t, r) \<Longrightarrow> length t + length r = length s"
  by (auto simp: nextToken_def) (metis length_append takeWhile_dropWhile_id)

text \<open>One field of the header with a list of tokens.\<close>

function token_in :: "string \<Rightarrow> string \<Rightarrow> bool" where
  "token_in v s =
     (case nextToken (skipSpace s) of
        (t, r) \<Rightarrow>
          if t = [] then False
          else let r = skipSpace r in
               if r \<noteq> [] \<and> hd r \<noteq> CHR '','' then False
               else if equalASCIIFold t v then True
               else if r = [] then False
               else token_in v (tl r))"
  by pat_completeness auto
termination
proof (relation "measure (\<lambda>(v, s). length s)", simp)
  fix v s t r and y :: string
  assume a: "(t, r) = nextToken (skipSpace s)" "t \<noteq> []" "y = skipSpace r" "\<not> (y \<noteq> [] \<and> hd y \<noteq> CHR '','')"
    "\<not> equalASCIIFold t v" "y \<noteq> []"
  have "length t + length r = length (skipSpace s)" using a(1) nextToken_shorter by metis
  then have "length y < length s"
    using a(2,3) skipSpace_shorter [of s] skipSpace_shorter [of r] by (cases t) auto
  then show "((v, tl y), v, s) \<in> measure (\<lambda>(v, s). length s)" by simp
qed

declare token_in.simps [simp del]

type_synonym header = "string \<Rightarrow> string list"

definition tokenListContainsValue :: "header \<Rightarrow> string \<Rightarrow> string \<Rightarrow> bool" where
  "tokenListContainsValue header name v = list_ex (token_in v) (header name)"

section \<open>Extensions\<close>

text \<open>\<open>Skips\<close> gives up the field of the header, \<open>Panics\<close> is a panic.\<close>

datatype 'a scan = Panics | Skips | Scans 'a

lemma quoted_escaped_shorter: "quoted_escaped n p e s = Some (v, r) \<Longrightarrow> length r \<le> length s"
  by (induction n p e s rule: quoted_escaped.induct) (auto split: if_splits)

lemma quoted_plain_shorter: "quoted_plain n p s = Some (v, r) \<Longrightarrow> length r \<le> length s"
  by (induction n p s rule: quoted_plain.induct) (auto split: if_splits dest: quoted_escaped_shorter)

lemma nextTokenOrQuoted_shorter: "nextTokenOrQuoted s = Some (v, r) \<Longrightarrow> length r \<le> length s"
proof -
  assume a: "nextTokenOrQuoted s = Some (v, r)"
  show ?thesis
  proof (cases "has_prefix s [dquote]")
    case True
    then show ?thesis using a quoted_plain_shorter [of "length (tl s) - 1" "[]" "tl s" v r] by (auto simp: nextTokenOrQuoted_def)
  next
    case False
    then show ?thesis using a nextToken_shorter [of s v r] by (simp add: nextTokenOrQuoted_def)
  qed
qed

text \<open>The value of a parameter after its name.\<close>

definition param_value :: "string \<Rightarrow> (string \<times> string) option" where
  "param_value s =
     (if has_prefix s ''='' then map_option (\<lambda>(v, r). (v, skipSpace r)) (nextTokenOrQuoted (skipSpace (tl s)))
      else Some ([], s))"

lemma param_value_shorter: "param_value s = Some (v, r) \<Longrightarrow> length r \<le> length s"
proof -
  assume a: "param_value s = Some (v, r)"
  have "length q \<le> length (tl s)" if "nextTokenOrQuoted (skipSpace (tl s)) = Some (w, q)" for w q
    using nextTokenOrQuoted_shorter [OF that] skipSpace_shorter [of "tl s"] by simp
  then show ?thesis
    using a by (fastforce simp: param_value_def intro: order.trans [OF skipSpace_shorter] split: if_splits)
qed

function parse_params :: "(string \<rightharpoonup> string) \<Rightarrow> string \<Rightarrow> ((string \<rightharpoonup> string) \<times> string) scan" where
  "parse_params ext s =
     (let s = skipSpace s in
      if \<not> has_prefix s '';'' then Scans (ext, s)
      else case nextToken (skipSpace (tl s)) of
             (k, r) \<Rightarrow>
               if k = [] then Skips
               else case param_value (skipSpace r) of
                      None \<Rightarrow> Panics
                    | Some (v, q) \<Rightarrow>
                        if q \<noteq> [] \<and> hd q \<noteq> CHR '','' \<and> hd q \<noteq> CHR '';'' then Skips
                        else parse_params (ext(k \<mapsto> v)) q)"
  by pat_completeness auto
termination
proof (relation "measure (\<lambda>(ext, s). length s)", simp)
  fix ext :: "string \<rightharpoonup> string" and s x k r z v q
  assume a: "x = skipSpace s" "\<not> \<not> has_prefix x '';''" "(k, r) = nextToken (skipSpace (tl x))" "k \<noteq> []"
    "param_value (skipSpace r) = Some z" "(v, q) = z" "\<not> (q \<noteq> [] \<and> hd q \<noteq> CHR '','' \<and> hd q \<noteq> CHR '';'')"
  have "length q \<le> length (skipSpace r)" using a(5,6) param_value_shorter by metis
  moreover have "length k + length r = length (skipSpace (tl x))" using a(3) nextToken_shorter by metis
  ultimately have "length q < length s"
    using a(1,4) skipSpace_shorter [of r] skipSpace_shorter [of "tl x"] skipSpace_shorter [of s]
    by (cases k) auto
  then show "((ext(k \<mapsto> v), q), ext, s) \<in> measure (\<lambda>(ext, s). length s)" by simp
qed

declare parse_params.simps [simp del]

lemma parse_params_shorter: "parse_params ext s = Scans (ext', r) \<Longrightarrow> length r \<le> length s"
proof (induction ext s rule: parse_params.induct)
  case (1 ext s)
  show ?case
  proof (cases "has_prefix (skipSpace s) '';''")
    case False
    then show ?thesis
      using "1.prems" skipSpace_shorter [of s] by (subst (asm) parse_params.simps) (auto simp: Let_def)
  next
    case True
    obtain k q where t: "nextToken (skipSpace (tl (skipSpace s))) = (k, q)" by fastforce
    have k: "k \<noteq> []" using "1.prems" True t by (subst (asm) parse_params.simps) (auto simp: Let_def)
    obtain v u where p: "param_value (skipSpace q) = Some (v, u)"
      using "1.prems" True t k by (subst (asm) parse_params.simps) (auto simp: Let_def split: option.splits)
    have c: "\<not> (u \<noteq> [] \<and> hd u \<noteq> CHR '','' \<and> hd u \<noteq> CHR '';'')"
      using "1.prems" True t k p by (subst (asm) parse_params.simps) (auto simp: Let_def split: if_splits)
    have "parse_params (ext(k \<mapsto> v)) u = Scans (ext', r)"
      using "1.prems" True t k p c by (subst (asm) parse_params.simps) (auto simp: Let_def split: if_splits)
    then have "length r \<le> length u" using "1.IH" True t k p c by (auto simp: Let_def simp del: fun_upd_apply)
    also have "\<dots> \<le> length (skipSpace q)" using p by (rule param_value_shorter)
    also have "\<dots> \<le> length s"
      using skipSpace_shorter [of q] nextToken_shorter [OF t] skipSpace_shorter [of "tl (skipSpace s)"] skipSpace_shorter [of s]
      by simp
    finally show ?thesis .
  qed
qed

text \<open>One field of the header: the extensions before it is given up or ends; \<open>None\<close> is a panic.\<close>

function parse_field :: "string \<Rightarrow> (string \<rightharpoonup> string) list option" where
  "parse_field s =
     (case nextToken (skipSpace s) of
        (t, r) \<Rightarrow>
          if t = [] then Some []
          else case parse_params [[] \<mapsto> t] r of
                 Panics \<Rightarrow> None
               | Skips \<Rightarrow> Some []
               | Scans (ext, r) \<Rightarrow>
                   if r \<noteq> [] \<and> hd r \<noteq> CHR '','' then Some []
                   else if r = [] then Some [ext]
                   else map_option ((#) ext) (parse_field (tl r)))"
  by pat_completeness auto
termination
proof (relation "measure length", simp)
  fix s t r z ext q
  assume a: "(t, r) = nextToken (skipSpace s)" "t \<noteq> []" "parse_params [[] \<mapsto> t] r = Scans z" "(ext, q) = z"
    "\<not> (q \<noteq> [] \<and> hd q \<noteq> CHR '','')" "q \<noteq> []"
  have "length q \<le> length r" using a(3,4) parse_params_shorter by metis
  moreover have "length t + length r = length (skipSpace s)" using a(1) nextToken_shorter by metis
  ultimately show "(tl q, s) \<in> measure length" using a(2) skipSpace_shorter [of s] by (cases t) auto
qed

declare parse_field.simps [simp del]

definition parseExtensions :: "header \<Rightarrow> (string \<rightharpoonup> string) list option" where
  "parseExtensions header =
     (let rs = map parse_field (header ''Sec-Websocket-Extensions'')
      in if None \<in> set rs then None else Some (concat (map the rs)))"

section \<open>The handshake\<close>

record request =
  rq_Method :: string
  rq_Header :: header
  rq_Host :: string

text \<open>\<open>Header.Get\<close> of a canonical name.\<close>

definition hget :: "header \<Rightarrow> string \<Rightarrow> string" where
  "hget h name = (case h name of [] \<Rightarrow> [] | v # _ \<Rightarrow> v)"

text \<open>\<open>up_Error\<close>: an own function for errors, which sends nothing; without it an error is sent.\<close>

record upgrader =
  up_ReadBufferSize :: int
  up_WriteBufferSize :: int
  up_Subprotocols :: "string list option"
  up_Error :: bool
  up_CheckOrigin :: "(request \<Rightarrow> bool) option"
  up_EnableCompression :: bool

text \<open>
  What the HTTP server gives away: whether it does, the bytes it has read ahead, the length of its write
  buffer, and the network behind it; \<open>hj_write\<close> is the error of sending the answer.
\<close>

record hijack =
  hj_Hijacker :: bool
  hj_error :: "string option"
  hj_buffered :: nat
  hj_bufLen :: nat
  hj_write :: "string option"
  hj_rand :: "nat \<Rightarrow> 32 word"
  hj_net :: "(nat \<times> ws_error) option list"
  hj_in :: "byte list"
  hj_end :: ws_error

datatype upgrade_result =
    Refused int string bool
  | UpgradeFails string
  | UpgradePanics
  | Upgraded ws_conn string bool string

definition returnError :: "upgrader \<Rightarrow> int \<Rightarrow> string \<Rightarrow> upgrade_result" where
  "returnError u status reason = Refused status reason (\<not> up_Error u)"

definition checkSameOrigin :: "(string \<Rightarrow> string option) \<Rightarrow> request \<Rightarrow> bool" where
  "checkSameOrigin url_host r =
     (case rq_Header r ''Origin'' of
        [] \<Rightarrow> True
      | origin # _ \<Rightarrow>
          (case url_host origin of None \<Rightarrow> False | Some host \<Rightarrow> equalASCIIFold host (rq_Host r)))"

definition Subprotocols :: "request \<Rightarrow> string list" where
  "Subprotocols r =
     (let h = trim_space (hget (rq_Header r) ''Sec-Websocket-Protocol'')
      in if h = [] then [] else map trim_space (split_on CHR '','' h))"

definition selectSubprotocol :: "upgrader \<Rightarrow> request \<Rightarrow> (string \<times> string list) list option \<Rightarrow> string" where
  "selectSubprotocol u r responseHeader =
     (case up_Subprotocols u of
        Some protocols \<Rightarrow>
          (case find (\<lambda>p. p \<in> set (Subprotocols r)) protocols of None \<Rightarrow> [] | Some p \<Rightarrow> p)
      | None \<Rightarrow>
          (case responseHeader of
             None \<Rightarrow> []
           | Some h \<Rightarrow> (case map_of h ''Sec-Websocket-Protocol'' of Some (v # _) \<Rightarrow> v | _ \<Rightarrow> [])))"

definition keyGUID :: string where "keyGUID = ''258EAFA5-E914-47DA-95CA-C5AB0DC85B11''"

definition computeAcceptKey :: "(string \<Rightarrow> string) \<Rightarrow> string \<Rightarrow> string" where
  "computeAcceptKey sha1 challengeKey = base64 (sha1 (challengeKey @ keyGUID))"

definition crlf :: string where "crlf = [CHR 0x0D, CHR 0x0A]"

definition header_value :: "string \<Rightarrow> string" where
  "header_value v = map (\<lambda>b. if (of_char b :: int) \<le> 31 then CHR '' '' else b) v"

text \<open>The fields of the answer, in the order in which the map gives them.\<close>

definition upgrade_fields :: "(string \<times> string list) list option \<Rightarrow> string" where
  "upgrade_fields responseHeader =
     (case responseHeader of
        None \<Rightarrow> []
      | Some h \<Rightarrow>
          concat (map (\<lambda>(k, vs). if k = ''Sec-Websocket-Protocol'' then []
            else concat (map (\<lambda>v. k @ '': '' @ header_value v @ crlf) vs)) h))"

definition upgrade_answer :: "(string \<Rightarrow> string) \<Rightarrow> string \<Rightarrow> string \<Rightarrow> bool \<Rightarrow> (string \<times> string list) list option \<Rightarrow> string" where
  "upgrade_answer sha1 challengeKey subprotocol compress responseHeader =
     ''HTTP/1.1 101 Switching Protocols'' @ crlf @ ''Upgrade: websocket'' @ crlf @ ''Connection: Upgrade'' @ crlf @
     ''Sec-WebSocket-Accept: '' @ computeAcceptKey sha1 challengeKey @ crlf @
     (if subprotocol \<noteq> [] then ''Sec-WebSocket-Protocol: '' @ subprotocol @ crlf else []) @
     (if compress
      then ''Sec-WebSocket-Extensions: permessage-deflate; server_no_context_takeover; client_no_context_takeover'' @ crlf
      else []) @
     upgrade_fields responseHeader @ crlf"

definition badHandshake :: string where
  "badHandshake = ''websocket: the client is not using the websocket protocol: ''"

text \<open>The negotiation of compression; \<open>None\<close> is a panic.\<close>

definition negotiate :: "upgrader \<Rightarrow> request \<Rightarrow> bool option" where
  "negotiate u r =
     (if up_EnableCompression u
      then map_option (list_ex (\<lambda>ext. ext [] = Some ''permessage-deflate'')) (parseExtensions (rq_Header r))
      else Some False)"

text \<open>
  The connection of an upgrade: the write buffer of the HTTP server is taken over if it is long enough
  and none is asked for.
\<close>

definition upgraded_conn :: "upgrader \<Rightarrow> hijack \<Rightarrow> ws_conn" where
  "upgraded_conn u hj =
     (let c = newConn True (up_WriteBufferSize u) (hj_rand hj) (hj_net hj) (hj_in hj) (hj_end hj)
      in if up_WriteBufferSize u = 0 \<and> maxFrameHeaderSize + 256 \<le> hj_bufLen hj
         then c\<lparr>wc_bufCap := hj_bufLen hj - maxFrameHeaderSize\<rparr> else c)"

definition squoted :: "string \<Rightarrow> string" where "squoted s = [squote] @ s @ [squote]"

definition Upgrader_Upgrade ::
  "(string \<Rightarrow> string) \<Rightarrow> (string \<Rightarrow> string option) \<Rightarrow> upgrader \<Rightarrow> hijack \<Rightarrow> request \<Rightarrow>
   (string \<times> string list) list option \<Rightarrow> upgrade_result"
where
  "Upgrader_Upgrade sha1 url_host u hj r responseHeader =
     (let h = rq_Header r;
          checkOrigin = (case up_CheckOrigin u of None \<Rightarrow> checkSameOrigin url_host | Some f \<Rightarrow> f);
          challengeKey = hget h ''Sec-Websocket-Key'' in
      if \<not> tokenListContainsValue h ''Connection'' ''upgrade'' then
        returnError u 400 (badHandshake @ squoted ''upgrade'' @ '' token not found in '' @ squoted ''Connection'' @ '' header'')
      else if \<not> tokenListContainsValue h ''Upgrade'' ''websocket'' then
        returnError u 400 (badHandshake @ squoted ''websocket'' @ '' token not found in '' @ squoted ''Upgrade'' @ '' header'')
      else if rq_Method r \<noteq> ''GET'' then returnError u 405 (badHandshake @ ''request method is not GET'')
      else if \<not> tokenListContainsValue h ''Sec-Websocket-Version'' ''13'' then
        returnError u 400 (''websocket: unsupported version: 13 not found in '' @ squoted ''Sec-Websocket-Version'' @ '' header'')
      else if (case responseHeader of None \<Rightarrow> False | Some rh \<Rightarrow> ''Sec-Websocket-Extensions'' \<in> set (map fst rh)) then
        returnError u 500 (''websocket: application specific '' @ squoted ''Sec-WebSocket-Extensions'' @ '' headers are unsupported'')
      else if \<not> checkOrigin r then
        returnError u 403 ''websocket: request origin not allowed by Upgrader.CheckOrigin''
      else if challengeKey = [] then
        returnError u 400 (''websocket: not a websocket handshake: '' @ squoted ''Sec-WebSocket-Key'' @ '' header is missing or blank'')
      else
        case negotiate u r of
          None \<Rightarrow> UpgradePanics
        | Some compress \<Rightarrow>
            let subprotocol = selectSubprotocol u r responseHeader in
            if \<not> hj_Hijacker hj then returnError u 500 ''websocket: response does not implement http.Hijacker''
            else case hj_error hj of
                   Some e \<Rightarrow> returnError u 500 e
                 | None \<Rightarrow>
                     if 0 < hj_buffered hj then UpgradeFails ''websocket: client sent data before handshake is complete''
                     else case hj_write hj of
                            Some e \<Rightarrow> UpgradeFails e
                          | None \<Rightarrow>
                              Upgraded (upgraded_conn u hj) subprotocol compress
                                (upgrade_answer sha1 challengeKey subprotocol compress responseHeader))"

text \<open>The function \<open>Upgrade\<close> of the package, which checks no origin.\<close>

definition Upgrade ::
  "(string \<Rightarrow> string) \<Rightarrow> (string \<Rightarrow> string option) \<Rightarrow> hijack \<Rightarrow> request \<Rightarrow> (string \<times> string list) list option \<Rightarrow>
   int \<Rightarrow> int \<Rightarrow> upgrade_result"
where
  "Upgrade sha1 url_host hj r responseHeader readBufSize writeBufSize =
     Upgrader_Upgrade sha1 url_host
       \<lparr>up_ReadBufferSize = readBufSize, up_WriteBufferSize = writeBufSize, up_Subprotocols = None, up_Error = True,
        up_CheckOrigin = Some (\<lambda>_. True), up_EnableCompression = False\<rparr> hj r responseHeader"

definition IsWebSocketUpgrade :: "request \<Rightarrow> bool" where
  "IsWebSocketUpgrade r \<longleftrightarrow>
     tokenListContainsValue (rq_Header r) ''Connection'' ''upgrade'' \<and> tokenListContainsValue (rq_Header r) ''Upgrade'' ''websocket''"

section \<open>Quoted strings\<close>

text \<open>The buffer for a quoted string is long enough: each byte of the text is written at most once.\<close>

lemma quoted_escaped_fits: "length p + length s \<le> n \<Longrightarrow> quoted_escaped n p escape s \<noteq> None"
  by (induction n p escape s rule: quoted_escaped.induct) auto

lemma quoted_plain_fits: "length p + length s \<le> Suc n \<Longrightarrow> quoted_plain n p s \<noteq> None"
proof (induction n p s rule: quoted_plain.induct)
  case (2 n p b s)
  then show ?case using quoted_escaped_fits [of p s n True] by simp
qed simp

lemma nextTokenOrQuoted_fits: "nextTokenOrQuoted s \<noteq> None"
  using quoted_plain_fits [of "[]" "tl s" "length (tl s) - 1"] by (auto simp: nextTokenOrQuoted_def)

lemma param_value_fits: "param_value s \<noteq> None"
  using nextTokenOrQuoted_fits by (auto simp: param_value_def)

lemma parse_params_safe: "parse_params ext s \<noteq> Panics"
proof (induction ext s rule: parse_params.induct)
  case (1 ext s)
  obtain k q where t: "nextToken (skipSpace (tl (skipSpace s))) = (k, q)" by fastforce
  obtain v u where p: "param_value (skipSpace q) = Some (v, u)" using param_value_fits [of "skipSpace q"] by auto
  show ?case
    using "1.IH" t p by (subst parse_params.simps) (auto simp: Let_def simp del: fun_upd_apply)
qed

lemma parse_field_safe: "parse_field s \<noteq> None"
proof (induction s rule: parse_field.induct)
  case (1 s)
  obtain t r where t: "nextToken (skipSpace s) = (t, r)" by fastforce
  show ?case
    using "1.IH" t parse_params_safe [of "[[] \<mapsto> t]" r]
    by (subst parse_field.simps) (auto split: scan.split simp del: fun_upd_apply)
qed

lemma negotiate_safe: "negotiate u r \<noteq> None"
proof -
  have "None \<notin> set (map parse_field xs)" for xs by (auto dest: sym simp: parse_field_safe)
  then show ?thesis by (simp add: negotiate_def parseExtensions_def Let_def del: not_None_eq)
qed

text \<open>A value as RFC 6455 lets a peer quote it.\<close>

definition escaped :: "string \<Rightarrow> string" where
  "escaped v = concat (map (\<lambda>c. if c = backslash \<or> c = dquote then [backslash, c] else [c]) v)"

lemma escaped_Cons: "escaped (c # v) = (if c = backslash \<or> c = dquote then [backslash, c] else [c]) @ escaped v"
  by (simp add: escaped_def)

lemma escaped_nil [simp]: "escaped [] = []"
  by (simp add: escaped_def)

lemma quotes_differ [simp]: "backslash \<noteq> dquote" "dquote \<noteq> backslash"
  by (simp_all add: backslash_def dquote_def)

lemma quoted_escaped_back:
  "length p + length v \<le> n \<Longrightarrow> quoted_escaped n p False (escaped v @ dquote # rest) = Some (p @ v, rest)"
  by (induction v arbitrary: p) (auto simp: escaped_Cons)

lemma length_escaped: "length v \<le> length (escaped v)"
  by (induction v) (auto simp: escaped_Cons)

lemma quoted_plain_back:
  "length p + length (escaped v) \<le> n \<Longrightarrow> quoted_plain n p (escaped v @ dquote # rest) = Some (p @ v, rest)"
proof (induction v arbitrary: p)
  case (Cons c v)
  show ?case
  proof (cases "c = backslash \<or> c = dquote")
    case True
    then have l: "length (p @ [c]) + length v \<le> n" using Cons.prems length_escaped [of v] by (auto simp: escaped_Cons)
    have "length p < n" using l by simp
    then show ?thesis using True quoted_escaped_back [OF l] by (auto simp: escaped_Cons)
  next
    case False
    then show ?thesis using Cons.IH [of "p @ [c]"] Cons.prems by (simp add: escaped_Cons)
  qed
qed simp

text \<open>
  Quoted values: \<open>nextTokenOrQuoted\<close> never writes behind its buffer, on whatever text, and gives
  every quoted value back, whatever bytes it has, with the text behind it.
\<close>
theorem ws_quoted_value:
  "nextTokenOrQuoted s \<noteq> None \<and> nextTokenOrQuoted ([dquote] @ escaped v @ [dquote] @ rest) = Some (v, rest)"
  using nextTokenOrQuoted_fits [of s] quoted_plain_back [of "[]" v "length (escaped v) + length rest" rest]
  by (simp add: nextTokenOrQuoted_def has_prefix_def)

section \<open>When a request is upgraded\<close>

definition asks_upgrade :: "request \<Rightarrow> bool" where
  "asks_upgrade r \<longleftrightarrow>
     IsWebSocketUpgrade r \<and> rq_Method r = ''GET'' \<and> tokenListContainsValue (rq_Header r) ''Sec-Websocket-Version'' ''13'' \<and>
     hget (rq_Header r) ''Sec-Websocket-Key'' \<noteq> []"

definition hijack_ok :: "hijack \<Rightarrow> bool" where
  "hijack_ok hj \<longleftrightarrow> hj_Hijacker hj \<and> hj_error hj = None \<and> hj_buffered hj = 0 \<and> hj_write hj = None"

text \<open>
  The handshake: a request is upgraded exactly if it is a \<open>GET\<close> with the four fields of the protocol,
  its origin is accepted, by default one that is absent or has the host of the request, no field of the
  answer interferes, and the HTTP server gives its connection away without bytes read ahead. Nothing in a
  request makes \<open>Upgrade\<close> panic.
\<close>
theorem ws_upgrade_iff:
  "(\<exists>c sub compress answer. Upgrader_Upgrade sha1 url_host u hj r rh = Upgraded c sub compress answer) =
     (asks_upgrade r \<and> hijack_ok hj \<and>
      (case up_CheckOrigin u of Some f \<Rightarrow> f r
       | None \<Rightarrow> (case rq_Header r ''Origin'' of [] \<Rightarrow> True | o1 # _ \<Rightarrow> (\<exists>host. url_host o1 = Some host \<and> equalASCIIFold host (rq_Host r)))) \<and>
      (case rh of None \<Rightarrow> True | Some f \<Rightarrow> ''Sec-Websocket-Extensions'' \<notin> set (map fst f))) \<and>
   Upgrader_Upgrade sha1 url_host u hj r rh \<noteq> UpgradePanics"
proof -
  obtain compress where n: "negotiate u r = Some compress" using negotiate_safe [of u r] by auto
  have o: "(case up_CheckOrigin u of Some f \<Rightarrow> f r
       | None \<Rightarrow> (case rq_Header r ''Origin'' of [] \<Rightarrow> True | o1 # _ \<Rightarrow> (\<exists>host. url_host o1 = Some host \<and> equalASCIIFold host (rq_Host r)))) =
      (case up_CheckOrigin u of None \<Rightarrow> checkSameOrigin url_host | Some f \<Rightarrow> f) r"
    by (simp add: checkSameOrigin_def split: option.split list.split)
  show ?thesis
    unfolding o Upgrader_Upgrade_def Let_def returnError_def asks_upgrade_def hijack_ok_def IsWebSocketUpgrade_def n
    by (auto split: option.split)
qed

end
