(* ===== verification/Ws_Inspect.thy ===== *)
theory Ws_Inspect
  imports Inspect Ws_Server
begin

text \<open>
  The web socket of the inspector, the handler of \<open>/_ws\<close> in \<open>src/ngrok/client/views/web/view.go\<close>: who
  gets it, and what a browser reads from it.
\<close>

datatype socket_answer =
    SocketError int
  | SocketLost
  | SocketOpen string "ws_conn option"

text \<open>The loop over the messages, until one cannot be written.\<close>

fun stream :: "string list \<Rightarrow> ws_conn \<Rightarrow> ws_conn option" where
  "stream [] c = Some c"
| "stream (m # ms) c =
     (case WriteMessage TextMessage (text_bytes m) c of
        None \<Rightarrow> None
      | Some (Some err, c) \<Rightarrow> Some c
      | Some (None, c) \<Rightarrow> stream ms c)"

text \<open>
  The handler; \<open>msgs\<close> is what the broadcast gives it. After the connection was given away, an error
  cannot be sent.
\<close>

definition inspect_socket ::
  "(string \<Rightarrow> string) \<Rightarrow> (string \<Rightarrow> string option) \<Rightarrow> string \<Rightarrow> hijack \<Rightarrow> request \<Rightarrow> string list \<Rightarrow> socket_answer"
where
  "inspect_socket sha1 url_host inspectAuth hj r msgs =
     (case authorized inspectAuth (hget (rq_Header r) ''Authorization'') of
        Some status \<Rightarrow> SocketError status
      | None \<Rightarrow>
          (case Upgrade sha1 url_host hj r None 1024 1024 of
             Refused _ _ _ \<Rightarrow> SocketError 400
           | UpgradeFails _ \<Rightarrow> SocketLost
           | UpgradePanics \<Rightarrow> SocketLost
           | Upgraded c _ _ answer \<Rightarrow> SocketOpen answer (stream msgs c)))"

lemma upgraded_by_inspector:
  assumes "Upgrade sha1 url_host hj r None 1024 1024 = Upgraded c sub compress answer"
  shows "c = newConn True 1024 (hj_rand hj) (hj_net hj) (hj_in hj) (hj_end hj) \<and> \<not> compress"
  using assms by (auto simp: Upgrade_def Upgrader_Upgrade_def Let_def returnError_def negotiate_def upgraded_conn_def
      split: if_splits option.splits)

lemma inspector_upgrades_iff:
  "(\<exists>c sub compress answer. Upgrade sha1 url_host hj r None 1024 1024 = Upgraded c sub compress answer) \<longleftrightarrow>
   asks_upgrade r \<and> hijack_ok hj"
  unfolding Upgrade_def Upgrader_Upgrade_def Let_def returnError_def asks_upgrade_def hijack_ok_def IsWebSocketUpgrade_def
  by (auto simp: negotiate_def split: option.split)

text \<open>
  C28: Who gets the socket of the inspector: every request that passes the password, if one is
  configured, and asks for an upgrade; where it comes from does not matter, so that without a password
  any page that a browser shows may read the traffic.
\<close>
theorem inspect_socket_any_origin:
  "((\<exists>answer c. inspect_socket sha1 url_host inspectAuth hj r msgs = SocketOpen answer c) =
      (authorized inspectAuth (hget (rq_Header r) ''Authorization'') = None \<and> asks_upgrade r \<and> hijack_ok hj)) \<and>
   inspect_socket sha1 url_host inspectAuth hj (r\<lparr>rq_Header := (rq_Header r)(''Origin'' := origin)\<rparr>) msgs =
     inspect_socket sha1 url_host inspectAuth hj r msgs"
proof -
  have "(\<exists>answer c. inspect_socket sha1 url_host inspectAuth hj r msgs = SocketOpen answer c) =
      (authorized inspectAuth (hget (rq_Header r) ''Authorization'') = None \<and>
       (\<exists>c sub compress answer. Upgrade sha1 url_host hj r None 1024 1024 = Upgraded c sub compress answer))"
    by (auto simp: inspect_socket_def split: option.splits upgrade_result.splits)
  moreover have "Upgrade sha1 url_host hj (r\<lparr>rq_Header := (rq_Header r)(''Origin'' := origin)\<rparr>) None 1024 1024 =
      Upgrade sha1 url_host hj r None 1024 1024"
    by (simp add: Upgrade_def Upgrader_Upgrade_def Let_def hget_def tokenListContainsValue_def negotiate_def selectSubprotocol_def returnError_def
        upgraded_conn_def cong: option.case_cong)
  ultimately show ?thesis
    unfolding inspector_upgrades_iff by (simp add: inspect_socket_def hget_def cong: option.case_cong)
qed

section \<open>What a browser reads\<close>

lemma endMessage_reader: "reader_of (endMessage w x c) = reader_of c"
  by (simp add: endMessage_def split: option.split)

lemma flush_reader: "wc_isServer c \<Longrightarrow> reader_of (snd (flushFrame w True extra c)) = reader_of c"
  by (simp add: flushFrame_def ws_write_def Let_def case_prod_beta endMessage_reader send_frame_reader del: reader_of_eq
      split: option.split)

lemma begin_reader:
  assumes "wc_isServer c"
  shows "reader_of (snd (beginMessage t c)) = reader_of c"
proof -
  have "reader_of (snd (mw_Close w c)) = reader_of c" for w
    using flush_reader [OF assms] by (simp add: mw_Close_def del: reader_of_eq split: option.split)
  then have "reader_of ((snd (mw_Close w c))\<lparr>wc_writer := None\<rparr>) = reader_of c" for w
    by simp
  then show ?thesis
    by (simp add: beginMessage_def Let_def split: option.split)
qed

lemma server_write_reader:
  assumes "wc_isServer c" "WriteMessage t d c = Some r"
  shows "reader_of (snd r) = reader_of c"
proof -
  obtain x c1 where b: "beginMessage t c = (x, c1)" by fastforce
  have c1: "reader_of c1 = reader_of c" using begin_reader [OF assms(1), of t] by (simp only: b snd_conv)
  then have "reader_of (put_data w e c1) = reader_of c" "wc_isServer (put_data w e c1)" for w e
    using assms(1) by (simp_all add: put_data_def)
  then have "reader_of (snd (flushFrame w True e (put_data v f c1))) = reader_of c" for w e v f
    using flush_reader [of "put_data v f c1" w e] by (simp del: reader_of_eq)
  then show ?thesis
    using assms b c1 by (auto simp: WriteMessage_def Let_def simp del: reader_of_eq split: sum.splits)
qed

lemma stream_reader: "wc_isServer c \<Longrightarrow> stream ms c = Some c' \<Longrightarrow> reader_of c' = reader_of c"
proof (induction ms arbitrary: c)
  case (Cons m ms)
  obtain e c1 where w: "WriteMessage TextMessage (text_bytes m) c = Some (e, c1)"
    using Cons.prems(2) by (cases "WriteMessage TextMessage (text_bytes m) c") auto
  have r: "reader_of c1 = reader_of c" using server_write_reader [OF Cons.prems(1) w] by simp
  then have s: "wc_isServer c1" using Cons.prems(1) by simp
  show ?case using Cons.IH [OF s] Cons.prems(2) w r by (cases e) (auto simp del: reader_of_eq)
qed simp

lemma stream_send: "send_all (map (\<lambda>m. (TextMessage, text_bytes m)) ms) c = Some c' \<Longrightarrow> stream ms c = Some c'"
  by (induction ms arbitrary: c) (auto split: option.splits prod.splits)

text \<open>
  C29: What a browser reads: if the network takes everything, a socket of the inspector delivers exactly
  the messages of the broadcast, in order, each as one text message, whatever the browser's end of
  the network does to the bytes; and the handler never reads what the browser sends: no ping is answered
  and a close message is not noticed.
\<close>
theorem inspect_stream:
  assumes "inspect_socket sha1 url_host inspectAuth hj r msgs = SocketOpen answer c" "hj_net hj = []"
    and "list_all (\<lambda>m. int (length m) < 2 ^ 63) msgs"
  shows "\<exists>c'. c = Some c' \<and> wc_in c' = hj_in hj \<and>
    (\<exists>b. receive_all h sizes (length msgs) (newConn False bufSize rnd net (wc_sent c') e) =
      Some (map (\<lambda>m. ReadGives TextMessage (text_bytes m) None) msgs, b))"
proof -
  obtain c0 sub cp where u: "Upgrade sha1 url_host hj r None 1024 1024 = Upgraded c0 sub cp answer" "c = stream msgs c0"
    using assms(1) by (auto simp: inspect_socket_def split: option.splits upgrade_result.splits)
  have c0: "c0 = newConn True 1024 (hj_rand hj) [] (hj_in hj) (hj_end hj)"
    using upgraded_by_inspector [OF u(1)] assms(2) by simp
  let ?ms = "map (\<lambda>m. (TextMessage, text_bytes m)) msgs"
  have "list_all (\<lambda>(t, d). isData t \<and> int (length d) < 2 ^ 63 \<and> (0 < (0 :: int) \<longrightarrow> int (length d) \<le> 0)) ?ms"
    using assms(3) by (simp add: list_all_iff isData_def text_bytes_def)
  from ws_messages_facts [OF this, of True 1024 "hj_rand hj" "hj_in hj" "hj_end hj" h sizes bufSize rnd net "[]" e]
  obtain c' b where s: "send_all ?ms c0 = Some c'"
      "receive_all h sizes (length ?ms) ((newConn False bufSize rnd net (wc_sent c') e)\<lparr>wc_readLimit := 0\<rparr>) =
        Some (map (\<lambda>(t, d). ReadGives t d None) ?ms, b)"
    unfolding c0 by auto
  have st: "stream msgs c0 = Some c'" by (rule stream_send [OF s(1)])
  have "reader_of c' = reader_of c0" by (rule stream_reader [OF _ st]) (simp add: c0 newConn_def)
  then have "wc_in c' = hj_in hj" by (simp add: c0 newConn_def)
  moreover have "(newConn False bufSize rnd net (wc_sent c') e)\<lparr>wc_readLimit := 0\<rparr> = newConn False bufSize rnd net (wc_sent c') e"
    by (simp add: newConn_def)
  ultimately show ?thesis
    using st s(2) u(2) by (auto simp: comp_def)
qed

definition browser_request :: request where
  "browser_request = \<lparr>rq_Method = ''GET'',
     rq_Header = (\<lambda>_. [])(''Connection'' := [''keep-alive, Upgrade''], ''Upgrade'' := [''websocket''],
       ''Sec-Websocket-Version'' := [''13''], ''Sec-Websocket-Key'' := [''dGhlIHNhbXBsZSBub25jZQ==''],
       ''Origin'' := [''http://elsewhere'']),
     rq_Host = ''127.0.0.1:4040''\<rparr>"

definition browser_hijack :: hijack where
  "browser_hijack = \<lparr>hj_Hijacker = True, hj_error = None, hj_buffered = 0, hj_bufLen = 4096, hj_write = None,
     hj_rand = (\<lambda>_. 0), hj_net = [], hj_in = [0x88], hj_end = ErrEOF\<rparr>"

lemma browser_asks: "asks_upgrade browser_request"
  by code_simp

theorem inspect_stream_witness:
  "\<exists>answer c' b. inspect_socket (\<lambda>_. []) (\<lambda>_. None) [] browser_hijack browser_request [''{}'', ''[]''] = SocketOpen answer (Some c') \<and>
     receive_all default_handlers (\<lambda>_ _. 0) 2 (newConn False 0 (\<lambda>_. 0) [] (wc_sent c') ErrEOF) =
       Some ([ReadGives TextMessage (text_bytes ''{}'') None, ReadGives TextMessage (text_bytes ''[]'') None], b)"
proof -
  have "hijack_ok browser_hijack" by (simp add: hijack_ok_def browser_hijack_def)
  then obtain c0 sub cp answer where "Upgrade (\<lambda>_. []) (\<lambda>_. None) browser_hijack browser_request None 1024 1024 = Upgraded c0 sub cp answer"
    using inspector_upgrades_iff browser_asks by blast
  then have o: "inspect_socket (\<lambda>_. []) (\<lambda>_. None) [] browser_hijack browser_request [''{}'', ''[]''] =
      SocketOpen answer (stream [''{}'', ''[]''] c0)"
    by (simp add: inspect_socket_def authorized_def del: stream.simps)
  have "hj_net browser_hijack = []" "list_all (\<lambda>m. int (length m) < 2 ^ 63) [''{}'', ''[]'']"
    by (simp_all add: browser_hijack_def)
  from inspect_stream [OF o this, of default_handlers "\<lambda>_ _. 0" 0 "\<lambda>_. 0" "[]" ErrEOF] obtain c' b where
      "stream [''{}'', ''[]''] c0 = Some c'"
      "receive_all default_handlers (\<lambda>_ _. 0) (length [''{}'', ''[]'']) (newConn False 0 (\<lambda>_. 0) [] (wc_sent c') ErrEOF) =
        Some (map (\<lambda>m. ReadGives TextMessage (text_bytes m) None) [''{}'', ''[]''], b)"
    by blast
  then show ?thesis using o by (simp add: numeral_2_eq_2 del: receive_all.simps stream.simps)
qed

end
