(* ===== verification/Spec2Isabelle.thy ===== *)
theory Spec2Isabelle
  imports Ring Shutdown Broadcast Lru_Cache Hosts Messages Registry Sessions Metrics Util Tunnel
    Certs Server_Http Control_Shutdown Control Server_Main Public_Listeners Go_Text Client_Cli Client_Config Config_Roundtrip Config_Load
    Logger Msg_Codec Conn Client_Model Client_Session Client_Controller Client_Main
    Admin_Config Admin_Domains Admin_Certs Admin_Auth Admin_Output Admin_Checks Admin_Files Admin_App Admin_Guard Admin_Texts Inspect Ws_Mask Ws_Write Ws_Read Ws_Session
    Ws_Roundtrip Ws_Bounds Ws_Server Ws_Inspect
begin

text \<open>
  ngrok (\<open>src/ngrok/\<close>, in Go) is a reverse proxy. The client (\<open>client/\<close>) opens a control connection
  over TLS to the server (\<open>server/\<close>) and asks for tunnels; the server registers a public URL for each
  protocol of a tunnel. A public connection is matched with a tunnel by its host name or its port, the
  server asks the client for a proxy connection over the control connection, and joins the two; the
  client joins the proxy connection with the local service and lets the user inspect and replay the
  requests. A third program (\<open>admin/\<close>) is a panel that configures and starts the server on its machine.

  \<^bold>\<open>The theories, in the order of their imports.\<close>

  \<^item> \<open>Go_Prelude\<close>, \<open>Go_Text\<close>, \<open>Go_Strings\<close>: what the sources use of the standard library of Go (packages
    strings, strconv, net, bufio, path, base64), results that may be errors (\<open>result\<close>), and runs of a
    step function with the locale \<open>machine_invariant\<close> that lifts a one-step invariant to runs. A Go
    string is a \<open>string\<close>, that is a list of bytes.
  \<^item> \<open>Ring\<close>, \<open>Shutdown\<close>, \<open>Broadcast\<close>, \<open>Util\<close>: \<open>util/ring.go\<close>, \<open>shutdown.go\<close>, \<open>broadcast.go\<close>, \<open>id.go\<close>,
    \<open>errors.go\<close> and \<open>version/version.go\<close>.
  \<^item> \<open>Lru_Cache\<close>: \<open>cache/lru.go\<close> with its sizes as 64-bit words; \<open>Registry\<close> and \<open>Sessions\<close>: the two
    registries of \<open>server/registry.go\<close> with their affinity cache, and which control answers for a client.
  \<^item> \<open>Hosts\<close>, \<open>Certs\<close>: host names, base domains and the reloaded certificates (\<open>server/tunnel.go\<close>,
    \<open>main.go\<close>, \<open>tls.go\<close>).
  \<^item> \<open>Messages\<close>, \<open>Msg_Codec\<close>: \<open>msg/msg.go\<close>, \<open>conn.go\<close>, \<open>pack.go\<close>; \<open>Metrics\<close>: \<open>metrics/metrics.go\<close>,
    \<open>server/metrics.go\<close>; \<open>Logger\<close>, \<open>Conn\<close>: \<open>log/logger.go\<close>, \<open>conn/conn.go\<close>, \<open>conn/tee.go\<close>.
  \<^item> \<open>Tunnel\<close>, \<open>Control\<close>, \<open>Control_Shutdown\<close>, \<open>Server_Http\<close>, \<open>Server_Main\<close>: the server, \<open>server/tunnel.go\<close>,
    \<open>control.go\<close>, \<open>http.go\<close>, \<open>main.go\<close>, \<open>cli.go\<close>; \<open>Public_Listeners\<close>: its accept loops, whose handlers
    share the slots for connections.
  \<^item> \<open>Client_Cli\<close>, \<open>Client_Config\<close>, \<open>Config_Roundtrip\<close>, \<open>Config_Load\<close>: the command line and the
    configuration file of the client (\<open>client/cli.go\<close>, \<open>config.go\<close>); \<open>Client_Model\<close>, \<open>Client_Session\<close>,
    \<open>Client_Controller\<close>: its sessions, heartbeat and proxy connections (\<open>client/model.go\<close>, \<open>metrics.go\<close>,
    \<open>tls.go\<close>, \<open>mvc/state.go\<close>) and its controller (\<open>controller.go\<close>);
    \<open>Client_Main\<close>: the client from its command line to a running controller (\<open>client/main.go\<close>).
  \<^item> \<open>Inspect\<close>: recording and replaying requests (\<open>proto/http.go\<close>, \<open>tcp.go\<close>, \<open>client/views/web/\<close>,
    \<open>client/views/term/view.go\<close>).
  \<^item> \<open>Ws_Mask\<close>, \<open>Ws_Write\<close>, \<open>Ws_Read\<close>, \<open>Ws_Server\<close>: web sockets as the inspector uses them
    (\<open>github.com/gorilla/websocket/mask.go\<close>, \<open>mask_safe.go\<close>, \<open>conn.go\<close>, \<open>util.go\<close>, \<open>server.go\<close>), with what they
    guarantee in \<open>Ws_Session\<close>, \<open>Ws_Roundtrip\<close> and \<open>Ws_Bounds\<close>; \<open>Ws_Inspect\<close>: the socket of the inspector.
  \<^item> \<open>Admin_Config\<close>, \<open>Admin_Domains\<close>, \<open>Admin_Certs\<close>, \<open>Admin_Auth\<close>, \<open>Admin_Output\<close>, \<open>Admin_Checks\<close>,
    \<open>Admin_Files\<close>, \<open>Admin_App\<close>, \<open>Admin_Guard\<close>, \<open>Admin_Texts\<close>: \<open>admin/main.go\<close> and \<open>admin/i18n.go\<close>, from the settings file and the domains to
    the account and its sessions, the generated configurations, the checks, the files and programs
    touched, the handlers of all pages, what the panel guarantees as a whole, and its texts.

  \<^bold>\<open>How the state of the code is represented.\<close> A struct is a record with the fields that are used, a
  pointer that is shared (a control, a tunnel, a transaction) is a number, a map is a partial function,
  an error is the left part of a sum or \<open>Some\<close> of an optional error. What the code gets from outside
  (random numbers, the clock, files, programs, the network, the parsers of the standard library) is an
  argument. Goroutines that are interleaved are a record with the state of each of them and a step function
  over events, or a step relation; an event that is not enabled changes nothing, so that a statement over
  all lists of events is one over all interleavings of these steps. This is so, among others, for the goroutines of a
  control (\<open>Control_Shutdown\<close>), the stoppers of the controls (\<open>Sessions\<close>), the accept loops
  (\<open>Public_Listeners\<close>), the client's controller, and the requests of the panel that touch the account and its sessions
  (\<open>Admin_Auth\<close>). Elsewhere a call runs from its beginning to its end: the operations of the two registries, which hold a lock,
  and the other handlers of the panel, of which two that write the same file at the same time are not
  modelled. A panic is \<open>None\<close> or a constructor of its own.

  \<^bold>\<open>What the lemmas show.\<close> For every component an invariant that its operations keep, and what each
  operation does on all its branches. Interfaces are locales, interpreted on the definitions of the
  component that provides them: \<open>bounded_cache\<close> is what the registries need of their cache,
  \<open>machine_invariant\<close> and \<open>relation_invariant\<close> lift invariants of one step to runs of a component. Above them stand the properties of the whole paths:
  messages over web sockets arrive as they were sent;
  a session of a client leaves no URL behind and every request for a tunnel is answered; a public request
  reaches a tunnel exactly if its host is registered; a control needs the right token; the client routes
  only to configured addresses; configurations, settings and messages are read back as they were
  written; nobody without a session makes the panel act. Some theorems state what goes wrong, and then the
  manifest has a finding for it.

  \<^bold>\<open>Bounds and fuel.\<close> Numbers that can wrap are words (\<open>64 word\<close> sizes of the cache, \<open>32 word\<close> random
  numbers, \<open>16 word\<close> ports, the counters of the metrics); the others are \<open>int\<close> or \<open>nat\<close>. No recursive
  definition has fuel: loops recur on the list they go through, or have a measure (the text that is left
  for the parsers, the number for the decimal digits), or count what the code counts: twenty tries for a
  proxy connection, five for a random URL. The loops over frames and over the buffer of a web socket
  are partial functions, with \<open>None\<close> for a loop that does not end, and it is proved that they end. Loops of goroutines that never end are step functions over
  lists of events of any length.

  \<^bold>\<open>Not modelled.\<close>
  \<^item> \<open>admin/templates.go\<close>: HTML and CSS as constants, rendered by the standard library.
  \<^item> \<open>client/assets\<close>, \<open>server/assets\<close>: embedded files. \<open>main/\<close>, \<open>client/update_debug.go\<close>:
    entry points that only call what is modelled, and an empty function.
  \<^item> \<open>client/mvc/\<close> except \<open>state.go\<close>, \<open>proto/interface.go\<close>: Go interfaces without bodies.
  \<^item> the rendering of pages, the listeners of package http and TLS handshakes: input and output by the
    standard library.
  \<^item> of \<open>github.com/gorilla/websocket\<close>: the client and its proxies, compression, prepared messages, pools of
    buffers, \<open>ReadFrom\<close> and the helpers for JSON and joined messages, none of which the program calls.
  \<^item> \<open>github.com/inconshreveable/mousetrap\<close>: asks Windows for the parent process.
  \<^item> test files.
\<close>

end
